(* ===== verification/Py_Prelude.thy ===== *)
theory Py_Prelude
  imports Main "HOL-Library.AList"
begin

section \<open>Shared model of Python values, errors and dictionaries\<close>

text \<open>
  This theory holds what every component of the development uses: the exception types as
  values, results as a sum, Python dictionaries as insertion-ordered association lists, and
  the list and string operations of the standard library that the sources call.
  Only the type of an exception is modelled, never its message text.
\<close>

named_theorems dict_simps \<open>lookup in updated dictionaries\<close>
named_theorems result_simps \<open>computing with results\<close>

subsection \<open>Errors and results\<close>

datatype py_error =
    KeyError | IndexError | TypeError | ValueError | AttributeError | NameError
  | RuntimeError | OSError | AssertionError | EOFError | DecodeError | ZmqError
  | OverflowError | ZeroDivisionError | NotImplementedError | RpcError | ParseError | QueueFull

type_synonym 'a result = "py_error + 'a"

text \<open>Sequencing: the exception of the first step leaves the function.\<close>

fun bind_result :: "'a result \<Rightarrow> ('a \<Rightarrow> 'b result) \<Rightarrow> 'b result" where
  "bind_result (Inl e) f = Inl e"
| "bind_result (Inr x) f = f x"

lemma bind_result_Inr_iff [result_simps]:
  "bind_result r f = Inr y \<longleftrightarrow> (\<exists>x. r = Inr x \<and> f x = Inr y)"
  by (cases r) auto

lemma bind_result_Inl_iff [result_simps]:
  "bind_result r f = Inl e \<longleftrightarrow> r = Inl e \<or> (\<exists>x. r = Inr x \<and> f x = Inl e)"
  by (cases r) auto

lemma bind_result_cong [fundef_cong]:
  assumes "r = r'" and "\<And>x. r' = Inr x \<Longrightarrow> f x = g x"
  shows "bind_result r f = bind_result r' g"
  using assms by (cases r') auto

lemma bind_result_assoc [result_simps]:
  "bind_result (bind_result r f) g = bind_result r (\<lambda>x. bind_result (f x) g)"
  by (cases r) auto

text \<open>A list comprehension whose element expression may raise.\<close>

fun map_result :: "('a \<Rightarrow> 'b result) \<Rightarrow> 'a list \<Rightarrow> 'b list result" where
  "map_result f [] = Inr []"
| "map_result f (x # xs) = bind_result (f x) (\<lambda>y. bind_result (map_result f xs) (\<lambda>ys. Inr (y # ys)))"

lemma map_result_cong [fundef_cong]:
  assumes "xs = ys" and "\<And>x. x \<in> set ys \<Longrightarrow> f x = g x"
  shows "map_result f xs = map_result g ys"
proof -
  have "map_result f ys = map_result g ys"
    using assms(2) by (induction ys) auto
  with assms(1) show ?thesis by simp
qed

lemma map_result_Inr:
  "(\<And>x. x \<in> set xs \<Longrightarrow> f x = Inr (g x)) \<Longrightarrow> map_result f xs = Inr (map g xs)"
  by (induction xs) auto

lemma map_result_Inr_length:
  "map_result f xs = Inr ys \<Longrightarrow> length ys = length xs"
  by (induction xs arbitrary: ys) (auto simp: result_simps)

lemma map_result_Inr_nth:
  "map_result f xs = Inr ys \<Longrightarrow> i < length xs \<Longrightarrow> f (xs ! i) = Inr (ys ! i)"
proof (induction xs arbitrary: ys i)
  case Nil
  then show ?case by simp
next
  case (Cons x xs)
  then show ?case by (cases i) (auto simp: result_simps)
qed

subsection \<open>Dictionaries\<close>

text \<open>
  A Python dictionary iterates in insertion order; overwriting a key keeps its place, a new
  key goes to the end. \<^const>\<open>AList.update\<close> does exactly this.
\<close>

type_synonym ('k, 'v) dict = "('k \<times> 'v) list"

abbreviation dict_get :: "('k, 'v) dict \<Rightarrow> 'k \<Rightarrow> 'v option" where
  "dict_get \<equiv> map_of"

abbreviation dict_set :: "'k \<Rightarrow> 'v \<Rightarrow> ('k, 'v) dict \<Rightarrow> ('k, 'v) dict" where
  "dict_set \<equiv> AList.update"

abbreviation dict_del :: "'k \<Rightarrow> ('k, 'v) dict \<Rightarrow> ('k, 'v) dict" where
  "dict_del \<equiv> AList.delete"

definition dict_keys :: "('k, 'v) dict \<Rightarrow> 'k list" where
  "dict_keys d = map fst d"

definition dict_wf :: "('k, 'v) dict \<Rightarrow> bool" where
  "dict_wf d \<longleftrightarrow> distinct (map fst d)"

text \<open>\<open>d.get(k, default)\<close> and \<open>d.setdefault(k, []).append(x)\<close>.\<close>

definition dict_get_default :: "('k, 'v) dict \<Rightarrow> 'k \<Rightarrow> 'v \<Rightarrow> 'v" where
  "dict_get_default d k v = (case dict_get d k of None \<Rightarrow> v | Some w \<Rightarrow> w)"

definition setdefault_append :: "'k \<Rightarrow> 'v \<Rightarrow> ('k, 'v list) dict \<Rightarrow> ('k, 'v list) dict" where
  "setdefault_append k x d = dict_set k (dict_get_default d k [] @ [x]) d"

lemma dict_get_set [dict_simps, simp]:
  "dict_get (dict_set k v d) j = (if j = k then Some v else dict_get d j)"
  by (simp add: update_conv)

lemma dict_get_del [dict_simps, simp]:
  "dict_get (dict_del k d) j = (if j = k then None else dict_get d j)"
  by (auto simp: delete_conv)

lemma dict_wf_Nil [simp]: "dict_wf []"
  by (simp add: dict_wf_def)

lemma dict_wf_set [simp, intro]: "dict_wf d \<Longrightarrow> dict_wf (dict_set k v d)"
  by (simp add: dict_wf_def distinct_update)

lemma dict_wf_del [simp, intro]: "dict_wf d \<Longrightarrow> dict_wf (dict_del k d)"
  by (simp add: dict_wf_def distinct_delete)

lemma dict_wf_Cons [simp]:
  "dict_wf ((k, v) # d) \<longleftrightarrow> dict_get d k = None \<and> dict_wf d"
  by (auto simp: dict_wf_def map_of_eq_None_iff)

lemma dict_get_in_set: "dict_get d k = Some v \<Longrightarrow> (k, v) \<in> set d"
  by (rule map_of_SomeD)

lemma dict_get_wf: "dict_wf d \<Longrightarrow> (k, v) \<in> set d \<Longrightarrow> dict_get d k = Some v"
  by (simp add: dict_wf_def)

lemma dict_keys_get: "k \<in> set (dict_keys d) \<longleftrightarrow> dict_get d k \<noteq> None"
  by (auto simp: dict_keys_def map_of_eq_None_iff)

lemma dict_get_default_simps [dict_simps]:
  "dict_get_default (dict_set k v d) j w = (if j = k then v else dict_get_default d j w)"
  "dict_get_default (dict_del k d) j w = (if j = k then w else dict_get_default d j w)"
  by (auto simp: dict_get_default_def)

lemma dict_get_default_Nil [simp]: "dict_get_default [] k w = w"
  by (simp add: dict_get_default_def)

lemma setdefault_append_get [dict_simps]:
  "dict_get (setdefault_append k x d) j =
     (if j = k then Some (dict_get_default d k [] @ [x]) else dict_get d j)"
  by (simp add: setdefault_append_def)

lemma setdefault_append_get_default [dict_simps]:
  "dict_get_default (setdefault_append k x d) j [] =
     (if j = k then dict_get_default d k [] @ [x] else dict_get_default d j [])"
  by (simp add: setdefault_append_def dict_simps)

lemma setdefault_append_wf [simp, intro]: "dict_wf d \<Longrightarrow> dict_wf (setdefault_append k x d)"
  by (simp add: setdefault_append_def)

text \<open>The dictionary interface its clients rely on, and the facts that follow from it.\<close>

locale dictionary =
  fixes empty :: "'d"
    and lookup :: "'d \<Rightarrow> 'k \<Rightarrow> 'v option"
    and insert :: "'k \<Rightarrow> 'v \<Rightarrow> 'd \<Rightarrow> 'd"
    and remove :: "'k \<Rightarrow> 'd \<Rightarrow> 'd"
    and wf :: "'d \<Rightarrow> bool"
  assumes lookup_empty: "lookup empty k = None"
    and lookup_insert: "lookup (insert k v d) j = (if j = k then Some v else lookup d j)"
    and lookup_remove: "lookup (remove k d) j = (if j = k then None else lookup d j)"
    and wf_empty: "wf empty"
    and wf_insert: "wf d \<Longrightarrow> wf (insert k v d)"
    and wf_remove: "wf d \<Longrightarrow> wf (remove k d)"
begin

lemma lookup_fold_insert_other:
  "k \<notin> fst ` set kvs \<Longrightarrow> lookup (fold (\<lambda>(k, v). insert k v) kvs d) k = lookup d k"
  by (induction kvs arbitrary: d) (auto simp: lookup_insert)

lemma lookup_fold_insert:
  "distinct (map fst kvs) \<Longrightarrow>
   lookup (fold (\<lambda>(k, v). insert k v) kvs d) k =
     (case map_of kvs k of None \<Rightarrow> lookup d k | Some v \<Rightarrow> Some v)"
proof (induction kvs arbitrary: d)
  case Nil
  then show ?case by simp
next
  case (Cons kv kvs)
  obtain j v where kv: "kv = (j, v)" by (cases kv)
  with Cons.prems have "j \<notin> fst ` set kvs" by simp
  then have "map_of kvs j = None" by (simp add: map_of_eq_None_iff)
  with Cons kv show ?case
    by (cases "k = j") (simp_all add: lookup_insert cong: option.case_cong)
qed

lemma wf_fold_insert: "wf d \<Longrightarrow> wf (fold (\<lambda>(k, v). insert k v) kvs d)"
  by (induction kvs arbitrary: d) (auto intro: wf_insert)

lemma lookup_fold_remove:
  "lookup (fold remove ks d) k = (if k \<in> set ks then None else lookup d k)"
  by (induction ks arbitrary: d) (auto simp: lookup_remove)

lemma wf_fold_remove: "wf d \<Longrightarrow> wf (fold remove ks d)"
  by (induction ks arbitrary: d) (auto intro: wf_remove)

end

interpretation pydict: dictionary "[]" "map_of" "AList.update" "AList.delete" dict_wf
  by unfold_locales auto

subsection \<open>Simulation of an abstract specification\<close>

text \<open>
  A component whose steps keep an invariant and agree, step by step, with an abstract
  specification: then every sequence of steps does.
\<close>

locale simulation =
  fixes step :: "'s \<Rightarrow> 'm \<Rightarrow> 's"
    and spec_step :: "'a \<Rightarrow> 'm \<Rightarrow> 'a"
    and abs :: "'s \<Rightarrow> 'a"
    and inv :: "'s \<Rightarrow> bool"
    and allowed :: "'m \<Rightarrow> bool"
  assumes step_inv: "inv s \<Longrightarrow> allowed m \<Longrightarrow> inv (step s m)"
    and step_abs: "inv s \<Longrightarrow> allowed m \<Longrightarrow> abs (step s m) = spec_step (abs s) m"
begin

lemma run_inv: "inv s \<Longrightarrow> \<forall>m \<in> set ms. allowed m \<Longrightarrow> inv (foldl step s ms)"
  by (induction ms arbitrary: s) (auto intro: step_inv)

lemma run_abs:
  "inv s \<Longrightarrow> \<forall>m \<in> set ms. allowed m \<Longrightarrow> abs (foldl step s ms) = foldl spec_step (abs s) ms"
  by (induction ms arbitrary: s) (simp_all add: step_abs step_inv)

end

subsection \<open>Sequences\<close>

text \<open>\<open>xs[i]\<close> on a Python list: negative indices count from the end.\<close>

definition list_index :: "'a list \<Rightarrow> int \<Rightarrow> 'a result" where
  "list_index xs i =
     (if 0 \<le> i \<and> nat i < length xs then Inr (xs ! nat i)
      else if i < 0 \<and> nat (- i) \<le> length xs then Inr (xs ! (length xs - nat (- i)))
      else Inl IndexError)"

lemma list_index_ok: "0 \<le> i \<Longrightarrow> i < int (length xs) \<Longrightarrow> list_index xs i = Inr (xs ! nat i)"
  by (simp add: list_index_def nat_less_iff)

text \<open>\<open>list.remove(x)\<close> raises \<open>ValueError\<close> when \<open>x\<close> is absent.\<close>

definition list_remove :: "'a \<Rightarrow> 'a list \<Rightarrow> 'a list result" where
  "list_remove x xs = (if x \<in> set xs then Inr (remove1 x xs) else Inl ValueError)"

subsection \<open>Strings\<close>

text \<open>
  Strings are lists of 8-bit characters; the sources' patterns are used on ASCII text.
  \<open>s.split(d)\<close> for a one-character separator and \<open>d.join(parts)\<close>.
\<close>

fun split_on :: "'a \<Rightarrow> 'a list \<Rightarrow> 'a list list" where
  "split_on d [] = [[]]"
| "split_on d (c # cs) =
     (if c = d then [] # split_on d cs
      else (case split_on d cs of [] \<Rightarrow> [[c]] | p # ps \<Rightarrow> (c # p) # ps))"

fun join_with :: "'a list \<Rightarrow> 'a list list \<Rightarrow> 'a list" where
  "join_with d [] = []"
| "join_with d [p] = p"
| "join_with d (p # ps) = p @ d @ join_with d ps"

lemma split_on_nonempty [simp]: "split_on d cs \<noteq> []"
  by (induction cs) (auto split: list.splits)

lemma split_on_no_sep: "p \<in> set (split_on d cs) \<Longrightarrow> d \<notin> set p"
proof (induction cs arbitrary: p)
  case Nil
  then show ?case by simp
next
  case (Cons c cs)
  then show ?case
    by (cases "split_on d cs") (auto split: if_splits)
qed

lemma join_with_Cons: "ps \<noteq> [] \<Longrightarrow> join_with d (p # ps) = p @ d @ join_with d ps"
  by (cases ps) auto

lemma join_split_on: "join_with [d] (split_on d cs) = cs"
proof (induction cs)
  case Nil
  then show ?case by simp
next
  case (Cons c cs)
  obtain p ps where s: "split_on d cs = p # ps" by (cases "split_on d cs") auto
  with Cons have "join_with [d] (p # ps) = cs" by simp
  with s show ?case by (cases ps) auto
qed

lemma split_on_id: "d \<notin> set cs \<Longrightarrow> split_on d cs = [cs]"
  by (induction cs) auto

lemma split_on_append: "d \<notin> set p \<Longrightarrow> split_on d (p @ d # cs) = p # split_on d cs"
  by (induction p) auto

definition is_digit :: "char \<Rightarrow> bool" where
  "is_digit c \<longleftrightarrow> 48 \<le> (of_char c :: nat) \<and> (of_char c :: nat) \<le> 57"

definition is_alpha :: "char \<Rightarrow> bool" where
  "is_alpha c \<longleftrightarrow> (65 \<le> (of_char c :: nat) \<and> (of_char c :: nat) \<le> 90)
      \<or> (97 \<le> (of_char c :: nat) \<and> (of_char c :: nat) \<le> 122)"

text \<open>The class \<open>\w\<close> of Python's \<open>re\<close> on ASCII.\<close>

definition is_word :: "char \<Rightarrow> bool" where
  "is_word c \<longleftrightarrow> is_digit c \<or> is_alpha c \<or> c = CHR ''_''"

text \<open>The class \<open>\s\<close>, and \<open>str.isspace\<close>, on ASCII.\<close>

definition is_space :: "char \<Rightarrow> bool" where
  "is_space c \<longleftrightarrow> (9 \<le> (of_char c :: nat) \<and> (of_char c :: nat) \<le> 13)
      \<or> (28 \<le> (of_char c :: nat) \<and> (of_char c :: nat) \<le> 32)"

definition digit_val :: "char \<Rightarrow> nat" where
  "digit_val c = of_char c - 48"

fun nat_of_digits :: "nat \<Rightarrow> string \<Rightarrow> nat" where
  "nat_of_digits n [] = n"
| "nat_of_digits n (c # cs) = nat_of_digits (10 * n + digit_val c) cs"

definition digit_char :: "nat \<Rightarrow> char" where
  "digit_char d = char_of (48 + d)"

fun digits_of_nat :: "nat \<Rightarrow> string" where
  "digits_of_nat n = (if n < 10 then [digit_char n] else digits_of_nat (n div 10) @ [digit_char (n mod 10)])"

declare digits_of_nat.simps [simp del]

lemma digit_char_props: "d < 10 \<Longrightarrow> is_digit (digit_char d) \<and> digit_val (digit_char d) = d"
  by (simp add: is_digit_def digit_val_def digit_char_def)

lemma digits_of_nat_digits: "c \<in> set (digits_of_nat n) \<Longrightarrow> is_digit c"
proof (induction n rule: digits_of_nat.induct)
  case (1 n)
  show ?case
  proof (cases "n < 10")
    case True
    with "1.prems" have "c = digit_char n" by (subst (asm) digits_of_nat.simps) simp
    with True show ?thesis by (simp add: digit_char_props)
  next
    case False
    with "1.prems" have "c \<in> set (digits_of_nat (n div 10)) \<or> c = digit_char (n mod 10)"
      by (subst (asm) digits_of_nat.simps) auto
    with False "1.IH" show ?thesis by (auto simp: digit_char_props)
  qed
qed

lemma digits_of_nat_nonempty [simp]: "digits_of_nat n \<noteq> []"
  by (subst digits_of_nat.simps) simp

lemma nat_of_digits_append: "nat_of_digits a (xs @ ys) = nat_of_digits (nat_of_digits a xs) ys"
  by (induction xs arbitrary: a) auto

lemma nat_of_digits_of_nat: "nat_of_digits 0 (digits_of_nat n) = n"
proof (induction n rule: digits_of_nat.induct)
  case (1 n)
  show ?case
  proof (cases "n < 10")
    case True
    then show ?thesis by (subst digits_of_nat.simps) (simp add: digit_char_props)
  next
    case False
    with "1.IH" show ?thesis
      by (subst digits_of_nat.simps) (simp add: digit_char_props nat_of_digits_append)
  qed
qed

end
