(* ===== verification/Paths.thy ===== *)
theory Paths
  imports Py_Prelude
begin

section \<open>Application file paths (\<open>core/paths.py\<close>)\<close>

text \<open>
  Paths are \<open>pathlib\<close> paths on a POSIX system: an anchor flag and the parts after it
  (members of zip archives, \<open>zipfile.Path\<close>, are not modelled). The operating system, the
  environment and the values that the build writes to \<open>buildinfo\<close> are the record
  \<open>env\<close>; the module's cache \<open>_settingspaths\<close> is threaded through the functions
  that read and fill it.
\<close>

subsection \<open>pathlib\<close>

datatype fpath = FPath (is_absolute: bool) (path_parts: "string list")

text \<open>\<open>pathlib.Path(s)\<close>: empty and \<open>.\<close> components disappear.\<close>

definition parse_path :: "string \<Rightarrow> fpath" where
  "parse_path s =
     FPath (s \<noteq> [] \<and> hd s = CHR ''/'')
       (filter (\<lambda>p. p \<noteq> [] \<and> p \<noteq> ''.'') (split_on CHR ''/'' s))"

definition path_join :: "fpath \<Rightarrow> fpath \<Rightarrow> fpath" where
  "path_join a b = (if is_absolute b then b else FPath (is_absolute a) (path_parts a @ path_parts b))"

definition path_parent :: "fpath \<Rightarrow> fpath" where
  "path_parent p = FPath (is_absolute p) (butlast (path_parts p))"

definition path_name :: "fpath \<Rightarrow> string" where
  "path_name p = (if path_parts p = [] then [] else last (path_parts p))"

text \<open>The last dot of a name starts its suffix, unless it is its first or last character.\<close>

definition after_last_dot :: "string \<Rightarrow> string" where
  "after_last_dot n = rev (takeWhile (\<lambda>c. c \<noteq> CHR ''.'') (rev n))"

definition name_suffix :: "string \<Rightarrow> string" where
  "name_suffix n =
     (let ext = after_last_dot n in
      if CHR ''.'' \<in> set n \<and> ext \<noteq> [] \<and> length ext + 1 < length n then CHR ''.'' # ext else [])"

definition path_suffix :: "fpath \<Rightarrow> string" where
  "path_suffix p = name_suffix (path_name p)"

definition with_suffix :: "string \<Rightarrow> fpath \<Rightarrow> fpath result" where
  "with_suffix suf p =
     (if path_name p = [] then Inl ValueError
      else (let n = path_name p; stem = take (length n - length (name_suffix n)) n
            in Inr (FPath (is_absolute p) (butlast (path_parts p) @ [stem @ suf]))))"

lemma path_parent_root: "path_parts p = [] \<Longrightarrow> path_parent p = p"
  by (cases p) (simp add: path_parent_def)

lemma path_join_relative: "\<not> is_absolute b \<Longrightarrow> is_absolute (path_join a b) = is_absolute a"
  by (simp add: path_join_def)

lemma name_suffix_shorter: "n \<noteq> [] \<Longrightarrow> length (name_suffix n) < length n"
  by (auto simp: name_suffix_def Let_def)

lemma name_suffix_append_json: "stem \<noteq> [] \<Longrightarrow> name_suffix (stem @ ''.json'') = ''.json''"
  by (simp add: name_suffix_def after_last_dot_def Let_def)

lemma with_suffix_json:
  assumes "with_suffix ''.json'' p = Inr q"
  shows "path_suffix q = ''.json''" and "path_parts q \<noteq> []"
proof -
  from assms have n: "path_name p \<noteq> []" by (auto simp: with_suffix_def)
  with name_suffix_shorter[OF this]
  have "take (length (path_name p) - length (name_suffix (path_name p))) (path_name p) \<noteq> []" by simp
  with assms n show "path_suffix q = ''.json''"
    by (auto simp: with_suffix_def path_suffix_def path_name_def Let_def name_suffix_append_json)
  from assms n show "path_parts q \<noteq> []" by (auto simp: with_suffix_def Let_def)
qed

lemma with_suffix_join:
  assumes "\<not> is_absolute f" "with_suffix s f = Inr q"
  shows "with_suffix s (path_join folder f) = Inr (path_join folder q)"
proof -
  from assms(2) have n: "path_name f \<noteq> []" by (auto simp: with_suffix_def)
  then have "path_parts f \<noteq> []" by (auto simp: path_name_def)
  with assms n show ?thesis
    by (auto simp: with_suffix_def path_join_def path_name_def Let_def butlast_append)
qed

subsection \<open>The environment\<close>

record env =
  argv0 :: string
  cwd :: fpath
  getenv :: "string \<Rightarrow> string option"
  geteuid :: "int option"
  package_files :: "string \<Rightarrow> fpath"
  own_package :: string
  path_exists :: "fpath \<Rightarrow> bool"
  path_is_dir :: "fpath \<Rightarrow> bool"
  settings_dir :: string
  local_settings_dir :: string
  shared_data_dir_name :: string
  install_root_name :: string
  organization :: string

datatype path_input = InStr string | InPath fpath

fun as_path :: "path_input \<Rightarrow> fpath" where
  "as_path (InPath p) = p"
| "as_path (InStr s) = parse_path s"

definition combine_paths :: "fpath \<Rightarrow> path_input \<Rightarrow> fpath" where
  "combine_paths first second = path_join first (as_path second)"

definition is_super_user :: "env \<Rightarrow> bool" where
  "is_super_user e = (case geteuid e of None \<Rightarrow> False | Some uid \<Rightarrow> uid = 0)"

definition program_name :: "env \<Rightarrow> string" where
  "program_name e =
     (let base = last (split_on CHR ''/'' (argv0 e)); ext = after_last_dot base;
          stem = take (length base - length ext - 1) base
      in if CHR ''.'' \<in> set base \<and> (\<exists>c \<in> set stem. c \<noteq> CHR ''.'') then stem else base)"

definition program_path :: "env \<Rightarrow> fpath" where
  "program_path e = path_join (cwd e) (parse_path (argv0 e))"

subsection \<open>Searching upwards\<close>

text \<open>
  The loop of \<open>locate_dominating_parent\<close>: it stops when the target exists below
  \<open>base\<close>, or when \<open>base\<close> is its own parent.
\<close>

function dominating_loop :: "env \<Rightarrow> fpath \<Rightarrow> fpath option \<Rightarrow> fpath \<Rightarrow> fpath option" where
  "dominating_loop e target previous base =
     (if path_exists e (path_join base target) then Some base
      else if previous = Some base then None
      else dominating_loop e target (Some base) (path_parent base))"
  by pat_completeness auto
termination
proof (relation "measure (\<lambda>(e, target, previous, base).
    2 * length (path_parts base) + (if previous = Some base then 0 else 1))", goal_cases)
  case 1
  show ?case by simp
next
  case (2 e target previous base)
  then show ?case
    by (cases base; cases "path_parts base") (auto simp: path_parent_def)
qed

declare dominating_loop.simps [simp del]

definition locate_dominating_parent :: "env \<Rightarrow> path_input \<Rightarrow> path_input \<Rightarrow> fpath option" where
  "locate_dominating_parent e target start = dominating_loop e (as_path target) None (as_path start)"

text \<open>The ancestors of a path, nearest first, itself included.\<close>

fun ancestors_of_parts :: "string list \<Rightarrow> string list list" where
  "ancestors_of_parts ps = (if ps = [] then [[]] else ps # ancestors_of_parts (butlast ps))"

declare ancestors_of_parts.simps [simp del]

definition ancestors :: "fpath \<Rightarrow> fpath list" where
  "ancestors p = map (FPath (is_absolute p)) (ancestors_of_parts (path_parts p))"

lemma ancestors_root: "path_parts p = [] \<Longrightarrow> ancestors p = [p]"
  by (cases p) (simp add: ancestors_def ancestors_of_parts.simps)

lemma ancestors_step: "path_parts p \<noteq> [] \<Longrightarrow> ancestors p = p # ancestors (path_parent p)"
  using ancestors_of_parts.simps[of "path_parts p"]
  by (cases p) (simp add: ancestors_def path_parent_def)

lemma dominating_loop_find:
  "previous \<noteq> Some base \<Longrightarrow>
   dominating_loop e target previous base
     = find (\<lambda>p. path_exists e (path_join p target)) (ancestors base)"
proof (induction e target previous base rule: dominating_loop.induct)
  case (1 e target previous base)
  show ?case
  proof (cases "path_parts base = []")
    case True
    then show ?thesis
      using "1.prems" dominating_loop.simps[of e target "Some base" base]
      by (simp add: dominating_loop.simps[of e target previous base] ancestors_root path_parent_root)
  next
    case False
    then have "path_parent base \<noteq> base"
      by (metis fpath.sel(2) length_butlast path_parent_def diff_less length_greater_0_conv less_irrefl zero_less_one)
    with "1.IH" "1.prems" False show ?thesis
      by (simp add: dominating_loop.simps[of e target previous base] ancestors_step)
  qed
qed

subsection \<open>Installation folders\<close>

definition package_root :: "env \<Rightarrow> string \<Rightarrow> fpath" where
  "package_root e package = (path_parent ^^ length (split_on CHR ''.'' package)) (package_files e package)"

definition python_root :: "env \<Rightarrow> fpath" where
  "python_root e = package_root e (own_package e)"

definition package_dir :: "env \<Rightarrow> string \<Rightarrow> fpath" where
  "package_dir e package = (if package = [] \<or> package = ''.'' then python_root e else package_files e package)"

definition install_root :: "env \<Rightarrow> fpath" where
  "install_root e =
     (case locate_dominating_parent e (InStr (shared_data_dir_name e)) (InPath (python_root e)) of
        Some p \<Rightarrow> p
      | None \<Rightarrow> parse_path (install_root_name e))"

definition shared_data_dir :: "env \<Rightarrow> fpath" where
  "shared_data_dir e = combine_paths (install_root e) (InStr (shared_data_dir_name e))"

definition host_settings_dir :: "env \<Rightarrow> fpath" where
  "host_settings_dir e = combine_paths (install_root e) (InStr (local_settings_dir e))"

definition user_settings_dir :: "env \<Rightarrow> fpath option" where
  "user_settings_dir e =
     (if is_super_user e then None
      else case getenv e ''HOME'' of
        None \<Rightarrow> None
      | Some homedir \<Rightarrow>
         (if homedir = [] then None
          else (let configdir = combine_paths (parse_path homedir) (InStr ''.config'') in
            if path_is_dir e configdir then Some (combine_paths configdir (InStr (organization e)))
            else None)))"

subsection \<open>Search paths and their cache\<close>

datatype search_input = SearchStr string | SearchSeq "path_input list"

fun search_entries :: "search_input \<Rightarrow> path_input list" where
  "search_entries (SearchStr s) = map InStr (split_on CHR '':'' s)"
| "search_entries (SearchSeq ps) = ps"

definition normalized_search_path :: "env \<Rightarrow> fpath option \<Rightarrow> search_input \<Rightarrow> fpath list" where
  "normalized_search_path e base searchpath =
     (let dir = (case base of None \<Rightarrow> install_root e | Some b \<Rightarrow> b) in
      filter (path_is_dir e) (map (combine_paths dir) (search_entries searchpath)))"

type_synonym path_cache = "(string, fpath list) dict"

definition preinstalled_settings_path ::
    "env \<Rightarrow> string option \<Rightarrow> path_cache \<Rightarrow> fpath list \<times> path_cache" where
  "preinstalled_settings_path e package cache =
     (case dict_get cache ''preinstalled'' of
        Some searchpath \<Rightarrow> (searchpath, cache)
      | None \<Rightarrow>
         (let searchpath = [combine_paths (install_root e) (InStr (settings_dir e)),
                            combine_paths (python_root e) (InStr ''settings'')]
                @ (case package of None \<Rightarrow> [] | Some p \<Rightarrow> [package_dir e p])
          in (searchpath, dict_set ''preinstalled'' searchpath cache)))"

definition local_settings_path :: "env \<Rightarrow> path_cache \<Rightarrow> fpath list \<times> path_cache" where
  "local_settings_path e cache =
     (case dict_get cache ''local'' of
        Some searchpath \<Rightarrow> (searchpath, cache)
      | None \<Rightarrow>
         (let configpath = (case getenv e ''CONFIGPATH'' of None \<Rightarrow> [] | Some s \<Rightarrow> s);
              searchpath =
                (if configpath \<noteq> [] then normalized_search_path e None (SearchStr configpath)
                 else (case user_settings_dir e of None \<Rightarrow> [] | Some d \<Rightarrow> [d]) @ [host_settings_dir e])
          in (searchpath, dict_set ''local'' searchpath cache)))"

definition settings_path :: "env \<Rightarrow> string option \<Rightarrow> path_cache \<Rightarrow> fpath list \<times> path_cache" where
  "settings_path e package cache =
     (let (local, cache1) = local_settings_path e cache;
          (pre, cache2) = preinstalled_settings_path e package cache1
      in (local @ pre, cache2))"

text \<open>
  \<open>add_to_settings_path\<close> inserts into the cached list itself.
\<close>

definition add_to_settings_path ::
    "env \<Rightarrow> path_input \<Rightarrow> bool \<Rightarrow> bool \<Rightarrow> path_cache \<Rightarrow> bool \<times> path_cache" where
  "add_to_settings_path e folder prepend preinstalled cache =
     (let normfolder = combine_paths (install_root e) folder;
          key = (if preinstalled then ''preinstalled'' else ''local'') in
      if path_is_dir e normfolder then
        (let (path, cache1) = (if preinstalled then preinstalled_settings_path e None cache
                               else local_settings_path e cache) in
         if normfolder \<in> set path then (False, cache1)
         else (True, dict_set key (if prepend then normfolder # path else path @ [normfolder]) cache1))
      else (False, cache))"

subsection \<open>Properties\<close>

lemma preinstalled_cached:
  "dict_get cache ''preinstalled'' = Some sp \<Longrightarrow> preinstalled_settings_path e p cache = (sp, cache)"
  by (simp add: preinstalled_settings_path_def)

lemma local_cached:
  "dict_get cache ''local'' = Some sp \<Longrightarrow> local_settings_path e cache = (sp, cache)"
  by (simp add: local_settings_path_def)

lemma preinstalled_fills:
  "preinstalled_settings_path e p cache = (sp, cache') \<Longrightarrow> dict_get cache' ''preinstalled'' = Some sp"
  by (auto simp: preinstalled_settings_path_def Let_def split: option.splits)

lemma local_fills:
  "local_settings_path e cache = (sp, cache') \<Longrightarrow> dict_get cache' ''local'' = Some sp"
  by (auto simp: local_settings_path_def Let_def split: option.splits if_splits)

lemma preinstalled_keeps_local:
  "preinstalled_settings_path e p cache = (sp, cache') \<Longrightarrow> dict_get cache' ''local'' = dict_get cache ''local''"
  by (auto simp: preinstalled_settings_path_def Let_def split: option.splits)

lemma find_Some_split:
  "find P xs = Some x \<longleftrightarrow> (\<exists>near far. xs = near @ x # far \<and> P x \<and> filter P near = [])"
proof (induction xs)
  case (Cons y xs)
  show ?case
  proof (cases "P y")
    case True
    then show ?thesis by (auto simp: Cons_eq_append_conv)
  next
    case False
    with Cons show ?thesis by (auto simp: Cons_eq_append_conv) (metis filter.simps(2))
  qed
qed simp

text \<open>
  The folder that \<open>locate_dominating_parent\<close> returns is the nearest one: the first
  among the start path and its successive parents, up to the root, below which the target
  exists; and the loop ends for every start path.
\<close>

theorem locate_dominating_parent_nearest:
  "locate_dominating_parent e target start = Some p \<longleftrightarrow>
     (\<exists>near far. ancestors (as_path start) = near @ p # far
        \<and> path_exists e (path_join p (as_path target))
        \<and> filter (\<lambda>q. path_exists e (path_join q (as_path target))) near = [])"
  unfolding locate_dominating_parent_def by (simp add: dominating_loop_find find_Some_split)

lemma settings_path_fills:
  assumes "settings_path e p cache = (sp, cache')"
  obtains l r where "dict_get cache' ''local'' = Some l" "dict_get cache' ''preinstalled'' = Some r"
    "sp = l @ r"
proof -
  from assms obtain l c1 r where l: "local_settings_path e cache = (l, c1)"
    and r: "preinstalled_settings_path e p c1 = (r, cache')" and sp: "sp = l @ r"
    by (auto simp: settings_path_def Let_def split: prod.splits)
  have "dict_get cache' ''local'' = Some l"
    using preinstalled_keeps_local[OF r] local_fills[OF l] by simp
  moreover have "dict_get cache' ''preinstalled'' = Some r" by (rule preinstalled_fills[OF r])
  ultimately show thesis using sp that by blast
qed

definition sample_env :: env where
  "sample_env = \<lparr>argv0 = ''/usr/bin/app'', cwd = FPath True [], getenv = (\<lambda>_. None),
     geteuid = Some 0, package_files = (\<lambda>p. FPath True [''opt'', ''lib'', ''cc'', p]),
     own_package = ''cc.core'', path_exists = (\<lambda>_. False), path_is_dir = (\<lambda>_. True),
     settings_dir = ''settings'', local_settings_dir = ''/etc/cc'', shared_data_dir_name = ''share'',
     install_root_name = ''/usr'', organization = ''org''\<rparr>"

text \<open>
  The search path is fixed by the first call: whatever package is asked for later, the
  path computed for the first package is returned and the cache does not change (the folder
  of a second package is never searched).
\<close>

theorem settings_path_fixed_by_first_call:
  assumes "settings_path e p cache = (sp, cache')"
  shows "settings_path e q cache' = (sp, cache')"
proof (rule settings_path_fills[OF assms])
  fix l r
  assume "dict_get cache' ''local'' = Some l" "dict_get cache' ''preinstalled'' = Some r" "sp = l @ r"
  then show ?thesis by (simp add: settings_path_def local_cached preinstalled_cached)
qed

theorem settings_path_fixed_by_first_call_witness:
  "settings_path sample_env (Some ''b'') (snd (settings_path sample_env (Some ''a'') []))
     = settings_path sample_env (Some ''a'') []
   \<and> FPath True [''opt'', ''lib'', ''cc'', ''b''] \<notin> set (fst (settings_path sample_env (Some ''b'')
        (snd (settings_path sample_env (Some ''a'') []))))"
proof -
  have "settings_path sample_env (Some ''b'') (snd (settings_path sample_env (Some ''a'') []))
     = settings_path sample_env (Some ''a'') []"
    using settings_path_fixed_by_first_call[of sample_env "Some ''a''" "[]" _ _ "Some ''b''"]
    by (metis prod.collapse)
  moreover have "FPath True [''opt'', ''lib'', ''cc'', ''b''] \<notin> set (fst (settings_path sample_env (Some ''a'') []))"
    by code_simp
  ultimately show ?thesis by simp
qed

lemma add_to_settings_path_known:
  assumes "dict_get cache (if inst then ''preinstalled'' else ''local'') = Some path"
    and "combine_paths (install_root e) folder \<in> set path"
  shows "add_to_settings_path e folder prepend inst cache = (False, cache)"
  using assms by (auto simp: add_to_settings_path_def preinstalled_cached local_cached Let_def)

text \<open>
  Adding a folder to the search path: when \<open>add_to_settings_path\<close> returns true, the
  folder is an existing one that was not in the chosen half of the path, it is now its first
  (or last) entry, the order of the others is kept, and adding it again changes nothing.
\<close>

theorem add_to_settings_path_adds:
  assumes "add_to_settings_path e folder prepend inst cache = (True, cache')"
  shows "\<exists>path. let d = combine_paths (install_root e) folder in
     fst (if inst then preinstalled_settings_path e None cache else local_settings_path e cache) = path
     \<and> path_is_dir e d \<and> d \<notin> set path
     \<and> dict_get cache' (if inst then ''preinstalled'' else ''local'')
         = Some (if prepend then d # path else path @ [d])
     \<and> add_to_settings_path e folder again inst cache' = (False, cache')"
proof -
  let ?d = "combine_paths (install_root e) folder"
  let ?key = "if inst then ''preinstalled'' else ''local''"
  obtain path cache1 where p: "(if inst then preinstalled_settings_path e None cache
      else local_settings_path e cache) = (path, cache1)" by fastforce
  with assms have new: "path_is_dir e ?d" "?d \<notin> set path"
    and c: "cache' = dict_set ?key (if prepend then ?d # path else path @ [?d]) cache1"
    by (auto simp: add_to_settings_path_def Let_def split: if_splits)
  then have got: "dict_get cache' ?key = Some (if prepend then ?d # path else path @ [?d])" by simp
  then have "add_to_settings_path e folder again inst cache' = (False, cache')"
    by (rule add_to_settings_path_known) simp
  with p new got show ?thesis by (simp add: Let_def)
qed

theorem add_to_settings_path_adds_witness:
  "fst (add_to_settings_path sample_env (InStr ''extra'') True False []) = True
   \<and> fst (add_to_settings_path sample_env (InStr ''extra'') False False
        (snd (add_to_settings_path sample_env (InStr ''extra'') True False []))) = False"
proof -
  have t: "fst (add_to_settings_path sample_env (InStr ''extra'') True False []) = True" by code_simp
  then have "add_to_settings_path sample_env (InStr ''extra'') True False []
      = (True, snd (add_to_settings_path sample_env (InStr ''extra'') True False []))"
    by (metis prod.collapse)
  from add_to_settings_path_adds[OF this, of False] t show ?thesis by (auto simp: Let_def)
qed

end
