(* ===== verification/Py_Float.thy ===== *)
theory Py_Float
  imports Py_Prelude Complex_Main "HOL-Library.Log_Nat"
begin

section \<open>Python floats: binary64 rounding\<close>

text \<open>
  A Python \<open>float\<close> is an IEEE 754 binary64 number. Here its value is the rational it
  stands for and every arithmetic operation rounds the exact result to 53 significant bits,
  ties to even, with \<open>rnd\<close>. The exponent range is not bounded (no overflow to
  infinity, no subnormal numbers) and zero has no sign; infinities and NaN appear as values
  only where a component receives them (\<open>Py_Value\<close>).
\<close>

named_theorems float_rules \<open>facts about rounding\<close>

subsection \<open>The exponent of a rational\<close>

definition fexp :: "rat \<Rightarrow> int" where
  "fexp x =
     (let a = \<bar>x\<bar> in
      if 1 \<le> a then int (floorlog 2 (nat \<lfloor>a\<rfloor>)) - 1
      else - int (floorlog 2 (nat (\<lceil>1 / a\<rceil> - 1))))"

lemma floorlog2_bounds:
  assumes "0 < n"
  shows "2 ^ (floorlog 2 n - 1) \<le> n" "n < 2 ^ floorlog 2 n" "0 < floorlog 2 n"
  using floorlog_bounds[of n 2] assms by (auto simp: floorlog_def)

lemma power_int_nat: "0 \<le> n \<Longrightarrow> x powi n = x ^ nat n"
  by (simp add: power_int_def)

lemma fexp_bounds_ge1:
  assumes "1 \<le> \<bar>x\<bar>"
  shows "2 powi (fexp x) \<le> \<bar>x\<bar>" "\<bar>x\<bar> < 2 powi (fexp x + 1)"
proof -
  define n where "n = nat \<lfloor>\<bar>x\<bar>\<rfloor>"
  define k where "k = floorlog 2 n"
  have fl: "1 \<le> \<lfloor>\<bar>x\<bar>\<rfloor>" using assms by linarith
  then have n: "0 < n" "int n = \<lfloor>\<bar>x\<bar>\<rfloor>" by (simp_all add: n_def)
  note b = floorlog2_bounds[OF n(1), folded k_def]
  have e: "fexp x = int k - 1" using assms by (simp add: fexp_def Let_def n_def k_def)
  have "(2::int) ^ (k - 1) \<le> \<lfloor>\<bar>x\<bar>\<rfloor>" using b(1) n(2)
    by (metis of_nat_le_iff of_nat_numeral of_nat_power)
  then have "(2::rat) ^ (k - 1) \<le> \<bar>x\<bar>" by (simp add: le_floor_iff)
  moreover have "(2::rat) powi (fexp x) = 2 ^ (k - 1)"
    using b(3) e by (simp add: power_int_nat nat_diff_distrib)
  ultimately show "2 powi (fexp x) \<le> \<bar>x\<bar>" by simp
  have "\<lfloor>\<bar>x\<bar>\<rfloor> < (2::int) ^ k" using b(2) n(2)
    by (metis of_nat_less_iff of_nat_numeral of_nat_power)
  then have "\<bar>x\<bar> < (2::rat) ^ k" by (simp add: floor_less_iff)
  moreover have "(2::rat) powi (fexp x + 1) = 2 ^ k" using e by simp
  ultimately show "\<bar>x\<bar> < 2 powi (fexp x + 1)" by simp
qed

lemma fexp_bounds_lt1:
  assumes "\<bar>x\<bar> < 1" "x \<noteq> 0"
  shows "2 powi (fexp x) \<le> \<bar>x\<bar>" "\<bar>x\<bar> < 2 powi (fexp x + 1)"
proof -
  define y where "y = 1 / \<bar>x\<bar>"
  define n where "n = nat (\<lceil>y\<rceil> - 1)"
  define k where "k = floorlog 2 n"
  have a: "0 < \<bar>x\<bar>" using assms by simp
  have y: "1 < y" using assms a by (simp add: y_def)
  then have c: "2 \<le> \<lceil>y\<rceil>" by linarith
  then have n: "0 < n" "int n = \<lceil>y\<rceil> - 1" by (simp_all add: n_def)
  note b = floorlog2_bounds[OF n(1), folded k_def]
  have e: "fexp x = - int k" using assms by (simp add: fexp_def Let_def n_def k_def y_def)
  have "\<lceil>y\<rceil> - 1 < (2::int) ^ k" using b(2) n(2)
    by (metis of_nat_less_iff of_nat_numeral of_nat_power)
  then have "\<lceil>y\<rceil> \<le> (2::int) ^ k" by simp
  then have "y \<le> (2::rat) ^ k" by (simp add: ceiling_le_iff)
  then have "1 / 2 ^ k \<le> \<bar>x\<bar>" using a by (simp add: y_def field_simps)
  moreover have p: "(2::rat) powi (- int k) = 1 / 2 ^ k" by (simp add: power_int_minus inverse_eq_divide)
  ultimately show "2 powi (fexp x) \<le> \<bar>x\<bar>" using e by simp
  have "(2::int) ^ (k - 1) \<le> \<lceil>y\<rceil> - 1" using b(1) n(2)
    by (metis of_nat_le_iff of_nat_numeral of_nat_power)
  then have "(2::int) ^ (k - 1) < \<lceil>y\<rceil>" by simp
  then have "(2::rat) ^ (k - 1) < y" by (simp add: less_ceiling_iff)
  then have "\<bar>x\<bar> < 1 / 2 ^ (k - 1)" using a by (simp add: y_def field_simps)
  moreover have "(2::rat) powi (1 - int k) = 1 / 2 ^ (k - 1)"
  proof -
    have e: "1 - int k = - int (k - 1)" using b(3) by simp
    show ?thesis unfolding e power_int_minus power_int_of_nat by (simp add: inverse_eq_divide)
  qed
  ultimately show "\<bar>x\<bar> < 2 powi (fexp x + 1)" using e by (simp add: algebra_simps)
qed

lemma fexp_bounds:
  assumes "x \<noteq> 0"
  shows "2 powi (fexp x) \<le> \<bar>x\<bar>" "\<bar>x\<bar> < 2 powi (fexp x + 1)"
proof -
  have "2 powi (fexp x) \<le> \<bar>x\<bar> \<and> \<bar>x\<bar> < 2 powi (fexp x + 1)"
  proof (cases "1 \<le> \<bar>x\<bar>")
    case True
    then show ?thesis by (intro conjI fexp_bounds_ge1)
  next
    case False
    then have "\<bar>x\<bar> < 1" by (rule iffD1[OF not_le])
    with assms show ?thesis by (intro conjI fexp_bounds_lt1)
  qed
  then show "2 powi (fexp x) \<le> \<bar>x\<bar>" "\<bar>x\<bar> < 2 powi (fexp x + 1)" by blast+
qed

lemma powi2_pos [simp]: "0 < (2::rat) powi n"
  by (simp add: zero_less_power_int)

lemma powi2_mono: "m \<le> n \<Longrightarrow> (2::rat) powi m \<le> 2 powi n"
  by (rule power_int_increasing) auto

lemma powi2_less_imp: "(2::rat) powi m < 2 powi n \<Longrightarrow> m < n"
  by (meson powi2_mono not_le)

lemma powi2_add: "(2::rat) powi (m + n) = 2 powi m * 2 powi n"
  by (simp add: power_int_add)

lemma fexp_unique:
  assumes "2 powi e \<le> \<bar>x\<bar>" "\<bar>x\<bar> < 2 powi (e + 1)"
  shows "fexp x = e"
proof -
  have "0 < \<bar>x\<bar>" using assms(1) powi2_pos[of e] by (rule less_le_trans[rotated])
  then have "x \<noteq> 0" by simp
  note b = fexp_bounds[OF this]
  from assms(1) b(2) have "e < fexp x + 1" by (meson le_less_trans powi2_less_imp)
  moreover from b(1) assms(2) have "fexp x < e + 1" by (meson le_less_trans powi2_less_imp)
  ultimately show ?thesis by simp
qed

lemma fexp_mono:
  assumes "x \<noteq> 0" "\<bar>x\<bar> \<le> \<bar>y\<bar>"
  shows "fexp x \<le> fexp y"
proof -
  have "y \<noteq> 0" using assms by auto
  have "2 powi (fexp x) \<le> \<bar>y\<bar>" using fexp_bounds(1)[OF assms(1)] assms(2) by simp
  then have "(2::rat) powi (fexp x) < 2 powi (fexp y + 1)"
    using fexp_bounds(2)[OF \<open>y \<noteq> 0\<close>] by simp
  then show ?thesis using powi2_less_imp by force
qed

subsection \<open>Rounding to nearest, ties to even\<close>

definition round_half_even :: "rat \<Rightarrow> int" where
  "round_half_even x =
     (let f = \<lfloor>x\<rfloor>; d = x - of_int f in
      if d < 1 / 2 then f else if 1 / 2 < d then f + 1 else if even f then f else f + 1)"

definition rnd :: "rat \<Rightarrow> rat" where
  "rnd x = (if x = 0 then 0
            else (let s = 2 powi (fexp x - 52) in of_int (round_half_even (x / s)) * s))"

lemma round_half_even_int [simp]: "round_half_even (of_int n) = n"
  by (simp add: round_half_even_def)

lemma round_half_even_near: "\<bar>of_int (round_half_even x) - x\<bar> \<le> 1 / 2"
proof -
  have "of_int \<lfloor>x\<rfloor> \<le> x" "x < of_int \<lfloor>x\<rfloor> + 1" by linarith+
  then show ?thesis by (auto simp: round_half_even_def Let_def abs_le_iff)
qed

lemma round_half_even_eq:
  assumes "\<bar>x - of_int n\<bar> < 1 / 2"
  shows "round_half_even x = n"
proof -
  have "\<bar>of_int (round_half_even x) - (of_int n :: rat)\<bar> < 1"
    using round_half_even_near[of x] assms by linarith
  then show ?thesis by linarith
qed

lemma round_half_even_mono:
  assumes "x \<le> y"
  shows "round_half_even x \<le> round_half_even y"
proof (cases "\<lfloor>x\<rfloor> = \<lfloor>y\<rfloor>")
  case True
  with assms show ?thesis by (auto simp: round_half_even_def Let_def)
next
  case False
  then have "\<lfloor>x\<rfloor> + 1 \<le> \<lfloor>y\<rfloor>" using floor_mono[OF assms] by simp
  moreover have "round_half_even x \<le> \<lfloor>x\<rfloor> + 1" "\<lfloor>y\<rfloor> \<le> round_half_even y"
    by (auto simp: round_half_even_def Let_def)
  ultimately show ?thesis by simp
qed

lemma floor_minus_nonint: "x \<noteq> of_int \<lfloor>x\<rfloor> \<Longrightarrow> \<lfloor>- x\<rfloor> = - \<lfloor>x\<rfloor> - 1"
  by (rule floor_unique) (simp_all, linarith+)

lemma round_half_even_minus: "round_half_even (- x) = - round_half_even x"
proof (cases "x = of_int \<lfloor>x\<rfloor>")
  case True
  then obtain n where "x = of_int n" by blast
  then show ?thesis using round_half_even_int[of "- n"] by simp
next
  case False
  then have f: "\<lfloor>- x\<rfloor> = - \<lfloor>x\<rfloor> - 1" by (rule floor_minus_nonint)
  show ?thesis unfolding round_half_even_def Let_def f by (auto simp: field_simps)
qed

lemma fexp_minus [simp]: "fexp (- x) = fexp x"
  by (simp add: fexp_def)

lemma rnd_0 [simp]: "rnd 0 = 0"
  by (simp add: rnd_def)

lemma rnd_minus [simp]: "rnd (- x) = - rnd x"
  by (auto simp: rnd_def Let_def round_half_even_minus)

subsection \<open>Representable numbers\<close>

definition is_f64 :: "rat \<Rightarrow> bool" where
  "is_f64 x \<longleftrightarrow> (\<exists>m e. \<bar>m\<bar> \<le> 2 ^ 53 \<and> x = of_int m * 2 powi e)"

lemma is_f64_int: "\<bar>n\<bar> \<le> 2 ^ 53 \<Longrightarrow> is_f64 (of_int n)"
  unfolding is_f64_def by (rule exI[of _ n], rule exI[of _ 0]) simp

lemma is_f64_minus: "is_f64 x \<Longrightarrow> is_f64 (- x)"
  unfolding is_f64_def by (metis abs_minus_cancel mult_minus_left of_int_minus)

lemma rnd_exact_small:
  assumes m: "\<bar>m\<bar> < 2 ^ 53" and x: "x = of_int m * 2 powi e"
  shows "rnd x = x"
proof (cases "x = 0")
  case True
  then show ?thesis by simp
next
  case False
  define s where "s = (2::rat) powi (fexp x - 52)"
  have "\<bar>x\<bar> = of_int \<bar>m\<bar> * 2 powi e" using x by (simp add: abs_mult)
  also have "\<dots> < 2 ^ 53 * 2 powi e"
  proof -
    have "of_int \<bar>m\<bar> < (of_int (2 ^ 53) :: rat)" using m by (simp only: of_int_less_iff)
    then show ?thesis by simp
  qed
  also have "\<dots> = 2 powi (53 + e)" by (simp add: powi2_add)
  finally have "fexp x < 53 + e"
    using fexp_bounds(1)[OF False] powi2_less_imp by (meson le_less_trans)
  then have d: "0 \<le> e - (fexp x - 52)" by simp
  have "x / s = of_int m * (2 powi e / 2 powi (fexp x - 52))" by (simp add: x s_def)
  also have "(2::rat) powi e / 2 powi (fexp x - 52) = 2 powi (e - (fexp x - 52))"
    by (rule power_int_diff[symmetric]) simp
  also have "\<dots> = of_int (2 ^ nat (e - (fexp x - 52)))" using d by (simp add: power_int_nat)
  finally have xs: "x / s = of_int (m * 2 ^ nat (e - (fexp x - 52)))" by simp
  have "of_int (round_half_even (x / s)) = x / s" unfolding xs round_half_even_int ..
  moreover have "s \<noteq> 0" using powi2_pos[of "fexp x - 52"] by (simp add: s_def)
  ultimately show ?thesis using False by (simp add: rnd_def Let_def flip: s_def)
qed

lemma rnd_exact [float_rules]:
  assumes "is_f64 x"
  shows "rnd x = x"
proof -
  from assms obtain m e where m: "\<bar>m\<bar> \<le> 2 ^ 53" and x: "x = of_int m * 2 powi e"
    by (auto simp: is_f64_def)
  show ?thesis
  proof (cases "\<bar>m\<bar> = 2 ^ 53")
    case False
    with m x show ?thesis by (intro rnd_exact_small[of m]) auto
  next
    case True
    have "x = of_int (sgn m) * 2 powi (53 + e)"
    proof -
      have "m = sgn m * 2 ^ 53" using True by (metis mult_sgn_abs mult.commute)
      then have "(of_int m :: rat) = of_int (sgn m) * 2 ^ 53"
        by (metis of_int_mult of_int_numeral of_int_power)
      then show ?thesis using x by (simp add: powi2_add)
    qed
    moreover have "\<bar>sgn m\<bar> < 2 ^ 53" by (simp add: sgn_if)
    ultimately show ?thesis by (intro rnd_exact_small[of "sgn m"])
  qed
qed

lemma rnd_int: "\<bar>n\<bar> \<le> 2 ^ 53 \<Longrightarrow> rnd (of_int n) = of_int n"
  by (rule rnd_exact[OF is_f64_int])

lemma scaled_bounds:
  assumes "x \<noteq> 0"
  shows "2 ^ 52 \<le> \<bar>x / 2 powi (fexp x - 52)\<bar>" "\<bar>x / 2 powi (fexp x - 52)\<bar> < 2 ^ 53"
proof -
  define s where "s = (2::rat) powi (fexp x - 52)"
  have s: "0 < s" by (simp add: s_def)
  have a: "\<bar>x / s\<bar> = \<bar>x\<bar> / s" using s by simp
  have e1: "2 powi (fexp x) = 2 ^ 52 * s" using powi2_add[of 52 "fexp x - 52"] by (simp add: s_def)
  have e2: "2 powi (fexp x + 1) = 2 ^ 53 * s"
  proof -
    have "fexp x + 1 = 53 + (fexp x - 52)" by simp
    then show ?thesis unfolding s_def by (simp only: powi2_add) simp
  qed
  show "2 ^ 52 \<le> \<bar>x / 2 powi (fexp x - 52)\<bar>"
    using fexp_bounds(1)[OF assms] s unfolding s_def[symmetric] a e1 by (simp add: pos_le_divide_eq)
  show "\<bar>x / 2 powi (fexp x - 52)\<bar> < 2 ^ 53"
    using fexp_bounds(2)[OF assms] s unfolding s_def[symmetric] a e2 by (simp add: pos_divide_less_eq)
qed

lemma round_scaled_bounds:
  assumes "x \<noteq> 0"
  defines "r \<equiv> round_half_even (x / 2 powi (fexp x - 52))"
  shows "\<bar>r\<bar> \<le> 2 ^ 53" and "0 < x \<Longrightarrow> 2 ^ 52 \<le> r"
proof -
  define y where "y = x / 2 powi (fexp x - 52)"
  note b = scaled_bounds[OF assms(1), folded y_def]
  have "round_half_even y \<le> round_half_even (of_int (2 ^ 53))"
    using b(2) by (intro round_half_even_mono) simp
  moreover have "round_half_even (of_int (- (2 ^ 53))) \<le> round_half_even y"
    using b(2) by (intro round_half_even_mono) simp
  ultimately show "\<bar>r\<bar> \<le> 2 ^ 53" 
    by (simp only: round_half_even_int r_def y_def abs_le_iff minus_le_iff simp_thms)
  assume "0 < x"
  then have "0 < y" by (simp add: y_def)
  then have "round_half_even (of_int (2 ^ 52)) \<le> round_half_even y"
    using b(1) by (intro round_half_even_mono) simp
  then show "2 ^ 52 \<le> r" by (simp only: round_half_even_int r_def y_def)
qed

lemma rnd_is_f64 [float_rules]: "is_f64 (rnd x)"
proof (cases "x = 0")
  case True
  then show ?thesis using is_f64_int[of 0] by simp
next
  case False
  then show ?thesis
    using round_scaled_bounds(1)[OF False] unfolding is_f64_def rnd_def Let_def by auto
qed

lemma rnd_idem [simp]: "rnd (rnd x) = rnd x"
  by (rule rnd_exact[OF rnd_is_f64])

lemma rnd_pos_bounds:
  assumes "0 < x"
  shows "2 powi (fexp x) \<le> rnd x" "rnd x \<le> 2 powi (fexp x + 1)"
proof -
  define s where "s = (2::rat) powi (fexp x - 52)"
  have s: "0 < s" by (simp add: s_def)
  define r where "r = round_half_even (x / s)"
  have x: "x \<noteq> 0" using assms by simp
  have "2 ^ 52 \<le> r" "r \<le> 2 ^ 53"
    using round_scaled_bounds[OF x] assms by (auto simp: r_def s_def)
  then have "of_int (2 ^ 52) \<le> (of_int r :: rat)" "(of_int r :: rat) \<le> of_int (2 ^ 53)"
    by (simp_all only: of_int_le_iff)
  then have "2 ^ 52 * s \<le> of_int r * s" "of_int r * s \<le> 2 ^ 53 * s" using s by simp_all
  moreover have "rnd x = of_int r * s" using x by (simp add: rnd_def Let_def r_def s_def)
  moreover have "(2::rat) ^ 52 * s = 2 powi (fexp x)"
    using powi2_add[of 52 "fexp x - 52"] by (simp add: s_def)
  moreover have "(2::rat) ^ 53 * s = 2 powi (fexp x + 1)"
  proof -
    have "fexp x + 1 = 53 + (fexp x - 52)" by simp
    then show ?thesis unfolding s_def by (simp only: powi2_add) simp
  qed
  ultimately show "2 powi (fexp x) \<le> rnd x" "rnd x \<le> 2 powi (fexp x + 1)" by simp_all
qed

lemma rnd_nonneg [simp]:
  assumes "0 \<le> x"
  shows "0 \<le> rnd x"
proof (cases "x = 0")
  case False
  with assms have "2 powi (fexp x) \<le> rnd x" by (intro rnd_pos_bounds) simp
  with powi2_pos[of "fexp x"] show ?thesis by (meson less_le_trans less_imp_le)
qed simp

lemma rnd_nonpos [simp]: "x \<le> 0 \<Longrightarrow> rnd x \<le> 0"
  using rnd_nonneg[of "- x"] by simp

lemma rnd_mono_pos:
  assumes "0 < x" "x \<le> y"
  shows "rnd x \<le> rnd y"
proof -
  have y: "0 < y" using assms by simp
  have "fexp x \<le> fexp y" using assms by (intro fexp_mono) auto
  then consider "fexp x = fexp y" | "fexp x + 1 \<le> fexp y" by linarith
  then show ?thesis
  proof cases
    case 1
    define s where "s = (2::rat) powi (fexp y - 52)"
    have s: "0 < s" by (simp add: s_def)
    have "round_half_even (x / s) \<le> round_half_even (y / s)"
      using assms s by (intro round_half_even_mono) (simp add: divide_right_mono)
    then show ?thesis using 1 assms y s by (simp add: rnd_def Let_def flip: s_def)
  next
    case 2
    have "rnd x \<le> 2 powi (fexp x + 1)" by (rule rnd_pos_bounds(2)[OF assms(1)])
    also have "\<dots> \<le> 2 powi (fexp y)" by (rule powi2_mono[OF 2])
    also have "\<dots> \<le> rnd y" by (rule rnd_pos_bounds(1)[OF y])
    finally show ?thesis .
  qed
qed

lemma rnd_mono [float_rules]:
  assumes "x \<le> y"
  shows "rnd x \<le> rnd y"
proof -
  consider "0 < x" | "x \<le> 0" "0 \<le> y" | "y < 0" using assms by linarith
  then show ?thesis
  proof cases
    case 1
    then show ?thesis using assms by (rule rnd_mono_pos)
  next
    case 2
    then show ?thesis using rnd_nonpos rnd_nonneg order_trans by blast
  next
    case 3
    then have "rnd (- y) \<le> rnd (- x)" using assms by (intro rnd_mono_pos) auto
    then show ?thesis by simp
  qed
qed

lemma rnd_le_f64: "x \<le> c \<Longrightarrow> is_f64 c \<Longrightarrow> rnd x \<le> c"
  using rnd_mono[of x c] by (simp add: rnd_exact)

lemma rnd_ge_f64: "c \<le> x \<Longrightarrow> is_f64 c \<Longrightarrow> c \<le> rnd x"
  using rnd_mono[of c x] by (simp add: rnd_exact)

lemma rnd_error: "x \<noteq> 0 \<Longrightarrow> \<bar>rnd x - x\<bar> \<le> 2 powi (fexp x - 53)"
proof -
  assume x: "x \<noteq> 0"
  define s where "s = (2::rat) powi (fexp x - 52)"
  have s: "0 < s" by (simp add: s_def)
  have "\<bar>of_int (round_half_even (x / s)) - x / s\<bar> * s \<le> 1 / 2 * s"
    using s by (intro mult_right_mono round_half_even_near) simp
  moreover have "\<bar>of_int (round_half_even (x / s)) - x / s\<bar> * s = \<bar>rnd x - x\<bar>"
  proof -
    have "\<bar>of_int (round_half_even (x / s)) - x / s\<bar> * s
        = \<bar>(of_int (round_half_even (x / s)) - x / s) * s\<bar>" using s by (simp add: abs_mult)
    also have "(of_int (round_half_even (x / s)) - x / s) * s = rnd x - x"
      using s x by (simp add: rnd_def Let_def left_diff_distrib flip: s_def)
    finally show ?thesis .
  qed
  moreover have "1 / 2 * s = 2 powi (fexp x - 53)"
  proof -
    have "fexp x - 52 = 1 + (fexp x - 53)" by simp
    then show ?thesis unfolding s_def by (simp only: powi2_add) simp
  qed
  ultimately show ?thesis by simp
qed

subsection \<open>Operations\<close>

definition fadd :: "rat \<Rightarrow> rat \<Rightarrow> rat" where "fadd x y = rnd (x + y)"
definition fsub :: "rat \<Rightarrow> rat \<Rightarrow> rat" where "fsub x y = rnd (x - y)"
definition fmul :: "rat \<Rightarrow> rat \<Rightarrow> rat" where "fmul x y = rnd (x * y)"
definition fdiv :: "rat \<Rightarrow> rat \<Rightarrow> rat" where "fdiv x y = rnd (x / y)"

text \<open>\<open>int(x)\<close> truncates towards zero; \<open>float(n)\<close> rounds an integer.\<close>

definition py_trunc :: "rat \<Rightarrow> int" where
  "py_trunc x = (if 0 \<le> x then \<lfloor>x\<rfloor> else \<lceil>x\<rceil>)"

definition float_of_int :: "int \<Rightarrow> rat" where
  "float_of_int n = rnd (of_int n)"

lemma py_trunc_of_int [simp]: "py_trunc (of_int n) = n"
  by (simp add: py_trunc_def)

lemma py_trunc_minus [simp]: "py_trunc (- x) = - py_trunc x"
  by (auto simp: py_trunc_def ceiling_minus floor_minus)

lemma py_trunc_mono: "x \<le> y \<Longrightarrow> py_trunc x \<le> py_trunc y"
proof -
  assume xy: "x \<le> y"
  show ?thesis
  proof (cases "0 \<le> x \<or> y < 0")
    case True
    with xy show ?thesis by (auto simp: py_trunc_def floor_mono ceiling_mono)
  next
    case False
    then have "\<lceil>x\<rceil> \<le> 0" "0 \<le> \<lfloor>y\<rfloor>" by linarith+
    then have "\<lceil>x\<rceil> \<le> \<lfloor>y\<rfloor>" by (rule order_trans)
    with False show ?thesis by (simp add: py_trunc_def)
  qed
qed

lemma py_trunc_abs_le: "\<bar>of_int (py_trunc x)\<bar> \<le> \<bar>x :: rat\<bar>"
proof (cases "0 \<le> x")
  case True
  then show ?thesis by (simp add: py_trunc_def)
next
  case False
  then have "\<lceil>x\<rceil> \<le> 0" "x \<le> of_int \<lceil>x\<rceil>" by linarith+
  then have "of_int \<lceil>x\<rceil> \<le> (0::rat)" by simp
  with False \<open>x \<le> of_int \<lceil>x\<rceil>\<close> show ?thesis by (simp add: py_trunc_def)
qed

lemma py_trunc_frac: "\<bar>x - of_int (py_trunc x)\<bar> < 1"
  by (auto simp: py_trunc_def abs_less_iff) linarith+

end
