(* ===== verification/Py_Value.thy ===== *)
theory Py_Value
  imports Py_Float
begin

section \<open>Dynamically typed values\<close>

text \<open>
  The values of a settings tree (the type alias \<open>Variant\<close> of
  \<open>settingsstore.py\<close>): what JSON, YAML and INI parsers return. The theory has Python's
  \<open>isinstance\<close>, truth value, equality, indexing and the conversions a type constructor
  performs on a string.
\<close>

datatype py_float = Fin rat | PosInf | NegInf | NaN

datatype variant =
    VNull
  | VBool bool
  | VInt int
  | VFloat py_float
  | VStr string
  | VList "variant list"
  | VMap "(string \<times> variant) list"

type_synonym vmap = "(string, variant) dict"

subsection \<open>Types\<close>

datatype py_type = TyNone | TyBool | TyInt | TyFloat | TyStr | TyList | TyDict

text \<open>\<open>bool\<close> is a subclass of \<open>int\<close>.\<close>

fun isinstance :: "variant \<Rightarrow> py_type \<Rightarrow> bool" where
  "isinstance VNull t = (t = TyNone)"
| "isinstance (VBool b) t = (t = TyBool \<or> t = TyInt)"
| "isinstance (VInt i) t = (t = TyInt)"
| "isinstance (VFloat x) t = (t = TyFloat)"
| "isinstance (VStr s) t = (t = TyStr)"
| "isinstance (VList xs) t = (t = TyList)"
| "isinstance (VMap d) t = (t = TyDict)"

fun truthy :: "variant \<Rightarrow> bool" where
  "truthy VNull = False"
| "truthy (VBool b) = b"
| "truthy (VInt i) = (i \<noteq> 0)"
| "truthy (VFloat x) = (x \<noteq> Fin 0)"
| "truthy (VStr s) = (s \<noteq> [])"
| "truthy (VList xs) = (xs \<noteq> [])"
| "truthy (VMap d) = (d \<noteq> [])"

subsection \<open>Equality\<close>

text \<open>
  \<open>==\<close> compares numbers across \<open>bool\<close>, \<open>int\<close> and \<open>float\<close> by value and
  dictionaries without their order; a NaN equals nothing.
\<close>

fun numeric_value :: "variant \<Rightarrow> py_float option" where
  "numeric_value (VBool b) = Some (Fin (if b then 1 else 0))"
| "numeric_value (VInt i) = Some (Fin (of_int i))"
| "numeric_value (VFloat x) = Some x"
| "numeric_value _ = None"

definition num_eq :: "py_float option \<Rightarrow> py_float option \<Rightarrow> bool" where
  "num_eq a b \<longleftrightarrow> a \<noteq> None \<and> a = b \<and> a \<noteq> Some NaN"

fun py_eq :: "variant \<Rightarrow> variant \<Rightarrow> bool"
  and py_eq_list :: "variant list \<Rightarrow> variant list \<Rightarrow> bool"
  and py_eq_items :: "vmap \<Rightarrow> vmap \<Rightarrow> bool"
where
  "py_eq VNull w = (w = VNull)"
| "py_eq (VStr s) w = (w = VStr s)"
| "py_eq (VList xs) w = (case w of VList ys \<Rightarrow> py_eq_list xs ys | _ \<Rightarrow> False)"
| "py_eq (VMap d) w = (case w of VMap e \<Rightarrow> length d = length e \<and> py_eq_items d e | _ \<Rightarrow> False)"
| "py_eq (VBool b) w = num_eq (numeric_value (VBool b)) (numeric_value w)"
| "py_eq (VInt i) w = num_eq (numeric_value (VInt i)) (numeric_value w)"
| "py_eq (VFloat x) w = num_eq (numeric_value (VFloat x)) (numeric_value w)"
| "py_eq_list [] ys = (ys = [])"
| "py_eq_list (x # xs) ys = (case ys of [] \<Rightarrow> False | y # ys' \<Rightarrow> py_eq x y \<and> py_eq_list xs ys')"
| "py_eq_items [] e = True"
| "py_eq_items ((k, v) # d) e =
     ((case dict_get e k of None \<Rightarrow> False | Some w \<Rightarrow> py_eq v w) \<and> py_eq_items d e)"

text \<open>Well-formed values: no dictionary has a key twice, no NaN.\<close>

fun v_wf :: "variant \<Rightarrow> bool"
  and v_wf_list :: "variant list \<Rightarrow> bool"
  and v_wf_items :: "vmap \<Rightarrow> bool"
where
  "v_wf (VList xs) = v_wf_list xs"
| "v_wf (VMap d) = (dict_wf d \<and> v_wf_items d)"
| "v_wf (VFloat x) = (x \<noteq> NaN)"
| "v_wf _ = True"
| "v_wf_list [] = True"
| "v_wf_list (x # xs) = (v_wf x \<and> v_wf_list xs)"
| "v_wf_items [] = True"
| "v_wf_items ((k, v) # d) = (v_wf v \<and> v_wf_items d)"

lemma v_wf_items_get: "v_wf_items d \<Longrightarrow> dict_get d k = Some v \<Longrightarrow> v_wf v"
  by (induction d) (auto split: if_splits)

lemma v_wf_sub: "v_wf (VMap d) \<Longrightarrow> dict_get d k = Some v \<Longrightarrow> v_wf v"
  using v_wf_items_get[of d k v] by simp

lemma v_wf_items_iff: "v_wf_items d \<longleftrightarrow> (\<forall>(k, v) \<in> set d. v_wf v)"
  by (induction d) auto

lemma py_eq_items_iff:
  "py_eq_items d e \<longleftrightarrow> (\<forall>(k, v) \<in> set d. \<exists>w. dict_get e k = Some w \<and> py_eq v w)"
  by (induction d) (auto split: option.splits)

lemma v_wf_items_set: "v_wf_items d \<Longrightarrow> v_wf v \<Longrightarrow> v_wf_items (dict_set k v d)"
  by (induction d) auto

lemma py_eq_refl_all:
  "v_wf v \<Longrightarrow> py_eq v v"
  "v_wf_list xs \<Longrightarrow> py_eq_list xs xs"
  "v_wf_items d \<Longrightarrow> \<forall>(k, v) \<in> set d. py_eq v v"
proof (induction v and xs and d rule: v_wf_v_wf_list_v_wf_items.induct)
  case (2 d)
  then have "\<forall>(k, v) \<in> set d. py_eq v v" "dict_wf d" by auto
  then show ?case by (auto simp: py_eq_items_iff dict_get_wf)
qed (simp_all add: num_eq_def)

lemma py_eq_refl [simp]: "v_wf v \<Longrightarrow> py_eq v v"
  by (rule py_eq_refl_all)

lemma py_eq_VMap_iff:
  assumes "dict_wf d" "dict_wf e"
  shows "py_eq (VMap d) (VMap e) \<longleftrightarrow>
    (\<forall>k. (case (dict_get d k, dict_get e k) of
            (None, None) \<Rightarrow> True | (Some v, Some w) \<Rightarrow> py_eq v w | _ \<Rightarrow> False))"
    (is "_ \<longleftrightarrow> (\<forall>k. ?R k)")
proof
  assume l: "py_eq (VMap d) (VMap e)"
  have sub: "fst ` set d \<subseteq> fst ` set e"
  proof
    fix k
    assume "k \<in> fst ` set d"
    then obtain v where "(k, v) \<in> set d" by auto
    with l have "dict_get e k \<noteq> None" by (auto simp: py_eq_items_iff)
    then show "k \<in> fst ` set e" by (simp add: map_of_eq_None_iff)
  qed
  have "card (fst ` set d) = card (fst ` set e)"
    using l assms by (simp add: dict_wf_def distinct_card flip: set_map)
  with sub have doms: "fst ` set d = fst ` set e" by (simp add: card_subset_eq)
  show "\<forall>k. ?R k"
  proof
    fix k
    show "?R k"
    proof (cases "dict_get d k")
      case None
      then have "dict_get e k = None" using doms by (simp add: map_of_eq_None_iff)
      with None show ?thesis by simp
    next
      case (Some v)
      then have "(k, v) \<in> set d" by (rule dict_get_in_set)
      with l Some show ?thesis by (auto simp: py_eq_items_iff)
    qed
  qed
next
  assume r: "\<forall>k. ?R k"
  have "(k \<in> fst ` set d) = (k \<in> fst ` set e)" for k
  proof -
    have "(dict_get d k = None) = (dict_get e k = None)"
      using r[rule_format, of k] by (simp split: option.splits)
    then show ?thesis by (simp add: map_of_eq_None_iff)
  qed
  then have "fst ` set d = fst ` set e" by blast
  then have "length d = length e"
    using assms by (metis dict_wf_def distinct_card length_map set_map)
  moreover have "py_eq_items d e"
    unfolding py_eq_items_iff
  proof safe
    fix k v
    assume "(k, v) \<in> set d"
    with assms(1) have "dict_get d k = Some v" by (rule dict_get_wf)
    with r[rule_format, of k] show "\<exists>w. dict_get e k = Some w \<and> py_eq v w"
      by (cases "dict_get e k") auto
  qed
  ultimately show "py_eq (VMap d) (VMap e)" by simp
qed

lemma size_items_get: "dict_get d k = Some v \<Longrightarrow> size v < size (VMap d)"
  by (induction d) (auto split: if_splits)

lemma size_elem: "x \<in> set xs \<Longrightarrow> size x < size (VList xs)"
  by (induction xs) auto

lemma py_eq_VMap_entry:
  assumes "py_eq (VMap d) (VMap e)" "dict_get d k = Some v"
  shows "\<exists>w. dict_get e k = Some w \<and> py_eq v w"
  using assms dict_get_in_set[OF assms(2)] by (auto simp: py_eq_items_iff)

lemma py_eq_list_sym:
  assumes "py_eq_list xs ys" and "\<And>x y. x \<in> set xs \<Longrightarrow> y \<in> set ys \<Longrightarrow> py_eq x y \<Longrightarrow> py_eq y x"
  shows "py_eq_list ys xs"
  using assms
proof (induction xs arbitrary: ys)
  case (Cons x xs)
  then show ?case by (cases ys) auto
qed simp

lemma v_wf_list_iff: "v_wf_list xs \<longleftrightarrow> (\<forall>x \<in> set xs. v_wf x)"
  by (induction xs) auto

lemma py_eq_sym_scalar:
  "(\<And>xs. v \<noteq> VList xs) \<Longrightarrow> (\<And>d. v \<noteq> VMap d) \<Longrightarrow> py_eq v w \<Longrightarrow> py_eq w v"
  by (cases v; cases w) (auto simp: num_eq_def)

lemma py_eq_sym: "v_wf v \<Longrightarrow> v_wf w \<Longrightarrow> py_eq v w \<Longrightarrow> py_eq w v"
proof (induction "size v" arbitrary: v w rule: less_induct)
  case less
  show ?case
  proof (cases v)
    case (VList xs)
    with less.prems(3) obtain ys where w: "w = VList ys" by (cases w) auto
    have "py_eq_list ys xs"
    proof (rule py_eq_list_sym)
      show "py_eq_list xs ys" using less.prems(3) VList w by simp
      fix x y
      assume el: "x \<in> set xs" "y \<in> set ys" and eq: "py_eq x y"
      have smaller: "size x < size v" unfolding VList using el(1) by (rule size_elem)
      have "v_wf x" "v_wf y"
        using less.prems(1,2) el unfolding VList w by (simp_all add: v_wf_list_iff)
      with smaller show "py_eq y x" using eq by (rule less.hyps)
    qed
    then show ?thesis unfolding VList w by simp
  next
    case (VMap d)
    with less.prems(3) obtain e where w: "w = VMap e" by (cases w) auto
    have wf: "dict_wf d" "dict_wf e" using less.prems VMap w by auto
    have eq: "py_eq (VMap d) (VMap e)" using less.prems(3) VMap w by simp
    have "case (dict_get e k, dict_get d k) of
            (None, None) \<Rightarrow> True | (Some v, Some w) \<Rightarrow> py_eq v w | _ \<Rightarrow> False" for k
    proof (cases "dict_get d k")
      case None
      then show ?thesis
        using eq[unfolded py_eq_VMap_iff[OF wf], rule_format, of k] by (auto split: option.splits)
    next
      case (Some x)
      then obtain y where y: "dict_get e k = Some y" "py_eq x y"
        using py_eq_VMap_entry[OF eq] by blast
      have "v_wf x" "v_wf y"
        using v_wf_sub[OF _ Some] v_wf_sub[OF _ y(1)] less.prems(1,2) VMap w by blast+
      with size_items_get[OF Some, folded VMap] have "py_eq y x"
        using y(2) by (rule less.hyps)
      with Some y show ?thesis by simp
    qed
    then show ?thesis unfolding VMap w by (simp only: py_eq_VMap_iff[OF wf(2,1)]) blast
  qed (rule py_eq_sym_scalar[OF _ _ less.prems(3)]; simp)+
qed

subsection \<open>Subscripting\<close>

text \<open>A path component of \<open>SettingsStore.get_value\<close>.\<close>

datatype component = CStr string | CInt int

text \<open>
  \<open>value[component]\<close>: a string key in a dictionary, an integer in a list or a string;
  everything else raises \<open>TypeError\<close> (an integer key of a dictionary with string keys
  raises \<open>KeyError\<close>).
\<close>

fun subscript :: "variant \<Rightarrow> component \<Rightarrow> variant result" where
  "subscript (VMap d) (CStr k) = (case dict_get d k of None \<Rightarrow> Inl KeyError | Some v \<Rightarrow> Inr v)"
| "subscript (VMap d) (CInt i) = Inl KeyError"
| "subscript (VList xs) (CInt i) = list_index xs i"
| "subscript (VStr s) (CInt i) = map_sum id (\<lambda>c. VStr [c]) (list_index s i)"
| "subscript _ _ = Inl TypeError"

subsection \<open>Conversion of strings\<close>

text \<open>\<open>str.strip()\<close> on ASCII.\<close>

definition strip :: "string \<Rightarrow> string" where
  "strip s = rev (dropWhile is_space (rev (dropWhile is_space s)))"

text \<open>
  \<open>int(s)\<close>: surrounding white space, a sign, decimal digits with single underscores
  between them.
\<close>

fun digits_us :: "bool \<Rightarrow> string \<Rightarrow> string option" where
  "digits_us prev [] = (if prev then Some [] else None)"
| "digits_us prev (c # cs) =
     (if is_digit c then map_option ((#) c) (digits_us True cs)
      else if c = CHR ''_'' \<and> prev then digits_us False cs
      else None)"

fun split_sign :: "string \<Rightarrow> bool \<times> string" where
  "split_sign [] = (False, [])"
| "split_sign (c # cs) =
     (if c = CHR ''-'' then (True, cs) else if c = CHR ''+'' then (False, cs) else (False, c # cs))"

definition int_of_string :: "string \<Rightarrow> int result" where
  "int_of_string s =
     (let (neg, body) = split_sign (strip s) in
      case digits_us False body of
        None \<Rightarrow> Inl ValueError
      | Some ds \<Rightarrow> Inr (if neg then - int (nat_of_digits 0 ds) else int (nat_of_digits 0 ds)))"

text \<open>
  \<open>float(s)\<close>: an optional sign, digits with an optional fraction and exponent, or
  \<open>inf\<close>, \<open>infinity\<close>, \<open>nan\<close> in any case. The decimal value is rounded once.
\<close>

definition lower :: "string \<Rightarrow> string" where
  "lower s = map (\<lambda>c. if 65 \<le> (of_char c :: nat) \<and> (of_char c :: nat) \<le> 90
                       then char_of ((of_char c :: nat) + 32) else c) s"

definition opt_digits :: "string \<Rightarrow> string option" where
  "opt_digits s = (if s = [] then Some [] else digits_us False s)"

definition parse_exponent :: "string \<Rightarrow> int option" where
  "parse_exponent s =
     (if s = [] then Some 0
      else let (neg, body) = split_sign (tl s) in
        case digits_us False body of
          None \<Rightarrow> None
        | Some ds \<Rightarrow> Some (if neg then - int (nat_of_digits 0 ds) else int (nat_of_digits 0 ds)))"

definition parse_decimal :: "string \<Rightarrow> rat option" where
  "parse_decimal s =
     (let is_e = (\<lambda>c. c = CHR ''e'' \<or> c = CHR ''E'');
          mantissa = takeWhile (\<lambda>c. \<not> is_e c) s;
          expo = dropWhile (\<lambda>c. \<not> is_e c) s;
          whole = takeWhile (\<lambda>c. c \<noteq> CHR ''.'') mantissa;
          frac = tl (dropWhile (\<lambda>c. c \<noteq> CHR ''.'') mantissa)
      in if whole = [] \<and> frac = [] then None
         else case (opt_digits whole, opt_digits frac, parse_exponent expo) of
           (Some w, Some f, Some e) \<Rightarrow>
              Some (of_nat (nat_of_digits 0 (w @ f)) * 10 powi (e - int (length f)))
         | _ \<Rightarrow> None)"

definition float_of_string :: "string \<Rightarrow> py_float result" where
  "float_of_string s =
     (let (neg, body) = split_sign (strip s) in
      if lower body = ''inf'' \<or> lower body = ''infinity'' then Inr (if neg then NegInf else PosInf)
      else if lower body = ''nan'' then Inr NaN
      else case parse_decimal body of
        None \<Rightarrow> Inl ValueError
      | Some x \<Rightarrow> Inr (Fin (rnd (if neg then - x else x))))"

text \<open>Calling a type with a string argument.\<close>

fun type_call :: "py_type \<Rightarrow> string \<Rightarrow> variant result" where
  "type_call TyNone s = Inl TypeError"
| "type_call TyBool s = Inr (VBool (s \<noteq> []))"
| "type_call TyInt s = map_sum id VInt (int_of_string s)"
| "type_call TyFloat s = map_sum id VFloat (float_of_string s)"
| "type_call TyStr s = Inr (VStr s)"
| "type_call TyList s = Inr (VList (map (\<lambda>c. VStr [c]) s))"
| "type_call TyDict s = (if s = [] then Inr (VMap []) else Inl ValueError)"

lemma type_call_isinstance: "type_call t s = Inr v \<Longrightarrow> isinstance v t"
  by (cases t) (auto simp: map_sum_def split: sum.splits if_splits)

text \<open>Decimal rendering of an integer, \<open>'%d'\<close>.\<close>

definition string_of_int :: "int \<Rightarrow> string" where
  "string_of_int n = (if n < 0 then CHR ''-'' # digits_of_nat (nat (- n)) else digits_of_nat (nat n))"

text \<open>Decimal digits are read as they stand.\<close>

lemma digit_not_special:
  assumes "is_digit c"
  shows "\<not> is_space c" "c \<noteq> CHR ''-''" "c \<noteq> CHR ''+''" "c \<noteq> CHR ''.''" "c \<noteq> CHR '',''"
    "c \<noteq> CHR ''e''" "c \<noteq> CHR ''E''" "c \<noteq> CHR ''i''" "c \<noteq> CHR ''n''" "c \<noteq> CHR ''P''" "c \<noteq> CHR ''T''"
  using assms by (auto simp: is_digit_def is_space_def)

lemma lower_digit:
  assumes "\<forall>c \<in> set s. is_digit c"
  shows "lower s = s"
  unfolding lower_def by (rule map_idI) (use assms in \<open>auto simp: is_digit_def\<close>)

lemma digits_us_digits: "\<forall>c \<in> set s. is_digit c \<Longrightarrow> s \<noteq> [] \<or> prev \<Longrightarrow> digits_us prev s = Some s"
proof (induction s arbitrary: prev)
  case (Cons c s)
  then show ?case by simp
qed simp

lemma strip_digits: "\<forall>c \<in> set s. is_digit c \<Longrightarrow> strip s = s"
proof -
  assume d: "\<forall>c \<in> set s. is_digit c"
  have drop: "dropWhile is_space t = t" if "\<forall>c \<in> set t. is_digit c" for t
    using that by (cases t) (auto simp: digit_not_special)
  show ?thesis unfolding strip_def using drop[of s] drop[of "rev s"] d by simp
qed

lemma int_of_digits: "int_of_string (digits_of_nat n) = Inr (int n)"
proof -
  have d: "\<forall>c \<in> set (digits_of_nat n). is_digit c" using digits_of_nat_digits by blast
  obtain c cs where s: "digits_of_nat n = c # cs" by (cases "digits_of_nat n") auto
  then have "split_sign (digits_of_nat n) = (False, digits_of_nat n)" using d by (simp add: digit_not_special)
  then show ?thesis
    using d by (simp add: int_of_string_def strip_digits digits_us_digits nat_of_digits_of_nat)
qed

end
