(* ===== verification/Json_Reader.thy ===== *)
theory Json_Reader
  imports Py_Value
begin

section \<open>JSON with comments (\<open>core/settingsstore/jsonreader.py\<close>)\<close>

text \<open>
  \<open>JsonReader._remove_comments\<close> substitutes one regular expression with five
  alternatives, tried in order at each position: \<open>//\<close> to the end of the line,
  \<open>/* ... */\<close>, \<open>#\<close> to the end of the line, and single- and double-quoted strings,
  which are kept. \<open>json.loads\<close> is a parameter of \<open>parse_text\<close>.
\<close>

definition newline :: char where "newline = CHR 0x0A"

subsection \<open>The alternatives\<close>

definition skip_line :: "string \<Rightarrow> string" where
  "skip_line s = dropWhile (\<lambda>c. c \<noteq> newline) s"

text \<open>What follows the first \<open>*/\<close>, if there is one.\<close>

fun after_close :: "string \<Rightarrow> string option" where
  "after_close [] = None"
| "after_close [c] = None"
| "after_close (c # d # cs) = (if c = CHR ''*'' \<and> d = CHR ''/'' then Some cs else after_close (d # cs))"

text \<open>
  A quoted string after its opening quote \<open>q\<close>: its text up to and including the closing
  quote, and the rest; a backslash takes the next character with it.
\<close>

fun quoted :: "char \<Rightarrow> string \<Rightarrow> (string \<times> string) option" where
  "quoted q [] = None"
| "quoted q (c # cs) =
     (if c = CHR 0x5C then
        (case cs of [] \<Rightarrow> None
         | d # ds \<Rightarrow> (case quoted q ds of None \<Rightarrow> None | Some (t, r) \<Rightarrow> Some (c # d # t, r)))
      else if c = q then Some ([c], cs)
      else (case quoted q cs of None \<Rightarrow> None | Some (t, r) \<Rightarrow> Some (c # t, r)))"

lemma after_close_length: "after_close s = Some r \<Longrightarrow> length r < length s"
  by (induction s rule: after_close.induct) (auto split: if_splits)

lemma quoted_length: "quoted q s = Some (t, r) \<Longrightarrow> length r < length s"
proof (induction q s arbitrary: t r rule: quoted.induct)
  case (2 q c cs)
  then show ?case by (fastforce split: if_splits list.splits option.splits)
qed simp

lemma quoted_append: "quoted q s = Some (t, r) \<Longrightarrow> s = t @ r"
proof (induction q s arbitrary: t r rule: quoted.induct)
  case (2 q c cs)
  then show ?case by (auto split: if_splits list.splits option.splits)
qed simp

lemma skip_line_length: "length (skip_line s) \<le> length s"
  by (simp add: skip_line_def length_dropWhile_le)

text \<open>One step of the substitution: the text to keep and what is left to scan.\<close>

fun scan_step :: "char \<Rightarrow> string \<Rightarrow> string \<times> string" where
  "scan_step c cs =
     (if c = CHR ''/'' \<and> cs \<noteq> [] \<and> hd cs = CHR ''/'' then ([], skip_line cs)
      else if c = CHR ''/'' \<and> cs \<noteq> [] \<and> hd cs = CHR ''*'' \<and> after_close (tl cs) \<noteq> None
        then ([], the (after_close (tl cs)))
      else if c = CHR ''#'' then ([], skip_line cs)
      else if (c = CHR 0x27 \<or> c = CHR 0x22) \<and> quoted c cs \<noteq> None
        then (c # fst (the (quoted c cs)), snd (the (quoted c cs)))
      else ([c], cs))"

lemma scan_step_length: "length (snd (scan_step c cs)) \<le> length cs"
proof -
  have "\<exists>r. after_close (tl cs) = Some r \<Longrightarrow> length (the (after_close (tl cs))) \<le> length cs"
    using after_close_length by fastforce
  moreover have "quoted c cs \<noteq> None \<Longrightarrow> length (snd (the (quoted c cs))) \<le> length cs"
    using quoted_length by fastforce
  ultimately show ?thesis using skip_line_length[of cs] by auto
qed

declare scan_step.simps [simp del]

function remove_comments :: "string \<Rightarrow> string" where
  "remove_comments [] = []"
| "remove_comments (c # cs) = fst (scan_step c cs) @ remove_comments (snd (scan_step c cs))"
  by pat_completeness auto
termination
  by (relation "measure length") (auto simp: le_imp_less_Suc scan_step_length)

definition parse_text :: "(string \<Rightarrow> variant result) \<Rightarrow> string \<Rightarrow> variant result" where
  "parse_text json_loads text =
     (let t = strip (remove_comments text) in
      if t \<noteq> [] then (case json_loads t of Inl _ \<Rightarrow> Inl ValueError | Inr v \<Rightarrow> Inr v)
      else Inr VNull)"

subsection \<open>Properties\<close>

text \<open>
  A text is a sequence of pieces: plain characters, comments and quoted strings. Removing
  comments keeps exactly the pieces that are not comments.
\<close>

datatype piece =
    Plain char
  | LineComment string
  | HashComment string
  | BlockComment string
  | Quoted char string

fun piece_text :: "piece \<Rightarrow> string" where
  "piece_text (Plain c) = [c]"
| "piece_text (LineComment t) = ''//'' @ t @ [newline]"
| "piece_text (HashComment t) = ''#'' @ t @ [newline]"
| "piece_text (BlockComment t) = ''/*'' @ t @ ''*/''"
| "piece_text (Quoted q t) = q # t @ [q]"

fun piece_kept :: "piece \<Rightarrow> string" where
  "piece_kept (Plain c) = [c]"
| "piece_kept (LineComment t) = [newline]"
| "piece_kept (HashComment t) = [newline]"
| "piece_kept (BlockComment t) = []"
| "piece_kept (Quoted q t) = q # t @ [q]"

text \<open>
  The pieces a scanner reads back: a plain character starts nothing, a line comment has no
  line end inside, a block comment no star, and in a quoted string every quote is escaped.
\<close>

fun str_body :: "char \<Rightarrow> string \<Rightarrow> bool" where
  "str_body q [] = True"
| "str_body q (c # cs) =
     (if c = CHR 0x5C then (case cs of [] \<Rightarrow> False | d # ds \<Rightarrow> str_body q ds)
      else c \<noteq> q \<and> str_body q cs)"

fun piece_ok :: "piece \<Rightarrow> bool" where
  "piece_ok (Plain c) = (c \<notin> {CHR ''/'', CHR ''#'', CHR 0x27, CHR 0x22})"
| "piece_ok (LineComment t) = (newline \<notin> set t)"
| "piece_ok (HashComment t) = (newline \<notin> set t)"
| "piece_ok (BlockComment t) = (CHR ''*'' \<notin> set t)"
| "piece_ok (Quoted q t) = ((q = CHR 0x27 \<or> q = CHR 0x22) \<and> str_body q t)"

lemma after_close_no_star:
  "CHR ''*'' \<notin> set t \<Longrightarrow> after_close (t @ CHR ''*'' # CHR ''/'' # r) = Some r"
proof (induction t)
  case Nil
  then show ?case by simp
next
  case (Cons c t)
  then show ?case by (cases t) auto
qed

lemma quoted_body:
  "str_body q t \<Longrightarrow> q \<noteq> CHR 0x5C \<Longrightarrow> quoted q (t @ q # r) = Some (t @ [q], r)"
proof (induction q t rule: str_body.induct)
  case (2 q c cs)
  then show ?case by (cases cs) (auto split: if_splits)
qed simp

lemma skip_line_app: "newline \<notin> set t \<Longrightarrow> skip_line (t @ newline # r) = newline # r"
  by (induction t) (auto simp: skip_line_def)

lemma remove_comments_newline: "remove_comments (newline # r) = newline # remove_comments r"
  by (simp add: scan_step.simps newline_def)

lemma remove_comments_by_step:
  assumes "scan_step c cs = (keep, rest)"
  shows "remove_comments (c # cs) = keep @ remove_comments rest"
  using assms by simp

lemma remove_comments_piece:
  assumes "piece_ok p"
  shows "remove_comments (piece_text p @ r) = piece_kept p @ remove_comments r"
proof (cases p)
  case (LineComment t)
  with assms have "skip_line (CHR ''/'' # t @ newline # r) = newline # r"
    using skip_line_app[of "CHR ''/'' # t" r] by (simp add: newline_def)
  then have "scan_step (CHR ''/'') (CHR ''/'' # t @ newline # r) = ([], newline # r)"
    by (simp add: scan_step.simps)
  from remove_comments_by_step[OF this] LineComment show ?thesis
    by (simp add: remove_comments_newline del: remove_comments.simps)
next
  case (HashComment t)
  with assms skip_line_app[of t r] have "scan_step (CHR ''#'') (t @ newline # r) = ([], newline # r)"
    by (simp add: scan_step.simps)
  from remove_comments_by_step[OF this] HashComment show ?thesis
    by (simp add: remove_comments_newline del: remove_comments.simps)
next
  case (BlockComment t)
  with assms after_close_no_star[of t r] show ?thesis
    by (simp add: scan_step.simps)
next
  case (Quoted q t)
  with assms have q: "q = CHR 0x27 \<or> q = CHR 0x22" by simp
  then have "q \<noteq> CHR 0x5C" by (rule disjE) simp_all
  with Quoted assms have "quoted q (t @ q # r) = Some (t @ [q], r)" by (intro quoted_body) simp_all
  moreover have "q \<noteq> CHR ''/''" "q \<noteq> CHR ''#''" using q by (rule disjE; simp)+
  ultimately have "scan_step q (t @ q # r) = (q # t @ [q], r)"
    using q by (simp add: scan_step.simps)
  from remove_comments_by_step[OF this] Quoted show ?thesis by simp
next
  case (Plain c)
  with assms show ?thesis by (simp add: scan_step.simps)
qed

lemma remove_comments_pieces_append:
  "\<forall>p \<in> set ps. piece_ok p \<Longrightarrow>
   remove_comments (concat (map piece_text ps) @ r) = concat (map piece_kept ps) @ remove_comments r"
  by (induction ps) (auto simp: remove_comments_piece simp del: remove_comments.simps)

text \<open>A text without comments, such as the output of \<open>json.dump\<close>, is not changed.\<close>

fun is_comment :: "piece \<Rightarrow> bool" where
  "is_comment (Plain c) = False"
| "is_comment (Quoted q t) = False"
| "is_comment _ = True"

lemma kept_no_comment: "\<not> is_comment p \<Longrightarrow> piece_kept p = piece_text p"
  by (cases p) auto

lemma remove_comments_id:
  assumes "\<forall>p \<in> set ps. piece_ok p \<and> \<not> is_comment p"
  shows "remove_comments (concat (map piece_text ps)) = concat (map piece_text ps)"
proof -
  have "map piece_kept ps = map piece_text ps" using assms by (auto simp: kept_no_comment)
  with remove_comments_pieces_append[of ps "[]"] assms show ?thesis by simp
qed

text \<open>
  C4. Comments and only comments are removed: for a text made of plain characters,
  \<open>//\<close> and \<open>#\<close> comments up to a line end, block comments and quoted strings with
  escapes, what remains is the same sequence without the comments; a comment marker inside a
  quoted string stays.
\<close>

theorem remove_comments_pieces:
  assumes "\<forall>p \<in> set ps. piece_ok p"
  shows "remove_comments (concat (map piece_text ps)) = concat (map piece_kept ps)"
  using remove_comments_pieces_append[OF assms, of "[]"] by simp

theorem remove_comments_pieces_witness:
  "remove_comments ''{/* a */'' = ''{''
   \<and> remove_comments (CHR 0x22 # ''a//b'' @ [CHR 0x22]) = CHR 0x22 # ''a//b'' @ [CHR 0x22]"
  using remove_comments_pieces[of "[Plain CHR ''{'', BlockComment '' a '']"]
    remove_comments_pieces[of "[Quoted CHR 0x22 ''a//b'']"]
  by (simp del: remove_comments.simps)

end
