(* ===== verification/Settings.thy ===== *)
theory Settings
  imports Paths Json_Reader
begin

section \<open>The settings store (\<open>core/settingsstore/settingsstore.py\<close>)\<close>

text \<open>
  \<open>SettingsStore\<close> is a dictionary merged from JSON, YAML and INI files. The record
  \<open>store\<close> has its data and the bookkeeping of loaded files; the record \<open>world\<close> is
  what it reads and writes outside: the environment, the cache of search paths, the files,
  and the parsers. The YAML and INI parsers, \<open>json.loads\<close> and \<open>json.dump\<close> are
  parameters. A parsed tree is owned by the store it is merged into (no other object
  refers to it), so dictionaries are values here.
\<close>

subsection \<open>State\<close>

record store =
  st_data :: vmap
  st_filenames :: "path_input list"
  st_filepaths :: "fpath list"
  st_package :: "string option"
  st_searchpath :: "fpath list"

record world =
  w_env :: env
  w_cache :: path_cache
  w_files :: "(fpath, string) dict"
  w_can_write :: "fpath \<Rightarrow> fpath \<Rightarrow> bool"
  w_json_loads :: "string \<Rightarrow> variant result"
  w_yaml_load :: "string \<Rightarrow> variant result"
  w_ini_parse :: "string \<Rightarrow> variant result"
  w_json_dump :: "variant \<Rightarrow> string"

definition is_file :: "world \<Rightarrow> fpath \<Rightarrow> bool" where
  "is_file w p \<longleftrightarrow> dict_get (w_files w) p \<noteq> None"

subsection \<open>Merging and difference of trees\<close>

function (sequential) recursive_merge :: "vmap \<Rightarrow> vmap \<Rightarrow> vmap" where
  "recursive_merge base [] = base"
| "recursive_merge base ((k, VMap u) # us) =
     (case dict_get base k of
        Some (VMap b) \<Rightarrow> recursive_merge (dict_set k (VMap (recursive_merge b u)) base) us
      | None \<Rightarrow> recursive_merge (dict_set k (VMap u) base) us
      | Some VNull \<Rightarrow> recursive_merge (dict_set k (VMap u) base) us
      | Some _ \<Rightarrow> recursive_merge base us)"
| "recursive_merge base ((k, v) # us) =
     (case dict_get base k of
        None \<Rightarrow> recursive_merge (dict_set k v base) us
      | Some VNull \<Rightarrow> recursive_merge (dict_set k v base) us
      | Some _ \<Rightarrow> recursive_merge base us)"
  by pat_completeness auto
termination
  by (relation "measure (\<lambda>(b, u). size_list (size_prod (\<lambda>_. 0) size) u)") auto

definition as_basevalue :: "variant option \<Rightarrow> variant" where
  "as_basevalue v = (case v of None \<Rightarrow> VNull | Some w \<Rightarrow> w)"

function (sequential) recursive_delta :: "vmap \<Rightarrow> vmap \<Rightarrow> vmap" where
  "recursive_delta [] base = []"
| "recursive_delta ((k, VMap c) # rest) base =
     (case dict_get base k of
        Some (VMap b) \<Rightarrow>
          (let deltavalue = recursive_delta c b in
           if deltavalue \<noteq> [] then (k, VMap deltavalue) # recursive_delta rest base
           else recursive_delta rest base)
      | basevalue \<Rightarrow>
          (if \<not> py_eq (VMap c) (as_basevalue basevalue) then (k, VMap c) # recursive_delta rest base
           else recursive_delta rest base))"
| "recursive_delta ((k, v) # rest) base =
     (if \<not> py_eq v (as_basevalue (dict_get base k)) then (k, v) # recursive_delta rest base
      else recursive_delta rest base)"
  by pat_completeness auto
termination
  by (relation "measure (\<lambda>(c, b). size_list (size_prod (\<lambda>_. 0) size) c)") auto

definition merge_settings :: "vmap \<Rightarrow> store \<Rightarrow> store" where
  "merge_settings settings st = st\<lparr>st_data := recursive_merge (st_data st) settings\<rparr>"

subsection \<open>Finding and loading files\<close>

definition parser_map :: "world \<Rightarrow> string \<Rightarrow> (string \<Rightarrow> variant result) option" where
  "parser_map w suffix =
     (if suffix = ''.json'' then Some (parse_text (w_json_loads w))
      else if suffix = ''.yaml'' then Some (w_yaml_load w)
      else if suffix = ''.ini'' then Some (w_ini_parse w)
      else None)"

definition parser_suffixes :: "string list" where
  "parser_suffixes = [''.json'', ''.yaml'', ''.ini'']"

definition find_file_paths :: "world \<Rightarrow> path_input \<Rightarrow> fpath list \<Rightarrow> fpath list result" where
  "find_file_paths w basename searchpath =
     (let base = as_path basename in
      bind_result
        (if path_suffix base \<noteq> [] then Inr [base]
         else map_result (\<lambda>s. with_suffix s base) parser_suffixes)
        (\<lambda>basenames.
          if is_absolute base then Inr basenames
          else Inr (filter (is_file w)
                 (concat (map (\<lambda>folder. map (path_join folder) basenames) searchpath)))))"

definition find_paths :: "world \<Rightarrow> path_input \<Rightarrow> fpath list option \<Rightarrow> store \<Rightarrow> fpath list result" where
  "find_paths w basename searchpath st =
     find_file_paths w basename
       (case searchpath of None \<Rightarrow> st_searchpath st | Some [] \<Rightarrow> st_searchpath st | Some sp \<Rightarrow> sp)"

text \<open>
  \<open>merge_file\<close>: an unknown suffix raises \<open>KeyError\<close>, an unreadable file is skipped, a
  result that is not a dictionary has no \<open>items\<close>.
\<close>

definition merge_file :: "world \<Rightarrow> fpath \<Rightarrow> store \<Rightarrow> store result" where
  "merge_file w filepath st =
     (case parser_map w (path_suffix filepath) of
        None \<Rightarrow> Inl KeyError
      | Some parser \<Rightarrow>
         (case dict_get (w_files w) filepath of
            None \<Rightarrow> Inr st
          | Some text \<Rightarrow>
             bind_result (parser text) (\<lambda>parsed.
               case (if truthy parsed then parsed else VMap []) of
                 VMap settings \<Rightarrow>
                   Inr ((merge_settings settings st)\<lparr>st_filepaths := st_filepaths st @ [filepath]\<rparr>)
               | _ \<Rightarrow> Inl AttributeError)))"

text \<open>
  The operations that may raise after changing the store return the store they leave behind.
\<close>

fun merge_files :: "world \<Rightarrow> fpath list \<Rightarrow> store \<Rightarrow> store \<times> py_error option" where
  "merge_files w [] st = (st, None)"
| "merge_files w (p # ps) st =
     (case merge_file w p st of Inl e \<Rightarrow> (st, Some e) | Inr st' \<Rightarrow> merge_files w ps st')"

definition load_settings :: "world \<Rightarrow> path_input \<Rightarrow> store \<Rightarrow> store \<times> py_error option" where
  "load_settings w filename st =
     (case find_paths w filename None st of
        Inl e \<Rightarrow> (st, Some e)
      | Inr paths \<Rightarrow>
         (case merge_files w paths st of
            (st', Some e) \<Rightarrow> (st', Some e)
          | (st', None) \<Rightarrow> (st'\<lparr>st_filenames := st_filenames st' @ [filename]\<rparr>, None)))"

fun load_all :: "world \<Rightarrow> path_input list \<Rightarrow> store \<Rightarrow> store \<times> py_error option" where
  "load_all w [] st = (st, None)"
| "load_all w (f # fs) st =
     (case load_settings w f st of (st', Some e) \<Rightarrow> (st', Some e) | (st', None) \<Rightarrow> load_all w fs st')"

datatype filenames_arg = NoFilenames | OneFilename path_input | ManyFilenames "path_input list"

definition filename_list :: "filenames_arg \<Rightarrow> path_input list" where
  "filename_list a = (case a of NoFilenames \<Rightarrow> [] | OneFilename f \<Rightarrow> [f] | ManyFilenames fs \<Rightarrow> fs)"

definition new_store ::
    "world \<Rightarrow> filenames_arg \<Rightarrow> search_input option \<Rightarrow> string option \<Rightarrow> store result \<times> world" where
  "new_store w filenames searchpath package =
     (let (path, cache) = (case searchpath of
            Some sp \<Rightarrow> (normalized_search_path (w_env w) None sp, w_cache w)
          | None \<Rightarrow> settings_path (w_env w) package (w_cache w));
          st = \<lparr>st_data = [], st_filenames = [], st_filepaths = [], st_package = package,
                st_searchpath = path\<rparr>
      in (case load_all w (filename_list filenames) st of
            (st', None) \<Rightarrow> Inr st' | (st', Some e) \<Rightarrow> Inl e,
          w\<lparr>w_cache := cache\<rparr>))"

subsection \<open>Reading values\<close>

datatype path_arg = NoPath | PathStr string | PathSeq "component list"

datatype expected = AnyType | Single py_type | Union "py_type list"

fun has_type :: "variant \<Rightarrow> expected \<Rightarrow> bool" where
  "has_type v AnyType = True"
| "has_type v (Single t) = isinstance v t"
| "has_type v (Union ts) = (\<exists>t \<in> set ts. isinstance v t)"

text \<open>
  \<open>expected_type(value)\<close>: a union of types is not callable. The message of the final
  \<open>TypeError\<close> reads \<open>expected_type.__name__\<close>, which a union does not have.
\<close>

fun call_expected :: "expected \<Rightarrow> string \<Rightarrow> variant result" where
  "call_expected (Single t) s = type_call t s"
| "call_expected _ s = Inl TypeError"

fun type_name_error :: "expected \<Rightarrow> py_error" where
  "type_name_error (Union ts) = AttributeError"
| "type_name_error _ = TypeError"

definition is_list :: "variant \<Rightarrow> bool" where
  "is_list v \<longleftrightarrow> (case v of VList _ \<Rightarrow> True | _ \<Rightarrow> False)"

fun walk :: "variant \<Rightarrow> component list \<Rightarrow> variant result" where
  "walk v [] = Inr v"
| "walk v (c # cs) =
     (case c of
        CInt i \<Rightarrow> (if is_list v then bind_result (subscript v c) (\<lambda>v'. walk v' cs) else Inl TypeError)
      | CStr k \<Rightarrow> bind_result (subscript v c) (\<lambda>v'. walk v' cs))"

definition key_given :: "string option \<Rightarrow> bool" where
  "key_given key \<longleftrightarrow> key \<noteq> None \<and> key \<noteq> Some []"

definition path_given :: "path_arg \<Rightarrow> bool" where
  "path_given path \<longleftrightarrow> path \<noteq> NoPath \<and> path \<noteq> PathStr [] \<and> path \<noteq> PathSeq []"

definition effective_path :: "string option \<Rightarrow> path_arg \<Rightarrow> component list result" where
  "effective_path key path =
     (if key_given key = path_given path then Inl TypeError
      else case key of
        Some k \<Rightarrow> Inr [CStr k]
      | None \<Rightarrow> (case path of
          PathStr s \<Rightarrow> Inr [CStr s]
        | PathSeq cs \<Rightarrow> (if cs = [] then Inl ValueError else Inr cs)
        | NoPath \<Rightarrow> Inl ValueError))"

definition check_type ::
    "variant \<Rightarrow> expected \<Rightarrow> variant \<Rightarrow> bool \<Rightarrow> variant result" where
  "check_type value expected dflt raise_invalid_type =
     (let mismatch = (if raise_invalid_type then Inl (type_name_error expected) else Inr dflt) in
      if has_type value expected then Inr value
      else case value of
        VStr s \<Rightarrow> (case call_expected expected s of
            Inr v \<Rightarrow> Inr v
          | Inl e \<Rightarrow> (if e = ValueError then mismatch else Inl e))
      | _ \<Rightarrow> mismatch)"

definition get_value ::
    "store \<Rightarrow> string option \<Rightarrow> path_arg \<Rightarrow> expected \<Rightarrow> variant \<Rightarrow> bool \<Rightarrow> bool \<Rightarrow> variant result" where
  "get_value st key path expected dflt raise_invalid_type raise_missing =
     (case effective_path key path of
        Inl e \<Rightarrow> Inl e
      | Inr cs \<Rightarrow>
         (case walk (VMap (st_data st)) cs of
            Inr value \<Rightarrow> check_type value expected dflt raise_invalid_type
          | Inl e \<Rightarrow>
             (if e = KeyError \<or> e = IndexError then (if raise_missing then Inl e else Inr dflt)
              else if e = TypeError then (if raise_invalid_type then Inl TypeError else Inr dflt)
              else Inl e)))"

subsection \<open>Writing values\<close>

text \<open>
  The loop of \<open>set\<close>, with \<open>obj\<close> as the first argument: the code assigns
  \<open>obj = sub\<close> only when it has just created \<open>sub\<close>, so an element that already names a
  dictionary is passed over and the loop goes on in the same \<open>obj\<close>.
\<close>

fun set_walk :: "vmap \<Rightarrow> string list \<Rightarrow> string \<Rightarrow> variant \<Rightarrow> vmap" where
  "set_walk obj [] key value = dict_set key value obj"
| "set_walk obj (element # path) key value =
     (case dict_get obj element of
        Some (VMap sub) \<Rightarrow> set_walk obj path key value
      | _ \<Rightarrow> dict_set element (VMap (set_walk [] path key value)) obj)"

datatype key_arg = KeyStr string | KeySeq "string list"

definition defaults :: "world \<Rightarrow> path_input list \<Rightarrow> store \<Rightarrow> store result \<times> world" where
  "defaults w filenames st =
     (let (path, cache) = preinstalled_settings_path (w_env w) None (w_cache w) in
      new_store (w\<lparr>w_cache := cache\<rparr>)
        (ManyFilenames (if filenames \<noteq> [] then filenames else st_filenames st))
        (Some (SearchSeq (map InPath path))) None)"

definition store_delta :: "world \<Rightarrow> store \<Rightarrow> vmap result \<times> world" where
  "store_delta w st =
     (case defaults w [] st of
        (Inl e, w') \<Rightarrow> (Inl e, w')
      | (Inr base, w') \<Rightarrow> (Inr (recursive_delta (st_data st) (st_data base)), w'))"

text \<open>
  The loop over the local folders: the first one in which the file can be opened for writing
  gets it. With no folder at all, \<open>failure\<close> is an unbound name.
\<close>

fun write_first :: "world \<Rightarrow> fpath list \<Rightarrow> path_input \<Rightarrow> vmap \<Rightarrow> py_error \<Rightarrow> py_error option \<times> world" where
  "write_first w [] filename settings failure = (Some failure, w)"
| "write_first w (folder # folders) filename settings failure =
     (case with_suffix ''.json'' (combine_paths folder filename) of
        Inl e \<Rightarrow> (Some e, w)
      | Inr filepath \<Rightarrow>
         (if w_can_write w folder filepath
          then (None, w\<lparr>w_files := dict_set filepath (w_json_dump w (VMap settings)) (w_files w)\<rparr>)
          else write_first w folders filename settings OSError))"

definition save_file :: "world \<Rightarrow> path_input option \<Rightarrow> bool \<Rightarrow> store \<Rightarrow> py_error option \<times> world" where
  "save_file w filename only_delta st =
     (let (settings, w1) = (if only_delta then store_delta w st else (Inr (st_data st), w)) in
      case settings of
        Inl e \<Rightarrow> (Some e, w1)
      | Inr data \<Rightarrow>
         (let target = (case filename of
                Some (InStr []) \<Rightarrow> (case st_filenames st of [] \<Rightarrow> None | f # _ \<Rightarrow> Some f)
              | Some f \<Rightarrow> Some f
              | None \<Rightarrow> (case st_filenames st of [] \<Rightarrow> None | f # _ \<Rightarrow> Some f))
          in case target of
               None \<Rightarrow> (Some RuntimeError, w1)
             | Some f \<Rightarrow>
                (let (folders, cache) = local_settings_path (w_env w1) (w_cache w1)
                 in write_first (w1\<lparr>w_cache := cache\<rparr>) folders f data NameError)))"

definition save_delta :: "world \<Rightarrow> path_input option \<Rightarrow> store \<Rightarrow> py_error option \<times> world" where
  "save_delta w filename st = save_file w filename True st"

definition set_value ::
    "world \<Rightarrow> key_arg \<Rightarrow> variant \<Rightarrow> bool \<Rightarrow> store \<Rightarrow> store \<times> py_error option \<times> world" where
  "set_value w key value save st =
     (case (case key of KeyStr s \<Rightarrow> Some ([], s)
            | KeySeq ks \<Rightarrow> (if ks = [] then None else Some (butlast ks, last ks))) of
        None \<Rightarrow> (st, Some ValueError, w)
      | Some (path, k) \<Rightarrow>
         (let st' = st\<lparr>st_data := set_walk (st_data st) path k value\<rparr> in
          if save \<and> st_filenames st' \<noteq> [] then
            (let (err, w') = save_delta w None st' in (st', err, w'))
          else (st', None, w)))"

end
