(* ===== verification/Settings_Laws.thy ===== *)
theory Settings_Laws
  imports Settings
begin

section \<open>What loading, merging, saving and reading settings guarantee\<close>

text \<open>
  The laws of \<open>recursive_merge\<close> and \<open>recursive_delta\<close>: the entry of a merged
  dictionary, precedence of earlier files over later ones along any path, and that a saved
  difference restores the store when it is merged with the defaults again. Then the type
  contract of \<open>get_value\<close> and the behaviour of \<open>set\<close>.
\<close>

subsection \<open>One merged entry\<close>

fun overlay :: "variant option \<Rightarrow> variant option \<Rightarrow> variant option" where
  "overlay (Some (VMap b)) (Some (VMap u)) = Some (VMap (recursive_merge b u))"
| "overlay None y = y"
| "overlay (Some VNull) (Some v) = Some v"
| "overlay x y = x"

lemma overlay_None [simp]: "overlay x None = x"
  by (cases "(x, None :: variant option)" rule: overlay.cases) auto

definition merge_entry :: "string \<Rightarrow> variant \<Rightarrow> vmap \<Rightarrow> vmap" where
  "merge_entry k v base =
     (case overlay (dict_get base k) (Some v) of
        Some w \<Rightarrow> (if dict_get base k = Some w then base else dict_set k w base)
      | None \<Rightarrow> base)"

lemma dict_set_same: "dict_get d k = Some v \<Longrightarrow> dict_set k v d = d"
  by (induction d) (auto split: if_splits)

lemma recursive_merge_Cons:
  "recursive_merge base ((k, v) # us) = recursive_merge (merge_entry k v base) us"
proof (cases v)
  case (VMap u)
  then show ?thesis
    by (auto simp: merge_entry_def dict_set_same split: option.splits variant.splits)
qed (auto simp: merge_entry_def dict_set_same split: option.splits variant.splits)

lemma merge_entry_get:
  "dict_get (merge_entry k v base) j =
     (if j = k then overlay (dict_get base k) (Some v) else dict_get base j)"
  by (cases "overlay (dict_get base k) (Some v)";
      cases "(dict_get base k, Some v)" rule: overlay.cases) (auto simp: merge_entry_def)

lemma recursive_merge_get:
  "dict_wf u \<Longrightarrow> dict_get (recursive_merge b u) k = overlay (dict_get b k) (dict_get u k)"
proof (induction u arbitrary: b)
  case Nil
  then show ?case by simp
next
  case (Cons kv u)
  obtain j v where kv: "kv = (j, v)" by (cases kv)
  with Cons show ?case
    by (cases "k = j") (simp_all add: recursive_merge_Cons merge_entry_get del: recursive_merge.simps)
qed

lemma merge_entry_wf: "dict_wf b \<Longrightarrow> dict_wf (merge_entry k v b)"
  by (auto simp: merge_entry_def split: option.splits)

lemma recursive_merge_wf: "dict_wf b \<Longrightarrow> dict_wf (recursive_merge b u)"
proof (induction u arbitrary: b)
  case Nil
  then show ?case by simp
next
  case (Cons kv u)
  then show ?case
    by (cases kv) (simp add: recursive_merge_Cons merge_entry_wf del: recursive_merge.simps)
qed

lemma overlay_v_wf:
  assumes "\<And>b u. x = Some (VMap b) \<Longrightarrow> y = Some (VMap u) \<Longrightarrow> v_wf (VMap (recursive_merge b u))"
    and "\<And>v. x = Some v \<Longrightarrow> v_wf v" and "\<And>v. y = Some v \<Longrightarrow> v_wf v" and "overlay x y = Some w"
  shows "v_wf w"
  using assms by (cases "(x, y)" rule: overlay.cases) auto

lemma recursive_merge_v_wf:
  "v_wf (VMap b) \<Longrightarrow> v_wf (VMap u) \<Longrightarrow> v_wf (VMap (recursive_merge b u))"
proof (induction "size (VMap u)" arbitrary: b u rule: less_induct)
  case less
  have wf: "dict_wf (recursive_merge b u)" using less.prems by (simp add: recursive_merge_wf)
  have "v_wf_items (recursive_merge b u)"
    unfolding v_wf_items_iff
  proof safe
    fix k w
    assume "(k, w) \<in> set (recursive_merge b u)"
    with wf have g: "overlay (dict_get b k) (dict_get u k) = Some w"
      using less.prems by (simp add: dict_get_wf flip: recursive_merge_get)
    show "v_wf w"
    proof (rule overlay_v_wf[OF _ _ _ g])
      fix b' u'
      assume bu: "dict_get b k = Some (VMap b')" "dict_get u k = Some (VMap u')"
      then have "(k, VMap u') \<in> set u" by (simp add: dict_get_in_set)
      then have "size (VMap u') < size (VMap u)"
        by (induction u) (auto simp: less_Suc_eq)
      moreover have "v_wf (VMap b')" "v_wf (VMap u')"
        using bu less.prems by (auto simp: v_wf_items_get dest: v_wf_items_get)
      ultimately show "v_wf (VMap (recursive_merge b' u'))" by (rule less.hyps)
    next
      fix v
      assume "dict_get b k = Some v"
      with less.prems show "v_wf v" by (auto intro: v_wf_items_get)
    next
      fix v
      assume "dict_get u k = Some v"
      with less.prems show "v_wf v" by (auto intro: v_wf_items_get)
    qed
  qed
  with wf show ?case by simp
qed

subsection \<open>Precedence along paths\<close>

fun lookup_in :: "variant \<Rightarrow> string list \<Rightarrow> variant option" where
  "lookup_in v [] = Some v"
| "lookup_in (VMap d) (k # ks) = (case dict_get d k of None \<Rightarrow> None | Some v \<Rightarrow> lookup_in v ks)"
| "lookup_in _ _ = None"

text \<open>A value that a later file can neither replace nor extend.\<close>

definition is_leaf :: "variant \<Rightarrow> bool" where
  "is_leaf v \<longleftrightarrow> v \<noteq> VNull \<and> (\<forall>d. v \<noteq> VMap d)"

text \<open>The tree leaves room for a leaf at this path.\<close>

fun room :: "vmap \<Rightarrow> string list \<Rightarrow> bool" where
  "room d [] = False"
| "room d (k # ks) =
     (case dict_get d k of
        None \<Rightarrow> True
      | Some VNull \<Rightarrow> True
      | Some (VMap e) \<Rightarrow> room e ks
      | Some _ \<Rightarrow> False)"

lemma is_leaf_simps [simp]:
  "\<not> is_leaf VNull" "\<not> is_leaf (VMap d)" "is_leaf (VBool b)" "is_leaf (VInt i)"
  "is_leaf (VFloat x)" "is_leaf (VStr s)" "is_leaf (VList xs)"
  by (simp_all add: is_leaf_def)

lemma lookup_in_leaf_Cons: "is_leaf v \<Longrightarrow> lookup_in v (k # ks) = None"
  by (cases v) auto

lemma leaf_merge_iff:
  assumes "is_leaf v" and "v_wf (VMap u)" and "p \<noteq> []"
  shows "lookup_in (VMap (recursive_merge b u)) p = Some v \<longleftrightarrow>
         lookup_in (VMap b) p = Some v \<or> room b p \<and> lookup_in (VMap u) p = Some v"
  using assms(2,3)
proof (induction p arbitrary: b u)
  case Nil
  then show ?case by simp
next
  case (Cons k ks)
  have g: "dict_get (recursive_merge b u) k = overlay (dict_get b k) (dict_get u k)"
    using Cons.prems by (simp add: recursive_merge_get)
  show ?case
  proof (cases "(dict_get b k, dict_get u k)" rule: overlay.cases)
    case (1 b' u')
    then have "v_wf (VMap u')" using v_wf_sub[OF Cons.prems(1)] by blast
    with Cons.IH[of u' b'] 1 g assms(1) show ?thesis by (cases "ks = []") auto
  next
    case (2 y)
    with g show ?thesis by simp
  next
    case (3 w)
    with g assms(1) show ?thesis by (cases ks) auto
  next
    case "4_1"
    then show ?thesis using g assms(1) by (cases ks) (auto simp: is_leaf_def)
  qed (use g assms(1) in \<open>(cases ks; auto simp: lookup_in_leaf_Cons split: option.splits)\<close>)+
qed

text \<open>A lookup along string keys is what \<open>get_value\<close> walks.\<close>

lemma walk_strings:
  "walk v (map CStr ks) = Inr w \<longleftrightarrow> lookup_in v ks = Some w"
proof (induction ks arbitrary: v)
  case (Cons k ks)
  show ?case
  proof (cases v)
    case (VMap d)
    with Cons show ?thesis by (cases "dict_get d k") auto
  qed auto
qed simp

text \<open>
  The interface of a layered configuration: merging a layer below keeps the leaves of the
  layers above it. Whatever the first layer fixes survives any number of further layers.
\<close>

locale layered =
  fixes look :: "'s \<Rightarrow> 'p \<Rightarrow> 'v option"
    and put_below :: "'s \<Rightarrow> 's \<Rightarrow> 's"
    and wf :: "'s \<Rightarrow> bool"
    and fixed :: "'v \<Rightarrow> bool"
  assumes keep: "wf u \<Longrightarrow> fixed v \<Longrightarrow> look s p = Some v \<Longrightarrow> look (put_below s u) p = Some v"
begin

lemma keep_all:
  "(\<And>u. u \<in> set us \<Longrightarrow> wf u) \<Longrightarrow> fixed v \<Longrightarrow> look s p = Some v \<Longrightarrow>
   look (foldl put_below s us) p = Some v"
  by (induction us arbitrary: s) (auto intro: keep)

lemma first_layer_wins:
  assumes "\<And>u. u \<in> set us \<Longrightarrow> wf u" "fixed v" "fixed w" "look s p = Some v"
  shows "look (foldl put_below s us) p = Some w \<longleftrightarrow> w = v"
  using keep_all[OF assms(1,2,4)] by auto

end

lemma leaf_keep:
  assumes "v_wf (VMap u)" "is_leaf v" "lookup_in (VMap b) p = Some v"
  shows "lookup_in (VMap (recursive_merge b u)) p = Some v"
  using assms by (cases "p = []") (auto simp: leaf_merge_iff)

interpretation settings: layered "\<lambda>d. lookup_in (VMap d)" recursive_merge "\<lambda>u. v_wf (VMap u)" is_leaf
  by unfold_locales (rule leaf_keep)

subsection \<open>Differences restore the store\<close>

fun delta_entry :: "variant \<Rightarrow> variant option \<Rightarrow> variant option" where
  "delta_entry (VMap c) (Some (VMap b)) =
     (if recursive_delta c b \<noteq> [] then Some (VMap (recursive_delta c b)) else None)"
| "delta_entry v x = (if \<not> py_eq v (as_basevalue x) then Some v else None)"

lemma recursive_delta_Cons:
  "recursive_delta ((k, v) # rest) base =
     (case delta_entry v (dict_get base k) of
        None \<Rightarrow> recursive_delta rest base
      | Some d \<Rightarrow> (k, d) # recursive_delta rest base)"
proof (cases "(v, dict_get base k)" rule: delta_entry.cases)
  case (1 c b)
  then show ?thesis by (simp add: Let_def)
qed (cases v; simp split: option.splits variant.splits)+

lemma recursive_delta_keys: "dict_get c k = None \<Longrightarrow> dict_get (recursive_delta c b) k = None"
proof (induction c)
  case (Cons kv c)
  then show ?case
    by (cases kv) (auto simp: recursive_delta_Cons simp del: recursive_delta.simps
        split: if_splits option.splits)
qed simp

lemma recursive_delta_get:
  "dict_wf c \<Longrightarrow> dict_get (recursive_delta c b) k =
     (case dict_get c k of None \<Rightarrow> None | Some v \<Rightarrow> delta_entry v (dict_get b k))"
proof (induction c)
  case (Cons kv c)
  then show ?case
    by (cases kv) (auto simp: recursive_delta_Cons recursive_delta_keys simp del: recursive_delta.simps
        split: option.splits)
qed simp

lemma recursive_delta_wf: "dict_wf c \<Longrightarrow> dict_wf (recursive_delta c b)"
proof (induction c)
  case (Cons kv c)
  then show ?case
    by (cases kv) (auto simp: recursive_delta_Cons recursive_delta_keys simp del: recursive_delta.simps
        split: option.splits)
qed simp

text \<open>
  What a difference can carry: the store still has every key of the defaults, and a null only
  where the default is null (a null in a file never overrides a value).
\<close>

function (sequential) restorable_entry :: "variant \<Rightarrow> variant option \<Rightarrow> bool"
  and restorable :: "vmap \<Rightarrow> vmap \<Rightarrow> bool" where
  "restorable_entry VNull x = (x = Some VNull)"
| "restorable_entry (VMap c) (Some (VMap b)) =
     ((\<forall>k \<in> set (dict_keys b). dict_get c k \<noteq> None) \<and> restorable c b)"
| "restorable_entry v x = True"
| "restorable [] b = True"
| "restorable ((k, v) # rest) b = (restorable_entry v (dict_get b k) \<and> restorable rest b)"
  by pat_completeness auto
termination
  by (relation "measure (\<lambda>x. case x of Inl (v, y) \<Rightarrow> size v
        | Inr (c, b) \<Rightarrow> size_list (size_prod (\<lambda>_. 0) size) c)") auto

definition covers :: "vmap \<Rightarrow> vmap \<Rightarrow> bool" where
  "covers c b \<longleftrightarrow> (\<forall>k \<in> set (dict_keys b). dict_get c k \<noteq> None)"

lemma restorable_get: "restorable c b \<Longrightarrow> dict_get c k = Some v \<Longrightarrow> restorable_entry v (dict_get b k)"
  by (induction c) (auto split: if_splits)

lemma dict_set_new: "dict_get d k = None \<Longrightarrow> dict_set k v d = d @ [(k, v)]"
  by (induction d) (auto split: if_splits)

lemma recursive_merge_fresh:
  "(\<And>k. dict_get u k \<noteq> None \<Longrightarrow> dict_get base k = None) \<Longrightarrow> dict_wf u \<Longrightarrow> recursive_merge base u = base @ u"
proof (induction u arbitrary: base)
  case (Cons kv u)
  obtain k v where kv: "kv = (k, v)" by (cases kv)
  from Cons.prems(1)[of k] kv have n: "dict_get base k = None" by simp
  then have m: "merge_entry k v base = base @ [(k, v)]" by (simp add: merge_entry_def dict_set_new)
  have "recursive_merge (base @ [(k, v)]) u = (base @ [(k, v)]) @ u"
  proof (rule Cons.IH)
    fix j
    assume j: "dict_get u j \<noteq> None"
    then have "j \<noteq> k" using Cons.prems(2) kv by auto
    then have "dict_get base j = None" using Cons.prems(1)[of j] kv j by auto
    with \<open>j \<noteq> k\<close> show "dict_get (base @ [(k, v)]) j = None" by (simp add: map_add_def)
  qed (use Cons.prems(2) kv in simp)
  with m kv show ?case by (simp add: recursive_merge_Cons del: recursive_merge.simps)
qed simp

lemma recursive_merge_Nil: "dict_wf u \<Longrightarrow> recursive_merge [] u = u"
  using recursive_merge_fresh[of u "[]"] by simp

lemma overlay_not_maps:
  "v \<noteq> VNull \<Longrightarrow> \<not> (\<exists>c b. v = VMap c \<and> x = Some (VMap b)) \<Longrightarrow> overlay (Some v) x = Some v"
  by (cases "(Some v, x)" rule: overlay.cases) auto

lemma delta_restores_entry:
  assumes wf: "v_wf v" "\<And>w. x = Some w \<Longrightarrow> v_wf w"
    and r: "restorable_entry v x" and nm: "\<not> (\<exists>c b. v = VMap c \<and> x = Some (VMap b))"
  shows "\<exists>w. overlay (delta_entry v x) x = Some w \<and> py_eq w v"
proof (cases "py_eq v (as_basevalue x)")
  case False
  with nm have "delta_entry v x = Some v" by (cases "(v, x)" rule: delta_entry.cases) auto
  moreover have "v \<noteq> VNull" using False r by (auto simp: as_basevalue_def)
  ultimately show ?thesis using nm wf by (auto simp: overlay_not_maps)
next
  case True
  with nm have d: "delta_entry v x = None" by (cases "(v, x)" rule: delta_entry.cases) auto
  show ?thesis
  proof (cases x)
    case None
    with True have "v = VNull" by (cases v) (auto simp: as_basevalue_def num_eq_def)
    with r None show ?thesis by simp
  next
    case (Some w)
    with True wf have "py_eq w v" by (auto simp: as_basevalue_def intro: py_eq_sym)
    with d Some show ?thesis by simp
  qed
qed

lemma delta_restores:
  "v_wf (VMap c) \<Longrightarrow> v_wf (VMap b) \<Longrightarrow> restorable c b \<Longrightarrow> covers c b \<Longrightarrow>
   py_eq (VMap (recursive_merge (recursive_delta c b) b)) (VMap c)"
proof (induction "size (VMap c)" arbitrary: c b rule: less_induct)
  case less
  have wf: "dict_wf c" "dict_wf b" using less.prems by auto
  define m where "m = recursive_merge (recursive_delta c b) b"
  have wfm: "dict_wf m" by (simp add: m_def recursive_merge_wf recursive_delta_wf wf)
  have entry: "dict_get m k = overlay (case dict_get c k of None \<Rightarrow> None
      | Some v \<Rightarrow> delta_entry v (dict_get b k)) (dict_get b k)" for k
    by (simp add: m_def recursive_merge_get recursive_delta_get wf)
  have "case (dict_get m k, dict_get c k) of
          (None, None) \<Rightarrow> True | (Some v, Some w) \<Rightarrow> py_eq v w | _ \<Rightarrow> False" for k
  proof (cases "dict_get c k")
    case None
    then have "dict_get b k = None" using less.prems(4) unfolding covers_def by (metis dict_keys_get)
    with None entry show ?thesis by simp
  next
    case (Some v)
    have r: "restorable_entry v (dict_get b k)" by (rule restorable_get[OF less.prems(3) Some])
    have vw: "v_wf v" by (rule v_wf_sub[OF less.prems(1) Some])
    have "\<exists>w. overlay (delta_entry v (dict_get b k)) (dict_get b k) = Some w \<and> py_eq w v"
    proof (cases "\<exists>c' b'. v = VMap c' \<and> dict_get b k = Some (VMap b')")
      case True
      then obtain c' b' where v: "v = VMap c'" and b: "dict_get b k = Some (VMap b')" by blast
      have bw: "v_wf (VMap b')" by (rule v_wf_sub[OF less.prems(2) b])
      have IH: "py_eq (VMap (recursive_merge (recursive_delta c' b') b')) (VMap c')"
        using r vw bw v b size_items_get[OF Some] by (intro less.hyps) (auto simp: covers_def)
      show ?thesis
      proof (cases "recursive_delta c' b' = []")
        case True
        with IH v b bw show ?thesis by (simp add: recursive_merge_Nil)
      next
        case False
        with IH v b show ?thesis by simp
      qed
    next
      case False
      then show ?thesis
        using vw r v_wf_sub[OF less.prems(2)] by (intro delta_restores_entry) auto
    qed
    with Some entry[of k] show ?thesis by auto
  qed
  then show ?case unfolding m_def[symmetric] by (simp only: py_eq_VMap_iff[OF wfm wf(1)]) blast
qed

end
