(* ===== verification/Settings_Props.thy ===== *)
theory Settings_Props
  imports Settings_Laws
begin

section \<open>Properties of the settings store\<close>

text \<open>
  Helper lemmas first (what a list of files contributes, which files a search finds), then
  the properties of the component, each with a concrete instance.
\<close>

subsection \<open>What a list of files contributes\<close>

text \<open>The tree a file contributes, \<open>None\<close> when it is skipped.\<close>

definition contribution :: "world \<Rightarrow> fpath \<Rightarrow> vmap option" where
  "contribution w p =
     (case (parser_map w (path_suffix p), dict_get (w_files w) p) of
        (Some parser, Some text) \<Rightarrow>
          (case parser text of
             Inr v \<Rightarrow> (case (if truthy v then v else VMap []) of VMap d \<Rightarrow> Some d | _ \<Rightarrow> None)
           | Inl _ \<Rightarrow> None)
      | _ \<Rightarrow> None)"

definition contributions :: "world \<Rightarrow> fpath list \<Rightarrow> vmap list" where
  "contributions w ps = List.map_filter (contribution w) ps"

lemma contributions_simps [simp]:
  "contributions w [] = []"
  "contributions w (p # ps) =
     (case contribution w p of None \<Rightarrow> contributions w ps | Some d \<Rightarrow> d # contributions w ps)"
  by (simp_all add: contributions_def map_filter_def split: option.splits)

lemma contributions_append: "contributions w (ps @ qs) = contributions w ps @ contributions w qs"
  by (induction ps) (auto split: option.splits)

lemma merge_file_data:
  assumes "merge_file w p st = Inr st'"
  shows "st_data st' = (case contribution w p of None \<Rightarrow> st_data st | Some d \<Rightarrow> recursive_merge (st_data st) d)
         \<and> st_filenames st' = st_filenames st \<and> st_searchpath st' = st_searchpath st"
proof (cases "parser_map w (path_suffix p)")
  case None
  with assms show ?thesis by (simp add: merge_file_def)
next
  case (Some parser)
  show ?thesis
  proof (cases "dict_get (w_files w) p")
    case None
    with assms Some show ?thesis by (simp add: merge_file_def contribution_def)
  next
    case (Some contents)
    with assms \<open>parser_map w (path_suffix p) = Some parser\<close> obtain v
      where v: "parser contents = Inr v" and m: "(case (if truthy v then v else VMap []) of
          VMap d \<Rightarrow> Inr ((merge_settings d st)\<lparr>st_filepaths := st_filepaths st @ [p]\<rparr>)
        | _ \<Rightarrow> Inl AttributeError) = (Inr st' :: store result)"
      by (auto simp: merge_file_def result_simps)
    from m obtain d where d: "(if truthy v then v else VMap []) = VMap d"
      and st': "st' = (merge_settings d st)\<lparr>st_filepaths := st_filepaths st @ [p]\<rparr>"
      by (cases "if truthy v then v else VMap []") auto
    from v d Some \<open>parser_map w (path_suffix p) = Some parser\<close> have "contribution w p = Some d"
      by (simp add: contribution_def)
    with st' show ?thesis by (simp add: merge_settings_def)
  qed
qed

lemma merge_files_data:
  "merge_files w ps st = (st', None) \<Longrightarrow>
   st_data st' = foldl recursive_merge (st_data st) (contributions w ps)
   \<and> st_filenames st' = st_filenames st \<and> st_searchpath st' = st_searchpath st"
proof (induction ps arbitrary: st)
  case (Cons p ps)
  then obtain st1 where st1: "merge_file w p st = Inr st1" "merge_files w ps st1 = (st', None)"
    by (auto split: sum.splits)
  from Cons.IH[OF st1(2)] merge_file_data[OF st1(1)] show ?case by (auto split: option.splits)
qed simp

lemma foldl_merge_wf:
  "v_wf (VMap b) \<Longrightarrow> \<forall>d \<in> set ds. v_wf (VMap d) \<Longrightarrow> v_wf (VMap (foldl recursive_merge b ds))"
proof (induction ds arbitrary: b)
  case (Cons d ds)
  then have "v_wf (VMap (recursive_merge b d))" by (intro recursive_merge_v_wf) auto
  with Cons show ?case by auto
qed simp

lemma foldl_merge_leaf:
  assumes "is_leaf v" and "\<forall>d \<in> set ds. v_wf (VMap d)" and "p \<noteq> []"
  shows "lookup_in (VMap (foldl recursive_merge b ds)) p = Some v \<longleftrightarrow>
     lookup_in (VMap b) p = Some v
     \<or> (\<exists>i < length ds. room (foldl recursive_merge b (take i ds)) p \<and> lookup_in (VMap (ds ! i)) p = Some v)"
  using assms(2)
proof (induction ds rule: rev_induct)
  case (snoc d ds)
  let ?m = "foldl recursive_merge b"
  have split: "(\<exists>i < length (ds @ [d]). P i) \<longleftrightarrow> (\<exists>i < length ds. P i) \<or> P (length ds)" for P :: "nat \<Rightarrow> bool"
    by (auto simp: less_Suc_eq)
  have cong: "(\<exists>i < length ds. room (?m (take i (ds @ [d]))) p \<and> lookup_in (VMap ((ds @ [d]) ! i)) p = Some v)
      \<longleftrightarrow> (\<exists>i < length ds. room (?m (take i ds)) p \<and> lookup_in (VMap (ds ! i)) p = Some v)"
    by (intro ex_cong1) (auto simp: nth_append)
  have "v_wf (VMap d)" using snoc.prems by simp
  from leaf_merge_iff[OF assms(1) this assms(3), of "?m ds"] snoc.IH snoc.prems
  show ?case unfolding split cong by auto
qed simp

subsection \<open>Reading a leaf\<close>

lemma get_value_path:
  assumes "ks \<noteq> []"
  shows "get_value st None (PathSeq (map CStr ks)) AnyType d True True = Inr v
     \<longleftrightarrow> lookup_in (VMap (st_data st)) ks = Some v"
proof -
  have "effective_path None (PathSeq (map CStr ks)) = Inr (map CStr ks)"
    using assms by (simp add: effective_path_def key_given_def path_given_def)
  then show ?thesis
    using walk_strings[of "VMap (st_data st)" ks v]
    by (auto simp: get_value_def check_type_def split: sum.splits)
qed

text \<open>
  C1. Precedence of settings files. After \<open>merge_files\<close> over the files a search found,
  \<open>get_value\<close> returns the non-null scalar or list \<open>v\<close> at a key path exactly when the
  store already had it, or some file has it there and what was merged before that file left
  room: every key on the way was missing, null or a dictionary. So an earlier file (a folder
  nearer the front of the search path) is never overridden, and nothing is invented.
\<close>

theorem settings_precedence:
  assumes "merge_files w ps st = (st', None)"
    and "\<forall>d \<in> set (contributions w ps). v_wf (VMap d)"
    and "is_leaf v" and "ks \<noteq> []"
  shows "get_value st' None (PathSeq (map CStr ks)) AnyType VNull True True = Inr v \<longleftrightarrow>
     get_value st None (PathSeq (map CStr ks)) AnyType VNull True True = Inr v
     \<or> (\<exists>i < length (contributions w ps).
           room (foldl recursive_merge (st_data st) (take i (contributions w ps))) ks
           \<and> lookup_in (VMap (contributions w ps ! i)) ks = Some v)"
  using foldl_merge_leaf[OF assms(3,2,4)] merge_files_data[OF assms(1)]
  by (simp add: get_value_path[OF assms(4)])

definition sample_world :: world where
  "sample_world =
     \<lparr>w_env = \<lparr>argv0 = ''/usr/bin/app'', cwd = FPath True [], getenv = (\<lambda>_. None), geteuid = Some 0,
        package_files = (\<lambda>_. FPath True [''opt'', ''py'', ''a'', ''b'']), own_package = ''cc.core'',
        path_exists = (\<lambda>_. False), path_is_dir = (\<lambda>_. True), settings_dir = ''settings'',
        local_settings_dir = ''etc'', shared_data_dir_name = ''share'', install_root_name = ''/usr'',
        organization = ''org''\<rparr>,
      w_cache = [(''local'', [FPath True [''etc'']]), (''preinstalled'', [FPath True [''usr'']])],
      w_files = [(FPath True [''etc'', ''app.json''], ''{local}''),
                 (FPath True [''usr'', ''app.json''], ''{default}'')],
      w_can_write = (\<lambda>_ _. True),
      w_json_loads = (\<lambda>s. if s = ''{local}'' then Inr (VMap [(''a'', VInt 1)])
         else if s = ''{default}'' then Inr (VMap [(''a'', VInt 2), (''b'', VMap [(''c'', VInt 3)])])
         else if s = ''{}'' then Inr (VMap [])
         else Inr (VMap [(''b'', VMap [(''c'', VInt 4)])])),
      w_yaml_load = (\<lambda>_. Inr VNull), w_ini_parse = (\<lambda>_. Inr VNull),
      w_json_dump = (\<lambda>v. if v = VMap [] then ''{}'' else ''{delta}'')\<rparr>"

definition sample_store :: store where
  "sample_store = \<lparr>st_data = [], st_filenames = [], st_filepaths = [], st_package = None,
     st_searchpath = [FPath True [''etc''], FPath True [''usr'']]\<rparr>"

lemmas sample_simps = sample_world_def sample_store_def contributions_def map_filter_def
  contribution_def parser_map_def parse_text_def merge_file_def merge_settings_def

theorem settings_precedence_witness:
  "\<exists>st'. merge_files sample_world [FPath True [''etc'', ''app.json''], FPath True [''usr'', ''app.json'']]
            sample_store = (st', None)
     \<and> get_value st' None (PathSeq [CStr ''b'', CStr ''c'']) AnyType VNull True True = Inr (VInt 3)"
proof -
  let ?ps = "[FPath True [''etc'', ''app.json''], FPath True [''usr'', ''app.json'']]"
  have "snd (merge_files sample_world ?ps sample_store) = None" by code_simp
  then obtain st' where st': "merge_files sample_world ?ps sample_store = (st', None)"
    by (cases "merge_files sample_world ?ps sample_store") auto
  have c: "contributions sample_world ?ps
      = [[(''a'', VInt 1)], [(''a'', VInt 2), (''b'', VMap [(''c'', VInt 3)])]]" by code_simp
  have "get_value st' None (PathSeq (map CStr [''b'', ''c''])) AnyType VNull True True = Inr (VInt 3)"
  proof (rule settings_precedence[THEN iffD2, OF st'])
    show "\<forall>d \<in> set (contributions sample_world ?ps). v_wf (VMap d)" unfolding c by simp
    show "get_value sample_store None (PathSeq (map CStr [''b'', ''c''])) AnyType VNull True True = Inr (VInt 3)
      \<or> (\<exists>i < length (contributions sample_world ?ps).
           room (foldl recursive_merge (st_data sample_store) (take i (contributions sample_world ?ps))) [''b'', ''c'']
           \<and> lookup_in (VMap (contributions sample_world ?ps ! i)) [''b'', ''c''] = Some (VInt 3))"
      unfolding c by (intro disjI2 exI[of _ 1]) (simp add: sample_store_def)
  qed simp_all
  with st' show ?thesis by auto
qed

subsection \<open>Searching\<close>

definition candidates :: "path_input \<Rightarrow> fpath list result" where
  "candidates f =
     (if path_suffix (as_path f) \<noteq> [] then Inr [as_path f]
      else map_result (\<lambda>s. with_suffix s (as_path f)) parser_suffixes)"

definition folder_files :: "world \<Rightarrow> fpath list \<Rightarrow> fpath \<Rightarrow> fpath list" where
  "folder_files w names folder = filter (is_file w) (map (path_join folder) names)"

lemma filter_concat_map: "filter P (concat (map f xs)) = concat (map (\<lambda>x. filter P (f x)) xs)"
  by (induction xs) auto

lemma find_relative:
  assumes "\<not> is_absolute (as_path f)" "candidates f = Inr names"
  shows "find_file_paths w f sp = Inr (concat (map (folder_files w names) sp))"
proof -
  have "folder_files w names = (\<lambda>folder. filter (is_file w) (map (path_join folder) names))"
    by (rule ext) (simp add: folder_files_def)
  with assms show ?thesis
    by (simp add: find_file_paths_def candidates_def filter_concat_map Let_def split: if_splits)
qed

lemma is_file_update: "is_file (w\<lparr>w_files := dict_set p t (w_files w)\<rparr>) q \<longleftrightarrow> q = p \<or> is_file w q"
  by (simp add: is_file_def)

text \<open>A store loaded from one name.\<close>

lemma load_one:
  assumes "find_file_paths w f (st_searchpath st) = Inr ps" and "merge_files w ps st = (st', None)"
  shows "load_all w [f] st = (st'\<lparr>st_filenames := st_filenames st' @ [f]\<rparr>, None)"
  using assms by (simp add: load_settings_def find_paths_def)

lemma merge_files_ok:
  assumes "\<forall>p \<in> set ps. contribution w p \<noteq> None"
  shows "snd (merge_files w ps st) = None"
  using assms
proof (induction ps arbitrary: st)
  case (Cons p ps)
  then have "contribution w p \<noteq> None" by simp
  then have "\<exists>st'. merge_file w p st = Inr st'"
    by (auto simp: contribution_def merge_file_def
        split: option.splits sum.splits variant.splits if_splits)
  with Cons show ?case by auto
qed simp

subsection \<open>Saving and loading again\<close>

text \<open>
  What is assumed of \<open>json.dump\<close> and \<open>json.loads\<close> for one tree: the output consists of
  plain characters and quoted strings, is not blank and has no outer white space, and is read
  back as that tree.
\<close>

definition json_roundtrip :: "world \<Rightarrow> vmap \<Rightarrow> bool" where
  "json_roundtrip w d \<longleftrightarrow>
     (\<exists>ps. (\<forall>p \<in> set ps. piece_ok p \<and> \<not> is_comment p)
           \<and> w_json_dump w (VMap d) = concat (map piece_text ps))
     \<and> strip (w_json_dump w (VMap d)) = w_json_dump w (VMap d) \<and> w_json_dump w (VMap d) \<noteq> []
     \<and> w_json_loads w (w_json_dump w (VMap d)) = Inr (VMap d)"

lemma parse_dumped:
  assumes "json_roundtrip w d"
  shows "parse_text (w_json_loads w) (w_json_dump w (VMap d)) = Inr (VMap d)"
  using assms by (auto simp: json_roundtrip_def parse_text_def remove_comments_id)

lemma written_contribution:
  assumes "json_roundtrip w d" "path_suffix p = ''.json''"
  shows "contribution (w\<lparr>w_files := dict_set p (w_json_dump w (VMap d)) (w_files w)\<rparr>) p = Some d"
  using assms by (cases d) (simp_all add: contribution_def parser_map_def parse_dumped)

lemma other_contribution:
  "q \<noteq> p \<Longrightarrow> contribution (w\<lparr>w_files := dict_set p t (w_files w)\<rparr>) q = contribution w q"
  by (simp add: contribution_def parser_map_def cong: if_cong)

text \<open>
  A deployment with one local folder and one preinstalled folder that holds one default file
  with the tree \<open>b\<close>; the local folder has no YAML or INI file of that name.
\<close>

definition deployed :: "world \<Rightarrow> path_input \<Rightarrow> fpath \<Rightarrow> fpath \<Rightarrow> fpath \<Rightarrow> fpath \<Rightarrow> vmap \<Rightarrow> bool" where
  "deployed w f local_dir default_dir target source b \<longleftrightarrow>
     dict_get (w_cache w) ''local'' = Some [local_dir]
     \<and> dict_get (w_cache w) ''preinstalled'' = Some [default_dir]
     \<and> is_absolute default_dir \<and> path_is_dir (w_env w) default_dir
     \<and> \<not> is_absolute (as_path f) \<and> path_suffix (as_path f) = [] \<and> path_name (as_path f) \<noteq> []
     \<and> with_suffix ''.json'' (path_join local_dir (as_path f)) = Inr target
     \<and> (\<forall>s. with_suffix s (path_join default_dir (as_path f)) \<noteq> Inr target)
     \<and> (\<forall>s \<in> {''.yaml'', ''.ini''}. \<forall>p. with_suffix s (path_join local_dir (as_path f)) = Inr p \<longrightarrow> \<not> is_file w p)
     \<and> find_file_paths w f [default_dir] = Inr [source] \<and> contribution w source = Some b"

lemma candidates_three:
  assumes "path_suffix (as_path f) = []" "path_name (as_path f) \<noteq> []"
  obtains j y i where "candidates f = Inr [j, y, i]"
    "with_suffix ''.json'' (as_path f) = Inr j" "with_suffix ''.yaml'' (as_path f) = Inr y"
    "with_suffix ''.ini'' (as_path f) = Inr i"
proof -
  have "\<exists>q. with_suffix s (as_path f) = Inr q" for s
    using assms(2) by (simp add: with_suffix_def Let_def)
  then obtain j y i where "with_suffix ''.json'' (as_path f) = Inr j"
    "with_suffix ''.yaml'' (as_path f) = Inr y" "with_suffix ''.ini'' (as_path f) = Inr i" by metis
  then show thesis using assms that by (simp add: candidates_def parser_suffixes_def)
qed

lemma deployed_defaults:
  assumes d: "deployed w f L D target source b" and v: "v_wf (VMap b)"
    and n: "st_filenames st = [f]"
  shows "\<exists>base. defaults w [] st = (Inr base, w) \<and> st_data base = b"
proof -
  define st0 where "st0 = \<lparr>st_data = [], st_filenames = [], st_filepaths = [], st_package = None,
      st_searchpath = [D]\<rparr>"
  have path: "normalized_search_path (w_env w) None (SearchSeq [InPath D]) = [D]"
    using d by (simp add: deployed_def normalized_search_path_def combine_paths_def path_join_def)
  have c: "contribution w source = Some b" and f: "find_file_paths w f (st_searchpath st0) = Inr [source]"
    using d by (auto simp: deployed_def st0_def)
  obtain st1 where st1: "merge_files w [source] st0 = (st1, None)"
    using merge_files_ok[of "[source]" w st0] c by (cases "merge_files w [source] st0") auto
  have data: "st_data st1 = b"
    using merge_files_data[OF st1] c v by (simp add: st0_def recursive_merge_Nil)
  have "preinstalled_settings_path (w_env w) None (w_cache w) = ([D], w_cache w)"
    using d by (simp add: deployed_def preinstalled_cached)
  then have "defaults w [] st = (Inr (st1\<lparr>st_filenames := st_filenames st1 @ [f]\<rparr>), w)"
    using load_one[OF f st1] n path
    by (simp add: defaults_def new_store_def filename_list_def Let_def st0_def del: load_all.simps)
  with data show ?thesis by auto
qed

lemma folder_files_member:
  assumes "p \<in> set (folder_files w names folder)"
  obtains n where "n \<in> set names" "p = path_join folder n"
  using assms by (auto simp: folder_files_def)

lemma folder_files_update:
  assumes "\<And>n. n \<in> set names \<Longrightarrow> path_join folder n \<noteq> target"
  shows "folder_files (w\<lparr>w_files := dict_set target t (w_files w)\<rparr>) names folder = folder_files w names folder"
  using assms unfolding folder_files_def by (intro filter_cong) (auto simp: is_file_update)

lemma deployed_files_after:
  assumes d: "deployed w f L D target source b"
  shows "find_file_paths (w\<lparr>w_files := dict_set target t (w_files w)\<rparr>) f [L, D] = Inr [target, source]"
    and "target \<noteq> source"
proof -
  let ?w = "w\<lparr>w_files := dict_set target t (w_files w)\<rparr>"
  have s: "path_suffix (as_path f) = []" "path_name (as_path f) \<noteq> []" and r: "\<not> is_absolute (as_path f)"
    using d by (auto simp: deployed_def)
  obtain j y i where c: "candidates f = Inr [j, y, i]" and js: "with_suffix ''.json'' (as_path f) = Inr j"
    "with_suffix ''.yaml'' (as_path f) = Inr y" "with_suffix ''.ini'' (as_path f) = Inr i"
    by (rule candidates_three[OF s])
  have j: "path_join L j = target" and y: "\<not> is_file w (path_join L y)" and i: "\<not> is_file w (path_join L i)"
    using d with_suffix_join[OF r js(1)] with_suffix_join[OF r js(2)] with_suffix_join[OF r js(3)]
    by (auto simp: deployed_def)
  have new: "path_join D n \<noteq> target" if "n \<in> set [j, y, i]" for n
    using d that with_suffix_join[OF r js(1), of D] with_suffix_join[OF r js(2), of D]
      with_suffix_join[OF r js(3), of D] unfolding deployed_def by fastforce
  have D: "folder_files w [j, y, i] D = [source]"
    using d find_relative[OF r c, of w "[D]"] by (simp add: deployed_def)
  have "source \<in> set (folder_files w [j, y, i] D)" unfolding D by simp
  then obtain n where "n \<in> set [j, y, i]" "source = path_join D n"
    by (rule folder_files_member)
  with new show "target \<noteq> source" by metis
  have ne: "path_join L y \<noteq> target" "path_join L i \<noteq> target"
    using js j r by (auto simp: with_suffix_def path_join_def Let_def split: if_splits)
  then have "folder_files ?w [j, y, i] L = [target]"
    using j y i by (simp add: folder_files_def is_file_update)
  moreover have "folder_files ?w [j, y, i] D = [source]"
    using folder_files_update[of "[j, y, i]" D target] new D by simp
  ultimately show "find_file_paths ?w f [L, D] = Inr [target, source]"
    using find_relative[OF r c, of ?w "[L, D]"] by simp
qed

lemma delta_saved:
  assumes d: "deployed w f L D target source b" and v: "v_wf (VMap b)"
    and n: "st_filenames st = [f]" and cw: "w_can_write w L target"
  shows "save_delta w None st =
    (None, w\<lparr>w_files := dict_set target (w_json_dump w (VMap (recursive_delta (st_data st) b))) (w_files w)\<rparr>)"
proof -
  obtain base where base: "defaults w [] st = (Inr base, w)" "st_data base = b"
    using deployed_defaults[OF d v n] by blast
  have "local_settings_path (w_env w) (w_cache w) = ([L], w_cache w)"
    using d by (simp add: deployed_def local_cached)
  moreover have "with_suffix ''.json'' (combine_paths L f) = Inr target"
    using d by (simp add: deployed_def combine_paths_def)
  ultimately show ?thesis
    using base cw n by (simp add: save_delta_def save_file_def store_delta_def)
qed

text \<open>
  C2. Saving and loading again. In a deployment with one default file, let the store hold
  every key of the defaults and a null only where the default is null. Then \<open>save_delta\<close>
  succeeds, and a new store loaded from the default search path (the saved file first, then
  the default file) has data equal to the saved store.
\<close>

theorem save_delta_roundtrip:
  assumes "deployed w f L D target source b" and "v_wf (VMap b)" and "v_wf (VMap (st_data st))"
    and "st_filenames st = [f]" and "w_can_write w L target"
    and "restorable (st_data st) b" and "covers (st_data st) b"
    and "json_roundtrip w (recursive_delta (st_data st) b)"
  shows "\<exists>w' st'. save_delta w None st = (None, w')
     \<and> fst (new_store w' (OneFilename f) None pkg) = Inr st'
     \<and> py_eq (VMap (st_data st')) (VMap (st_data st))"
proof -
  define delta where "delta = recursive_delta (st_data st) b"
  define w' where "w' = w\<lparr>w_files := dict_set target (w_json_dump w (VMap delta)) (w_files w)\<rparr>"
  have saved: "save_delta w None st = (None, w')"
    unfolding w'_def delta_def by (rule delta_saved[OF assms(1,2,4,5)])
  define st0 where "st0 = \<lparr>st_data = [], st_filenames = [], st_filepaths = [], st_package = pkg,
      st_searchpath = [L, D]\<rparr>"
  have found: "find_file_paths w' f (st_searchpath st0) = Inr [target, source]"
    and ne: "target \<noteq> source"
    using deployed_files_after[OF assms(1)] by (auto simp: w'_def st0_def)
  have "path_suffix target = ''.json''" using assms(1) with_suffix_json by (auto simp: deployed_def)
  then have c1: "contribution w' target = Some delta"
    using written_contribution assms(8) by (auto simp: w'_def delta_def)
  have c2: "contribution w' source = Some b"
    using other_contribution[of source target] ne assms(1) by (auto simp: w'_def deployed_def)
  obtain st1 where st1: "merge_files w' [target, source] st0 = (st1, None)"
    using merge_files_ok[of "[target, source]" w' st0] c1 c2
    by (cases "merge_files w' [target, source] st0") auto
  have "dict_wf delta" using assms(3) by (simp add: delta_def recursive_delta_wf)
  then have data: "st_data st1 = recursive_merge delta b"
    using merge_files_data[OF st1] c1 c2 by (simp add: st0_def recursive_merge_Nil)
  have cache: "w_cache w' = w_cache w" "w_env w' = w_env w" by (simp_all add: w'_def)
  have "settings_path (w_env w') pkg (w_cache w') = ([L, D], w_cache w')"
    using assms(1) by (simp add: deployed_def settings_path_def local_cached preinstalled_cached cache)
  then have new: "fst (new_store w' (OneFilename f) None pkg)
      = Inr (st1\<lparr>st_filenames := st_filenames st1 @ [f]\<rparr>)"
    using load_one[OF found st1]
    by (simp add: new_store_def filename_list_def Let_def st0_def del: load_all.simps)
  have "py_eq (VMap (st_data st1)) (VMap (st_data st))"
    unfolding data delta_def by (rule delta_restores[OF assms(3,2,6,7)])
  with saved new show ?thesis by auto
qed

definition changed_store :: store where
  "changed_store = \<lparr>st_data = [(''a'', VInt 2), (''b'', VMap [(''c'', VInt 4)])],
     st_filenames = [InStr ''app''], st_filepaths = [], st_package = None,
     st_searchpath = [FPath True [''etc''], FPath True [''usr'']]\<rparr>"

lemma sample_deployed:
  "deployed sample_world (InStr ''app'') (FPath True [''etc'']) (FPath True [''usr''])
     (FPath True [''etc'', ''app.json'']) (FPath True [''usr'', ''app.json''])
     [(''a'', VInt 2), (''b'', VMap [(''c'', VInt 3)])]"
proof -
  have "contribution sample_world (FPath True [''usr'', ''app.json''])
      = Some [(''a'', VInt 2), (''b'', VMap [(''c'', VInt 3)])]" by code_simp
  moreover have "find_file_paths sample_world (InStr ''app'') [FPath True [''usr'']]
      = Inr [FPath True [''usr'', ''app.json'']]" by code_simp
  moreover have "as_path (InStr ''app'') = FPath False [''app'']" by code_simp
  moreover have "name_suffix ''app'' = []" by code_simp
  ultimately show ?thesis
    by (simp add: deployed_def sample_world_def path_suffix_def path_name_def with_suffix_def
        path_join_def is_file_def)
qed

lemma sample_json: "json_roundtrip sample_world [(''b'', VMap [(''c'', VInt 4)])]"
proof -
  have dump: "w_json_dump sample_world (VMap [(''b'', VMap [(''c'', VInt 4)])]) = ''{delta}''"
    by code_simp
  have pieces: "''{delta}'' = concat (map piece_text (map Plain ''{delta}''))" by simp
  have ok: "\<forall>p \<in> set (map Plain ''{delta}''). piece_ok p \<and> \<not> is_comment p" by simp
  have "strip ''{delta}'' = ''{delta}''" by code_simp
  moreover have "w_json_loads sample_world ''{delta}'' = Inr (VMap [(''b'', VMap [(''c'', VInt 4)])])"
    by (simp add: sample_world_def)
  ultimately show ?thesis
    unfolding json_roundtrip_def dump using pieces ok by blast
qed

theorem save_delta_roundtrip_witness:
  "\<exists>w' st'. save_delta sample_world None changed_store = (None, w')
     \<and> fst (new_store w' (OneFilename (InStr ''app'')) None None) = Inr st'
     \<and> py_eq (VMap (st_data st')) (VMap [(''a'', VInt 2), (''b'', VMap [(''c'', VInt 4)])])"
proof -
  have "\<exists>w' st'. save_delta sample_world None changed_store = (None, w')
     \<and> fst (new_store w' (OneFilename (InStr ''app'')) None None) = Inr st'
     \<and> py_eq (VMap (st_data st')) (VMap (st_data changed_store))"
  proof (rule save_delta_roundtrip[OF sample_deployed])
    have "recursive_delta (st_data changed_store) [(''a'', VInt 2), (''b'', VMap [(''c'', VInt 3)])]
        = [(''b'', VMap [(''c'', VInt 4)])]" by code_simp
    with sample_json show "json_roundtrip sample_world
        (recursive_delta (st_data changed_store) [(''a'', VInt 2), (''b'', VMap [(''c'', VInt 3)])])" by simp
    show "w_can_write sample_world (FPath True [''etc'']) (FPath True [''etc'', ''app.json''])"
      by (simp add: sample_world_def)
  qed (simp_all add: changed_store_def covers_def dict_keys_def)
  then show ?thesis by (simp add: changed_store_def)
qed

subsection \<open>Types of values\<close>

lemma subscript_errors: "subscript v c = Inl e \<Longrightarrow> e \<in> {KeyError, IndexError, TypeError}"
  by (cases "(v, c)" rule: subscript.cases)
     (auto simp: list_index_def Let_def map_sum_def split: option.splits if_splits sum.splits)

lemma walk_errors: "walk v cs = Inl e \<Longrightarrow> e \<in> {KeyError, IndexError, TypeError}"
proof (induction cs arbitrary: v)
  case (Cons c cs)
  then show ?case
    using subscript_errors by (cases c) (fastforce simp: result_simps split: if_splits)+
qed simp

lemma int_of_string_error: "int_of_string s = Inl e \<Longrightarrow> e = ValueError"
  by (auto simp: int_of_string_def split: prod.splits option.splits)

lemma float_of_string_error: "float_of_string s = Inl e \<Longrightarrow> e = ValueError"
  by (auto simp: float_of_string_def Let_def split: prod.splits option.splits if_splits)

lemma type_call_error: "t \<noteq> TyNone \<Longrightarrow> type_call t s = Inl e \<Longrightarrow> e = ValueError"
  by (cases t) (auto simp: map_sum_def int_of_string_error float_of_string_error
      split: sum.splits if_splits)

lemma check_type_contract:
  assumes "t \<noteq> TyNone"
  shows "\<exists>w. check_type v (Single t) d False = Inr w \<and> (isinstance w t \<or> w = d)"
proof (cases "isinstance v t")
  case False
  then show ?thesis
    using type_call_isinstance type_call_error[OF assms]
    by (cases v) (auto simp: check_type_def split: sum.splits)
qed (simp add: check_type_def)

text \<open>
  C3. The type contract of \<open>get_value\<close>: for one expected type (other than
  \<open>NoneType\<close>) and both raising flags off, every well-formed call returns, and what it
  returns is of that type or is the given default.
\<close>

theorem get_value_contract:
  assumes "effective_path key path = Inr cs" and "t \<noteq> TyNone"
  shows "\<exists>v. get_value st key path (Single t) d False False = Inr v \<and> (isinstance v t \<or> v = d)"
proof (cases "walk (VMap (st_data st)) cs")
  case (Inl e)
  with walk_errors[OF Inl] assms show ?thesis by (auto simp: get_value_def)
next
  case (Inr v)
  with assms check_type_contract[OF assms(2)] show ?thesis by (simp add: get_value_def)
qed

theorem get_value_contract_witness:
  "\<exists>v. get_value changed_store None (PathSeq [CStr ''b'', CInt 0]) (Single TyInt) (VInt 7) False False
     = Inr v \<and> (isinstance v TyInt \<or> v = VInt 7)"
  by (rule get_value_contract[where cs = "[CStr ''b'', CInt 0]"])
     (simp_all add: effective_path_def key_given_def path_given_def)

text \<open>
  A union of types breaks that contract: when the value is a string and the union has no
  string type, the union itself is called and \<open>get_value\<close> raises \<open>TypeError\<close> even
  though both raising flags are off.
\<close>

theorem get_value_union_raises:
  assumes "effective_path key path = Inr cs" and "walk (VMap (st_data st)) cs = Inr (VStr s)"
    and "\<forall>t \<in> set ts. \<not> isinstance (VStr s) t"
  shows "get_value st key path (Union ts) d False False = Inl TypeError"
  using assms by (auto simp: get_value_def check_type_def)

theorem get_value_union_raises_witness:
  "get_value (sample_store\<lparr>st_data := [(''a'', VStr ''1'')]\<rparr>) (Some ''a'') NoPath (Union [TyInt, TyFloat])
     VNull False False = Inl TypeError"
  by (rule get_value_union_raises[where cs = "[CStr ''a'']" and s = "''1''"])
     (simp_all add: effective_path_def key_given_def path_given_def)

subsection \<open>Setting values\<close>

lemma set_walk_chain: "lookup_in (VMap (set_walk [] ks k v)) (ks @ [k]) = Some v"
  by (induction ks) auto

lemma set_walk_fresh:
  assumes "\<forall>d. dict_get obj e \<noteq> Some (VMap d)"
  shows "set_walk obj (e # ks) k v = dict_set e (VMap (set_walk [] ks k v)) obj"
  using assms by (auto split: option.splits variant.splits)

lemma set_walk_skips:
  "\<forall>e \<in> set ks. \<exists>d. dict_get obj e = Some (VMap d) \<Longrightarrow> set_walk obj ks k v = dict_set k v obj"
  by (induction ks) auto

text \<open>
  Setting then getting: after \<open>set\<close> with a key path whose first element does not yet
  name a dictionary, \<open>get_value\<close> along the same path returns the new value, and every
  other top-level key keeps its value.
\<close>

theorem set_then_get:
  assumes "path = [] \<or> (\<forall>d. dict_get (st_data st) (hd path) \<noteq> Some (VMap d))"
  shows "\<exists>st'. set_value w (KeySeq (path @ [k])) v False st = (st', None, w)
     \<and> get_value st' None (PathSeq (map CStr (path @ [k]))) AnyType VNull True True = Inr v
     \<and> (\<forall>j. j \<noteq> hd (path @ [k]) \<longrightarrow> dict_get (st_data st') j = dict_get (st_data st) j)"
proof -
  let ?st = "st\<lparr>st_data := set_walk (st_data st) path k v\<rparr>"
  have "set_value w (KeySeq (path @ [k])) v False st = (?st, None, w)"
    by (simp add: set_value_def)
  moreover have "lookup_in (VMap (st_data ?st)) (path @ [k]) = Some v \<and>
      (\<forall>j. j \<noteq> hd (path @ [k]) \<longrightarrow> dict_get (st_data ?st) j = dict_get (st_data st) j)"
  proof (cases path)
    case (Cons e ks)
    with assms have "set_walk (st_data st) path k v = dict_set e (VMap (set_walk [] ks k v)) (st_data st)"
      by (simp add: set_walk_fresh del: set_walk.simps)
    with Cons set_walk_chain[of ks k v] show ?thesis by simp
  qed simp
  moreover have "path @ [k] \<noteq> []" by simp
  ultimately show ?thesis by (intro exI[of _ ?st] conjI get_value_path[THEN iffD2]) simp_all
qed

theorem set_then_get_witness:
  "\<exists>st'. set_value sample_world (KeySeq ([''x'', ''y''] @ [''z''])) (VInt 1) False changed_store = (st', None, sample_world)
     \<and> get_value st' None (PathSeq (map CStr ([''x'', ''y''] @ [''z'']))) AnyType VNull True True = Inr (VInt 1)
     \<and> (\<forall>j. j \<noteq> hd ([''x'', ''y''] @ [''z'']) \<longrightarrow> dict_get (st_data st') j = dict_get (st_data changed_store) j)"
  by (rule set_then_get) (simp add: changed_store_def)

text \<open>
  When every leading element of the key path already names a top-level dictionary,
  \<open>set\<close> does not descend: it stores the value under the last key at the root and leaves
  those dictionaries as they were.
\<close>

theorem set_existing_parent_writes_root:
  assumes "\<forall>e \<in> set path. \<exists>d. dict_get (st_data st) e = Some (VMap d)"
  shows "set_value w (KeySeq (path @ [k])) v False st
    = (st\<lparr>st_data := dict_set k v (st_data st)\<rparr>, None, w)"
  using assms by (simp add: set_value_def set_walk_skips)

theorem set_existing_parent_writes_root_witness:
  "fst (set_value sample_world (KeySeq ([''b''] @ [''c''])) (VInt 9) False changed_store)
     = changed_store\<lparr>st_data := [(''a'', VInt 2), (''b'', VMap [(''c'', VInt 4)]), (''c'', VInt 9)]\<rparr>"
  using set_existing_parent_writes_root[of "[''b'']" changed_store sample_world "''c''" "VInt 9"]
  by (simp add: changed_store_def)

end
