(* ===== verification/Invocation.thy ===== *)
theory Invocation
  imports Py_Prelude
begin

section \<open>Invoking callables (\<open>core/invocation.py\<close>) and data signals (\<open>core/signalstore/datasignal.py\<close>)\<close>

text \<open>
  \<open>safe_invoke\<close> returns what the callable returns, or the exception it raised as a value;
  \<open>DataSignal\<close> is a signal whose slots are kept under handles and that can cache its last
  payload. What a callable does is a parameter.
\<close>

subsection \<open>Safe invocation\<close>

datatype 'a invoked = Value 'a | Caught py_error

text \<open>
  The description of a call is the given text or is made from the callable's
  \<open>__name__\<close>; making it raises \<open>AttributeError\<close> when there is none. It is made inside
  the \<open>try\<close> block for the first log entry, and again in the handler, outside any other.
\<close>

definition describe :: "string option \<Rightarrow> string option \<Rightarrow> string result" where
  "describe description name =
     (if description \<noteq> None \<and> description \<noteq> Some [] then Inr (the description)
      else case name of None \<Rightarrow> Inl AttributeError | Some n \<Rightarrow> Inr n)"

definition safe_invoke ::
    "'a result \<Rightarrow> string option \<Rightarrow> string option \<Rightarrow> bool \<Rightarrow> bool \<Rightarrow> 'a invoked result" where
  "safe_invoke call description name log_call log_failure =
     (let body = bind_result (if log_call then describe description name else Inr []) (\<lambda>_. call) in
      case body of
        Inr v \<Rightarrow> Inr (Value v)
      | Inl e \<Rightarrow> bind_result (if log_failure then describe description name else Inr [])
                  (\<lambda>_. Inr (Caught e)))"

definition check_type :: "('a \<Rightarrow> 't \<Rightarrow> bool) \<Rightarrow> 'a \<Rightarrow> 't \<Rightarrow> unit result" where
  "check_type is_instance argument expected_type =
     (if is_instance argument expected_type then Inr () else Inl TypeError)"

lemma safe_invoke_described:
  "description \<noteq> [] \<Longrightarrow> safe_invoke call (Some description) name lc lf =
     Inr (case call of Inr v \<Rightarrow> Value v | Inl e \<Rightarrow> Caught e)"
  by (auto simp: safe_invoke_def describe_def Let_def split: sum.splits)

subsection \<open>Data signals\<close>

text \<open>
  A slot is its identity, its \<open>__name__\<close> if it has one, and what a call with a payload
  does. The trace of an operation lists the calls it made.
\<close>

record 'd slot =
  slot_id :: nat
  slot_name :: "string option"
  slot_call :: "'d \<Rightarrow> unit result"

record 'd data_signal =
  ds_name :: string
  ds_use_cache :: bool
  ds_slots :: "(string, 'd slot) dict"
  ds_cached :: "'d option"

type_synonym 'd call = "nat \<times> 'd"

definition new_data_signal :: "string \<Rightarrow> bool \<Rightarrow> 'd data_signal" where
  "new_data_signal name use_cache = \<lparr>ds_name = name, ds_use_cache = use_cache, ds_slots = [], ds_cached = None\<rparr>"

definition connection_count :: "'d data_signal \<Rightarrow> nat" where
  "connection_count s = length (ds_slots s)"

definition ds_emit_to :: "'d slot \<Rightarrow> 'd \<Rightarrow> 'd call list \<times> py_error option" where
  "ds_emit_to slot data =
     (case slot_name slot of
        None \<Rightarrow> ([], Some AttributeError)
      | Some n \<Rightarrow>
         (case safe_invoke (slot_call slot data) (Some (''Signal '' @ n)) (Some n) True True of
            Inl e \<Rightarrow> ([(slot_id slot, data)], Some e)
          | Inr _ \<Rightarrow> ([(slot_id slot, data)], None)))"

definition ds_emit_cached_to :: "'d slot \<Rightarrow> 'd data_signal \<Rightarrow> 'd call list \<times> py_error option" where
  "ds_emit_cached_to slot s = (case ds_cached s of None \<Rightarrow> ([], None) | Some d \<Rightarrow> ds_emit_to slot d)"

text \<open>\<open>fresh\<close> is the identifier that \<open>uuid1\<close> would return.\<close>

definition ds_connect ::
    "'d slot \<Rightarrow> string option \<Rightarrow> string \<Rightarrow> 'd data_signal \<Rightarrow> 'd data_signal \<times> 'd call list \<times> string result" where
  "ds_connect slot handle fresh s =
     (let h = (if handle = None \<or> handle = Some [] then fresh else the handle);
          s' = s\<lparr>ds_slots := dict_set h slot (ds_slots s)\<rparr>;
          (calls, err) = (if ds_use_cache s then ds_emit_cached_to slot s' else ([], None))
      in (s', calls, case err of None \<Rightarrow> Inr h | Some e \<Rightarrow> Inl e))"

definition ds_disconnect :: "string \<Rightarrow> 'd data_signal \<Rightarrow> bool \<times> 'd data_signal" where
  "ds_disconnect handle s =
     (if dict_get (ds_slots s) handle = None then (False, s)
      else (True, s\<lparr>ds_slots := dict_del handle (ds_slots s)\<rparr>))"

fun ds_emit_all :: "'d slot list \<Rightarrow> 'd \<Rightarrow> 'd call list \<times> py_error option" where
  "ds_emit_all [] data = ([], None)"
| "ds_emit_all (slot # slots) data =
     (case ds_emit_to slot data of
        (calls, Some e) \<Rightarrow> (calls, Some e)
      | (calls, None) \<Rightarrow> (case ds_emit_all slots data of (calls', e) \<Rightarrow> (calls @ calls', e)))"

text \<open>The payload is cached after the slots were called, and only when none of the calls escaped.\<close>

definition ds_emit :: "'d \<Rightarrow> 'd data_signal \<Rightarrow> 'd data_signal \<times> 'd call list \<times> py_error option" where
  "ds_emit data s =
     (case ds_emit_all (map snd (ds_slots s)) data of
        (calls, Some e) \<Rightarrow> (s, calls, Some e)
      | (calls, None) \<Rightarrow> (if ds_use_cache s then s\<lparr>ds_cached := Some data\<rparr> else s, calls, None))"

subsection \<open>Properties\<close>

lemma ds_emit_to_named:
  "slot_name slot = Some n \<Longrightarrow> ds_emit_to slot data = ([(slot_id slot, data)], None)"
  by (simp add: ds_emit_to_def safe_invoke_described)

lemma ds_emit_all_named:
  "\<forall>slot \<in> set slots. slot_name slot \<noteq> None \<Longrightarrow>
   ds_emit_all slots data = (map (\<lambda>slot. (slot_id slot, data)) slots, None)"
  by (induction slots) (auto simp: ds_emit_to_named)

text \<open>
  A failing slot does not stop a data signal: emitting calls each connected slot once, in
  the order of the handles, with the payload, whatever the slots raise; and a slot that
  connects afterwards to a caching signal is called with that payload and nothing else.
\<close>

theorem data_signal_emit_and_replay:
  assumes "\<forall>slot \<in> snd ` set (ds_slots s). slot_name slot \<noteq> None" and "slot_name new \<noteq> None"
  shows "\<exists>s'. ds_emit data s = (s', map (\<lambda>(h, slot). (slot_id slot, data)) (ds_slots s), None)
     \<and> fst (snd (ds_connect new h fresh s')) =
         (if ds_use_cache s then [(slot_id new, data)] else [])"
proof -
  let ?s' = "if ds_use_cache s then s\<lparr>ds_cached := Some data\<rparr> else s"
  have "ds_emit_all (map snd (ds_slots s)) data
      = (map (\<lambda>slot. (slot_id slot, data)) (map snd (ds_slots s)), None)"
    using assms(1) by (intro ds_emit_all_named) auto
  then have "ds_emit data s = (?s', map (\<lambda>(h, slot). (slot_id slot, data)) (ds_slots s), None)"
    by (simp add: ds_emit_def comp_def case_prod_unfold)
  moreover have "fst (snd (ds_connect new h fresh ?s')) = (if ds_use_cache s then [(slot_id new, data)] else [])"
    using assms(2) by (auto simp: ds_connect_def ds_emit_cached_to_def ds_emit_to_named Let_def)
  ultimately show ?thesis by blast
qed

definition loud_slot :: "nat \<Rightarrow> nat slot" where
  "loud_slot i = \<lparr>slot_id = i, slot_name = Some ''s'', slot_call = (\<lambda>_. Inl ValueError)\<rparr>"

theorem data_signal_emit_and_replay_witness:
  "\<exists>s'. ds_emit 5 \<lparr>ds_name = ''x'', ds_use_cache = True,
          ds_slots = [(''a'', loud_slot 1), (''b'', loud_slot 2)], ds_cached = None\<rparr>
       = (s', [(1, 5), (2, 5)], None)
     \<and> fst (snd (ds_connect (loud_slot 3) None ''c'' s')) = [(3, 5)]"
  using data_signal_emit_and_replay[of "\<lparr>ds_name = ''x'', ds_use_cache = True,
      ds_slots = [(''a'', loud_slot 1), (''b'', loud_slot 2)], ds_cached = None\<rparr>" "loud_slot 3" 5 None "''c''"]
  by (simp add: loud_slot_def)

end
