(* ===== verification/Py_Num.thy ===== *)
theory Py_Num
  imports Py_Value
begin

section \<open>Numbers: integers and floats together\<close>

text \<open>
  Arithmetic and comparison of Python numbers as the time classes use them. A finite float is
  a rational; its operations round as in \<open>Py_Float\<close>, where the exponent range is not
  bounded, so an overflow to infinity does not occur. Infinities and NaN are propagated. Zero
  has no sign.
\<close>

datatype num = NInt int | NFloat py_float

subsection \<open>Float operations\<close>

fun pf_neg :: "py_float \<Rightarrow> py_float" where
  "pf_neg (Fin x) = Fin (- x)"
| "pf_neg PosInf = NegInf"
| "pf_neg NegInf = PosInf"
| "pf_neg NaN = NaN"

fun pf_add :: "py_float \<Rightarrow> py_float \<Rightarrow> py_float" where
  "pf_add (Fin x) (Fin y) = Fin (fadd x y)"
| "pf_add NaN y = NaN"
| "pf_add x NaN = NaN"
| "pf_add (Fin x) y = y"
| "pf_add x (Fin y) = x"
| "pf_add x y = (if x = y then x else NaN)"

definition pf_sub :: "py_float \<Rightarrow> py_float \<Rightarrow> py_float" where
  "pf_sub x y = pf_add x (pf_neg y)"

definition pf_sign :: "py_float \<Rightarrow> int" where
  "pf_sign x = (case x of Fin r \<Rightarrow> (if r > 0 then 1 else if r < 0 then - 1 else 0)
                | PosInf \<Rightarrow> 1 | NegInf \<Rightarrow> - 1 | NaN \<Rightarrow> 0)"

fun pf_mul :: "py_float \<Rightarrow> py_float \<Rightarrow> py_float" where
  "pf_mul (Fin x) (Fin y) = Fin (fmul x y)"
| "pf_mul NaN y = NaN"
| "pf_mul x NaN = NaN"
| "pf_mul x y = (let s = pf_sign x * pf_sign y in if s > 0 then PosInf else if s < 0 then NegInf else NaN)"

text \<open>Division by a number that is not zero; zero raises \<open>ZeroDivisionError\<close>.\<close>

fun pf_div :: "py_float \<Rightarrow> py_float \<Rightarrow> py_float result" where
  "pf_div x (Fin y) =
     (if y = 0 then Inl ZeroDivisionError
      else case x of Fin r \<Rightarrow> Inr (Fin (fdiv r y))
           | NaN \<Rightarrow> Inr NaN
           | _ \<Rightarrow> Inr (if 0 < y then x else pf_neg x))"
| "pf_div x NaN = Inr NaN"
| "pf_div x y = (case x of Fin r \<Rightarrow> Inr (Fin 0) | _ \<Rightarrow> Inr NaN)"

fun pf_less :: "py_float \<Rightarrow> py_float \<Rightarrow> bool" where
  "pf_less (Fin x) (Fin y) = (x < y)"
| "pf_less NaN y = False"
| "pf_less x NaN = False"
| "pf_less x y = (x \<noteq> y \<and> (x = NegInf \<or> y = PosInf))"

definition pf_le :: "py_float \<Rightarrow> py_float \<Rightarrow> bool" where
  "pf_le x y \<longleftrightarrow> pf_less x y \<or> (x = y \<and> x \<noteq> NaN)"

text \<open>
  Floor division and remainder of floats as CPython computes them: the remainder of
  \<open>fmod\<close> is exact.
\<close>

definition float_mod :: "rat \<Rightarrow> rat \<Rightarrow> rat" where
  "float_mod x y =
     (let m = x - y * of_int (py_trunc (x / y)) in
      if m \<noteq> 0 \<and> ((y < 0) \<noteq> (m < 0)) then fadd m y else m)"

definition float_floordiv :: "rat \<Rightarrow> rat \<Rightarrow> rat" where
  "float_floordiv x y =
     (let m = x - y * of_int (py_trunc (x / y));
          d = fdiv (fsub x m) y;
          d = (if m \<noteq> 0 \<and> ((y < 0) \<noteq> (m < 0)) then fsub d 1 else d);
          f = of_int \<lfloor>d\<rfloor>
      in if d = 0 then 0 else if d - f > 1 / 2 then f + 1 else f)"

text \<open>\<open>int(x)\<close>.\<close>

fun int_of_float :: "py_float \<Rightarrow> int result" where
  "int_of_float (Fin x) = Inr (py_trunc x)"
| "int_of_float NaN = Inl ValueError"
| "int_of_float _ = Inl OverflowError"

subsection \<open>Mixed operations\<close>

fun to_float :: "num \<Rightarrow> py_float" where
  "to_float (NInt n) = Fin (float_of_int n)"
| "to_float (NFloat x) = x"

fun num_mul :: "num \<Rightarrow> num \<Rightarrow> num" where
  "num_mul (NInt a) (NInt b) = NInt (a * b)"
| "num_mul x y = NFloat (pf_mul (to_float x) (to_float y))"

text \<open>Comparison of an integer with a float is exact.\<close>

fun exact_value :: "num \<Rightarrow> py_float" where
  "exact_value (NInt n) = Fin (of_int n)"
| "exact_value (NFloat x) = x"

definition num_less :: "num \<Rightarrow> num \<Rightarrow> bool" where
  "num_less x y = pf_less (exact_value x) (exact_value y)"

definition num_le :: "num \<Rightarrow> num \<Rightarrow> bool" where
  "num_le x y = pf_le (exact_value x) (exact_value y)"

text \<open>\<open>10 ** e\<close>: an integer, or a float for a negative exponent.\<close>

definition pow10 :: "int \<Rightarrow> num" where
  "pow10 e = (if 0 \<le> e then NInt (10 ^ nat e) else NFloat (Fin (rnd (10 powi e))))"

subsection \<open>Laws\<close>

lemma pf_sub_Fin [simp]: "pf_sub (Fin x) (Fin y) = Fin (fsub x y)"
  by (simp add: pf_sub_def fadd_def fsub_def)

lemma pf_le_Fin [simp]: "pf_le (Fin x) (Fin y) \<longleftrightarrow> x \<le> y"
  by (auto simp: pf_le_def)

lemma fadd_int:
  "\<bar>m + n\<bar> \<le> 2 ^ 53 \<Longrightarrow> fadd (of_int m) (of_int n) = of_int (m + n)"
  unfolding fadd_def using rnd_int[of "m + n"] by simp

lemma fsub_int:
  "\<bar>m - n\<bar> \<le> 2 ^ 53 \<Longrightarrow> fsub (of_int m) (of_int n) = of_int (m - n)"
  unfolding fsub_def using rnd_int[of "m - n"] by simp

lemma fmul_int:
  "\<bar>m * n\<bar> \<le> 2 ^ 53 \<Longrightarrow> fmul (of_int m) (of_int n) = of_int (m * n)"
  unfolding fmul_def using rnd_int[of "m * n"] by simp

lemma float_of_int_exact: "\<bar>n\<bar> \<le> 2 ^ 53 \<Longrightarrow> float_of_int n = of_int n"
  by (simp add: float_of_int_def rnd_int)

lemma py_trunc_div: "0 \<le> m \<Longrightarrow> 0 < n \<Longrightarrow> py_trunc (of_int m / of_int n) = m div n"
  by (simp add: py_trunc_def floor_divide_of_int_eq)

lemma float_mod_int:
  assumes "0 \<le> m" "0 < n"
  shows "float_mod (of_int m) (of_int n) = of_int (m mod n)"
proof -
  have "of_int m - of_int n * of_int (py_trunc (of_int m / of_int n)) = (of_int (m mod n) :: rat)"
    using assms by (simp add: py_trunc_div minus_mult_div_eq_mod flip: of_int_mult of_int_diff)
  moreover have "0 \<le> m mod n" using assms by simp
  moreover have "\<not> m mod n < 0" "\<not> n < 0" using assms by (simp_all add: not_less)
  ultimately show ?thesis by (simp add: float_mod_def)
qed

lemma float_floordiv_int:
  assumes "0 \<le> m" "m \<le> 2 ^ 53" "0 < n"
  shows "float_floordiv (of_int m) (of_int n) = of_int (m div n)"
proof -
  have r: "of_int m - of_int n * of_int (py_trunc (of_int m / of_int n)) = (of_int (m mod n) :: rat)"
    using assms by (simp add: py_trunc_div minus_mult_div_eq_mod flip: of_int_mult of_int_diff)
  have "0 \<le> m mod n" "m mod n \<le> m" using assms by (simp_all add: zmod_le_nonneg_dividend)
  then have s: "fsub (of_int m) (of_int (m mod n)) = of_int (m div n * n)"
  proof -
    have "\<bar>m - m mod n\<bar> \<le> 2 ^ 53" using \<open>0 \<le> m mod n\<close> \<open>m mod n \<le> m\<close> assms by linarith
    from fsub_int[OF this] show ?thesis by (simp add: minus_mod_eq_div_mult)
  qed
  have d: "fdiv (of_int (m div n * n)) (of_int n) = of_int (m div n)"
  proof -
    have "0 \<le> m div n" "m div n \<le> m"
      using assms by (simp_all add: pos_imp_zdiv_nonneg_iff int_div_less_self order_less_imp_le
          zdiv_mono2_neg div_le_dividend)
        (metis assms(1,3) div_by_1 int_one_le_iff_zero_less zdiv_mono2 zero_less_one)
    then have "\<bar>m div n\<bar> \<le> 2 ^ 53" using assms by simp
    with rnd_int[OF this] assms show ?thesis by (simp add: fdiv_def)
  qed
  show ?thesis
  proof -
    have "\<not> m mod n < 0" "\<not> n < 0" using assms by (simp_all add: not_less)
    then show ?thesis by (simp add: float_floordiv_def r s d[unfolded of_int_mult] Let_def)
  qed
qed

end
