(* ===== verification/Time_Interval.thy ===== *)
theory Time_Interval
  imports Py_Num
begin

section \<open>Time intervals (\<open>core/timeutils/timeinterval.py\<close>)\<close>

text \<open>
  \<open>TimeInterval\<close> extends \<open>float\<close>; its value is a \<open>py_float\<close> of seconds. The inputs
  its constructors accept are the datatype \<open>time_input\<close>: an interval, a time point (a
  subclass of \<open>float\<close>), a number, a text, a \<open>timedelta\<close> by its
  \<open>total_seconds()\<close>, a protobuf duration by its \<open>ToNanoseconds()\<close>, a protobuf
  timestamp by its fields, a \<open>struct_time\<close> or \<open>datetime\<close> (abstract types), \<open>None\<close>,
  or anything else.
\<close>

subsection \<open>Units\<close>

definition NANOSECOND :: num where "NANOSECOND = NFloat (Fin (rnd (1 / 10 ^ 9)))"
definition MICROSECOND :: num where "MICROSECOND = NFloat (Fin (rnd (1 / 10 ^ 6)))"
definition MILLISECOND :: num where "MILLISECOND = NFloat (Fin (rnd (1 / 10 ^ 3)))"
definition SECOND :: num where "SECOND = NInt 1"
definition MINUTE :: int where "MINUTE = 60"
definition HOUR :: int where "HOUR = 60 * MINUTE"
definition DAY :: int where "DAY = 24 * HOUR"
definition WEEK :: int where "WEEK = DAY * 7"
definition MONTH :: int where "MONTH = 30 * DAY"
definition YEAR :: int where "YEAR = 365 * DAY"
definition LEAP :: int where "LEAP = 4 * YEAR"

lemmas unit_defs = MINUTE_def HOUR_def DAY_def WEEK_def MONTH_def YEAR_def LEAP_def

datatype ('s, 'd) time_input =
    InInterval py_float
  | InPoint py_float
  | InNum num
  | InText string
  | InDelta py_float
  | InDuration int
  | InTimestamp int int
  | InStruct 's
  | InDatetime 'd
  | InNone
  | InOther

subsection \<open>Construction\<close>

datatype time_arg = NoArg | ANum num | ABad

fun accumulate :: "(time_arg \<times> num) list \<Rightarrow> py_float \<Rightarrow> py_float result" where
  "accumulate [] duration = Inr duration"
| "accumulate ((NoArg, scale) # args) duration = accumulate args duration"
| "accumulate ((ANum value, scale) # args) duration =
     accumulate args (pf_add duration (to_float (num_mul value scale)))"
| "accumulate ((ABad, scale) # args) duration = Inl TypeError"

definition new_interval ::
    "time_arg \<Rightarrow> time_arg \<Rightarrow> time_arg \<Rightarrow> time_arg \<Rightarrow> time_arg \<Rightarrow> time_arg \<Rightarrow> time_arg \<Rightarrow> time_arg \<Rightarrow> py_float result" where
  "new_interval seconds milliseconds microseconds nanoseconds minutes hours days weeks =
     accumulate
       [(seconds, SECOND), (milliseconds, MILLISECOND), (microseconds, MICROSECOND),
        (nanoseconds, NANOSECOND), (minutes, NInt MINUTE), (hours, NInt HOUR), (days, NInt DAY),
        (weeks, NInt WEEK)] (Fin 0)"

text \<open>\<open>TimeInterval(x)\<close> for one positional number.\<close>

definition interval :: "num \<Rightarrow> py_float" where
  "interval x = pf_add (Fin 0) (to_float (num_mul x SECOND))"

lemma new_interval_seconds:
  "new_interval (ANum x) NoArg NoArg NoArg NoArg NoArg NoArg NoArg = Inr (interval x)"
  by (simp add: new_interval_def interval_def)

lemma interval_float [simp]: "interval (NFloat (Fin x)) = Fin (rnd x)"
  by (simp add: interval_def SECOND_def float_of_int_def rnd_int fmul_def fadd_def)
     (simp add: rnd_int[of 1, simplified])

lemma interval_int [simp]: "interval (NInt n) = Fin (float_of_int n)"
  by (simp add: interval_def SECOND_def float_of_int_def fadd_def)

subsection \<open>Parsing durations\<close>

text \<open>
  The pattern is a sequence of optional components, each a number followed by a unit letter,
  with white space allowed before each. A component is taken when it can be; when the rest of
  the pattern then fails, the matcher goes on without it.
\<close>

definition number_prefix :: "string \<Rightarrow> (string \<times> string) option" where
  "number_prefix s =
     (let digits = takeWhile is_digit s; rest = dropWhile is_digit s in
      if digits = [] then None
      else case rest of
        c # cs \<Rightarrow> (if c = CHR ''.'' then Some (digits @ CHR ''.'' # takeWhile is_digit cs, dropWhile is_digit cs)
                   else Some (digits, rest))
      | [] \<Rightarrow> Some (digits, rest))"

fun strip_prefix :: "string list \<Rightarrow> string \<Rightarrow> string option" where
  "strip_prefix [] s = None"
| "strip_prefix (p # ps) s =
     (if take (length p) s = p then Some (drop (length p) s) else strip_prefix ps s)"

definition take_unit :: "string list \<Rightarrow> string \<Rightarrow> (string \<times> string) option" where
  "take_unit suffixes s =
     (case number_prefix s of
        None \<Rightarrow> None
      | Some (word, rest) \<Rightarrow> (case strip_prefix suffixes rest of None \<Rightarrow> None | Some r \<Rightarrow> Some (word, r)))"

text \<open>\<open>finish\<close> is what the rest of the pattern makes of the remaining text.\<close>

fun match_units ::
    "(nat \<times> string list) list \<Rightarrow> (string \<Rightarrow> (nat \<times> string) list option) \<Rightarrow> string \<Rightarrow> (nat \<times> string) list option" where
  "match_units [] finish s = finish s"
| "match_units ((g, suffixes) # us) finish s =
     (let s1 = dropWhile is_space s in
      case take_unit suffixes s1 of
        None \<Rightarrow> match_units us finish s1
      | Some (word, r) \<Rightarrow>
         (case match_units us finish r of
            Some gs \<Rightarrow> Some ((g, word) # gs)
          | None \<Rightarrow> match_units us finish s1))"

definition date_units :: "(nat \<times> string list) list" where
  "date_units = [(2, [''y'', ''Y'']), (3, [''m'', ''M'']), (4, [''w'', ''W'']), (5, [''d'', ''D''])]"

definition time_units :: "(nat \<times> string list) list" where
  "time_units = [(6, [''h'', ''H'']), (7, [''m'', ''M'']), (8, [''s'', ''S'']), (9, [''ms'']), (10, [''us'']), (11, [''ns''])]"

definition match_end :: "string \<Rightarrow> (nat \<times> string) list option" where
  "match_end s = (if s = [] then Some [] else None)"

definition match_time :: "string \<Rightarrow> (nat \<times> string) list option" where
  "match_time s =
     (let s1 = dropWhile is_space s in
      match_units time_units match_end (if s1 \<noteq> [] \<and> hd s1 = CHR ''T'' then tl s1 else s1))"

definition match_duration :: "string \<Rightarrow> (bool \<times> (nat \<times> string) list) option" where
  "match_duration s =
     (let (neg, body) = split_sign s in
      map_option (Pair neg)
        (if body \<noteq> [] \<and> hd body = CHR ''P'' then match_units date_units match_time (tl body)
         else match_time body))"

definition unit_factor :: "nat \<Rightarrow> num" where
  "unit_factor g =
     (if g = 2 then NInt YEAR else if g = 3 then NInt MONTH else if g = 4 then NInt WEEK
      else if g = 5 then NInt DAY else if g = 6 then NInt HOUR else if g = 7 then NInt MINUTE
      else if g = 8 then SECOND else if g = 9 then MILLISECOND else if g = 10 then MICROSECOND
      else NANOSECOND)"

fun word_value :: "string \<Rightarrow> py_float" where
  "word_value w = (case float_of_string w of Inr x \<Rightarrow> x | Inl _ \<Rightarrow> NaN)"

fun sum_units :: "(nat \<times> string) list \<Rightarrow> py_float \<Rightarrow> py_float" where
  "sum_units [] acc = acc"
| "sum_units ((g, word) # gs) acc =
     sum_units gs (pf_add acc (to_float (num_mul (unit_factor g) (NFloat (word_value word)))))"

text \<open>
  \<open>DAY * (float(years) // LEAP)\<close>: the number of years is divided by the seconds of four
  years.
\<close>

definition leap_days :: "(nat \<times> string) list \<Rightarrow> py_float \<Rightarrow> py_float" where
  "leap_days gs acc =
     (case map_of gs 2 of
        None \<Rightarrow> acc
      | Some years \<Rightarrow>
         (case word_value years of
            Fin y \<Rightarrow> pf_add acc (pf_mul (Fin (of_int DAY)) (Fin (float_floordiv y (of_int LEAP))))
          | _ \<Rightarrow> NaN))"

definition interval_from_string :: "string \<Rightarrow> py_float result" where
  "interval_from_string input =
     (case match_duration input of
        None \<Rightarrow> Inl ValueError
      | Some (neg, gs) \<Rightarrow>
         (if gs = [] then Inl ValueError
          else let i = leap_days gs (sum_units gs (Fin 0)) in
            Inr (interval (NFloat (if neg then pf_neg i else i)))))"

subsection \<open>Conversion from any input\<close>

definition interval_from_value :: "('s, 'd) time_input \<Rightarrow> int \<Rightarrow> py_float result" where
  "interval_from_value input decimal_exponent =
     (let scaled = (\<lambda>x. Inr (interval (num_mul x (pow10 decimal_exponent)))) in
      case input of
        InInterval x \<Rightarrow> Inr x
      | InPoint x \<Rightarrow> scaled (NFloat x)
      | InNum x \<Rightarrow> scaled x
      | InText s \<Rightarrow> (case float_of_string s of Inr x \<Rightarrow> scaled (NFloat x) | Inl _ \<Rightarrow> interval_from_string s)
      | InDelta x \<Rightarrow> Inr (interval (NFloat x))
      | InDuration n \<Rightarrow> map_sum id (\<lambda>x. interval (NFloat x)) (pf_div (to_float (NInt n)) (Fin (10 ^ 9)))
      | _ \<Rightarrow> Inl TypeError)"

text \<open>The fallback is returned as it is when neither input can be converted.\<close>

definition interval_try_from :: "('s, 'd) time_input \<Rightarrow> ('s, 'd) time_input \<Rightarrow> int \<Rightarrow> ('s, 'd) time_input result" where
  "interval_try_from input fallback decimal_exponent =
     (let attempt = (\<lambda>v otherwise. case interval_from_value v decimal_exponent of
            Inr x \<Rightarrow> Inr (InInterval x)
          | Inl e \<Rightarrow> (if e = ValueError \<or> e = TypeError then otherwise else Inl e))
      in attempt input (if fallback = InNone then Inr fallback else attempt fallback (Inr fallback)))"

definition from_milliseconds :: "num \<Rightarrow> py_float result" where
  "from_milliseconds n = map_sum id (\<lambda>x. interval (NFloat x)) (pf_div (to_float n) (Fin (10 ^ 3)))"

definition from_microseconds :: "num \<Rightarrow> py_float result" where
  "from_microseconds n = map_sum id (\<lambda>x. interval (NFloat x)) (pf_div (to_float n) (Fin (10 ^ 6)))"

definition from_nanoseconds :: "num \<Rightarrow> py_float result" where
  "from_nanoseconds n = map_sum id (\<lambda>x. interval (NFloat x)) (pf_div (to_float n) (Fin (10 ^ 9)))"

subsection \<open>Arithmetic and integer conversions\<close>

definition interval_add :: "py_float \<Rightarrow> ('s, 'd) time_input \<Rightarrow> py_float result" where
  "interval_add x other = map_sum id (\<lambda>y. interval (NFloat (pf_add x y))) (interval_from_value other 0)"

definition interval_sub :: "py_float \<Rightarrow> ('s, 'd) time_input \<Rightarrow> py_float result" where
  "interval_sub x other = map_sum id (\<lambda>y. interval (NFloat (pf_sub x y))) (interval_from_value other 0)"

definition interval_mul :: "py_float \<Rightarrow> num \<Rightarrow> py_float" where
  "interval_mul x scalar = interval (NFloat (pf_mul x (to_float scalar)))"

definition interval_div :: "py_float \<Rightarrow> num \<Rightarrow> py_float result" where
  "interval_div x divisor = map_sum id (\<lambda>y. interval (NFloat y)) (pf_div x (to_float divisor))"

definition to_seconds :: "py_float \<Rightarrow> int result" where
  "to_seconds x = int_of_float x"

definition to_milliseconds :: "py_float \<Rightarrow> int result" where
  "to_milliseconds x = int_of_float (pf_mul x (Fin 1000))"

definition to_microseconds :: "py_float \<Rightarrow> int result" where
  "to_microseconds x = int_of_float (pf_mul x (Fin (10 ^ 6)))"

definition to_nanoseconds :: "py_float \<Rightarrow> int result" where
  "to_nanoseconds x = int_of_float (pf_mul x (Fin (10 ^ 9)))"

text \<open>
  \<open>Duration(seconds, nanos)\<close> checks the widths of its fields, 64 and 32 bits;
  \<open>self - int(self)\<close> is \<open>__sub__\<close> with an integer.
\<close>

definition proto_fields :: "int \<Rightarrow> int \<Rightarrow> (int \<times> int) result" where
  "proto_fields seconds nanos =
     (if - (2 ^ 63) \<le> seconds \<and> seconds < 2 ^ 63 \<and> - (2 ^ 31) \<le> nanos \<and> nanos < 2 ^ 31
      then Inr (seconds, nanos) else Inl ValueError)"

definition interval_to_protobuf :: "py_float \<Rightarrow> (int \<times> int) result" where
  "interval_to_protobuf x =
     bind_result (int_of_float x) (\<lambda>s.
     bind_result (interval_sub x (InNum (NInt s) :: (unit, unit) time_input)) (\<lambda>frac.
     bind_result (int_of_float (interval_mul frac (NFloat (Fin (10 ^ 9))))) (\<lambda>n.
       proto_fields s n)))"

text \<open>A protobuf duration is \<open>seconds * 10^9 + nanos\<close> nanoseconds.\<close>

definition interval_from_protobuf :: "int \<times> int \<Rightarrow> py_float result" where
  "interval_from_protobuf p = from_nanoseconds (NInt (fst p * 10 ^ 9 + snd p))"

subsection \<open>Printing durations\<close>

text \<open>\<open>'%.*f' % (k, x)\<close> for a finite \<open>x\<close>: rounded half to even on the exact value.\<close>

definition pad_left :: "nat \<Rightarrow> char \<Rightarrow> string \<Rightarrow> string" where
  "pad_left width c s = replicate (width - length s) c @ s"

definition fixed_decimal :: "nat \<Rightarrow> rat \<Rightarrow> string" where
  "fixed_decimal k x =
     (let n = nat (round_half_even (\<bar>x\<bar> * 10 ^ k)) in
      (if x < 0 then ''-'' else []) @ digits_of_nat (n div 10 ^ k)
      @ (if k = 0 then [] else ''.'' @ pad_left k CHR ''0'' (digits_of_nat (n mod 10 ^ k))))"

text \<open>\<open>while string.endswith('000')\<close>, then \<open>rstrip('.,')\<close>; on the reversed text.\<close>

fun drop_zeros :: "string \<Rightarrow> string" where
  "drop_zeros (a # b # c # cs) =
     (if a = CHR ''0'' \<and> b = CHR ''0'' \<and> c = CHR ''0'' then drop_zeros cs else a # b # c # cs)"
| "drop_zeros s = s"

definition short_decimal :: "rat \<Rightarrow> string" where
  "short_decimal x =
     rev (dropWhile (\<lambda>c. c = CHR ''.'' \<or> c = CHR '','') (drop_zeros (rev (fixed_decimal 9 x))))"

text \<open>A suffix that is \<open>None\<close> or empty is the empty string.\<close>

record interval_format =
  years_suffix :: string
  months_suffix :: string
  weeks_suffix :: string
  days_suffix :: string
  hours_suffix :: string
  minutes_suffix :: string
  seconds_suffix :: string
  component_separator :: string
  positive_sign :: string
  decimals :: nat
  preamble :: string
  date_time_separator :: string

definition default_format :: interval_format where
  "default_format = \<lparr>years_suffix = ''y'', months_suffix = [], weeks_suffix = [], days_suffix = ''d'',
     hours_suffix = ''h'', minutes_suffix = ''m'', seconds_suffix = ''s'', component_separator = '' '',
     positive_sign = [], decimals = 0, preamble = [], date_time_separator = []\<rparr>"

fun add_components :: "(string \<times> int) list \<Rightarrow> string list \<Rightarrow> rat \<Rightarrow> string list \<times> rat" where
  "add_components [] parts r = (parts, r)"
| "add_components ((suffix, division) # cs) parts r =
     (if suffix \<noteq> [] \<and> of_int division \<le> r
      then add_components cs
             (parts @ [string_of_int (py_trunc (float_floordiv r (of_int division))) @ suffix])
             (float_mod r (of_int division))
      else add_components cs parts r)"

definition date_components :: "interval_format \<Rightarrow> (string \<times> int) list" where
  "date_components f = [(years_suffix f, YEAR), (months_suffix f, MONTH), (weeks_suffix f, WEEK), (days_suffix f, DAY)]"

definition time_components :: "interval_format \<Rightarrow> (string \<times> int) list" where
  "time_components f = [(hours_suffix f, HOUR), (minutes_suffix f, MINUTE)]"

definition finite_parts :: "interval_format \<Rightarrow> rat \<Rightarrow> string list" where
  "finite_parts f r0 =
     (let r1 = (if of_int LEAP < r0
                then fsub r0 (fmul (of_int DAY) (float_floordiv r0 (of_int LEAP))) else r0);
          (parts, r2) = add_components (date_components f) [] r1;
          parts = (if date_time_separator f \<noteq> [] \<and> (r2 \<noteq> 0 \<or> parts = [])
                   then parts @ [date_time_separator f] else parts);
          (parts, r3) = add_components (time_components f) parts r2
      in if seconds_suffix f \<noteq> [] \<and> (r3 \<noteq> 0 \<or> parts = [])
         then parts @ [(if decimals f \<noteq> 0 then fixed_decimal (decimals f) r3 else short_decimal r3)
                       @ seconds_suffix f]
         else parts)"

text \<open>
  For an infinity or NaN the remainder is NaN. The sign of a negative value is always
  \<open>-\<close>; the parameter \<open>negative_sign\<close> is not used.
\<close>

definition interval_to_string :: "interval_format \<Rightarrow> py_float \<Rightarrow> string" where
  "interval_to_string f x =
     (if pf_less (Fin 0) x then positive_sign f else if pf_less x (Fin 0) then ''-'' else [])
     @ preamble f
     @ join_with (component_separator f)
         (case x of
            Fin r \<Rightarrow> finite_parts f \<bar>r\<bar>
          | _ \<Rightarrow> (if date_time_separator f \<noteq> [] then [date_time_separator f] else [])
                 @ (if seconds_suffix f \<noteq> [] then [''nan'' @ seconds_suffix f] else []))"

definition to_iso8601_string :: "py_float \<Rightarrow> string" where
  "to_iso8601_string x =
     interval_to_string
       (default_format\<lparr>years_suffix := ''Y'', days_suffix := ''D'', hours_suffix := ''H'', minutes_suffix := ''M'',
          seconds_suffix := ''S'', component_separator := [], preamble := ''P'', date_time_separator := ''T''\<rparr>) x"

definition to_json_string :: "py_float \<Rightarrow> string" where
  "to_json_string x =
     interval_to_string
       (default_format\<lparr>years_suffix := [], days_suffix := [], hours_suffix := [], minutes_suffix := []\<rparr>) x"

end
