(* ===== verification/Time_Point.thy ===== *)
theory Time_Point
  imports Time_Interval
begin

section \<open>Time points (\<open>core/timeutils/timepoint.py\<close>)\<close>

text \<open>
  \<open>TimePoint\<close> extends \<open>float\<close>: seconds since the epoch. The calendar functions of the
  standard library (\<open>time\<close>, \<open>datetime\<close>) and the time zone are the record
  \<open>clock\<close>; \<open>'s\<close> is \<open>struct_time\<close> and \<open>'d\<close> is \<open>datetime\<close>. A call that
  may not return is an option.
\<close>

record ('s, 'd) clock =
  ck_now :: py_float
  ck_mktime :: "'s \<Rightarrow> py_float result"
  ck_isdst :: "'s \<Rightarrow> bool"
  ck_altzone :: int
  ck_timezone :: int
  ck_tzname :: "bool \<Rightarrow> string"
  ck_struct :: "bool \<Rightarrow> py_float \<Rightarrow> 's result"
  ck_strftime :: "string \<Rightarrow> 's \<Rightarrow> string"
  ck_fromiso :: "string \<Rightarrow> 'd result"
  ck_aware :: "'d \<Rightarrow> bool"
  ck_as_utc :: "'d \<Rightarrow> 'd"
  ck_timestamp :: "'d \<Rightarrow> py_float result"
  ck_fromtimestamp :: "bool \<Rightarrow> py_float \<Rightarrow> 'd result"

subsection \<open>Automatic scaling\<close>

definition AUTOSCALE_SECONDS_UPPER_LIMIT :: int where
  "AUTOSCALE_SECONDS_UPPER_LIMIT = 31536000000"

definition div1000 :: "num \<Rightarrow> num" where
  "div1000 x = (case pf_div (to_float x) (Fin 1000) of Inr y \<Rightarrow> NFloat y | Inl _ \<Rightarrow> NFloat NaN)"

partial_function (option) autoscale_loop :: "num \<Rightarrow> num option" where
  [code]: "autoscale_loop x =
     (if num_le (NInt AUTOSCALE_SECONDS_UPPER_LIMIT) x then autoscale_loop (div1000 x) else Some x)"

text \<open>\<open>max(0, x)\<close> keeps the zero unless \<open>x\<close> is greater.\<close>

definition autoscaled_from :: "num \<Rightarrow> py_float option" where
  "autoscaled_from x =
     map_option (\<lambda>y. if num_less (NInt 0) y then to_float y else Fin 0) (autoscale_loop x)"

subsection \<open>Construction\<close>

definition tz_offset :: "('s, 'd) clock \<Rightarrow> 's \<Rightarrow> bool \<Rightarrow> int" where
  "tz_offset c t is_utc = (if is_utc then 0 else if ck_isdst c t then ck_altzone c else ck_timezone c)"

definition from_struct_time :: "('s, 'd) clock \<Rightarrow> 's \<Rightarrow> bool \<Rightarrow> py_float result" where
  "from_struct_time c t is_utc =
     map_sum id (\<lambda>x. if is_utc then pf_sub x (to_float (NInt (tz_offset c t False))) else x) (ck_mktime c t)"

definition from_datetime :: "('s, 'd) clock \<Rightarrow> 'd \<Rightarrow> bool \<Rightarrow> py_float result" where
  "from_datetime c d assume_utc =
     ck_timestamp c (if \<not> ck_aware c d \<and> assume_utc then ck_as_utc c d else d)"

definition point_from_string :: "('s, 'd) clock \<Rightarrow> string \<Rightarrow> bool \<Rightarrow> py_float result" where
  "point_from_string c s assume_utc = bind_result (ck_fromiso c s) (\<lambda>d. from_datetime c d assume_utc)"

definition point_from_milliseconds :: "num \<Rightarrow> py_float result" where
  "point_from_milliseconds n = pf_div (to_float n) (Fin (10 ^ 3))"

definition point_from_microseconds :: "num \<Rightarrow> py_float result" where
  "point_from_microseconds n = pf_div (to_float n) (Fin (10 ^ 6))"

definition point_from_nanoseconds :: "num \<Rightarrow> py_float result" where
  "point_from_nanoseconds n = pf_div (to_float n) (Fin (10 ^ 9))"

text \<open>\<open>from_epoch\<close>: adding to a missing \<open>seconds\<close> raises \<open>TypeError\<close>.\<close>

definition epoch_part :: "num option \<Rightarrow> rat \<Rightarrow> py_float" where
  "epoch_part v scale =
     (case pf_div (to_float (case v of None \<Rightarrow> NInt 0 | Some x \<Rightarrow> x)) (Fin scale) of Inr y \<Rightarrow> y | Inl _ \<Rightarrow> NaN)"

definition from_epoch ::
    "num option \<Rightarrow> num option \<Rightarrow> num option \<Rightarrow> num option \<Rightarrow> py_float result" where
  "from_epoch seconds milliseconds microseconds nanoseconds =
     (case seconds of
        None \<Rightarrow> Inl TypeError
      | Some s \<Rightarrow> Inr (pf_add (pf_add (pf_add (to_float s) (epoch_part milliseconds (10 ^ 3)))
                               (epoch_part microseconds (10 ^ 6))) (epoch_part nanoseconds (10 ^ 9))))"

definition point_from_protobuf :: "int \<Rightarrow> int \<Rightarrow> py_float result" where
  "point_from_protobuf seconds nanos = from_epoch (Some (NInt seconds)) None None (Some (NInt nanos))"

definition point_from_value ::
    "('s, 'd) clock \<Rightarrow> ('s, 'd) time_input \<Rightarrow> int option \<Rightarrow> bool \<Rightarrow> py_float result option" where
  "point_from_value c input decimal_exponent assume_utc =
     (let number = (\<lambda>x. case decimal_exponent of
            Some e \<Rightarrow> Some (Inr (to_float (num_mul x (pow10 e))))
          | None \<Rightarrow> map_option Inr (autoscaled_from x)) in
      case input of
        InNone \<Rightarrow> Some (Inr (ck_now c))
      | InPoint x \<Rightarrow> Some (Inr x)
      | InInterval x \<Rightarrow> number (NFloat x)
      | InNum x \<Rightarrow> number x
      | InText s \<Rightarrow>
         (case float_of_string s of
            Inr x \<Rightarrow> number (NFloat x)
          | Inl _ \<Rightarrow> Some (point_from_string c s assume_utc))
      | InDatetime d \<Rightarrow> Some (from_datetime c d assume_utc)
      | InStruct t \<Rightarrow> Some (from_struct_time c t assume_utc)
      | InTimestamp s n \<Rightarrow> Some (point_from_protobuf s n)
      | _ \<Rightarrow> Some (Inl TypeError))"

definition point_try_from ::
    "('s, 'd) clock \<Rightarrow> ('s, 'd) time_input \<Rightarrow> ('s, 'd) time_input \<Rightarrow> int option \<Rightarrow> bool
     \<Rightarrow> ('s, 'd) time_input result option" where
  "point_try_from c input fallback decimal_exponent assume_utc =
     (let attempt = (\<lambda>v otherwise. case point_from_value c v decimal_exponent assume_utc of
            None \<Rightarrow> None
          | Some (Inr x) \<Rightarrow> Some (Inr (InPoint x))
          | Some (Inl e) \<Rightarrow> (if e = ValueError \<or> e = TypeError then otherwise else Some (Inl e)))
      in attempt input
           (if fallback = InNone then Some (Inr fallback) else attempt fallback (Some (Inr fallback))))"

subsection \<open>Arithmetic\<close>

fun is_point_type :: "('s, 'd) time_input \<Rightarrow> bool" where
  "is_point_type (InStruct t) = True"
| "is_point_type (InDatetime d) = True"
| "is_point_type (InTimestamp s n) = True"
| "is_point_type (InPoint x) = True"
| "is_point_type _ = False"

fun is_interval_type :: "('s, 'd) time_input \<Rightarrow> bool" where
  "is_interval_type (InInterval x) = True"
| "is_interval_type (InDelta x) = True"
| "is_interval_type (InDuration n) = True"
| "is_interval_type _ = False"

definition point_add :: "py_float \<Rightarrow> ('s, 'd) time_input \<Rightarrow> py_float result" where
  "point_add x input =
     (if is_point_type input then Inl TypeError
      else map_sum id (pf_add x) (interval_from_value input 0))"

text \<open>The last branch returns a \<open>TypeError\<close> object instead of raising it.\<close>

datatype difference = APoint py_float | AnInterval py_float | TypeErrorObject

fun as_number :: "('s, 'd) time_input \<Rightarrow> num option" where
  "as_number (InNum x) = Some x"
| "as_number (InPoint x) = Some (NFloat x)"
| "as_number (InInterval x) = Some (NFloat x)"
| "as_number (InText s) = (case float_of_string s of Inr x \<Rightarrow> Some (NFloat x) | Inl _ \<Rightarrow> None)"
| "as_number _ = None"

fun num_abs :: "num \<Rightarrow> num" where
  "num_abs (NInt n) = NInt \<bar>n\<bar>"
| "num_abs (NFloat x) = NFloat (if pf_less x (Fin 0) then pf_neg x else x)"

text \<open>Numbers, and time points and intervals too, are classified by their size first.\<close>

definition classify :: "('s, 'd) time_input \<Rightarrow> ('s, 'd) time_input option" where
  "classify input =
     (case as_number input of
        None \<Rightarrow> Some input
      | Some x \<Rightarrow>
         (if pf_less (interval (num_abs x)) (Fin (of_int (10 * YEAR))) then Some (InInterval (interval x))
          else map_option InPoint (autoscaled_from x)))"

definition point_sub ::
    "('s, 'd) clock \<Rightarrow> py_float \<Rightarrow> ('s, 'd) time_input \<Rightarrow> difference result option" where
  "point_sub c x input0 =
     (case classify input0 of
        None \<Rightarrow> None
      | Some input \<Rightarrow>
         (if is_interval_type input
          then Some (map_sum id (\<lambda>y. APoint (pf_sub x y)) (interval_from_value input 0))
          else if is_point_type input
          then map_option (map_sum id (\<lambda>y. AnInterval (interval (NFloat (pf_sub x y)))))
                 (point_from_value c input None False)
          else case input of
            InText s \<Rightarrow>
              (case point_from_string c s False of
                 Inr y \<Rightarrow> Some (Inr (AnInterval (interval (NFloat (pf_sub x y)))))
               | Inl e \<Rightarrow>
                  (if e = ValueError then Some (map_sum id (\<lambda>y. APoint (pf_sub x y)) (interval_from_value input 0))
                   else Some (Inl e)))
          | _ \<Rightarrow> Some (Inr TypeErrorObject)))"

fun difference_value :: "difference \<Rightarrow> py_float result" where
  "difference_value (APoint x) = Inr x"
| "difference_value (AnInterval x) = Inr x"
| "difference_value TypeErrorObject = Inl TypeError"

subsection \<open>Conversion\<close>

definition point_to_milliseconds :: "py_float \<Rightarrow> int result" where
  "point_to_milliseconds x = int_of_float (pf_mul x (Fin 1000))"

definition point_to_microseconds :: "py_float \<Rightarrow> int result" where
  "point_to_microseconds x = int_of_float (pf_mul x (Fin (10 ^ 6)))"

definition point_to_nanoseconds :: "py_float \<Rightarrow> int result" where
  "point_to_nanoseconds x = int_of_float (pf_mul x (Fin (10 ^ 9)))"

text \<open>\<open>to_protobuf\<close>: the fraction is \<open>self - int(self)\<close>, which is \<open>point_sub\<close>.\<close>

definition point_to_protobuf :: "('s, 'd) clock \<Rightarrow> py_float \<Rightarrow> (int \<times> int) result option" where
  "point_to_protobuf c x =
     (case int_of_float x of
        Inl e \<Rightarrow> Some (Inl e)
      | Inr s \<Rightarrow>
         (case point_sub c x (InNum (NInt s)) of
            None \<Rightarrow> None
          | Some d \<Rightarrow> Some
             (bind_result d (\<lambda>d. bind_result (difference_value d) (\<lambda>frac.
              bind_result (int_of_float (pf_mul frac (Fin (10 ^ 9)))) (\<lambda>n. proto_fields s n))))))"

datatype zone_suffix = ZNONE | ZOFFSET | ZNAME | ZZULU

text \<open>\<open>'%+03d%02d'\<close> of the hours and minutes of an offset, truncated as \<open>%d\<close> does.\<close>

definition offset_text :: "int \<Rightarrow> string" where
  "offset_text offset =
     (let hours = py_trunc (of_int (- offset) / 3600); minutes = ((- offset) mod 3600) div 60
      in (if hours < 0 then ''-'' else ''+'') @ pad_left 2 CHR ''0'' (digits_of_nat (nat \<bar>hours\<bar>))
         @ pad_left 2 CHR ''0'' (digits_of_nat (nat minutes)))"

definition is_upper :: "char \<Rightarrow> bool" where
  "is_upper ch \<longleftrightarrow> 65 \<le> (of_char ch :: nat) \<and> (of_char ch :: nat) \<le> 90"

definition zone_text :: "('s, 'd) clock \<Rightarrow> zone_suffix \<Rightarrow> string \<Rightarrow> bool \<Rightarrow> 's \<Rightarrow> string" where
  "zone_text c suffix delimiter utc t =
     (case suffix of
        ZOFFSET \<Rightarrow> delimiter @ offset_text (tz_offset c t utc)
      | ZNAME \<Rightarrow> delimiter @ (if utc then ''UTC'' else filter is_upper (ck_tzname c (ck_isdst c t)))
      | ZZULU \<Rightarrow> (if utc then delimiter @ ''Z'' else [])
      | ZNONE \<Rightarrow> [])"

text \<open>\<open>'.%0*d' % (decimals, 10**decimals * fraction)\<close>.\<close>

definition fraction_text :: "nat \<Rightarrow> rat \<Rightarrow> string" where
  "fraction_text k x =
     (let n = py_trunc (fmul (float_of_int (10 ^ k)) (fsub x (float_of_int (py_trunc x)))) in
      ''.'' @ (if n < 0 then CHR ''-'' # pad_left (k - 1) CHR ''0'' (digits_of_nat (nat (- n)))
               else pad_left k CHR ''0'' (digits_of_nat (nat n))))"

definition point_to_string ::
    "('s, 'd) clock \<Rightarrow> bool \<Rightarrow> string \<Rightarrow> nat \<Rightarrow> zone_suffix \<Rightarrow> string \<Rightarrow> rat \<Rightarrow> string result" where
  "point_to_string c utc time_delimiter k suffix zone_delimiter x =
     bind_result (ck_struct c utc (Fin x)) (\<lambda>t.
       Inr (ck_strftime c (''%F'' @ time_delimiter @ ''%T'') t
            @ (if k \<noteq> 0 then fraction_text k x else [])
            @ zone_text c suffix zone_delimiter utc t))"

definition point_to_iso8601_string :: "('s, 'd) clock \<Rightarrow> nat \<Rightarrow> rat \<Rightarrow> string result" where
  "point_to_iso8601_string c k x = point_to_string c True ''T'' k ZZULU [] x"

text \<open>\<open>to_json_string\<close> has only a documentation string: it returns \<open>None\<close>.\<close>

definition point_to_json_string :: "nat \<Rightarrow> rat \<Rightarrow> string option" where
  "point_to_json_string k x = None"

definition to_struct_time :: "('s, 'd) clock \<Rightarrow> bool \<Rightarrow> rat \<Rightarrow> 's result" where
  "to_struct_time c utc x = ck_struct c utc (Fin x)"

definition to_datetime :: "('s, 'd) clock \<Rightarrow> bool \<Rightarrow> rat \<Rightarrow> 'd result" where
  "to_datetime c utc x = ck_fromtimestamp c utc (Fin x)"

definition to_format :: "('s, 'd) clock \<Rightarrow> string \<Rightarrow> bool \<Rightarrow> rat \<Rightarrow> string result" where
  "to_format c fmt local x = map_sum id (ck_strftime c fmt) (ck_struct c (\<not> local) (Fin x))"

end
