(* ===== verification/Time_Props.thy ===== *)
theory Time_Props
  imports Time_Point
begin

section \<open>Properties of time intervals and time points\<close>

text \<open>
  Fractions of a double, the protobuf normal form, automatic scaling, printing and parsing of
  durations, and the classification of operands of a difference.
\<close>

subsection \<open>Fractions of doubles\<close>

lemma f64_cases:
  assumes "is_f64 x" "0 \<le> x"
  obtains (whole) n where "x = of_int n"
    | (parts) m k where "0 \<le> m" "m \<le> 2 ^ 53" "x = of_int m / 2 ^ k"
proof -
  from assms(1) obtain m e where m: "\<bar>m\<bar> \<le> 2 ^ 53" and x: "x = of_int m * 2 powi e"
    by (auto simp: is_f64_def)
  show thesis
  proof (cases "0 \<le> e")
    case True
    then have "x = of_int (m * 2 ^ nat e)" using x by (simp add: power_int_nat)
    then show thesis by (rule whole)
  next
    case False
    then have "x = of_int m / 2 ^ nat (- e)"
      using x by (simp add: power_int_def field_simps)
    moreover have "0 \<le> m"
    proof (rule ccontr)
      assume "\<not> 0 \<le> m"
      then have "x < 0" unfolding x by (intro mult_neg_pos) auto
      with assms(2) show False by simp
    qed
    ultimately show thesis using m parts by auto
  qed
qed

lemma trunc_frac_pos:
  assumes "is_f64 x" "0 \<le> x"
  shows "is_f64 (x - of_int (py_trunc x)) \<and> 0 \<le> x - of_int (py_trunc x)
     \<and> x - of_int (py_trunc x) \<le> 1 - 1 / 2 ^ 53 \<and> is_f64 (of_int (py_trunc x))"
  using assms
proof (cases rule: f64_cases)
  case (whole n)
  then show ?thesis using assms(1) is_f64_int[of 0] by simp
next
  case (parts m k)
  define r where "r = m mod 2 ^ k"
  have r: "0 \<le> r" "r < 2 ^ k" "r \<le> m" using parts by (simp_all add: r_def zmod_le_nonneg_dividend)
  have t: "py_trunc x = m div 2 ^ k"
    using parts py_trunc_div[of m "2 ^ k"] by simp
  have "m = m div 2 ^ k * 2 ^ k + r" unfolding r_def by (rule div_mult_mod_eq[symmetric])
  then have split: "of_int m = of_int (m div 2 ^ k) * 2 ^ k + (of_int r :: rat)"
    by (metis of_int_add of_int_mult of_int_numeral of_int_power)
  then have d: "x - of_int (py_trunc x) = of_int r / 2 ^ k"
    unfolding t unfolding parts(3) by (simp add: field_simps)
  have f: "is_f64 (of_int r / 2 ^ k)"
    unfolding is_f64_def using r parts
    by (intro exI[of _ r] exI[of _ "- int k"]) (simp add: power_int_minus divide_inverse)
  have "of_int r / 2 ^ k \<le> (1 - 1 / 2 ^ 53 :: rat)"
  proof (cases "k \<le> 53")
    case True
    then have "(2 :: rat) ^ k \<le> 2 ^ 53" by (intro power_increasing) simp_all
    then have "(1 :: rat) / 2 ^ 53 \<le> 1 / 2 ^ k" by (intro frac_le) simp_all
    moreover have "of_int r \<le> (2 ^ k - 1 :: rat)"
    proof -
      have "r \<le> 2 ^ k - 1" using r(2) by simp
      then have "of_int r \<le> (of_int (2 ^ k - 1) :: rat)" by (simp only: of_int_le_iff)
      then show ?thesis by simp
    qed
    then have "of_int r / 2 ^ k \<le> (1 - 1 / 2 ^ k :: rat)" by (simp add: field_simps)
    ultimately show ?thesis by linarith
  next
    case False
    have "of_int r \<le> (2 ^ 53 :: rat)" using r parts by (metis of_int_le_iff of_int_numeral of_int_power order_trans)
    moreover have "(2 :: rat) ^ 54 \<le> 2 ^ k" using False by (intro power_increasing) auto
    ultimately have "of_int r / 2 ^ k \<le> (2 ^ 53 / 2 ^ 54 :: rat)" using r by (intro frac_le) auto
    also have "\<dots> \<le> 1 - 1 / 2 ^ 53" by simp
    finally show ?thesis .
  qed
  moreover have "m div 2 ^ k \<le> 2 ^ 53" "0 \<le> m div 2 ^ k"
    using parts by (auto simp: pos_imp_zdiv_nonneg_iff intro: order_trans[OF zdiv_mono2[of m 1 "2 ^ k"]])
  ultimately show ?thesis using f r is_f64_int[of "m div 2 ^ k"] unfolding d unfolding t by simp
qed

lemma trunc_frac:
  assumes "is_f64 x"
  shows "is_f64 (x - of_int (py_trunc x))" "\<bar>x - of_int (py_trunc x)\<bar> \<le> 1 - 1 / 2 ^ 53"
    "is_f64 (of_int (py_trunc x))"
    "0 \<le> x \<Longrightarrow> 0 \<le> x - of_int (py_trunc x)" "x \<le> 0 \<Longrightarrow> x - of_int (py_trunc x) \<le> 0"
proof -
  consider "0 \<le> x" | "x \<le> 0" by linarith
  then have "is_f64 (x - of_int (py_trunc x)) \<and> \<bar>x - of_int (py_trunc x)\<bar> \<le> 1 - 1 / 2 ^ 53
    \<and> is_f64 (of_int (py_trunc x)) \<and> (0 \<le> x \<longrightarrow> 0 \<le> x - of_int (py_trunc x))
    \<and> (x \<le> 0 \<longrightarrow> x - of_int (py_trunc x) \<le> 0)"
  proof cases
    case 1
    then show ?thesis using trunc_frac_pos[OF assms 1] by (auto simp: py_trunc_def)
  next
    case 2
    then have "0 \<le> - x" by simp
    from trunc_frac_pos[OF is_f64_minus[OF assms] this]
    have p: "is_f64 (- x + of_int (py_trunc x))" "0 \<le> - x + of_int (py_trunc x)"
      "- x + of_int (py_trunc x) \<le> 1 - 1 / 2 ^ 53" "is_f64 (- of_int (py_trunc x))" by simp_all
    from is_f64_minus[OF p(1)] is_f64_minus[OF p(4)] p(2,3) 2 show ?thesis
      by (auto simp: py_trunc_def)
  qed
  then show "is_f64 (x - of_int (py_trunc x))" "\<bar>x - of_int (py_trunc x)\<bar> \<le> 1 - 1 / 2 ^ 53"
    "is_f64 (of_int (py_trunc x))"
    "0 \<le> x \<Longrightarrow> 0 \<le> x - of_int (py_trunc x)" "x \<le> 0 \<Longrightarrow> x - of_int (py_trunc x) \<le> 0" by auto
qed

lemma rnd_largest: "rnd ((1 - 1 / 2 ^ 53) * 10 ^ 9) = 10 ^ 9 - 1 / 2 ^ 23"
proof -
  have "fexp ((1 - 1 / 2 ^ 53) * 10 ^ 9) = 29" by (rule fexp_unique) (simp_all add: power_int_def)
  moreover have "round_half_even ((1 - 1 / 2 ^ 53) * 10 ^ 9 / 2 powi (29 - 52)) = 10 ^ 9 * 2 ^ 23 - 1"
    by (rule round_half_even_eq) (simp add: power_int_def power_divide abs_less_iff)
  ultimately show ?thesis by (simp add: rnd_def power_int_def Let_def power_divide)
qed

text \<open>The nanoseconds of a fraction.\<close>

lemma nanos_bounds:
  assumes "\<bar>r\<bar> \<le> 1 - 1 / 2 ^ 53"
  shows "\<bar>py_trunc (fmul r (10 ^ 9))\<bar> \<le> 999999999" "0 \<le> r \<Longrightarrow> 0 \<le> py_trunc (fmul r (10 ^ 9))"
    "r \<le> 0 \<Longrightarrow> py_trunc (fmul r (10 ^ 9)) \<le> 0"
proof -
  have top: "py_trunc (10 ^ 9 - 1 / 2 ^ 23 :: rat) = 999999999" by code_simp
  have "fmul r (10 ^ 9) \<le> 10 ^ 9 - 1 / 2 ^ 23"
    unfolding fmul_def rnd_largest[symmetric] using assms by (intro rnd_mono) (simp add: field_simps)
  from py_trunc_mono[OF this] have u: "py_trunc (fmul r (10 ^ 9)) \<le> 999999999" by (simp only: top)
  have "- r * 10 ^ 9 \<le> (1 - 1 / 2 ^ 53) * 10 ^ 9" using assms by (simp add: field_simps)
  from rnd_mono[OF this] have "- fmul r (10 ^ 9) \<le> 10 ^ 9 - 1 / 2 ^ 23"
    unfolding fmul_def rnd_largest by simp
  from py_trunc_mono[OF this] have l: "- py_trunc (fmul r (10 ^ 9)) \<le> 999999999"
    by (simp only: top py_trunc_minus)
  from u l show "\<bar>py_trunc (fmul r (10 ^ 9))\<bar> \<le> 999999999" by linarith
  show "0 \<le> py_trunc (fmul r (10 ^ 9))" if "0 \<le> r"
    using that by (simp add: py_trunc_def fmul_def)
  show "py_trunc (fmul r (10 ^ 9)) \<le> 0" if "r \<le> 0"
  proof -
    have "fmul r (10 ^ 9) \<le> 0" using that by (simp add: fmul_def mult_nonpos_nonneg)
    from py_trunc_mono[OF this] show ?thesis using py_trunc_of_int[of 0] by simp
  qed
qed

subsection \<open>Protobuf durations\<close>

lemma interval_from_int: "interval_from_value (InNum (NInt n)) 0 = Inr (Fin (float_of_int n))"
  by (simp add: interval_from_value_def pow10_def)

lemma interval_frac:
  assumes "is_f64 x"
  shows "interval_sub (Fin x) (InNum (NInt (py_trunc x))) = Inr (Fin (x - of_int (py_trunc x)))"
proof -
  have "float_of_int (py_trunc x) = of_int (py_trunc x)"
    unfolding float_of_int_def using trunc_frac(3)[OF assms] by (rule rnd_exact)
  then show ?thesis
    using rnd_exact[OF trunc_frac(1)[OF assms]]
    by (simp add: interval_sub_def interval_from_int fsub_def)
qed

lemma interval_mul_nanos: "interval_mul (Fin r) (NFloat (Fin (10 ^ 9))) = Fin (fmul r (10 ^ 9))"
  by (simp add: interval_mul_def fmul_def)

text \<open>
  An interval converts to a protobuf duration in normal form: for every double below
  2^63 seconds, \<open>to_protobuf\<close> succeeds, its seconds are the integer part, its nanoseconds
  are at most 999999999 in absolute value, and neither field has the opposite sign of the
  interval.
\<close>

theorem interval_to_protobuf_normal:
  assumes "is_f64 x" and "\<bar>x\<bar> < 2 ^ 63"
  shows "\<exists>s n. interval_to_protobuf (Fin x) = Inr (s, n) \<and> s = py_trunc x \<and> \<bar>n\<bar> \<le> 999999999
     \<and> (0 \<le> x \<longrightarrow> 0 \<le> s \<and> 0 \<le> n) \<and> (x \<le> 0 \<longrightarrow> s \<le> 0 \<and> n \<le> 0)"
proof -
  let ?r = "x - of_int (py_trunc x)" and ?n = "py_trunc (fmul (x - of_int (py_trunc x)) (10 ^ 9))"
  note r = trunc_frac[OF assms(1)] and n = nanos_bounds[OF trunc_frac(2)[OF assms(1)]]
  have "\<bar>of_int (py_trunc x)\<bar> < (2 ^ 63 :: rat)" using py_trunc_abs_le[of x] assms(2) by linarith
  then have s: "\<bar>py_trunc x\<bar> < 2 ^ 63" by (metis of_int_abs of_int_less_iff of_int_numeral of_int_power)
  have "proto_fields (py_trunc x) ?n = Inr (py_trunc x, ?n)"
    using s n(1) by (auto simp: proto_fields_def abs_less_iff abs_le_iff)
  then have "interval_to_protobuf (Fin x) = Inr (py_trunc x, ?n)"
    by (simp add: interval_to_protobuf_def interval_frac[OF assms(1)] interval_mul_nanos[simplified])
  moreover have "0 \<le> x \<longrightarrow> 0 \<le> py_trunc x" "x \<le> 0 \<longrightarrow> py_trunc x \<le> 0"
    using py_trunc_mono[of 0 x] py_trunc_mono[of x 0] py_trunc_of_int[of 0] by auto
  ultimately show ?thesis using n r(4,5) by auto
qed

theorem interval_to_protobuf_normal_witness:
  "\<exists>s n. interval_to_protobuf (Fin (- (5 / 2))) = Inr (s, n) \<and> s = py_trunc (- (5 / 2)) \<and> \<bar>n\<bar> \<le> 999999999
     \<and> s \<le> 0 \<and> n \<le> 0"
proof -
  have "is_f64 (- (5 / 2))"
    unfolding is_f64_def by (intro exI[of _ "- 5"] exI[of _ "- 1"]) (simp add: power_int_minus)
  from interval_to_protobuf_normal[OF this] show ?thesis by auto
qed

subsection \<open>Automatic scaling\<close>

fun finite_num :: "num \<Rightarrow> rat option" where
  "finite_num (NInt n) = Some (of_int n)"
| "finite_num (NFloat (Fin x)) = Some x"
| "finite_num _ = None"

lemma rnd_le_twice:
  assumes "0 \<le> x"
  shows "rnd x \<le> 2 * x"
proof (cases "x = 0")
  case False
  then have "rnd x \<le> 2 powi (fexp x + 1)" using rnd_pos_bounds(2) assms by simp
  also have "\<dots> = 2 powi (fexp x) * 2" by (simp add: power_int_add)
  also have "\<dots> \<le> 2 * x" using fexp_bounds(1)[of x] False assms by simp
  finally show ?thesis .
qed simp

lemma div1000_finite:
  assumes "finite_num x = Some v" "0 \<le> v"
  shows "\<exists>w. div1000 x = NFloat (Fin w) \<and> 0 \<le> w \<and> w \<le> v / 250"
proof -
  obtain f where f: "to_float x = Fin f" "0 \<le> f" "f \<le> 2 * v"
    using assms rnd_le_twice by (cases x rule: finite_num.cases) (auto simp: float_of_int_def)
  have "fdiv f 1000 \<le> 2 * (f / 1000)" unfolding fdiv_def using f(2) by (intro rnd_le_twice) simp
  moreover have "0 \<le> fdiv f 1000" unfolding fdiv_def using f(2) by simp
  ultimately show ?thesis using f by (simp add: div1000_def)
qed

lemma num_le_finite: "finite_num x = Some v \<Longrightarrow> num_le (NInt n) x \<longleftrightarrow> of_int n \<le> v"
  by (cases x rule: finite_num.cases) (auto simp: num_le_def)

lemma autoscale_loop_finite:
  assumes "finite_num x = Some v"
  shows "\<exists>y w. autoscale_loop x = Some y \<and> finite_num y = Some w \<and> w < of_int AUTOSCALE_SECONDS_UPPER_LIMIT
     \<and> (v < of_int AUTOSCALE_SECONDS_UPPER_LIMIT \<longrightarrow> y = x)"
  using assms
proof (induction "nat \<lfloor>v\<rfloor>" arbitrary: x v rule: less_induct)
  case less
  show ?case
  proof (cases "of_int AUTOSCALE_SECONDS_UPPER_LIMIT \<le> v")
    case False
    with less.prems show ?thesis
      by (subst autoscale_loop.simps) (auto simp: num_le_finite)
  next
    case True
    then have big: "31536000000 \<le> v" by (simp add: AUTOSCALE_SECONDS_UPPER_LIMIT_def)
    obtain w where w: "div1000 x = NFloat (Fin w)" "0 \<le> w" "w \<le> v / 250"
      using div1000_finite[OF less.prems] big by auto
    then have "w + 1 \<le> v" using big by linarith
    then have "nat \<lfloor>w\<rfloor> < nat \<lfloor>v\<rfloor>" using big by linarith
    from less.hyps[OF this, of "NFloat (Fin w)"] True w less.prems show ?thesis
      by (subst autoscale_loop.simps) (auto simp: num_le_finite)
  qed
qed

lemma autoscale_loop_infinite: "autoscale_loop (NFloat PosInf) = None"
proof -
  have "x \<noteq> NFloat PosInf" if "autoscale_loop x = Some y" for x y
  proof (rule autoscale_loop.raw_induct[OF _ that, where P = "\<lambda>x y. x \<noteq> NFloat PosInf"])
    fix f x y
    assume IH: "\<And>x y. f x = Some y \<Longrightarrow> x \<noteq> NFloat PosInf"
      and step: "(if num_le (NInt AUTOSCALE_SECONDS_UPPER_LIMIT) x then f (div1000 x) else Some x) = Some y"
    show "x \<noteq> NFloat PosInf"
    proof
      assume "x = NFloat PosInf"
      with step have "f (NFloat PosInf) = Some y" by (simp add: num_le_def pf_le_def div1000_def)
      then show False using IH by blast
    qed
  qed
  then show ?thesis by (cases "autoscale_loop (NFloat PosInf)") auto
qed

text \<open>
  \<open>autoscaled_from\<close> returns for every finite number, large or negative, with a time
  from 0 up to (not including) the upper limit; a number already in that range is only
  converted to a double.
\<close>

theorem autoscaled_from_total:
  assumes "finite_num x = Some v"
  shows "\<exists>t. autoscaled_from x = Some (Fin t) \<and> 0 \<le> t \<and> t \<le> 31536000000
     \<and> (0 < v \<and> v < 31536000000 \<longrightarrow> to_float x = Fin t)"
proof -
  obtain y w where y: "autoscale_loop x = Some y" "finite_num y = Some w" "w < 31536000000"
    "v < 31536000000 \<longrightarrow> y = x"
    using autoscale_loop_finite[OF assms] by (auto simp: AUTOSCALE_SECONDS_UPPER_LIMIT_def)
  have limit: "rnd 31536000000 = 31536000000" using rnd_int[of 31536000000] by simp
  have "num_less (NInt 0) y \<longleftrightarrow> 0 < w"
    using y(2) by (cases y rule: finite_num.cases) (auto simp: num_less_def)
  moreover have "\<exists>t. to_float y = Fin t \<and> (0 < w \<longrightarrow> 0 \<le> t \<and> t \<le> 31536000000)"
  proof (cases y rule: finite_num.cases)
    case (1 n)
    then have "0 < w \<Longrightarrow> rnd (of_int n) \<le> 31536000000"
      using rnd_mono[of "of_int n" 31536000000] y(2,3) limit by simp
    with 1 y(2) show ?thesis by (auto simp: float_of_int_def)
  qed (use y in auto)
  ultimately show ?thesis using y assms by (auto simp: autoscaled_from_def)
qed

theorem autoscaled_from_total_witness:
  "\<exists>t. autoscaled_from (NInt 1759276800000000000) = Some (Fin t) \<and> 0 \<le> t \<and> t \<le> 31536000000"
  using autoscaled_from_total[of "NInt 1759276800000000000" 1759276800000000000] by auto

text \<open>
  \<open>autoscaled_from\<close> never returns for positive infinity, such as the value of the text
  \<open>inf\<close>: dividing by 1000 does not change it.
\<close>

theorem autoscaled_from_infinity_hangs:
  "autoscaled_from (NFloat PosInf) = None \<and> point_from_value c (InText ''inf'') None utc = None"
proof -
  have "float_of_string ''inf'' = Inr PosInf" by code_simp
  then show ?thesis
    by (simp add: autoscaled_from_def autoscale_loop_infinite point_from_value_def)
qed

subsection \<open>Protobuf timestamps\<close>

lemma autoscaled_from_int:
  assumes "t < 31536000000" "- (2 ^ 53) \<le> t"
  shows "autoscaled_from (NInt t) = Some (Fin (of_int (max 0 t)))"
proof -
  have "autoscale_loop (NInt t) = Some (NInt t)"
    using assms by (subst autoscale_loop.simps) (simp add: num_le_finite AUTOSCALE_SECONDS_UPPER_LIMIT_def)
  then show ?thesis
    using assms by (auto simp: autoscaled_from_def num_less_def float_of_int_exact max_def)
qed

lemma classify_int:
  assumes "\<bar>t\<bar> \<le> 2 ^ 53" "t < 31536000000"
  shows "classify (InNum (NInt t)) =
    Some (if \<bar>t\<bar> < 315360000 then InInterval (Fin (of_int t)) else InPoint (Fin (of_int (max 0 t))))"
proof -
  have "float_of_int \<bar>t\<bar> = of_int \<bar>t\<bar>" "float_of_int t = of_int t"
    using assms by (simp_all add: float_of_int_exact)
  moreover have "(of_int \<bar>t\<bar> :: rat) < 315360000 \<longleftrightarrow> \<bar>t\<bar> < 315360000"
    using of_int_less_iff[of "\<bar>t\<bar>" 315360000, where 'a = rat] by simp
  ultimately show ?thesis
    using assms by (simp add: classify_def unit_defs autoscaled_from_int)
qed

text \<open>What \<open>self - t\<close> is for an integer \<open>t\<close>: a time point or an interval.\<close>

lemma point_sub_int:
  assumes "\<bar>t\<bar> \<le> 2 ^ 53" "t < 31536000000"
  shows "point_sub c (Fin x) (InNum (NInt t)) = Some (Inr
    (if \<bar>t\<bar> < 315360000 then APoint (Fin (fsub x (of_int t)))
     else AnInterval (Fin (rnd (fsub x (of_int (max 0 t)))))))"
  by (simp add: point_sub_def classify_int[OF assms] interval_from_value_def point_from_value_def)

lemma trunc_bounds: "of_int a < x \<Longrightarrow> x < of_int b \<Longrightarrow> a \<le> 0 \<Longrightarrow> 0 \<le> b \<Longrightarrow> a \<le> py_trunc x \<and> py_trunc x \<le> b"
  using py_trunc_mono[of "of_int a" x] py_trunc_mono[of x "of_int b"] by simp

lemma point_to_protobuf_from:
  assumes "point_sub c (Fin x) (InNum (NInt (py_trunc x))) = Some (Inr d)" "difference_value d = Inr (Fin r)"
  shows "point_to_protobuf c (Fin x) = Some (proto_fields (py_trunc x) (py_trunc (fmul r (10 ^ 9))))"
  using assms by (simp add: point_to_protobuf_def)

text \<open>
  A time from 1960 (ten years of 365 days before the epoch) up to the automatic scaling
  limit converts to a protobuf timestamp: its seconds are the integer part and its
  nanoseconds are at most 999999999 in absolute value, with the sign of the time. Before 1970
  a fraction therefore gives negative nanoseconds.
\<close>

theorem point_to_protobuf_fields:
  assumes "is_f64 x" and "- 315360000 < x" "x < 31536000000"
  shows "\<exists>n. point_to_protobuf c (Fin x) = Some (Inr (py_trunc x, n)) \<and> \<bar>n\<bar> \<le> 999999999
     \<and> (0 \<le> x \<longrightarrow> 0 \<le> n) \<and> (x \<le> 0 \<longrightarrow> n \<le> 0)"
proof -
  let ?t = "py_trunc x" and ?r = "x - of_int (py_trunc x)"
  have "?t \<noteq> 31536000000"
  proof
    assume "?t = 31536000000"
    then have "31536000000 \<le> \<bar>x\<bar>" using py_trunc_abs_le[of x] by simp
    with assms(2,3) show False by linarith
  qed
  moreover have "?t \<noteq> - 315360000"
  proof
    assume "?t = - 315360000"
    then have "315360000 \<le> \<bar>x\<bar>" "x < 1"
      using py_trunc_abs_le[of x] py_trunc_frac[of x] by simp_all
    with assms(2,3) show False by linarith
  qed
  ultimately have t: "- 315360000 < ?t" "?t < 31536000000"
    using trunc_bounds[of "- 315360000" x 31536000000] assms(2,3) by simp_all
  have r: "fsub x (of_int ?t) = ?r" "rnd ?r = ?r"
    using rnd_exact[OF trunc_frac(1)[OF assms(1)]] by (simp_all add: fsub_def)
  define d where "d = (if \<bar>?t\<bar> < 315360000 then APoint (Fin ?r) else AnInterval (Fin ?r))"
  have "max 0 ?t = ?t" if "\<not> \<bar>?t\<bar> < 315360000" using that t by simp
  then have d: "point_sub c (Fin x) (InNum (NInt ?t)) = Some (Inr d)"
    using point_sub_int[of ?t c x] t r by (auto simp: d_def)
  moreover have "difference_value d = Inr (Fin ?r)" by (simp add: d_def)
  ultimately have p: "point_to_protobuf c (Fin x) = Some (proto_fields ?t (py_trunc (fmul ?r (10 ^ 9))))"
    by (rule point_to_protobuf_from)
  note n = nanos_bounds[OF trunc_frac(2)[OF assms(1)]]
  have "proto_fields ?t (py_trunc (fmul ?r (10 ^ 9))) = Inr (?t, py_trunc (fmul ?r (10 ^ 9)))"
    using t n(1) by (auto simp: proto_fields_def)
  with p n trunc_frac(4,5)[OF assms(1)] show ?thesis by auto
qed

theorem point_to_protobuf_fields_witness:
  "\<forall>c :: (nat, nat) clock. \<exists>n. point_to_protobuf c (Fin (1 / 2)) = Some (Inr (py_trunc (1 / 2), n)) \<and> \<bar>n\<bar> \<le> 999999999 \<and> 0 \<le> n"
proof -
  have "is_f64 (1 / 2)"
    unfolding is_f64_def by (intro exI[of _ "1"] exI[of _ "- 1"]) (simp add: power_int_minus)
  from point_to_protobuf_fields[OF this] show ?thesis by auto
qed

text \<open>
  An earlier time cannot be converted: \<open>int(self)\<close> is taken for a time point that is
  scaled to the epoch, so that the fraction is the whole time and the nanoseconds exceed
  their 32 bits.
\<close>

theorem point_to_protobuf_before_1960:
  assumes "is_f64 x" and "- (2 ^ 53) \<le> x" "x \<le> - 315360000"
  shows "point_to_protobuf c (Fin x) = Some (Inl ValueError)"
proof -
  have t: "- (2 ^ 53) \<le> py_trunc x" "py_trunc x \<le> - 315360000"
    using py_trunc_mono[OF assms(3)] py_trunc_mono[OF assms(2)] py_trunc_of_int[of "- (2 ^ 53)"]
      py_trunc_of_int[of "- 315360000"] by simp_all
  then have "point_sub c (Fin x) (InNum (NInt (py_trunc x))) = Some (Inr (AnInterval (Fin x)))"
    using point_sub_int[of "py_trunc x" c x] rnd_exact[OF assms(1)] by (simp add: fsub_def)
  then have p: "point_to_protobuf c (Fin x) = Some (proto_fields (py_trunc x) (py_trunc (fmul x (10 ^ 9))))"
    by (rule point_to_protobuf_from) simp
  have "x * 10 ^ 9 \<le> - (2 ^ 53)" using assms(3) by simp
  then have "fmul x (10 ^ 9) \<le> - (2 ^ 53)"
    unfolding fmul_def using is_f64_int[of "- (2 ^ 53)"] by (intro rnd_le_f64) simp_all
  from py_trunc_mono[OF this] have "py_trunc (fmul x (10 ^ 9)) \<le> - (2 ^ 53)"
    using py_trunc_of_int[of "- (2 ^ 53)"] by simp
  then show ?thesis unfolding p by (simp add: proto_fields_def)
qed

theorem point_to_protobuf_before_1960_witness:
  "\<forall>c :: (nat, nat) clock. point_to_protobuf c (Fin (- 1000000000)) = Some (Inl ValueError)"
proof
  fix c :: "(nat, nat) clock"
  show "point_to_protobuf c (Fin (- 1000000000)) = Some (Inl ValueError)"
    using point_to_protobuf_before_1960[of "- 1000000000" c] is_f64_int[of "- 1000000000"] by simp
qed

subsection \<open>Differences of time points\<close>

text \<open>
  The difference of two time points is an interval only when the second lies at least ten
  years after the epoch. An earlier second time point is taken for an interval and the result is a time
  point; and an interval of ten years or more is taken for a time point and the result is an
  interval.
\<close>

theorem point_sub_classified_by_size:
  assumes "is_f64 y" "0 \<le> y" "y < 31536000000"
  shows "point_sub c (Fin x) (InPoint (Fin y)) = point_sub c (Fin x) (InInterval (Fin y))
     \<and> point_sub c (Fin x) (InPoint (Fin y)) = Some (Inr
         (if y < 315360000 then APoint (Fin (fsub x y)) else AnInterval (Fin (fsub x y))))"
proof -
  have "autoscale_loop (NFloat (Fin y)) = Some (NFloat (Fin y))"
    using assms(3) by (subst autoscale_loop.simps) (simp add: num_le_finite AUTOSCALE_SECONDS_UPPER_LIMIT_def)
  then have "autoscaled_from (NFloat (Fin y)) = Some (Fin y)"
    using assms(2) by (auto simp: autoscaled_from_def num_less_def)
  moreover have "rnd y = y" using assms(1) by (rule rnd_exact)
  moreover have "\<not> y < 0" using assms(2) by simp
  ultimately show ?thesis
    by (simp add: point_sub_def classify_def unit_defs interval_from_value_def point_from_value_def fsub_def)
qed

theorem point_sub_classified_by_size_witness:
  "\<forall>c :: (nat, nat) clock. point_sub c (Fin 500) (InPoint (Fin 100)) = Some (Inr (APoint (Fin 400)))"
proof
  fix c :: "(nat, nat) clock"
  show "point_sub c (Fin 500) (InPoint (Fin 100)) = Some (Inr (APoint (Fin 400)))"
    using point_sub_classified_by_size[of 100 c 500] is_f64_int[of 100] rnd_int[of 400] by (auto simp: fsub_def)
qed

end
