(* ===== verification/Wellknown.thy ===== *)
theory Wellknown
  imports Time_Props
begin

section \<open>Well-known protobuf types (\<open>protobuf/wellknown/wellknown.py\<close>)\<close>

text \<open>
  Conversion of times to the fields \<open>(seconds, nanos)\<close> of \<open>Timestamp\<close> and
  \<open>Duration\<close>, and of plain Python values to \<open>google.protobuf.Value\<close>. The messages are
  datatypes: a \<open>Value\<close> with no member of its \<open>kind\<close> set is \<open>WkUnset\<close>. An encoder with an
  \<open>output\<close> argument takes the message it populates and returns it changed.
\<close>

subsection \<open>Times\<close>

definition decodeTimestamp :: "int \<times> int \<Rightarrow> py_float result" where
  "decodeTimestamp prototime = point_from_protobuf (fst prototime) (snd prototime)"

text \<open>\<open>int((tp - int(tp)) * 1e9)\<close>, where \<open>tp - int(tp)\<close> is \<open>TimePoint.__sub__\<close>.\<close>

definition encodeTimestamp :: "('s, 'd) clock \<Rightarrow> ('s, 'd) time_input \<Rightarrow> (int \<times> int) result option" where
  "encodeTimestamp c input =
     (case point_from_value c input None False of
        None \<Rightarrow> None
      | Some (Inl e) \<Rightarrow> Some (Inl e)
      | Some (Inr tp) \<Rightarrow>
         (case int_of_float tp of
            Inl e \<Rightarrow> Some (Inl e)
          | Inr seconds \<Rightarrow>
             (if \<not> (- (2 ^ 63) \<le> seconds \<and> seconds < 2 ^ 63) then Some (Inl ValueError)
              else case point_sub c tp (InNum (NInt seconds)) of
                None \<Rightarrow> None
              | Some d \<Rightarrow> Some
                 (bind_result d (\<lambda>d. bind_result (difference_value d) (\<lambda>frac.
                  bind_result (int_of_float (pf_mul frac (Fin (10 ^ 9)))) (\<lambda>nanos.
                    proto_fields seconds nanos)))))))"

definition decodeDuration :: "int \<times> int \<Rightarrow> py_float result" where
  "decodeDuration duration = interval_from_protobuf duration"

fun time_truthy :: "('s, 'd) time_input \<Rightarrow> bool" where
  "time_truthy (InInterval x) = (x \<noteq> Fin 0)"
| "time_truthy (InPoint x) = (x \<noteq> Fin 0)"
| "time_truthy (InDelta x) = (x \<noteq> Fin 0)"
| "time_truthy (InNum x) = (exact_value x \<noteq> Fin 0)"
| "time_truthy (InText s) = (s \<noteq> [])"
| "time_truthy InNone = False"
| "time_truthy _ = True"

definition encodeDuration :: "('s, 'd) time_input \<Rightarrow> (int \<times> int) result" where
  "encodeDuration input =
     bind_result (interval_from_value (if time_truthy input then input else InNum (NInt 0)) 0) (\<lambda>dur.
     bind_result (int_of_float dur) (\<lambda>seconds.
     if \<not> (- (2 ^ 63) \<le> seconds \<and> seconds < 2 ^ 63) then Inl ValueError
     else bind_result (interval_sub dur (InNum (NInt seconds) :: (unit, unit) time_input)) (\<lambda>frac.
       bind_result (int_of_float (interval_mul frac (NFloat (Fin (10 ^ 9))))) (\<lambda>nanos.
         proto_fields seconds nanos))))"

subsection \<open>Values\<close>

text \<open>
  The Python values \<open>encodeValue\<close> distinguishes. Keys of dictionaries are strings. An
  existing message is copied.
\<close>

datatype wk_value =
    WkUnset
  | WkNull
  | WkBool bool
  | WkNumber py_float
  | WkString string
  | WkStruct "(string \<times> wk_value) list"
  | WkListValue "wk_value list"

datatype wk_object =
    ONone
  | OBool bool
  | OInt int
  | OFloat py_float
  | OStr string
  | ODict "(string \<times> wk_object) list"
  | OList "wk_object list"
  | OMessage wk_value
  | OTuple "wk_object list"
  | OOther

text \<open>
  A \<open>list\<close> calls \<open>encodeList\<close>, which the module does not define. \<open>output.fields[key]\<close>
  creates an empty value for a new key, and creates \<open>struct_value\<close> in the enclosing value;
  an empty dictionary never gets there, and leaves the value as it was.
\<close>

definition struct_fields :: "wk_value \<Rightarrow> (string \<times> wk_value) list" where
  "struct_fields m = (case m of WkStruct fs \<Rightarrow> fs | _ \<Rightarrow> [])"

fun wk_encodeValue :: "wk_object \<Rightarrow> wk_value \<Rightarrow> wk_value result"
  and encodeStruct :: "(string \<times> wk_object) list \<Rightarrow> (string \<times> wk_value) list \<Rightarrow> (string \<times> wk_value) list result"
where
  "wk_encodeValue (OMessage m) output = Inr m"
| "wk_encodeValue ONone output = Inr WkNull"
| "wk_encodeValue (OBool b) output = Inr (WkBool b)"
| "wk_encodeValue (OInt n) output = Inr (WkNumber (Fin (float_of_int n)))"
| "wk_encodeValue (OFloat x) output = Inr (WkNumber x)"
| "wk_encodeValue (OStr s) output = Inr (WkString s)"
| "wk_encodeValue (ODict entries) output =
     (if entries = [] then Inr output
      else bind_result (encodeStruct entries (struct_fields output)) (\<lambda>fs. Inr (WkStruct fs)))"
| "wk_encodeValue (OList vs) output = Inl NameError"
| "wk_encodeValue (OTuple vs) output = Inl TypeError"
| "wk_encodeValue OOther output = Inl TypeError"
| "encodeStruct [] fs = Inr fs"
| "encodeStruct ((key, v) # entries) fs =
     bind_result (wk_encodeValue v (dict_get_default fs key WkUnset)) (\<lambda>m.
       encodeStruct entries (dict_set key m fs))"

text \<open>\<open>encodeListValue\<close> appends to the values of its output, once all are encoded.\<close>

definition encodeListValue :: "wk_object list \<Rightarrow> wk_value list \<Rightarrow> wk_value list result" where
  "encodeListValue vs output =
     bind_result (map_result (\<lambda>v. wk_encodeValue v WkUnset) vs) (\<lambda>ms. Inr (output @ ms))"

definition is_integer :: "py_float \<Rightarrow> bool" where
  "is_integer x = (case x of Fin r \<Rightarrow> of_int \<lfloor>r\<rfloor> = r | _ \<Rightarrow> False)"

fun wk_decodeValue :: "wk_value \<Rightarrow> wk_object"
  and decodeStruct :: "(string \<times> wk_value) list \<Rightarrow> (string \<times> wk_object) list"
  and decodeListValue :: "wk_value list \<Rightarrow> wk_object list"
where
  "wk_decodeValue WkUnset = ONone"
| "wk_decodeValue WkNull = ONone"
| "wk_decodeValue (WkBool b) = OBool b"
| "wk_decodeValue (WkNumber x) =
     (if is_integer x then (case x of Fin r \<Rightarrow> OInt \<lfloor>r\<rfloor> | _ \<Rightarrow> OFloat x) else OFloat x)"
| "wk_decodeValue (WkString s) = OStr s"
| "wk_decodeValue (WkStruct fs) = ODict (decodeStruct fs)"
| "wk_decodeValue (WkListValue vs) = OList (decodeListValue vs)"
| "decodeStruct [] = []"
| "decodeStruct ((key, v) # fs) = (key, wk_decodeValue v) # decodeStruct fs"
| "decodeListValue [] = []"
| "decodeListValue (v # vs) = wk_decodeValue v # decodeListValue vs"

subsection \<open>Which values can be encoded\<close>

text \<open>Plain data as JSON has it, without any list inside, and with distinct keys.\<close>

fun plain_object :: "wk_object \<Rightarrow> bool" where
  "plain_object (ODict entries) \<longleftrightarrow> distinct (map fst entries) \<and> (\<forall>e \<in> set entries. plain_object (snd e))"
| "plain_object (OList vs) \<longleftrightarrow> (\<forall>v \<in> set vs. plain_object v)"
| "plain_object (OMessage m) = False"
| "plain_object (OTuple vs) = False"
| "plain_object OOther = False"
| "plain_object v = True"

fun no_list :: "wk_object \<Rightarrow> bool" where
  "no_list (ODict entries) \<longleftrightarrow> (\<forall>e \<in> set entries. no_list (snd e))"
| "no_list (OList vs) = False"
| "no_list v = True"

text \<open>
  What the receiver gets: an integer is rounded to a double, a double without a fraction
  becomes an integer, an empty dictionary becomes \<open>None\<close>.
\<close>

fun received :: "wk_object \<Rightarrow> wk_object" where
  "received (OInt n) = OInt \<lfloor>float_of_int n\<rfloor>"
| "received (OFloat (Fin r)) = (if of_int \<lfloor>r\<rfloor> = r then OInt \<lfloor>r\<rfloor> else OFloat (Fin r))"
| "received (ODict []) = ONone"
| "received (ODict entries) = ODict (map (\<lambda>e. (fst e, received (snd e))) entries)"
| "received v = v"

lemma update_new: "dict_get d k = None \<Longrightarrow> dict_set k v d = d @ [(k, v)]"
  by (induction d) (auto split: if_splits)

lemma decodeStruct_append: "decodeStruct (xs @ ys) = decodeStruct xs @ decodeStruct ys"
  by (induction xs) auto

lemma rnd_int_whole: "\<exists>m. rnd (of_int n) = of_int m"
proof (cases "\<bar>n\<bar> \<le> 2 ^ 53")
  case True
  then show ?thesis using rnd_int by blast
next
  case False
  then have "(2 :: rat) ^ 53 < \<bar>of_int n\<bar>"
    by (metis not_le of_int_abs of_int_less_iff of_int_numeral of_int_power)
  moreover have "\<bar>of_int n\<bar> < (2 :: rat) powi (fexp (of_int n) + 1)"
    using fexp_bounds(2)[of "of_int n"] False by auto
  ultimately have "(2 :: rat) powi 53 < 2 powi (fexp (of_int n) + 1)" by simp
  then have "53 < fexp (of_int n) + 1" by (rule powi2_less_imp)
  then have "(2 :: rat) powi (fexp (of_int n) - 52) = of_int (2 ^ nat (fexp (of_int n) - 52))"
    by (simp add: power_int_nat)
  then show ?thesis by (metis of_int_mult rnd_def)
qed

lemma decode_number_int: "wk_decodeValue (WkNumber (Fin (float_of_int n))) = OInt \<lfloor>float_of_int n\<rfloor>"
  using rnd_int_whole[of n] by (auto simp: is_integer_def float_of_int_def)

lemma encode_plain:
  "plain_object v \<Longrightarrow> no_list v \<Longrightarrow> out = WkUnset \<Longrightarrow>
     \<exists>m. wk_encodeValue v out = Inr m \<and> wk_decodeValue m = received v"
  "distinct (map fst entries) \<Longrightarrow> \<forall>e \<in> set entries. plain_object (snd e) \<and> no_list (snd e) \<and> dict_get fs (fst e) = None \<Longrightarrow>
     \<exists>ms. encodeStruct entries fs = Inr (fs @ ms) \<and> decodeStruct ms = map (\<lambda>e. (fst e, received (snd e))) entries"
proof (induction v out and entries fs rule: wk_encodeValue_encodeStruct.induct)
  case (5 x out)
  then show ?case by (cases x) (auto simp: is_integer_def)
next
  case (7 entries out)
  show ?case
  proof (cases entries)
    case (Cons e es)
    then obtain ms where "encodeStruct entries [] = Inr ms" "decodeStruct ms = map (\<lambda>e. (fst e, received (snd e))) entries"
      using 7 by (auto simp: struct_fields_def)
    then show ?thesis using 7(4) Cons by (simp add: struct_fields_def)
  qed (use 7(4) in simp)
next
  case (12 key v entries fs)
  then have new: "dict_get fs key = None" by simp
  then have "dict_get_default fs key WkUnset = WkUnset" by (simp add: dict_get_default_def)
  with 12 obtain m where m: "wk_encodeValue v WkUnset = Inr m" "wk_decodeValue m = received v" by auto
  have "\<forall>e \<in> set entries. plain_object (snd e) \<and> no_list (snd e) \<and> dict_get (dict_set key m fs) (fst e) = None"
    using 12(3,4) by auto
  then obtain ms where "encodeStruct entries (fs @ [(key, m)]) = Inr (fs @ (key, m) # ms)"
    "decodeStruct ms = map (\<lambda>e. (fst e, received (snd e))) entries"
    using 12(2)[of m] 12(3) m \<open>dict_get_default fs key WkUnset = WkUnset\<close> update_new[OF new] by auto
  then show ?case
    using m \<open>dict_get_default fs key WkUnset = WkUnset\<close> update_new[OF new] by auto
qed (auto simp: decode_number_int[unfolded wk_decodeValue.simps])

lemma encode_succeeds:
  "plain_object v \<Longrightarrow> no_list v \<Longrightarrow> \<exists>m. wk_encodeValue v out = Inr m"
  "\<forall>e \<in> set entries. plain_object (snd e) \<and> no_list (snd e) \<Longrightarrow> \<exists>ms. encodeStruct entries fs = Inr ms"
proof (induction v out and entries fs rule: wk_encodeValue_encodeStruct.induct)
  case (12 key v entries fs)
  then obtain m where "wk_encodeValue v (dict_get_default fs key WkUnset) = Inr m" by auto
  with 12 show ?case by auto
qed auto

lemma encode_list_fails:
  "plain_object v \<Longrightarrow> \<not> no_list v \<Longrightarrow> wk_encodeValue v out = Inl NameError"
  "\<forall>e \<in> set entries. plain_object (snd e) \<Longrightarrow> \<exists>e \<in> set entries. \<not> no_list (snd e) \<Longrightarrow>
     encodeStruct entries fs = Inl NameError"
proof (induction v out and entries fs rule: wk_encodeValue_encodeStruct.induct)
  case (7 entries out)
  then show ?case by fastforce
next
  case (12 key v entries fs)
  show ?case
  proof (cases "no_list v")
    case True
    then obtain m where "wk_encodeValue v (dict_get_default fs key WkUnset) = Inr m"
      using encode_succeeds(1) 12(3) by fastforce
    with 12 True show ?thesis by auto
  qed (use 12 in simp)
qed auto

text \<open>
  Which data \<open>encodeValue\<close> can send, and what arrives. Data of \<open>None\<close>, booleans, numbers,
  strings and dictionaries is encoded, and decoding gives the data back with integers
  rounded to doubles, whole doubles turned into integers, and empty dictionaries turned into
  \<open>None\<close>. Data with a list anywhere raises \<open>NameError\<close>.
\<close>

theorem wellknown_value_roundtrip:
  assumes "plain_object v"
  shows "if no_list v then \<exists>m. wk_encodeValue v WkUnset = Inr m \<and> wk_decodeValue m = received v
         else wk_encodeValue v WkUnset = Inl NameError"
  using assms encode_plain(1)[OF assms _ refl] encode_list_fails(1) by simp

theorem wellknown_value_roundtrip_witness:
  "(\<exists>m. wk_encodeValue (ODict [(''a'', OInt 3), (''b'', ODict [])]) WkUnset = Inr m
      \<and> wk_decodeValue m = ODict [(''a'', OInt 3), (''b'', ONone)])
   \<and> wk_encodeValue (ODict [(''a'', OList [])]) WkUnset = Inl NameError"
proof -
  have "\<lfloor>float_of_int 3\<rfloor> = 3" using float_of_int_exact[of 3] by simp
  then show ?thesis
    using wellknown_value_roundtrip[of "ODict [(''a'', OInt 3), (''b'', ODict [])]"]
      wellknown_value_roundtrip[of "ODict [(''a'', OList [])]"] by (simp del: wk_encodeValue.simps wk_decodeValue.simps)
qed

end
