(* ===== verification/Variant.thy ===== *)
theory Variant
  imports Wellknown
begin

section \<open>Variant values (\<open>protobuf/variant/variant.py\<close>)\<close>

text \<open>
  Conversion between Python values and the messages \<open>Value\<close>, \<open>ValueList\<close>,
  \<open>TaggedValueList\<close> and \<open>KeyValueMap\<close>. The messages' generated classes are not part of the
  sources: which integers the fields \<open>value_uint\<close> and \<open>value_sint\<close> accept and what
  \<open>value_real\<close> stores of a double are the record \<open>variant_schema\<close>. The members of the
  \<open>value\<close> set are those the functions name. Times are the inputs of \<open>Wellknown\<close>;
  a conversion that may not return is an option.
\<close>

type_synonym 'a outcome = "'a result option"

fun bind_outcome :: "'a outcome \<Rightarrow> ('a \<Rightarrow> 'b outcome) \<Rightarrow> 'b outcome" where
  "bind_outcome None f = None"
| "bind_outcome (Some (Inl e)) f = Some (Inl e)"
| "bind_outcome (Some (Inr x)) f = f x"

lemma bind_outcome_cong [fundef_cong]:
  assumes "r = r'" and "\<And>x. r' = Some (Inr x) \<Longrightarrow> f x = g x"
  shows "bind_outcome r f = bind_outcome r' g"
proof (cases r')
  case (Some x)
  then show ?thesis using assms by (cases x) auto
qed (use assms in simp)

record variant_schema =
  uint_accepts :: "int \<Rightarrow> bool"
  sint_accepts :: "int \<Rightarrow> bool"
  stored_real :: "py_float \<Rightarrow> py_float"

datatype value_message =
    MUnset
  | MBool bool
  | MTimestamp int int
  | MDuration int int
  | MUint int
  | MSint int
  | MReal py_float
  | MString string
  | MBytes string
  | MList "value_message list"
  | MTvlist "(string \<times> value_message) list"
  | MKvmap "(string \<times> value_message) list"

datatype ('s, 'd) object =
    PNone
  | PBool bool
  | PTime "('s, 'd) time_input"
  | PInt int
  | PFloat py_float
  | PStr string
  | PBytes string
  | PList "('s, 'd) object list"
  | PTuple "('s, 'd) object list"
  | PDict "(string \<times> ('s, 'd) object) list"
  | PValue value_message
  | POther

text \<open>
  \<open>is_tagged_list\<close>: the test of the tag uses the undefined name \<open>instinstance\<close>; it is
  reached by the first item when that is a pair.
\<close>

fun is_tagged_list :: "('s, 'd) object list \<Rightarrow> bool result" where
  "is_tagged_list [] = Inr True"
| "is_tagged_list (PTuple vs # items) = (if length vs \<noteq> 2 then Inr False else Inl NameError)"
| "is_tagged_list (v # items) = Inr False"

definition list_items :: "value_message \<Rightarrow> value_message list" where
  "list_items m = (case m of MList ms \<Rightarrow> ms | _ \<Rightarrow> [])"

definition map_entries :: "value_message \<Rightarrow> (string \<times> value_message) list" where
  "map_entries m = (case m of MKvmap es \<Rightarrow> es | _ \<Rightarrow> [])"

subsection \<open>Encoding\<close>

definition put_integer :: "variant_schema \<Rightarrow> int \<Rightarrow> value_message result" where
  "put_integer S n =
     (if n \<ge> 0 then (if uint_accepts S n then Inr (MUint n) else Inl ValueError)
      else (if sint_accepts S n then Inr (MSint n) else Inl ValueError))"

definition put_time :: "('s, 'd) clock \<Rightarrow> ('s, 'd) time_input \<Rightarrow> value_message outcome" where
  "put_time c t =
     (if is_point_type t then map_option (map_sum id (\<lambda>(s, n). MTimestamp s n)) (encodeTimestamp c t)
      else if is_interval_type t then Some (map_sum id (\<lambda>(s, n). MDuration s n) (encodeDuration t))
      else Some (Inl TypeError))"

text \<open>
  \<open>encodeTaggedValueList\<close> looks up the undefined name \<open>TaggedvalueList\<close> first. Lists and
  tuples are sequences; \<open>encodeValueList\<close> extends the items of its output once all new items
  are encoded; \<open>output.map[key]\<close> is the existing entry of a key, or a new empty one.
\<close>

definition encodeTaggedValueList :: "('s, 'd) object list \<Rightarrow> value_message outcome" where
  "encodeTaggedValueList items = Some (Inl NameError)"

fun encodeValue :: "variant_schema \<Rightarrow> ('s, 'd) clock \<Rightarrow> ('s, 'd) object \<Rightarrow> value_message \<Rightarrow> value_message outcome"
  and encodeValueList :: "variant_schema \<Rightarrow> ('s, 'd) clock \<Rightarrow> ('s, 'd) object list \<Rightarrow> value_message list outcome"
  and encodeKeyValueMap ::
    "variant_schema \<Rightarrow> ('s, 'd) clock \<Rightarrow> (string \<times> ('s, 'd) object) list \<Rightarrow> (string \<times> value_message) list
     \<Rightarrow> (string \<times> value_message) list outcome"
where
  "encodeValue S c (PValue m) out = Some (Inr m)"
| "encodeValue S c (PBool b) out = Some (Inr (MBool b))"
| "encodeValue S c (PTime t) out = put_time c t"
| "encodeValue S c (PInt n) out = Some (put_integer S n)"
| "encodeValue S c (PFloat x) out = Some (Inr (MReal (stored_real S x)))"
| "encodeValue S c (PStr s) out = Some (Inr (MString s))"
| "encodeValue S c (PBytes s) out = Some (Inl NameError)"
| "encodeValue S c (PList vs) out =
     bind_outcome (Some (is_tagged_list vs)) (\<lambda>tagged.
       if tagged then encodeTaggedValueList vs
       else bind_outcome (encodeValueList S c vs) (\<lambda>ms. Some (Inr (MList (list_items out @ ms)))))"
| "encodeValue S c (PTuple vs) out =
     bind_outcome (Some (is_tagged_list vs)) (\<lambda>tagged.
       if tagged then encodeTaggedValueList vs
       else bind_outcome (encodeValueList S c vs) (\<lambda>ms. Some (Inr (MList (list_items out @ ms)))))"
| "encodeValue S c (PDict entries) out =
     (if entries = [] then Some (Inr out)
      else bind_outcome (encodeKeyValueMap S c entries (map_entries out)) (\<lambda>es. Some (Inr (MKvmap es))))"
| "encodeValue S c PNone out = Some (Inr out)"
| "encodeValue S c POther out = Some (Inl TypeError)"
| "encodeValueList S c [] = Some (Inr [])"
| "encodeValueList S c (v # vs) =
     bind_outcome (encodeValue S c v MUnset) (\<lambda>m.
     bind_outcome (encodeValueList S c vs) (\<lambda>ms. Some (Inr (m # ms))))"
| "encodeKeyValueMap S c [] es = Some (Inr es)"
| "encodeKeyValueMap S c ((key, v) # entries) es =
     bind_outcome (encodeValue S c v (dict_get_default es key MUnset)) (\<lambda>m.
       encodeKeyValueMap S c entries (dict_set key m es))"

text \<open>\<open>encodeTaggedValue\<close> unpacks its input, which must be a pair.\<close>

datatype ('s, 'd) tagged_input = TvMessage "string \<times> value_message" | TvParts "('s, 'd) object list"

definition encodeTaggedValue ::
    "variant_schema \<Rightarrow> ('s, 'd) clock \<Rightarrow> ('s, 'd) tagged_input \<Rightarrow> value_message \<Rightarrow> (string \<times> value_message) outcome" where
  "encodeTaggedValue S c input out =
     (case input of
        TvMessage tv \<Rightarrow> Some (Inr tv)
      | TvParts [tag, v] \<Rightarrow>
         (case tag of
            PStr t \<Rightarrow> bind_outcome (encodeValue S c v out) (\<lambda>m. Some (Inr (t, m)))
          | _ \<Rightarrow> Some (Inl TypeError))
      | TvParts vs \<Rightarrow> Some (Inl ValueError))"

definition keyValueMap ::
    "variant_schema \<Rightarrow> ('s, 'd) clock \<Rightarrow> (string \<times> ('s, 'd) object) list \<Rightarrow> (string \<times> value_message) list outcome" where
  "keyValueMap S c kwargs = encodeKeyValueMap S c kwargs []"

subsection \<open>Decoding\<close>

fun decodeValue :: "value_message \<Rightarrow> ('s, 'd) object result"
  and decodeValueList :: "value_message list \<Rightarrow> ('s, 'd) object list result"
  and decodeTaggedValueList :: "(string \<times> value_message) list \<Rightarrow> ('s, 'd) object list result"
  and decodeKeyValueMap :: "(string \<times> value_message) list \<Rightarrow> (string \<times> ('s, 'd) object) list result"
where
  "decodeValue MUnset = Inr PNone"
| "decodeValue (MTimestamp s n) = bind_result (decodeTimestamp (s, n)) (\<lambda>x. Inr (PTime (InPoint x)))"
| "decodeValue (MDuration s n) = bind_result (decodeDuration (s, n)) (\<lambda>x. Inr (PTime (InInterval x)))"
| "decodeValue (MList ms) = bind_result (decodeValueList ms) (\<lambda>vs. Inr (PList vs))"
| "decodeValue (MTvlist tvs) = bind_result (decodeTaggedValueList tvs) (\<lambda>vs. Inr (PList vs))"
| "decodeValue (MKvmap es) = bind_result (decodeKeyValueMap es) (\<lambda>vs. Inr (PDict vs))"
| "decodeValue (MBool b) = Inr (PBool b)"
| "decodeValue (MUint n) = Inr (PInt n)"
| "decodeValue (MSint n) = Inr (PInt n)"
| "decodeValue (MReal x) = Inr (PFloat x)"
| "decodeValue (MString s) = Inr (PStr s)"
| "decodeValue (MBytes s) = Inr (PBytes s)"
| "decodeValueList [] = Inr []"
| "decodeValueList (m # ms) = bind_result (decodeValue m) (\<lambda>v. bind_result (decodeValueList ms) (\<lambda>vs. Inr (v # vs)))"
| "decodeTaggedValueList [] = Inr []"
| "decodeTaggedValueList ((tag, m) # ms) =
     bind_result (decodeValue m) (\<lambda>v. bind_result (decodeTaggedValueList ms) (\<lambda>vs. Inr (PTuple [PStr tag, v] # vs)))"
| "decodeKeyValueMap [] = Inr []"
| "decodeKeyValueMap ((key, m) # ms) =
     bind_result (decodeValue m) (\<lambda>v. bind_result (decodeKeyValueMap ms) (\<lambda>vs. Inr ((key, v) # vs)))"

definition decodeTaggedValue :: "string \<times> value_message \<Rightarrow> ('s, 'd) object result" where
  "decodeTaggedValue tv = bind_result (decodeValue (snd tv)) (\<lambda>v. Inr (PTuple [PStr (fst tv), v]))"

subsection \<open>Which values can be sent, and what is received\<close>

fun is_pair :: "('s, 'd) object \<Rightarrow> bool" where
  "is_pair (PTuple vs) = (length vs = 2)"
| "is_pair v = False"

definition list_ok :: "('s, 'd) object list \<Rightarrow> bool" where
  "list_ok vs \<longleftrightarrow> vs \<noteq> [] \<and> \<not> is_pair (hd vs)"

lemma is_tagged_list_cases:
  "is_tagged_list vs = (if list_ok vs then Inr False else if vs = [] then Inr True else Inl NameError)"
  by (cases vs rule: is_tagged_list.cases) (auto simp: list_ok_def)

text \<open>Data without times and without messages; a dictionary has distinct keys.\<close>

fun plain :: "('s, 'd) object \<Rightarrow> bool" where
  "plain (PTime t) = False"
| "plain (PValue m) = False"
| "plain (PList vs) \<longleftrightarrow> (\<forall>v \<in> set vs. plain v)"
| "plain (PTuple vs) \<longleftrightarrow> (\<forall>v \<in> set vs. plain v)"
| "plain (PDict entries) \<longleftrightarrow> distinct (map fst entries) \<and> (\<forall>e \<in> set entries. plain (snd e))"
| "plain v = True"

fun sendable :: "variant_schema \<Rightarrow> ('s, 'd) object \<Rightarrow> bool" where
  "sendable S (PBytes s) = False"
| "sendable S POther = False"
| "sendable S (PInt n) = (if n \<ge> 0 then uint_accepts S n else sint_accepts S n)"
| "sendable S (PList vs) \<longleftrightarrow> list_ok vs \<and> (\<forall>v \<in> set vs. sendable S v)"
| "sendable S (PTuple vs) \<longleftrightarrow> list_ok vs \<and> (\<forall>v \<in> set vs. sendable S v)"
| "sendable S (PDict entries) \<longleftrightarrow> (\<forall>e \<in> set entries. sendable S (snd e))"
| "sendable S v = True"

text \<open>Tuples arrive as lists, an empty dictionary as \<open>None\<close>.\<close>

fun arrives :: "variant_schema \<Rightarrow> ('s, 'd) object \<Rightarrow> ('s, 'd) object" where
  "arrives S (PFloat x) = PFloat (stored_real S x)"
| "arrives S (PList vs) = PList (map (arrives S) vs)"
| "arrives S (PTuple vs) = PList (map (arrives S) vs)"
| "arrives S (PDict entries) =
     (if entries = [] then PNone else PDict (map (\<lambda>e. (fst e, arrives S (snd e))) entries))"
| "arrives S v = v"

lemma encode_sendable:
  "plain v \<Longrightarrow> sendable S v \<Longrightarrow> \<exists>m. encodeValue S c v out = Some (Inr m) \<and> (out = MUnset \<longrightarrow> decodeValue m = Inr (arrives S v))"
  "\<forall>v \<in> set vs. plain v \<and> sendable S v \<Longrightarrow>
     \<exists>ms. encodeValueList S c vs = Some (Inr ms) \<and> decodeValueList ms = Inr (map (arrives S) vs)"
  "\<forall>e \<in> set entries. plain (snd e) \<and> sendable S (snd e) \<Longrightarrow>
     \<exists>ms. encodeKeyValueMap S c entries es = Some (Inr ms)
       \<and> (distinct (map fst entries) \<and> (\<forall>e \<in> set entries. dict_get es (fst e) = None) \<longrightarrow>
           (\<exists>new. ms = es @ new \<and> decodeKeyValueMap new = Inr (map (\<lambda>e. (fst e, arrives S (snd e))) entries)))"
proof (induction S c v out and S c vs and S c entries es rule: encodeValue_encodeValueList_encodeKeyValueMap.induct)
  case (4 S c n out)
  then show ?case by (auto simp: put_integer_def split: if_splits)
next
  case (8 S c vs out)
  then show ?case using 8(1)[of False] by (auto simp: is_tagged_list_cases list_items_def)
next
  case (9 S c vs out)
  then show ?case using 9(1)[of False] by (auto simp: is_tagged_list_cases list_items_def)
next
  case (10 S c entries out)
  then show ?case by (cases "entries = []") (fastforce simp: map_entries_def)+
next
  case (14 S c v vs)
  then show ?case by fastforce
next
  case (16 S c key v entries es)
  let ?out = "dict_get_default es key MUnset"
  obtain m where m: "encodeValue S c v ?out = Some (Inr m)" "?out = MUnset \<longrightarrow> decodeValue m = Inr (arrives S v)"
    using 16 by auto
  obtain ms where ms: "encodeKeyValueMap S c entries (dict_set key m es) = Some (Inr ms)"
    "distinct (map fst entries) \<and> (\<forall>e \<in> set entries. dict_get (dict_set key m es) (fst e) = None) \<longrightarrow>
      (\<exists>new. ms = dict_set key m es @ new
        \<and> decodeKeyValueMap new = Inr (map (\<lambda>e. (fst e, arrives S (snd e))) entries))"
    using 16 m by auto
  show ?case
  proof (rule exI[of _ ms], intro conjI impI)
    show "encodeKeyValueMap S c ((key, v) # entries) es = Some (Inr ms)" using m ms by simp
    assume new: "distinct (map fst ((key, v) # entries)) \<and> (\<forall>e \<in> set ((key, v) # entries). dict_get es (fst e) = None)"
    then have "?out = MUnset" "dict_set key m es = es @ [(key, m)]"
      by (simp_all add: dict_get_default_def update_new)
    moreover have "\<forall>e \<in> set entries. dict_get (dict_set key m es) (fst e) = None" using new by auto
    ultimately show "\<exists>new. ms = es @ new
        \<and> decodeKeyValueMap new = Inr (map (\<lambda>e. (fst e, arrives S (snd e))) ((key, v) # entries))"
      using m ms new by auto
  qed
qed auto

lemma encode_not_sendable:
  "plain v \<Longrightarrow> \<not> sendable S v \<Longrightarrow> \<exists>e. encodeValue S c v out = Some (Inl e)"
  "\<forall>v \<in> set vs. plain v \<Longrightarrow> \<exists>v \<in> set vs. \<not> sendable S v \<Longrightarrow> \<exists>e. encodeValueList S c vs = Some (Inl e)"
  "\<forall>e \<in> set entries. plain (snd e) \<Longrightarrow> \<exists>e \<in> set entries. \<not> sendable S (snd e) \<Longrightarrow>
     \<exists>e. encodeKeyValueMap S c entries es = Some (Inl e)"
proof (induction S c v out and S c vs and S c entries es rule: encodeValue_encodeValueList_encodeKeyValueMap.induct)
  case (4 S c n out)
  then show ?case by (auto simp: put_integer_def split: if_splits)
next
  case (8 S c vs out)
  show ?case
  proof (cases "list_ok vs")
    case True
    with 8(1)[of False] 8(2,3) obtain e where "encodeValueList S c vs = Some (Inl e)"
      by (auto simp: is_tagged_list_cases)
    with True show ?thesis by (simp add: is_tagged_list_cases)
  qed (simp add: is_tagged_list_cases encodeTaggedValueList_def)
next
  case (9 S c vs out)
  show ?case
  proof (cases "list_ok vs")
    case True
    with 9(1)[of False] 9(2,3) obtain e where "encodeValueList S c vs = Some (Inl e)"
      by (auto simp: is_tagged_list_cases)
    with True show ?thesis by (simp add: is_tagged_list_cases)
  qed (simp add: is_tagged_list_cases encodeTaggedValueList_def)
next
  case (10 S c entries out)
  then show ?case by fastforce
next
  case (14 S c v vs)
  show ?case
  proof (cases "sendable S v")
    case True
    have "plain v" using 14(3) by simp
    from encode_sendable(1)[OF this True] obtain m where m: "encodeValue S c v MUnset = Some (Inr m)" by blast
    have "\<exists>v \<in> set vs. \<not> sendable S v" "\<forall>v \<in> set vs. plain v" using True 14(3,4) by auto
    then obtain e where "encodeValueList S c vs = Some (Inl e)" using 14(2)[OF m] by blast
    then show ?thesis by (simp add: m)
  next
    case False
    then obtain e where "encodeValue S c v MUnset = Some (Inl e)" using 14(1,3) by auto
    then show ?thesis by simp
  qed
next
  case (16 S c key v entries es)
  show ?case
  proof (cases "sendable S v")
    case True
    have "plain v" using 16(3) by simp
    from encode_sendable(1)[OF this True]
    obtain m where m: "encodeValue S c v (dict_get_default es key MUnset) = Some (Inr m)" by blast
    have "\<exists>e \<in> set entries. \<not> sendable S (snd e)" "\<forall>e \<in> set entries. plain (snd e)" using True 16(3,4) by auto
    then obtain e where "encodeKeyValueMap S c entries (dict_set key m es) = Some (Inl e)" using 16(2)[OF m] by blast
    then show ?thesis by (simp add: m)
  next
    case False
    then obtain e where "encodeValue S c v (dict_get_default es key MUnset) = Some (Inl e)" using 16(1,3) by auto
    then show ?thesis by simp
  qed
qed auto

text \<open>
  C30. Which data a variant can carry, and what arrives. Data of \<open>None\<close>, booleans, integers the
  fields accept, floats, strings, dictionaries and lists that do not begin with a pair is
  encoded, and decoding gives it back with tuples as lists and empty dictionaries as
  \<open>None\<close>. Data with an empty list, a list that begins with a pair, or bytes anywhere raises
  an exception: these reach an undefined name.
\<close>

theorem variant_roundtrip:
  assumes "plain v"
  shows "if sendable S v then \<exists>m. encodeValue S c v MUnset = Some (Inr m) \<and> decodeValue m = Inr (arrives S v)
         else \<exists>e. encodeValue S c v MUnset = Some (Inl e)"
  using assms encode_sendable(1)[OF assms, of S c MUnset] encode_not_sendable(1)[OF assms] by simp

theorem variant_roundtrip_witness:
  "\<forall>c :: (nat, nat) clock. \<exists>m.
     encodeValue \<lparr>uint_accepts = (\<lambda>n. n < 2 ^ 64), sint_accepts = (\<lambda>n. - (2 ^ 63) \<le> n), stored_real = id\<rparr> c
       (PDict [(''a'', PInt (- 3)), (''b'', PTuple [PStr ''x'', PNone, PBool True])]) MUnset = Some (Inr m)
     \<and> decodeValue m = Inr (PDict [(''a'', PInt (- 3)), (''b'', PList [PStr ''x'', PNone, PBool True])] :: (nat, nat) object)"
proof
  fix c :: "(nat, nat) clock"
  let ?S = "\<lparr>uint_accepts = (\<lambda>n. n < 2 ^ 64), sint_accepts = (\<lambda>n. - (2 ^ 63) \<le> n), stored_real = id\<rparr>"
  show "\<exists>m. encodeValue ?S c
       (PDict [(''a'', PInt (- 3)), (''b'', PTuple [PStr ''x'', PNone, PBool True])]) MUnset = Some (Inr m)
     \<and> decodeValue m = Inr (PDict [(''a'', PInt (- 3)), (''b'', PList [PStr ''x'', PNone, PBool True])] :: (nat, nat) object)"
    using variant_roundtrip[of "PDict [(''a'', PInt (- 3)), (''b'', PTuple [PStr ''x'', PNone, PBool True])]" ?S c]
    by (simp add: list_ok_def del: encodeValue.simps decodeValue.simps)
qed

end
