(* ===== verification/Switch.thy ===== *)
theory Switch
  imports Invocation Variant
begin

section \<open>Switches (\<open>switchboard/base/switch.py\<close>, \<open>grpc/remote_switch.py\<close>)\<close>

text \<open>
  A switch is the client's copy of a named binary condition that a Switchboard service keeps:
  its specification, its status and the callbacks to call when either changes. Getters read
  the copy; setters send a request to the service, whose answer is a parameter (the stub),
  as are the members of the generated enumeration \<open>State\<close> and what the generated map class
  does when it is asked for a missing language. The generated messages are records with the
  fields the code names. Callbacks are told apart by a number; a callback is assumed not to
  register or remove callbacks while it runs.
\<close>

subsection \<open>Messages\<close>

record localization =
  lo_description :: string
  lo_target_texts :: "(bool, string) dict"
  lo_state_texts :: "(int, string) dict"

record dependency =
  dp_trigger_states :: int
  dp_polarity :: int
  dp_hard :: bool
  dp_sufficient :: bool

record interceptor =
  ic_state_transitions :: int
  ic_asynchronous :: bool
  ic_rerun :: bool
  ic_on_cancel :: int
  ic_on_error :: int

record switch_spec =
  sp_aliases :: "string list"
  sp_primary :: bool
  sp_localizations :: "(string, localization) dict"
  sp_dependencies :: "(string, dependency) dict"
  sp_interceptors :: "(string, interceptor) dict"

record 'e switch_status =
  ss_active :: bool
  ss_pending :: bool
  ss_current_state :: int
  ss_settled_state :: int
  ss_error :: 'e
  ss_attributes :: "(string \<times> value_message) list"

definition empty_specification :: switch_spec where
  "empty_specification = \<lparr>sp_aliases = [], sp_primary = False, sp_localizations = [],
     sp_dependencies = [], sp_interceptors = []\<rparr>"

definition empty_status :: "'e \<Rightarrow> 'e switch_status" where
  "empty_status no_error = \<lparr>ss_active = False, ss_pending = False, ss_current_state = 0,
     ss_settled_state = 0, ss_error = no_error, ss_attributes = []\<rparr>"

text \<open>An enumeration: the members' names and numbers.\<close>

type_synonym enumeration = "(string, int) dict"

definition enum_value :: "enumeration \<Rightarrow> string \<Rightarrow> int result" where
  "enum_value states name = (case dict_get states name of None \<Rightarrow> Inl AttributeError | Some n \<Rightarrow> Inr n)"

definition enum_member :: "enumeration \<Rightarrow> int \<Rightarrow> int result" where
  "enum_member states n = (if n \<in> snd ` set states then Inr n else Inl ValueError)"

subsection \<open>The switch\<close>

record 'e switch =
  sw_name :: string
  sw_specification :: switch_spec
  sw_status :: "'e switch_status"
  sw_callbacks :: "(string, nat) dict"

definition new_switch :: "'e \<Rightarrow> string \<Rightarrow> 'e switch" where
  "new_switch no_error name = \<lparr>sw_name = name, sw_specification = empty_specification,
     sw_status = empty_status no_error, sw_callbacks = []\<rparr>"

text \<open>
  The calls made: the handle, the callback, and the switch as it was passed. An exception of
  a callback is caught by \<open>safe_invoke\<close>.
\<close>

type_synonym 'e callback_calls = "(string \<times> nat \<times> 'e switch) list \<times> py_error option"

fun invoke_callbacks ::
    "(nat \<Rightarrow> 'e switch \<Rightarrow> unit result) \<Rightarrow> string \<Rightarrow> 'e switch \<Rightarrow> (string \<times> nat) list \<Rightarrow> 'e callback_calls" where
  "invoke_callbacks call kind sw [] = ([], None)"
| "invoke_callbacks call kind sw ((handle, cb) # cbs) =
     (case safe_invoke (call cb sw) (Some (''Switch '' @ kind @ '' notification callback '' @ handle)) None True True of
        Inl e \<Rightarrow> ([(handle, cb, sw)], Some e)
      | Inr _ \<Rightarrow> (case invoke_callbacks call kind sw cbs of (calls, e) \<Rightarrow> ((handle, cb, sw) # calls, e)))"

definition update_specification ::
    "(nat \<Rightarrow> 'e switch \<Rightarrow> unit result) \<Rightarrow> switch_spec \<Rightarrow> 'e switch \<Rightarrow> 'e switch \<times> 'e callback_calls" where
  "update_specification call spec sw =
     (let sw' = sw\<lparr>sw_specification := spec\<rparr>
      in (sw', invoke_callbacks call ''specification'' sw' (sw_callbacks sw')))"

definition update_status ::
    "(nat \<Rightarrow> 'e switch \<Rightarrow> unit result) \<Rightarrow> 'e switch_status \<Rightarrow> 'e switch \<Rightarrow> 'e switch \<times> 'e callback_calls" where
  "update_status call st sw =
     (let sw' = sw\<lparr>sw_status := st\<rparr>
      in (sw', invoke_callbacks call ''status'' sw' (sw_callbacks sw')))"

definition subscribe_updates :: "string \<Rightarrow> nat \<Rightarrow> 'e switch \<Rightarrow> 'e switch" where
  "subscribe_updates handle cb sw = sw\<lparr>sw_callbacks := dict_set handle cb (sw_callbacks sw)\<rparr>"

definition unsubscribe_updates :: "string \<Rightarrow> 'e switch \<Rightarrow> bool \<times> 'e switch" where
  "unsubscribe_updates handle sw =
     (dict_get (sw_callbacks sw) handle \<noteq> None, sw\<lparr>sw_callbacks := dict_del handle (sw_callbacks sw)\<rparr>)"

subsection \<open>Reading the status\<close>

definition sw_active :: "'e switch \<Rightarrow> bool" where
  "sw_active sw = ss_active (sw_status sw)"

definition sw_pending :: "'e switch \<Rightarrow> bool" where
  "sw_pending sw = ss_pending (sw_status sw)"

definition settled :: "'e switch \<Rightarrow> bool" where
  "settled sw = (\<not> ss_pending (sw_status sw))"

definition current_state :: "enumeration \<Rightarrow> 'e switch \<Rightarrow> int result" where
  "current_state states sw = enum_member states (ss_current_state (sw_status sw))"

definition settled_state :: "enumeration \<Rightarrow> 'e switch \<Rightarrow> int result" where
  "settled_state states sw = enum_member states (ss_settled_state (sw_status sw))"

definition target :: "enumeration \<Rightarrow> 'e switch \<Rightarrow> bool option result" where
  "target states sw =
     bind_result (current_state states sw) (\<lambda>s.
     bind_result (enum_value states ''ACTIVATING'') (\<lambda>activating.
     if s = activating then Inr (Some True)
     else bind_result (enum_value states ''DEACTIVATING'') (\<lambda>deactivating.
       Inr (if s = deactivating then Some False else None))))"

definition sw_error :: "'e switch \<Rightarrow> 'e" where
  "sw_error sw = ss_error (sw_status sw)"

text \<open>The module does not import \<open>decodeKeyValueMap\<close>.\<close>

definition sw_attributes :: "'e switch \<Rightarrow> (string \<times> ('s, 'd) object) list result" where
  "sw_attributes sw = Inl NameError"

subsection \<open>Reading the specification\<close>

definition is_primary :: "'e switch \<Rightarrow> bool" where
  "is_primary sw = sp_primary (sw_specification sw)"

definition sw_aliases :: "'e switch \<Rightarrow> string set" where
  "sw_aliases sw = set (sp_aliases (sw_specification sw))"

definition sw_dependencies :: "'e switch \<Rightarrow> (string, dependency) dict" where
  "sw_dependencies sw = sp_dependencies (sw_specification sw)"

definition sw_interceptors :: "'e switch \<Rightarrow> (string, interceptor) dict" where
  "sw_interceptors sw = sp_interceptors (sw_specification sw)"

definition sw_localizations :: "'e switch \<Rightarrow> (string, localization) dict" where
  "sw_localizations sw = sp_localizations (sw_specification sw)"

text \<open>
  The lookup in the generated map may change the map. A list of languages is read from the
  name \<open>choices\<close> and the message for any other type from \<open>languages\<close>, neither of which
  exists.
\<close>

datatype language_choice = OneLanguage string | ManyLanguages "string list" | OtherChoice

type_synonym map_lookup = "string \<Rightarrow> (string, localization) dict \<Rightarrow> (string, localization) dict \<times> localization result"

definition get_localization ::
    "map_lookup \<Rightarrow> language_choice \<Rightarrow> 'e switch \<Rightarrow> 'e switch \<times> localization result" where
  "get_localization lookup choice sw =
     (case choice of
        OneLanguage lang \<Rightarrow>
          (case lookup lang (sw_localizations sw) of
             (m, r) \<Rightarrow> (sw\<lparr>sw_specification := (sw_specification sw)\<lparr>sp_localizations := m\<rparr>\<rparr>, r))
      | ManyLanguages langs \<Rightarrow> (sw, Inl NameError)
      | OtherChoice \<Rightarrow> (sw, Inl NameError))"

definition get_description :: "map_lookup \<Rightarrow> language_choice \<Rightarrow> 'e switch \<Rightarrow> 'e switch \<times> string result" where
  "get_description lookup choice sw = map_prod id (map_sum id lo_description) (get_localization lookup choice sw)"

definition get_target_texts ::
    "map_lookup \<Rightarrow> language_choice \<Rightarrow> 'e switch \<Rightarrow> 'e switch \<times> (bool, string) dict result" where
  "get_target_texts lookup choice sw = map_prod id (map_sum id lo_target_texts) (get_localization lookup choice sw)"

text \<open>Documented to return the text of the current target; it returns all texts.\<close>

definition get_target_text ::
    "map_lookup \<Rightarrow> language_choice \<Rightarrow> 'e switch \<Rightarrow> 'e switch \<times> (bool, string) dict result" where
  "get_target_text lookup choice sw = map_prod id (map_sum id lo_target_texts) (get_localization lookup choice sw)"

definition get_state_texts ::
    "map_lookup \<Rightarrow> language_choice \<Rightarrow> 'e switch \<Rightarrow> 'e switch \<times> (int, string) dict result" where
  "get_state_texts lookup choice sw = map_prod id (map_sum id lo_state_texts) (get_localization lookup choice sw)"

definition get_state_text ::
    "map_lookup \<Rightarrow> language_choice \<Rightarrow> 'e switch \<Rightarrow> 'e switch \<times> string option result" where
  "get_state_text lookup choice sw =
     (case get_state_texts lookup choice sw of
        (sw', r) \<Rightarrow> (sw', map_sum id (\<lambda>d. dict_get d (ss_current_state (sw_status sw'))) r))"

subsection \<open>Encoding localizations (\<open>switchboard/protobuf/__init__.py\<close>)\<close>

text \<open>
  \<open>encodeLocalization\<close> builds a copy and then changes and returns its argument instead;
  called without one, as \<open>set_localization\<close> does, it raises \<open>TypeError\<close>. The argument is
  \<open>None\<close> when it is missing, \<open>Some None\<close> when it is \<open>None\<close>. \<open>MergeFrom\<close> replaces a
  description that is not empty and adds map entries; the three further arguments may be
  \<open>None\<close>.
\<close>

definition merge_localization :: "localization \<Rightarrow> localization \<Rightarrow> localization" where
  "merge_localization l u =
     l\<lparr>lo_description := (if lo_description u = [] then lo_description l else lo_description u),
       lo_target_texts := fold (\<lambda>(k, v). dict_set k v) (lo_target_texts u) (lo_target_texts l),
       lo_state_texts := fold (\<lambda>(k, v). dict_set k v) (lo_state_texts u) (lo_state_texts l)\<rparr>"

definition encodeLocalization ::
    "localization option option \<Rightarrow> string option \<Rightarrow> (bool, string) dict option \<Rightarrow> (int, string) dict option
     \<Rightarrow> localization result" where
  "encodeLocalization arg description target_texts state_texts =
     (case arg of
        None \<Rightarrow> Inl TypeError
      | Some None \<Rightarrow> Inl AttributeError
      | Some (Some l) \<Rightarrow> Inr (merge_localization l
          \<lparr>lo_description = (case description of None \<Rightarrow> [] | Some d \<Rightarrow> d),
           lo_target_texts = (case target_texts of None \<Rightarrow> [] | Some d \<Rightarrow> d),
           lo_state_texts = (case state_texts of None \<Rightarrow> [] | Some d \<Rightarrow> d)\<rparr>))"

text \<open>The branch for a mapping names a class \<open>LocalizationsMap\<close> that does not exist.\<close>

datatype localizations_input =
    LocMessage "(string, localization) dict"
  | LocMapping "(string, localization) dict"
  | LocOther

definition encodeLocalizationMap :: "localizations_input \<Rightarrow> (string, localization) dict result" where
  "encodeLocalizationMap input =
     (case input of LocMessage m \<Rightarrow> Inr m | LocMapping m \<Rightarrow> Inl NameError | LocOther \<Rightarrow> Inl TypeError)"

subsection \<open>The service\<close>

text \<open>The requests, and the methods of the generated stub as functions on the service's state.\<close>

record spec_request =
  rq_switch_name :: string
  rq_spec :: switch_spec
  rq_active :: "bool option"
  rq_replace_aliases :: bool
  rq_replace_localizations :: bool
  rq_replace_dependencies :: bool
  rq_replace_interceptors :: bool
  rq_update_state :: "bool option"

record dependency_request =
  dq_switch_name :: string
  dq_predecessor_name :: string
  dq_dependency :: dependency
  dq_allow_update :: "bool option"
  dq_reevaluate :: "bool option"

record 'e target_request =
  tq_switch_name :: string
  tq_target_state :: "int option"
  tq_error :: "'e option"
  tq_attributes :: "(string \<times> value_message) list"
  tq_clear_existing :: bool
  tq_with_interceptors :: bool
  tq_trigger_descendants :: bool
  tq_on_cancel :: int
  tq_on_error :: int

text \<open>
  \<open>rpc_invoke_intereptor\<close> is the stub's attribute of that (misspelt) name, if it has one.
\<close>

record ('w, 'e) stub =
  rpc_set_specification :: "spec_request \<Rightarrow> 'w \<Rightarrow> 'w \<times> bool result"
  rpc_add_dependency :: "dependency_request \<Rightarrow> 'w \<Rightarrow> 'w \<times> bool result"
  rpc_remove_interceptor :: "string \<Rightarrow> string \<Rightarrow> 'w \<Rightarrow> 'w \<times> bool result"
  rpc_invoke_intereptor :: "(string \<Rightarrow> string \<Rightarrow> int option \<Rightarrow> 'w \<Rightarrow> 'w \<times> 'e result) option"
  rpc_set_target :: "'e target_request \<Rightarrow> 'w \<Rightarrow> 'w \<times> bool result"
  rpc_set_attributes :: "string \<Rightarrow> (string \<times> value_message) list \<Rightarrow> bool \<Rightarrow> 'w \<Rightarrow> 'w \<times> bool result"
  rpc_get_culprits :: "string \<Rightarrow> bool \<Rightarrow> 'w \<Rightarrow> 'w \<times> (string, 'e switch_status) dict result"
  rpc_add_switch :: "string \<Rightarrow> 'w \<Rightarrow> 'w \<times> bool result"
  rpc_remove_switch :: "string \<Rightarrow> bool \<Rightarrow> 'w \<Rightarrow> 'w \<times> bool result"
  rpc_import_switches :: "value_message list \<Rightarrow> 'w \<Rightarrow> 'w \<times> int result"

subsection \<open>Changing the specification\<close>

record replace_flags =
  rf_aliases :: bool
  rf_localizations :: bool
  rf_dependencies :: bool
  rf_interceptors :: bool

definition no_replace :: replace_flags where
  "no_replace = \<lparr>rf_aliases = False, rf_localizations = False, rf_dependencies = False, rf_interceptors = False\<rparr>"

definition set_specification ::
    "('w, 'e) stub \<Rightarrow> switch_spec \<Rightarrow> replace_flags \<Rightarrow> bool option \<Rightarrow> bool option \<Rightarrow> 'e switch \<Rightarrow> 'w \<Rightarrow> 'w \<times> bool result" where
  "set_specification st spec flags active update_state sw =
     rpc_set_specification st
       \<lparr>rq_switch_name = sw_name sw, rq_spec = spec, rq_active = active,
        rq_replace_aliases = rf_aliases flags, rq_replace_localizations = rf_localizations flags,
        rq_replace_dependencies = rf_dependencies flags, rq_replace_interceptors = rf_interceptors flags,
        rq_update_state = update_state\<rparr>"

definition set_aliases :: "('w, 'e) stub \<Rightarrow> string list \<Rightarrow> 'e switch \<Rightarrow> 'w \<Rightarrow> 'w \<times> bool result" where
  "set_aliases st aliases sw =
     set_specification st (empty_specification\<lparr>sp_aliases := aliases\<rparr>) (no_replace\<lparr>rf_aliases := True\<rparr>) None None sw"

definition add_aliases :: "('w, 'e) stub \<Rightarrow> string list \<Rightarrow> 'e switch \<Rightarrow> 'w \<Rightarrow> 'w \<times> bool result" where
  "add_aliases st aliases sw =
     set_specification st (empty_specification\<lparr>sp_aliases := aliases\<rparr>) no_replace None None sw"

text \<open>A set iterates in an order of its own, here \<open>order\<close>.\<close>

definition remove_aliases ::
    "(string set \<Rightarrow> string list) \<Rightarrow> ('w, 'e) stub \<Rightarrow> string list \<Rightarrow> 'e switch \<Rightarrow> 'w \<Rightarrow> 'w \<times> bool result" where
  "remove_aliases order st aliases sw = set_aliases st (order (sw_aliases sw - set aliases)) sw"

definition set_primary :: "('w, 'e) stub \<Rightarrow> bool \<Rightarrow> 'e switch \<Rightarrow> 'w \<Rightarrow> 'w \<times> bool result" where
  "set_primary st primary sw =
     set_specification st (empty_specification\<lparr>sp_primary := primary\<rparr>) no_replace None None sw"

definition set_localizations ::
    "('w, 'e) stub \<Rightarrow> localizations_input \<Rightarrow> bool \<Rightarrow> 'e switch \<Rightarrow> 'w \<Rightarrow> 'w \<times> bool result" where
  "set_localizations st input replace sw w =
     (case encodeLocalizationMap input of
        Inl e \<Rightarrow> (w, Inl e)
      | Inr m \<Rightarrow> set_specification st (empty_specification\<lparr>sp_localizations := m\<rparr>)
                   (no_replace\<lparr>rf_localizations := replace\<rparr>) None None sw w)"

definition set_localization ::
    "('w, 'e) stub \<Rightarrow> string \<Rightarrow> localization option \<Rightarrow> string option \<Rightarrow> (bool, string) dict option
     \<Rightarrow> (int, string) dict option \<Rightarrow> 'e switch \<Rightarrow> 'w \<Rightarrow> 'w \<times> bool result" where
  "set_localization st lang localization description target_texts state_texts sw w =
     (case encodeLocalization None description target_texts state_texts of
        Inl e \<Rightarrow> (w, Inl e)
      | Inr update \<Rightarrow> set_localizations st (LocMapping [(lang, update)]) False sw w)"

definition set_target_texts ::
    "('w, 'e) stub \<Rightarrow> (bool, string) dict \<Rightarrow> string \<Rightarrow> 'e switch \<Rightarrow> 'w \<Rightarrow> 'w \<times> bool result" where
  "set_target_texts st texts lang sw = set_localization st lang None None (Some texts) None sw"

text \<open>\<open>set_state_texts\<close> calls a method \<open>_update_spec\<close> that no class has.\<close>

definition set_state_texts ::
    "('w, 'e) stub \<Rightarrow> (int, string) dict \<Rightarrow> string \<Rightarrow> 'e switch \<Rightarrow> 'w \<Rightarrow> 'w \<times> bool result" where
  "set_state_texts st texts lang sw w = (w, Inl AttributeError)"

definition add_dependency ::
    "('w, 'e) stub \<Rightarrow> string \<Rightarrow> dependency \<Rightarrow> bool option \<Rightarrow> bool option \<Rightarrow> 'e switch \<Rightarrow> 'w \<Rightarrow> 'w \<times> bool result" where
  "add_dependency st predecessor_name dep allow_update reevaluate sw =
     rpc_add_dependency st
       \<lparr>dq_switch_name = sw_name sw, dq_predecessor_name = predecessor_name, dq_dependency = dep,
        dq_allow_update = allow_update, dq_reevaluate = reevaluate\<rparr>"

text \<open>
  \<open>remove_dependency\<close> refers to a module \<open>cc\<close> that is not imported under that name, and
  \<open>add_interceptor\<close> to \<open>predecessor_name\<close>, which is not one of its parameters.
\<close>

definition remove_dependency :: "('w, 'e) stub \<Rightarrow> string \<Rightarrow> bool \<Rightarrow> 'e switch \<Rightarrow> 'w \<Rightarrow> 'w \<times> bool result" where
  "remove_dependency st predecessor_name reevaluate sw w = (w, Inl NameError)"

definition add_interceptor ::
    "('w, 'e) stub \<Rightarrow> string \<Rightarrow> interceptor \<Rightarrow> bool \<Rightarrow> 'e switch \<Rightarrow> 'w \<Rightarrow> 'w \<times> bool result" where
  "add_interceptor st interceptor_name spec immediate sw w = (w, Inl NameError)"

definition remove_interceptor :: "('w, 'e) stub \<Rightarrow> string \<Rightarrow> 'e switch \<Rightarrow> 'w \<Rightarrow> 'w \<times> bool result" where
  "remove_interceptor st interceptor_name sw = rpc_remove_interceptor st (sw_name sw) interceptor_name"

definition invoke_interceptor ::
    "('w, 'e) stub \<Rightarrow> string \<Rightarrow> int option \<Rightarrow> 'e switch \<Rightarrow> 'w \<Rightarrow> 'w \<times> 'e result" where
  "invoke_interceptor st interceptor_name state sw w =
     (case rpc_invoke_intereptor st of
        None \<Rightarrow> (w, Inl AttributeError)
      | Some call \<Rightarrow> call (sw_name sw) interceptor_name state w)"

subsection \<open>Changing the state\<close>

record ('s, 'd) target_options =
  to_attributes :: "(string \<times> ('s, 'd) object) list option"
  to_clear_existing :: bool
  to_with_interceptors :: bool
  to_trigger_descendants :: bool
  to_reevaluate :: bool
  to_on_cancel :: int
  to_on_error :: int

definition encoded_attributes ::
    "variant_schema \<Rightarrow> ('s, 'd) clock \<Rightarrow> (string \<times> ('s, 'd) object) list option \<Rightarrow> (string \<times> value_message) list outcome" where
  "encoded_attributes S c attributes = (case attributes of None \<Rightarrow> Some (Inr []) | Some d \<Rightarrow> encodeKeyValueMap S c d [])"

text \<open>The option \<open>reevaluate\<close> is not passed on.\<close>

definition set_target ::
    "variant_schema \<Rightarrow> ('s, 'd) clock \<Rightarrow> ('w, 'e) stub \<Rightarrow> int option \<Rightarrow> 'e option \<Rightarrow> ('s, 'd) target_options
     \<Rightarrow> 'e switch \<Rightarrow> 'w \<Rightarrow> ('w \<times> bool result) option" where
  "set_target S c st target_state error opts sw w =
     map_option (\<lambda>r. case r of
         Inl e \<Rightarrow> (w, Inl e)
       | Inr attrs \<Rightarrow> rpc_set_target st
           \<lparr>tq_switch_name = sw_name sw, tq_target_state = target_state, tq_error = error, tq_attributes = attrs,
            tq_clear_existing = to_clear_existing opts, tq_with_interceptors = to_with_interceptors opts,
            tq_trigger_descendants = to_trigger_descendants opts,
            tq_on_cancel = to_on_cancel opts, tq_on_error = to_on_error opts\<rparr> w)
       (encoded_attributes S c (to_attributes opts))"

text \<open>\<open>active\<close> is \<open>None\<close> when it is not a boolean.\<close>

definition set_active ::
    "enumeration \<Rightarrow> variant_schema \<Rightarrow> ('s, 'd) clock \<Rightarrow> ('w, 'e) stub \<Rightarrow> bool option \<Rightarrow> ('s, 'd) target_options
     \<Rightarrow> 'e switch \<Rightarrow> 'w \<Rightarrow> ('w \<times> bool result) option" where
  "set_active states S c st active opts sw w =
     (case active of
        None \<Rightarrow> Some (w, Inl AssertionError)
      | Some b \<Rightarrow>
          (case (enum_value states ''INACTIVE'', enum_value states ''ACTIVE'') of
             (Inr i, Inr a) \<Rightarrow> set_target S c st (Some (if b then a else i)) None opts sw w
           | _ \<Rightarrow> Some (w, Inl AttributeError)))"

definition set_error ::
    "enumeration \<Rightarrow> variant_schema \<Rightarrow> ('s, 'd) clock \<Rightarrow> ('w, 'e) stub \<Rightarrow> 'e \<Rightarrow> ('s, 'd) target_options
     \<Rightarrow> 'e switch \<Rightarrow> 'w \<Rightarrow> ('w \<times> bool result) option" where
  "set_error states S c st error opts sw w =
     (case enum_value states ''FAILED'' of
        Inl e \<Rightarrow> Some (w, Inl e)
      | Inr failed \<Rightarrow> set_target S c st (Some failed) (Some error) opts sw w)"

text \<open>\<open>set_auto\<close> does not return what \<open>set_target\<close> returns.\<close>

definition set_auto ::
    "variant_schema \<Rightarrow> ('s, 'd) clock \<Rightarrow> ('w, 'e) stub \<Rightarrow> ('s, 'd) target_options \<Rightarrow> 'e switch \<Rightarrow> 'w
     \<Rightarrow> ('w \<times> unit result) option" where
  "set_auto S c st opts sw w =
     map_option (map_prod id (map_sum id (\<lambda>_. ()))) (set_target S c st None None opts sw w)"

definition set_attributes ::
    "variant_schema \<Rightarrow> ('s, 'd) clock \<Rightarrow> ('w, 'e) stub \<Rightarrow> (string \<times> ('s, 'd) object) list option \<Rightarrow> bool
     \<Rightarrow> 'e switch \<Rightarrow> 'w \<Rightarrow> ('w \<times> bool result) option" where
  "set_attributes S c st attributes clear_existing sw w =
     map_option (\<lambda>r. case r of
         Inl e \<Rightarrow> (w, Inl e)
       | Inr attrs \<Rightarrow> rpc_set_attributes st (sw_name sw) attrs clear_existing w)
       (encoded_attributes S c attributes)"

definition get_culprits ::
    "('w, 'e) stub \<Rightarrow> bool \<Rightarrow> 'e switch \<Rightarrow> 'w \<Rightarrow> 'w \<times> (string, 'e switch_status) dict result" where
  "get_culprits st expected_position sw = rpc_get_culprits st (sw_name sw) expected_position"

end
