(* ===== verification/Signal_Store.thy ===== *)
theory Signal_Store
  imports Invocation Complex_Main
begin

section \<open>Signals and slots (\<open>protobuf/signal/signalstore.py\<close>, \<open>cachingsignalstore.py\<close>)\<close>

text \<open>
  \<open>SignalStore\<close> calls connected slots with \<open>Signal\<close> messages;
  \<open>CachingSignalStore\<close> keeps the latest message of each signal and mapping key and replays
  them to slots that connect later. A message is its selected \<open>oneof\<close> field with the
  payload (an arbitrary type, compared with equality as messages are) and its two mapping
  fields. What slots do and what other threads do while a call waits are parameters; a slot
  is assumed not to call back into the store, and a message not to be changed after it was
  emitted.
\<close>

subsection \<open>Messages and descriptors\<close>

datatype mapping_action = ActNone | Addition | Update | Removal

text \<open>
  \<open>msg_action\<close> is \<open>None\<close> for a number the enumeration lacks. The descriptor lists the
  fields of the \<open>oneof\<close> and the others with their numbers; when the two mapping fields are
  not among these, the ones of a message are ignored.
\<close>

record 'p message =
  msg_selected :: "(string \<times> 'p) option"
  msg_action :: "mapping_action option"
  msg_key :: string

record descriptor =
  d_signals :: "(string \<times> int) list"
  d_others :: "(string \<times> int) list"

definition d_mapping :: "descriptor \<Rightarrow> bool" where
  "d_mapping d \<longleftrightarrow> {''mapping_action'', ''mapping_key''} \<subseteq> fst ` set (d_others d)"

definition fields_by_name :: "descriptor \<Rightarrow> (string, int) dict" where
  "fields_by_name d = d_others d @ d_signals d"

record signal_filter =
  polarity :: bool
  indices :: "int list"

definition no_filter :: signal_filter where
  "no_filter = \<lparr>polarity = False, indices = []\<rparr>"

subsection \<open>Slots and the runtime\<close>

text \<open>
  A slot is told apart by its identity; it may lack \<open>__name__\<close>. A data slot is the
  \<open>lambda\<close> that \<open>connect_signal_data\<close> makes, a new object on every call.
\<close>

datatype listener =
    Listener (l_id: nat) (l_named: bool)
  | DataListener (l_id: nat) (l_signal: string)

fun has_name :: "listener \<Rightarrow> bool" where
  "has_name (Listener i named) = named"
| "has_name (DataListener i name) = True"

type_synonym 'p delivery = "listener \<times> 'p message"

record 'p store =
  s_type :: descriptor
  s_slots :: "(string, listener list) dict"
  s_deadline :: "rat option"
  s_complete :: bool
  s_cache :: "(string, (string option, 'p message) dict) dict"

text \<open>
  \<open>rt_background st t\<close> is what other threads do to the store while this one waits for the
  completion event, for at most \<open>t\<close> seconds: \<open>None\<close> when the wait never ends, else the
  event flag and the store at the end of it.
\<close>

text \<open>
  \<open>rt_call\<close> is what a slot does when it is called: it raises, or returns and tells whether
  the returned object is a coroutine. \<open>rt_default\<close> is the empty message of a field's type.
\<close>

record 'p runtime =
  rt_default :: "string \<Rightarrow> 'p"
  rt_call :: "listener \<Rightarrow> 'p message \<Rightarrow> bool result"
  rt_loop :: bool
  rt_background :: "'p store \<Rightarrow> rat option \<Rightarrow> (bool \<times> 'p store) option"

text \<open>
  An operation that calls slots yields the store, the calls made and how it ended; it may
  wait for ever.
\<close>

datatype status = Finished | Failed py_error | Hanging

type_synonym 'p act = "'p store \<times> 'p delivery list \<times> status"

definition and_then :: "'p act \<Rightarrow> ('p store \<Rightarrow> 'p act) \<Rightarrow> 'p act" where
  "and_then a f =
     (case a of
        (s, ds, Finished) \<Rightarrow> (case f s of (s', ds', e) \<Rightarrow> (s', ds @ ds', e))
      | (s, ds, e) \<Rightarrow> (s, ds, e))"

fun for_each :: "('a \<Rightarrow> 'p store \<Rightarrow> 'p act) \<Rightarrow> 'a list \<Rightarrow> 'p store \<Rightarrow> 'p act" where
  "for_each f [] s = (s, [], Finished)"
| "for_each f (x # xs) s = and_then (f x s) (for_each f xs)"

subsection \<open>Names and filters\<close>

definition ALL_SIGNALS :: string where "ALL_SIGNALS = ''*''"

definition init_signals :: "descriptor option \<Rightarrow> 'p store result" where
  "init_signals t =
     (case t of
        None \<Rightarrow> Inl AssertionError
      | Some d \<Rightarrow> Inr \<lparr>s_type = d, s_slots = [], s_deadline = None, s_complete = False, s_cache = []\<rparr>)"

definition field_name :: "'p store \<Rightarrow> int \<Rightarrow> string option" where
  "field_name s n = map_option fst (find (\<lambda>f. snd f = n) (fields_by_name (s_type s)))"

text \<open>The body refers to \<open>signalname\<close>, a name it never defines.\<close>

definition field_number :: "'p store \<Rightarrow> string \<Rightarrow> int result" where
  "field_number s fieldname = Inl NameError"

definition signal_field_numbers :: "'p store \<Rightarrow> signal_filter \<Rightarrow> (string \<times> int) list" where
  "signal_field_numbers s flt = filter (\<lambda>f. polarity flt = (snd f \<in> set (indices flt))) (d_signals (s_type s))"

definition signal_names :: "'p store \<Rightarrow> signal_filter \<Rightarrow> string list" where
  "signal_names s flt =
     map fst (filter (\<lambda>f. polarity flt = (snd f \<in> set (indices flt))) (d_signals (s_type s)))"

definition signal_name :: "'p message \<Rightarrow> string" where
  "signal_name msg = (case msg_selected msg of None \<Rightarrow> [] | Some (name, _) \<Rightarrow> name)"

definition mapping_controls :: "'p store \<Rightarrow> 'p message \<Rightarrow> mapping_action \<times> string option" where
  "mapping_controls s msg =
     (if \<not> d_mapping (s_type s) then (ActNone, None)
      else case msg_action msg of
        None \<Rightarrow> (ActNone, None)
      | Some a \<Rightarrow> (a, if msg_key msg = [] then None else Some (msg_key msg)))"

subsection \<open>Connecting\<close>

definition connect_all :: "listener \<Rightarrow> 'p store \<Rightarrow> 'p store" where
  "connect_all slot s = s\<lparr>s_slots := setdefault_append ALL_SIGNALS slot (s_slots s)\<rparr>"

definition connect_signal :: "string \<Rightarrow> listener \<Rightarrow> 'p store \<Rightarrow> 'p store result" where
  "connect_signal name slot s =
     (if name \<notin> set (signal_names s no_filter) then Inl AttributeError
      else Inr (s\<lparr>s_slots := setdefault_append name slot (s_slots s)\<rparr>))"

definition connect_signal_data :: "string \<Rightarrow> nat \<Rightarrow> 'p store \<Rightarrow> 'p store result" where
  "connect_signal_data name fresh s =
     (if name \<notin> set (signal_names s no_filter) then Inl AttributeError
      else connect_signal name (DataListener fresh name) s)"

text \<open>
  \<open>slots.remove(name)\<close>: the list holds slots, the element to remove is the name.
\<close>

definition disconnect_signal :: "string \<Rightarrow> listener option \<Rightarrow> 'p store \<Rightarrow> bool \<times> 'p store" where
  "disconnect_signal name slot s =
     (case slot of
        Some _ \<Rightarrow>
          (case dict_get (s_slots s) name of
             None \<Rightarrow> (False, s)
           | Some slots \<Rightarrow>
              (case list_remove (Inl name) (map Inr slots) of
                 Inl _ \<Rightarrow> (False, s)
               | Inr rest \<Rightarrow> (True, s\<lparr>s_slots := dict_set name (map projr rest) (s_slots s)\<rparr>)))
      | None \<Rightarrow>
          (dict_get_default (s_slots s) name [] \<noteq> [], s\<lparr>s_slots := dict_del name (s_slots s)\<rparr>))"

definition disconnect_all :: "listener option \<Rightarrow> 'p store \<Rightarrow> bool \<times> 'p store" where
  "disconnect_all slot s = disconnect_signal ALL_SIGNALS slot s"

definition disconnect_signal_data :: "string \<Rightarrow> listener option \<Rightarrow> nat \<Rightarrow> 'p store \<Rightarrow> 'p store" where
  "disconnect_signal_data name slot fresh s =
     snd (disconnect_signal name (map_option (\<lambda>_. DataListener fresh name) slot) s)"

definition filter_for_peer :: "bool \<Rightarrow> 'p store \<Rightarrow> signal_filter result" where
  "filter_for_peer match_all s =
     (if match_all \<or> dict_get (s_slots s) ALL_SIGNALS \<noteq> None then Inr no_filter
      else bind_result (map_result (field_number s) (filter (\<lambda>n. n \<noteq> ALL_SIGNALS) (dict_keys (s_slots s))))
             (\<lambda>ns. Inr \<lparr>polarity = True, indices = ns\<rparr>))"

subsection \<open>Emitting\<close>

text \<open>
  \<open>safe_invoke\<close> catches what the slot raises; the description with \<open>slot.__name__\<close> is
  built before it is entered, and a coroutine needs a running event loop.
\<close>

definition emit_to :: "'p runtime \<Rightarrow> 'p message \<Rightarrow> listener \<Rightarrow> 'p store \<Rightarrow> 'p act" where
  "emit_to rt msg slot s =
     (if \<not> has_name slot then (s, [], Failed AttributeError)
      else case safe_invoke (rt_call rt slot msg) (Some (''Signal '' @ signal_name msg)) None True True of
        Inl e \<Rightarrow> (s, [], Failed e)
      | Inr result \<Rightarrow>
         (if result = Value True \<and> \<not> rt_loop rt then (s, [], Failed RuntimeError)
          else (s, [(slot, msg)], Finished)))"

definition emit :: "'p runtime \<Rightarrow> 'p message \<Rightarrow> 'p store \<Rightarrow> 'p act" where
  "emit rt msg s =
     and_then
       (if signal_name msg \<noteq> [] then
          and_then (for_each (emit_to rt msg) (dict_get_default (s_slots s) (signal_name msg) []) s)
            (\<lambda>s. for_each (emit_to rt msg) (dict_get_default (s_slots s) ALL_SIGNALS []) s)
        else (s, [], Finished))
       (\<lambda>s. (if fst (mapping_controls s msg) = ActNone then s\<lparr>s_complete := True\<rparr> else s, [], Finished))"

text \<open>
  The keyword arguments of the message type: an unknown field name raises
  \<open>ValueError\<close>, and a field given as \<open>None\<close> stays unset.
\<close>

definition make_signal ::
    "'p store \<Rightarrow> mapping_action option \<Rightarrow> string option \<Rightarrow> (string \<times> 'p option) option \<Rightarrow> 'p message result" where
  "make_signal s action key field =
     (if (action \<noteq> None \<or> key \<noteq> None) \<and> \<not> d_mapping (s_type s) then Inl ValueError
      else case field of
        Some (name, value) \<Rightarrow>
          (if name \<notin> fst ` set (d_signals (s_type s)) then Inl ValueError
           else Inr \<lparr>msg_selected = map_option (Pair name) value,
                     msg_action = Some (case action of None \<Rightarrow> ActNone | Some a \<Rightarrow> a),
                     msg_key = (case key of None \<Rightarrow> [] | Some k \<Rightarrow> k)\<rparr>)
      | None \<Rightarrow> Inr \<lparr>msg_selected = None,
                     msg_action = Some (case action of None \<Rightarrow> ActNone | Some a \<Rightarrow> a),
                     msg_key = (case key of None \<Rightarrow> [] | Some k \<Rightarrow> k)\<rparr>)"

definition emit_event :: "'p runtime \<Rightarrow> string \<Rightarrow> 'p \<Rightarrow> 'p store \<Rightarrow> 'p act" where
  "emit_event rt name value s =
     (case make_signal s None None (Some (name, Some value)) of
        Inl e \<Rightarrow> (s, [], Failed e)
      | Inr msg \<Rightarrow> emit rt msg s)"

text \<open>
  \<open>if action\<close>, \<open>if key\<close> and \<open>if signal_name\<close> drop the action \<open>NONE\<close> (zero) and
  empty strings; \<open>self.emit\<close> is the method of the store's class.
\<close>

definition mapping_signal ::
    "'p store \<Rightarrow> string \<Rightarrow> string option \<Rightarrow> 'p option \<Rightarrow> mapping_action option \<Rightarrow> 'p message result" where
  "mapping_signal s name key value action =
     make_signal s (if action = Some ActNone then None else action)
       (if key = Some [] then None else key)
       (if name = [] then None else Some (name, value))"

definition emit_mapping ::
    "'p runtime \<Rightarrow> ('p runtime \<Rightarrow> 'p message \<Rightarrow> 'p store \<Rightarrow> 'p act) \<Rightarrow>
     string \<Rightarrow> string option \<Rightarrow> 'p option \<Rightarrow> mapping_action option \<Rightarrow> 'p store \<Rightarrow> 'p act" where
  "emit_mapping rt self_emit name key value action s =
     (case mapping_signal s name key value action of
        Inl e \<Rightarrow> (s, [], Failed e)
      | Inr msg \<Rightarrow> self_emit rt msg s)"

text \<open>Both bodies refer to \<open>mapping_action\<close>, which is not their parameter.\<close>

definition is_addition_or_update :: "mapping_action \<Rightarrow> bool result" where
  "is_addition_or_update action = Inl NameError"

definition is_removal :: "mapping_action \<Rightarrow> bool result" where
  "is_removal action = Inl NameError"

definition is_empty :: "('p \<Rightarrow> int) \<Rightarrow> 'p option \<Rightarrow> bool" where
  "is_empty byte_size value = (case value of None \<Rightarrow> True | Some m \<Rightarrow> byte_size m = 0)"

subsection \<open>Waiting for completion\<close>

definition set_completion_deadline :: "rat option \<Rightarrow> 'p store \<Rightarrow> 'p store" where
  "set_completion_deadline t s = s\<lparr>s_deadline := t\<rparr>"

text \<open>
  \<open>None\<close>: never returns. With a deadline and no timeout the body calls
  \<open>time.time()\<close>, and the module does not import \<open>time\<close>.
\<close>

definition wait_complete :: "'p runtime \<Rightarrow> rat option \<Rightarrow> 'p store \<Rightarrow> 'p store \<times> bool result option" where
  "wait_complete rt timeout s =
     (if s_complete s then (s, Some (Inr True))
      else case timeout of
        Some t \<Rightarrow> (case rt_background rt s (Some t) of
            None \<Rightarrow> (s, None) | Some (b, s') \<Rightarrow> (s', Some (Inr b)))
      | None \<Rightarrow>
         (case s_deadline s of
            None \<Rightarrow> (case rt_background rt s None of
                None \<Rightarrow> (s, None) | Some (b, s') \<Rightarrow> (s', Some (Inr True)))
          | Some d \<Rightarrow> (s, Some (Inl NameError))))"

subsection \<open>The caching store\<close>

text \<open>\<open>getattr(signal, name)\<close>: an unselected field reads as the empty message.\<close>

definition payload_of :: "'p runtime \<Rightarrow> string \<Rightarrow> 'p message \<Rightarrow> 'p" where
  "payload_of rt name msg =
     (case msg_selected msg of
        Some (n, v) \<Rightarrow> (if n = name then v else rt_default rt name)
      | None \<Rightarrow> rt_default rt name)"

definition update_cache :: "string \<Rightarrow> mapping_action \<Rightarrow> string option \<Rightarrow> 'p message \<Rightarrow> 'p store \<Rightarrow> 'p store" where
  "update_cache name action key msg s =
     (let datamap = dict_get_default (s_cache s) name [] in
      s\<lparr>s_cache := dict_set name
          (if action = Removal then dict_del key datamap else dict_set key msg datamap) (s_cache s)\<rparr>)"

definition caching_emit :: "'p runtime \<Rightarrow> 'p message \<Rightarrow> 'p store \<Rightarrow> 'p act" where
  "caching_emit rt msg s =
     (let (action, key) = mapping_controls s msg in
      emit rt msg (if signal_name msg \<noteq> [] then update_cache (signal_name msg) action key msg s else s))"

definition get_cached_signal_messages ::
    "'p runtime \<Rightarrow> string \<Rightarrow> bool \<Rightarrow> 'p store \<Rightarrow> 'p store \<times> (string option, 'p message) dict result option" where
  "get_cached_signal_messages rt name wait s =
     (case dict_get (s_cache s) name of
        Some m \<Rightarrow> (s, Some (Inr m))
      | None \<Rightarrow>
         (if dict_get (fields_by_name (s_type s)) name = None then (s, Some (Inl KeyError))
          else if wait then
            (case wait_complete rt None s of
               (s', None) \<Rightarrow> (s', None)
             | (s', Some (Inl e)) \<Rightarrow> (s', Some (Inl e))
             | (s', Some (Inr _)) \<Rightarrow> (s', Some (Inr (dict_get_default (s_cache s') name []))))
          else (s, Some (Inr []))))"

definition get_cached_map ::
    "'p runtime \<Rightarrow> string \<Rightarrow> bool \<Rightarrow> 'p store \<Rightarrow> 'p store \<times> (string option, 'p) dict result option" where
  "get_cached_map rt name wait s =
     (let (s', r) = get_cached_signal_messages rt name wait s in
      (s', map_option (map_sum id (map (\<lambda>(k, m). (k, payload_of rt name m)))) r))"

definition get_cached_signal ::
    "'p runtime \<Rightarrow> string \<Rightarrow> string option \<Rightarrow> bool \<Rightarrow> 'p option \<Rightarrow> 'p store \<Rightarrow> 'p store \<times> 'p option result option" where
  "get_cached_signal rt name key wait fallback s =
     (case get_cached_signal_messages rt name wait s of
        (s', None) \<Rightarrow> (s', None)
      | (s', Some (Inl e)) \<Rightarrow> (s', Some (if e = KeyError then Inr fallback else Inl e))
      | (s', Some (Inr m)) \<Rightarrow>
          (s', Some (Inr (case dict_get m key of
                            None \<Rightarrow> fallback | Some msg \<Rightarrow> Some (payload_of rt name msg)))))"

definition emit_cached_to :: "'p runtime \<Rightarrow> string \<Rightarrow> listener \<Rightarrow> 'p store \<Rightarrow> 'p act" where
  "emit_cached_to rt name slot s =
     (if s_cache s = [] then (s, [], Finished)
      else case get_cached_signal_messages rt name True s of
        (s', None) \<Rightarrow> (s', [], Hanging)
      | (s', Some (Inl e)) \<Rightarrow> (s', [], Failed e)
      | (s', Some (Inr m)) \<Rightarrow> for_each (\<lambda>(k, msg). emit_to rt msg slot) m s')"

definition caching_connect_all :: "'p runtime \<Rightarrow> listener \<Rightarrow> 'p store \<Rightarrow> 'p act" where
  "caching_connect_all rt slot s =
     for_each (\<lambda>name. emit_cached_to rt name slot) (signal_names s no_filter) (connect_all slot s)"

definition caching_connect_signal :: "'p runtime \<Rightarrow> string \<Rightarrow> listener \<Rightarrow> 'p store \<Rightarrow> 'p act" where
  "caching_connect_signal rt name slot s =
     (case connect_signal name slot s of
        Inl e \<Rightarrow> (s, [], Failed e)
      | Inr s' \<Rightarrow> emit_cached_to rt name slot s')"

text \<open>The action that brings the cached value of a key to the given value.\<close>

definition derived_action :: "'p option \<Rightarrow> 'p option \<Rightarrow> mapping_action option" where
  "derived_action value cached =
     (if value = None \<and> cached = None then None
      else if value = None then Some Removal
      else if cached = None then Some Addition
      else if value \<noteq> cached then Some Update
      else None)"

definition caching_emit_mapping ::
    "'p runtime \<Rightarrow> string \<Rightarrow> string option \<Rightarrow> 'p option \<Rightarrow> mapping_action option \<Rightarrow> 'p store \<Rightarrow> 'p act" where
  "caching_emit_mapping rt name key value action s =
     (case (if key \<noteq> None \<and> key \<noteq> Some [] \<and> action = None
            then (case snd (get_cached_signal rt name key False None s) of
                    Some (Inr cached) \<Rightarrow> Inr (derived_action value cached)
                  | Some (Inl e) \<Rightarrow> Inl e
                  | None \<Rightarrow> Inl RuntimeError)
            else Inr action) of
        Inl e \<Rightarrow> (s, [], Failed e)
      | Inr None \<Rightarrow> (s, [], Finished)
      | Inr (Some a) \<Rightarrow> emit_mapping rt caching_emit name key value (Some a) s)"

definition emit_map_update ::
    "'p runtime \<Rightarrow> string \<Rightarrow> (string, 'p) dict \<Rightarrow> 'p option \<Rightarrow> 'p store \<Rightarrow> 'p act" where
  "emit_map_update rt name updated_map empty_value s =
     (case snd (get_cached_map rt name False s) of
        None \<Rightarrow> (s, [], Hanging)
      | Some (Inl e) \<Rightarrow> (s, [], Failed e)
      | Some (Inr current_map) \<Rightarrow>
          and_then
            (for_each
              (\<lambda>(key, current) s.
                 if (case key of None \<Rightarrow> False | Some k \<Rightarrow> dict_get updated_map k \<noteq> None) then (s, [], Finished)
                 else caching_emit_mapping rt name key
                        (Some (case empty_value of None \<Rightarrow> current | Some v \<Rightarrow> v)) (Some Removal) s)
              current_map s)
            (for_each (\<lambda>(key, value). caching_emit_mapping rt name (Some key) (Some value) None) updated_map))"

end
