(* ===== verification/Switchboard.thy ===== *)
theory Switchboard
  imports Switch Signal_Store Settings
begin

section \<open>The switchboard (\<open>switchboard/base/baseboard.py\<close>, \<open>grpc/client.py\<close>)\<close>

text \<open>
  A board holds the switches it has heard of. Signals from the service add, update and remove
  them: the board connects two slots to the caching signal store, for the signals
  \<open>specification\<close> and \<open>status\<close>. Requests for new switches go to the service. What holds
  the board's lock is one step.
\<close>

datatype 'e board_payload = SpecPayload switch_spec | StatusPayload "'e switch_status" | OtherPayload

type_synonym 'e board_message = "'e board_payload message"

text \<open>\<open>msg.specification\<close> and \<open>msg.status\<close>: a field that is not selected reads as empty.\<close>

definition msg_specification :: "'e board_message \<Rightarrow> switch_spec" where
  "msg_specification msg =
     (case msg_selected msg of Some (name, SpecPayload s) \<Rightarrow> s | _ \<Rightarrow> empty_specification)"

definition msg_status :: "'e \<Rightarrow> 'e board_message \<Rightarrow> 'e switch_status" where
  "msg_status no_error msg =
     (case msg_selected msg of Some (name, StatusPayload s) \<Rightarrow> s | _ \<Rightarrow> empty_status no_error)"

record 'e board =
  switches :: "(string, 'e switch) dict"

text \<open>What a callback does, the empty error message, and the stub of the service.\<close>

record ('w, 'e) board_env =
  be_call :: "nat \<Rightarrow> 'e switch \<Rightarrow> unit result"
  be_no_error :: 'e
  be_stub :: "('w, 'e) stub"

definition new_board :: "'e board" where
  "new_board = \<lparr>switches = []\<rparr>"

text \<open>
  The switch that a message is about, and the board: an addition or update creates a missing
  switch, a removal takes the switch out and still yields it.
\<close>

definition get_mapped_switch :: "'e \<Rightarrow> 'e board_message \<Rightarrow> 'e board \<Rightarrow> 'e switch option \<times> 'e board" where
  "get_mapped_switch no_error msg b =
     (if msg_key msg = [] then (None, b)
      else case msg_action msg of
        Some Removal \<Rightarrow> (dict_get (switches b) (msg_key msg), b\<lparr>switches := dict_del (msg_key msg) (switches b)\<rparr>)
      | Some a \<Rightarrow>
          (if a = Addition \<or> a = Update then
             (case dict_get (switches b) (msg_key msg) of
                Some sw \<Rightarrow> (Some sw, b)
              | None \<Rightarrow> (let sw = new_switch no_error (msg_key msg)
                         in (Some sw, b\<lparr>switches := dict_set (msg_key msg) sw (switches b)\<rparr>)))
           else (None, b))
      | None \<Rightarrow> (None, b))"

text \<open>The switch is updated in place, which shows in the board if it is still there.\<close>

definition put_switch :: "string \<Rightarrow> 'e switch \<Rightarrow> 'e board \<Rightarrow> 'e board" where
  "put_switch name sw b =
     (if dict_get (switches b) name = None then b else b\<lparr>switches := dict_set name sw (switches b)\<rparr>)"

definition on_signal_spec ::
    "('w, 'e) board_env \<Rightarrow> 'e board_message \<Rightarrow> 'e board \<Rightarrow> 'e board \<times> 'e callback_calls" where
  "on_signal_spec env msg b =
     (case get_mapped_switch (be_no_error env) msg b of
        (None, b') \<Rightarrow> (b', [], None)
      | (Some sw, b') \<Rightarrow>
          (case update_specification (be_call env) (msg_specification msg) sw of
             (sw', calls) \<Rightarrow> (put_switch (msg_key msg) sw' b', calls)))"

definition on_signal_status ::
    "('w, 'e) board_env \<Rightarrow> 'e board_message \<Rightarrow> 'e board \<Rightarrow> 'e board \<times> 'e callback_calls" where
  "on_signal_status env msg b =
     (case get_mapped_switch (be_no_error env) msg b of
        (None, b') \<Rightarrow> (b', [], None)
      | (Some sw, b') \<Rightarrow>
          (case update_status (be_call env) (msg_status (be_no_error env) msg) sw of
             (sw', calls) \<Rightarrow> (put_switch (msg_key msg) sw' b', calls)))"

subsection \<open>The board's slots\<close>

text \<open>The two bound methods, as slots of the signal store.\<close>

definition spec_slot :: listener where "spec_slot = Listener 0 True"
definition status_slot :: listener where "status_slot = Listener 1 True"

definition deliver :: "('w, 'e) board_env \<Rightarrow> 'e board \<Rightarrow> 'e board_payload delivery \<Rightarrow> 'e board" where
  "deliver env b d =
     (if fst d = spec_slot then fst (on_signal_spec env (snd d) b)
      else if fst d = status_slot then fst (on_signal_status env (snd d) b)
      else b)"

definition connect_signals ::
    "'e board_payload runtime \<Rightarrow> 'e board_payload Signal_Store.store \<Rightarrow> 'e board_payload act" where
  "connect_signals rt s =
     and_then (caching_connect_signal rt ''specification'' spec_slot s)
       (caching_connect_signal rt ''status'' status_slot)"

definition disconnect_signals :: "'e board_payload Signal_Store.store \<Rightarrow> 'e board_payload Signal_Store.store" where
  "disconnect_signals s =
     snd (disconnect_signal ''status'' (Some status_slot)
       (snd (disconnect_signal ''specification'' (Some spec_slot) s)))"

subsection \<open>Finding and adding switches\<close>

definition get_switch :: "string \<Rightarrow> 'e board \<Rightarrow> 'e switch option" where
  "get_switch name b =
     (case dict_get (switches b) name of
        Some sw \<Rightarrow> Some sw
      | None \<Rightarrow> map_option snd (find (\<lambda>(n, sw). name \<in> sw_aliases sw) (switches b)))"

definition add_switch :: "('w, 'e) board_env \<Rightarrow> string \<Rightarrow> 'w \<Rightarrow> 'w \<times> bool result" where
  "add_switch env name = rpc_add_switch (be_stub env) name"

definition remove_switch :: "('w, 'e) board_env \<Rightarrow> string \<Rightarrow> bool \<Rightarrow> 'w \<Rightarrow> 'w \<times> bool result" where
  "remove_switch env name propagate = rpc_remove_switch (be_stub env) name propagate"

definition default_options :: "int \<Rightarrow> ('s, 'd) target_options" where
  "default_options handling = \<lparr>to_attributes = None, to_clear_existing = False, to_with_interceptors = True,
     to_trigger_descendants = True, to_reevaluate = False, to_on_cancel = handling, to_on_error = handling\<rparr>"

text \<open>
  The switch is in the board before it is set; what \<open>set_active\<close> raises leaves it there.
  \<open>default\<close> of the enumeration \<open>ExceptionHandling\<close> is an argument.
\<close>

definition get_or_add_switch ::
    "enumeration \<Rightarrow> int \<Rightarrow> variant_schema \<Rightarrow> ('s, 'd) clock \<Rightarrow> ('w, 'e) board_env \<Rightarrow> string \<Rightarrow> bool option
     \<Rightarrow> 'e board \<Rightarrow> 'w \<Rightarrow> ('e board \<times> 'w \<times> 'e switch result) option" where
  "get_or_add_switch states handling S c env name initial b w =
     (case get_switch name b of
        Some sw \<Rightarrow> Some (b, w, Inr sw)
      | None \<Rightarrow>
          (case add_switch env name w of
             (w', Inl e) \<Rightarrow> Some (b, w', Inl e)
           | (w', Inr _) \<Rightarrow>
               (let sw = new_switch (be_no_error env) name;
                    b' = b\<lparr>switches := dict_set name sw (switches b)\<rparr>
                in case initial of
                     None \<Rightarrow> Some (b', w', Inr sw)
                   | Some a \<Rightarrow>
                       map_option (\<lambda>(w'', r). (b', w'', map_sum id (\<lambda>_. sw) r))
                         (set_active states S c (be_stub env) (Some a) (default_options handling) sw w'))))"

definition import_switches ::
    "variant_schema \<Rightarrow> ('s, 'd) clock \<Rightarrow> ('w, 'e) board_env \<Rightarrow> ('s, 'd) object list \<Rightarrow> 'w \<Rightarrow> ('w \<times> int result) option" where
  "import_switches S c env declarations w =
     map_option (\<lambda>r. case r of
         Inl e \<Rightarrow> (w, Inl e)
       | Inr ms \<Rightarrow> rpc_import_switches (be_stub env) ms w)
       (encodeValueList S c declarations)"

text \<open>The values of a settings file, as input of the encoding.\<close>

fun object_of :: "variant \<Rightarrow> ('s, 'd) object" where
  "object_of VNull = PNone"
| "object_of (VBool b) = PBool b"
| "object_of (VInt n) = PInt n"
| "object_of (VFloat x) = PFloat x"
| "object_of (VStr s) = PStr s"
| "object_of (VList vs) = PList (map object_of vs)"
| "object_of (VMap d) = PDict (map (\<lambda>(k, v). (k, object_of v)) d)"

definition load_switches ::
    "variant_schema \<Rightarrow> ('s, 'd) clock \<Rightarrow> ('w, 'e) board_env \<Rightarrow> path_input \<Rightarrow> world \<Rightarrow> 'w
     \<Rightarrow> (world \<times> 'w \<times> unit result) option" where
  "load_switches S c env filename fs w =
     (case new_store fs (OneFilename filename) None None of
        (Inl e, fs') \<Rightarrow> Some (fs', w, Inl e)
      | (Inr st, fs') \<Rightarrow>
          (case get_value st (Some ''switches'') NoPath (Single TyList) VNull True False of
             Inl e \<Rightarrow> Some (fs', w, Inl e)
           | Inr (VList (d # ds)) \<Rightarrow>
               map_option (\<lambda>(w', r). (fs', w', map_sum id (\<lambda>_. ()) r))
                 (import_switches S c env (map object_of (d # ds)) w)
           | Inr _ \<Rightarrow> Some (fs', w, Inr ())))"

end
