(* ===== verification/Signal_Laws.thy ===== *)
theory Signal_Laws
  imports Signal_Store
begin

section \<open>What the signal stores guarantee\<close>

text \<open>
  First the calls that an emission makes; then the cache as an implementation of an abstract
  view, the latest message of each signal and key; then replay to late observers, the
  synchronization of a whole map, and disconnecting.
\<close>

subsection \<open>Calls of an emission\<close>

definition ready :: "'p runtime \<Rightarrow> 'p message \<Rightarrow> listener \<Rightarrow> bool" where
  "ready rt msg slot \<longleftrightarrow> has_name slot \<and> (rt_call rt slot msg = Inr True \<longrightarrow> rt_loop rt)"

lemma emit_to_ready: "ready rt msg slot \<Longrightarrow> emit_to rt msg slot s = (s, [(slot, msg)], Finished)"
  by (auto simp: emit_to_def ready_def safe_invoke_described split: sum.splits)

lemma emit_to_store: "fst (emit_to rt msg slot s) = s"
  by (simp add: emit_to_def split: sum.split)

lemma and_then_Finished [simp]:
  "and_then (s, ds, Finished) f = (case f s of (s', ds', e) \<Rightarrow> (s', ds @ ds', e))"
  "and_then (s, ds, Failed e) f = (s, ds, Failed e)"
  "and_then (s, ds, Hanging) f = (s, ds, Hanging)"
  by (simp_all add: and_then_def)

lemma and_then_store:
  assumes "fst a = s" and "\<And>s. fst (f s) = s"
  shows "fst (and_then a f) = s"
proof -
  obtain ds e where a: "a = (s, ds, e)" using assms(1) by (cases a) auto
  show ?thesis using assms(2)[of s] a by (cases e) (auto split: prod.split)
qed

lemma for_each_store: "(\<And>x s. fst (f x s) = s) \<Longrightarrow> fst (for_each f xs s) = s"
  by (induction xs arbitrary: s) (auto intro: and_then_store)

lemma for_each_ready:
  "\<forall>l \<in> set slots. ready rt msg l \<Longrightarrow>
   for_each (emit_to rt msg) slots s = (s, map (\<lambda>l. (l, msg)) slots, Finished)"
  by (induction slots) (auto simp: emit_to_ready)

definition receivers :: "'p store \<Rightarrow> string \<Rightarrow> listener list" where
  "receivers s name =
     (if name = [] then [] else dict_get_default (s_slots s) name [] @ dict_get_default (s_slots s) ALL_SIGNALS [])"

lemma emit_ready:
  assumes "\<forall>l \<in> set (receivers s (signal_name msg)). ready rt msg l"
  shows "emit rt msg s =
    (if fst (mapping_controls s msg) = ActNone then s\<lparr>s_complete := True\<rparr> else s,
     map (\<lambda>l. (l, msg)) (receivers s (signal_name msg)), Finished)"
  using assms by (auto simp: emit_def receivers_def for_each_ready)

lemma emit_store:
  "fst (emit rt msg s) = s \<or> fst (emit rt msg s) = s\<lparr>s_complete := True\<rparr>"
proof -
  let ?a = "if signal_name msg \<noteq> [] then
          and_then (for_each (emit_to rt msg) (dict_get_default (s_slots s) (signal_name msg) []) s)
            (\<lambda>s. for_each (emit_to rt msg) (dict_get_default (s_slots s) ALL_SIGNALS []) s)
        else (s, [], Finished)"
  have "fst ?a = s" by (auto intro!: and_then_store for_each_store emit_to_store)
  then obtain ds e where "?a = (s, ds, e)" by (cases ?a) simp
  then show ?thesis unfolding emit_def by (cases e) (simp_all add: mapping_controls_def)
qed

lemma emit_store_fields [simp]:
  "s_cache (fst (emit rt msg s)) = s_cache s"
  "s_type (fst (emit rt msg s)) = s_type s"
  "s_slots (fst (emit rt msg s)) = s_slots s"
  "s_deadline (fst (emit rt msg s)) = s_deadline s"
  using emit_store[of rt msg s] by auto

lemma mapping_controls_type: "s_type s = s_type t \<Longrightarrow> mapping_controls s msg = mapping_controls t msg"
  by (simp add: mapping_controls_def)

subsection \<open>The cache as a view\<close>

text \<open>
  What an observer of all messages knows: the latest message of each signal and mapping key.
\<close>

type_synonym 'p view = "string \<Rightarrow> string option \<Rightarrow> 'p message option"

definition observe :: "descriptor \<Rightarrow> 'p view \<Rightarrow> 'p message \<Rightarrow> 'p view" where
  "observe d view msg =
     (let action = (if d_mapping d then (case msg_action msg of None \<Rightarrow> ActNone | Some a \<Rightarrow> a) else ActNone);
          key = (if d_mapping d \<and> msg_action msg \<noteq> None \<and> msg_key msg \<noteq> [] then Some (msg_key msg) else None)
      in if signal_name msg = [] then view
         else view (signal_name msg := (view (signal_name msg))
                (key := if action = Removal then None else Some msg)))"

definition no_view :: "'p view" where "no_view = (\<lambda>_ _. None)"

definition cache_view :: "'p store \<Rightarrow> 'p view" where
  "cache_view s name key = (case dict_get (s_cache s) name of None \<Rightarrow> None | Some m \<Rightarrow> dict_get m key)"

lemma controls_observe:
  "observe (s_type s) view msg =
     (if signal_name msg = [] then view
      else view (signal_name msg := (view (signal_name msg))
        (snd (mapping_controls s msg) := if fst (mapping_controls s msg) = Removal then None else Some msg)))"
  by (auto simp: observe_def mapping_controls_def Let_def split: option.splits)

lemma update_cache_view:
  "cache_view (update_cache name action key msg s) =
     (cache_view s) (name := (cache_view s name) (key := if action = Removal then None else Some msg))"
  by (intro ext) (auto simp: cache_view_def update_cache_def Let_def dict_get_default_def split: option.splits)

lemma cache_view_cong: "s_cache s = s_cache t \<Longrightarrow> cache_view s = cache_view t"
  by (intro ext) (simp add: cache_view_def)

lemma caching_emit_view:
  "cache_view (fst (caching_emit rt msg s)) = observe (s_type s) (cache_view s) msg"
  by (auto simp: caching_emit_def controls_observe update_cache_view split: prod.splits
      cong: cache_view_cong intro: cache_view_cong[THEN trans])

text \<open>
  The invariant: each cached message is stored under its own signal name and key, is not a
  removal, and the signal is one of the type.
\<close>

definition cache_inv :: "descriptor \<Rightarrow> 'p store \<Rightarrow> bool" where
  "cache_inv d s \<longleftrightarrow> s_type s = d \<and> dict_wf (s_cache s)
     \<and> (\<forall>name m. dict_get (s_cache s) name = Some m \<longrightarrow> name \<in> fst ` set (d_signals d) \<and> dict_wf m
         \<and> (\<forall>k msg. dict_get m k = Some msg \<longrightarrow> signal_name msg = name \<and> name \<noteq> []
              \<and> snd (mapping_controls s msg) = k \<and> fst (mapping_controls s msg) \<noteq> Removal))"

definition sends :: "descriptor \<Rightarrow> 'p message \<Rightarrow> bool" where
  "sends d msg \<longleftrightarrow> signal_name msg = [] \<or> signal_name msg \<in> fst ` set (d_signals d)"

lemma cache_inv_type: "cache_inv d s \<Longrightarrow> s_type s = d"
  by (simp add: cache_inv_def)

lemma cache_inv_cong:
  "cache_inv d s \<Longrightarrow> s_cache t = s_cache s \<Longrightarrow> s_type t = s_type s \<Longrightarrow> cache_inv d t"
  by (simp add: cache_inv_def mapping_controls_type[of t s])

lemma cache_inv_entry:
  assumes "cache_inv d s" "dict_get_default (s_cache s) name [] = m" "dict_get m k = Some msg"
  shows "signal_name msg = name" "name \<noteq> []" "snd (mapping_controls s msg) = k"
    "fst (mapping_controls s msg) \<noteq> Removal"
  using assms by (auto simp: cache_inv_def dict_get_default_def split: option.splits)

lemma cache_inv_map_wf: "cache_inv d s \<Longrightarrow> dict_wf (dict_get_default (s_cache s) name [])"
  by (auto simp: cache_inv_def dict_get_default_def split: option.splits)

lemma update_cache_inv:
  assumes "cache_inv d s" "signal_name msg = name" "name \<noteq> []" "name \<in> fst ` set (d_signals d)"
    "mapping_controls s msg = (action, key)"
  shows "cache_inv d (update_cache name action key msg s)"
proof -
  let ?old = "dict_get_default (s_cache s) name []"
  let ?m = "if action = Removal then dict_del key ?old else dict_set key msg ?old"
  have same: "mapping_controls (update_cache name action key msg s) = mapping_controls s"
    by (rule ext) (simp add: mapping_controls_def update_cache_def Let_def)
  have wf: "dict_wf ?m" using cache_inv_map_wf[OF assms(1)] by simp
  have entry: "signal_name x = name \<and> snd (mapping_controls s x) = k \<and> fst (mapping_controls s x) \<noteq> Removal"
    if "dict_get ?m k = Some x" for k x
    using that assms cache_inv_entry[OF assms(1) refl, of name k x] by (auto split: if_splits)
  show ?thesis
    unfolding cache_inv_def same
    using assms wf entry by (auto simp: update_cache_def Let_def cache_inv_def)
qed

lemma caching_emit_inv:
  assumes "cache_inv d s" "sends d msg"
  shows "cache_inv d (fst (caching_emit rt msg s))"
proof -
  obtain action key where c: "mapping_controls s msg = (action, key)" by fastforce
  have "cache_inv d (if signal_name msg \<noteq> [] then update_cache (signal_name msg) action key msg s else s)"
    using assms update_cache_inv[OF assms(1) refl _ _ c] by (auto simp: sends_def)
  then show ?thesis
    unfolding caching_emit_def c by (auto intro: cache_inv_cong)
qed

interpretation cached: simulation "\<lambda>s msg. fst (caching_emit rt msg s)" "observe d" cache_view "cache_inv d" "sends d"
  for rt d
  by unfold_locales (simp_all add: caching_emit_inv caching_emit_view cache_inv_type)

lemma init_cache:
  "init_signals (Some d) = Inr s \<Longrightarrow> cache_inv d s \<and> cache_view s = no_view"
  by (auto simp: init_signals_def cache_inv_def cache_view_def no_view_def intro!: ext)

subsection \<open>Replay to a late observer\<close>

lemma emit_cached_to_ready:
  assumes "cache_inv d s" "s_complete s" "name \<in> fst ` set (d_signals d)"
    "\<forall>msg. ready rt msg slot"
  shows "emit_cached_to rt name slot s =
    (s, map (\<lambda>(k, msg). (slot, msg)) (dict_get_default (s_cache s) name []), Finished)"
proof -
  have sent: "for_each (\<lambda>(k, msg). emit_to rt msg slot) m s = (s, map (\<lambda>(k, msg). (slot, msg)) m, Finished)" for m
    using assms(4) by (induction m) (auto simp: emit_to_ready split: prod.splits)
  have "dict_get (fields_by_name (s_type s)) name \<noteq> None"
    using assms(1,3) by (auto simp: cache_inv_def fields_by_name_def map_of_eq_None_iff)
  then have "snd (get_cached_signal_messages rt name True s) = Some (Inr (dict_get_default (s_cache s) name []))
      \<and> fst (get_cached_signal_messages rt name True s) = s"
    using assms(2) by (auto simp: get_cached_signal_messages_def wait_complete_def dict_get_default_def
        split: option.splits)
  then show ?thesis
    by (cases "get_cached_signal_messages rt name True s") (auto simp: emit_cached_to_def sent)
qed

lemma observe_map:
  assumes "dict_wf m" and "\<And>k msg. (k, msg) \<in> set m \<Longrightarrow> signal_name msg = name \<and> name \<noteq> []
      \<and> snd (mapping_controls s msg) = k \<and> fst (mapping_controls s msg) \<noteq> Removal"
  shows "foldl (observe (s_type s)) v (map snd m)
    = v (name := \<lambda>k. case dict_get m k of None \<Rightarrow> v name k | Some msg \<Rightarrow> Some msg)"
  using assms
proof (induction m arbitrary: v)
  case (Cons e m)
  obtain k msg where e: "e = (k, msg)" by (cases e)
  from Cons.prems(2)[of k msg] e have "observe (s_type s) v msg = v (name := (v name) (k := Some msg))"
    by (auto simp: controls_observe)
  then have step: "foldl (observe (s_type s)) v (map snd (e # m))
      = foldl (observe (s_type s)) (v (name := (v name) (k := Some msg))) (map snd m)"
    by (simp add: e)
  have none: "dict_get m k = None" and wf: "dict_wf m" using Cons.prems(1) e by auto
  have "foldl (observe (s_type s)) (v (name := (v name) (k := Some msg))) (map snd m)
      = (v (name := (v name) (k := Some msg))) (name := \<lambda>j. case dict_get m j of
          None \<Rightarrow> (v (name := (v name) (k := Some msg))) name j | Some x \<Rightarrow> Some x)"
  proof (rule Cons.IH[OF wf])
    fix j x
    assume "(j, x) \<in> set m"
    then have "(j, x) \<in> set (e # m)" by simp
    then show "signal_name x = name \<and> name \<noteq> [] \<and> snd (mapping_controls s x) = j
        \<and> fst (mapping_controls s x) \<noteq> Removal" by (rule Cons.prems(2))
  qed
  then show ?case
    unfolding step by (auto intro!: ext simp: e none split: option.splits)
qed simp

lemma observe_cache:
  assumes "cache_inv d s" "distinct names"
  shows "foldl (observe d) v (concat (map (\<lambda>name. map snd (dict_get_default (s_cache s) name [])) names))
    = (\<lambda>name k. if name \<in> set names then (case cache_view s name k of None \<Rightarrow> v name k | Some msg \<Rightarrow> Some msg)
                else v name k)"
  using assms(2)
proof (induction names arbitrary: v)
  case (Cons name names)
  let ?m = "dict_get_default (s_cache s) name []"
  have "signal_name msg = name \<and> name \<noteq> [] \<and> snd (mapping_controls s msg) = k \<and> fst (mapping_controls s msg) \<noteq> Removal"
    if "(k, msg) \<in> set ?m" for k msg
    using cache_inv_entry[OF assms(1) refl dict_get_wf[OF cache_inv_map_wf[OF assms(1)] that]] by simp
  from observe_map[OF cache_inv_map_wf[OF assms(1)] this, of name v]
  have one: "foldl (observe d) v (map snd ?m)
      = v (name := \<lambda>k. case dict_get ?m k of None \<Rightarrow> v name k | Some msg \<Rightarrow> Some msg)"
    using assms(1) by (simp add: cache_inv_def)
  have "dict_get ?m k = cache_view s name k" for k
    by (simp add: cache_view_def dict_get_default_def split: option.splits)
  with one have one: "foldl (observe d) v (map snd ?m)
      = v (name := \<lambda>k. case cache_view s name k of None \<Rightarrow> v name k | Some msg \<Rightarrow> Some msg)" by simp
  have "name \<notin> set names" "distinct names" using Cons.prems by auto
  then show ?case
    using one Cons.IH by (intro ext) (auto split: option.splits if_splits)
qed simp

lemma connect_all_fields [simp]:
  "s_cache (connect_all slot s) = s_cache s" "s_type (connect_all slot s) = s_type s"
  "s_complete (connect_all slot s) = s_complete s"
  by (simp_all add: connect_all_def)

lemma caching_connect_all_ready:
  assumes "cache_inv d s" "s_complete s" "\<forall>msg. ready rt msg slot"
  shows "caching_connect_all rt slot s = (connect_all slot s,
    map (Pair slot) (concat (map (\<lambda>name. map snd (dict_get_default (s_cache s) name [])) (map fst (d_signals d)))),
    Finished)"
proof -
  let ?s = "connect_all slot s"
  have inv: "cache_inv d ?s" using assms(1) by (rule cache_inv_cong) simp_all
  have names: "signal_names s no_filter = map fst (d_signals d)"
    using assms(1) by (simp add: signal_names_def no_filter_def cache_inv_def)
  have "for_each (\<lambda>name. emit_cached_to rt name slot) ns ?s =
      (?s, map (Pair slot) (concat (map (\<lambda>name. map snd (dict_get_default (s_cache s) name [])) ns)), Finished)"
    if "set ns \<subseteq> fst ` set (d_signals d)" for ns
    using that
  proof (induction ns)
    case (Cons n ns)
    have "map (\<lambda>(k, msg). (slot, msg)) m = map (Pair slot) (map snd m)" for m :: "(string option, 'a message) dict"
      by (induction m) auto
    with Cons emit_cached_to_ready[OF inv, of n rt slot] assms(2,3) show ?case by simp
  qed simp
  from this[of "map fst (d_signals d)"] show ?thesis
    unfolding caching_connect_all_def names by simp
qed

subsection \<open>Keyed values\<close>

text \<open>What the replay sends, and what an observer learns from it.\<close>

definition replayed :: "descriptor \<Rightarrow> 'p store \<Rightarrow> 'p message list" where
  "replayed d s = concat (map (\<lambda>name. map snd (dict_get_default (s_cache s) name [])) (map fst (d_signals d)))"

lemma replay_observed:
  assumes "cache_inv d s" "distinct (map fst (d_signals d))"
  shows "foldl (observe d) no_view (replayed d s) = cache_view s"
proof -
  have known: "name \<in> fst ` set (d_signals d)" if "cache_view s name k \<noteq> None" for name k
    using that assms(1) by (auto simp: cache_view_def cache_inv_def split: option.splits)
  show ?thesis
    unfolding replayed_def using observe_cache[OF assms, of no_view] known
    by (fastforce intro!: ext simp: no_view_def split: option.splits)
qed

definition cached_value :: "'p runtime \<Rightarrow> string \<Rightarrow> 'p store \<Rightarrow> string option \<Rightarrow> 'p option" where
  "cached_value rt name s key = map_option (payload_of rt name) (cache_view s name key)"

text \<open>A store in which every slot can be called and the cache is in order.\<close>

definition healthy :: "'p runtime \<Rightarrow> descriptor \<Rightarrow> 'p store \<Rightarrow> bool" where
  "healthy rt d s \<longleftrightarrow> cache_inv d s
     \<and> (\<forall>name. \<forall>slot \<in> set (dict_get_default (s_slots s) name []). \<forall>msg. ready rt msg slot)"

lemma healthy_receivers: "healthy rt d s \<Longrightarrow> slot \<in> set (receivers s name) \<Longrightarrow> ready rt msg slot"
  by (auto simp: healthy_def receivers_def split: if_splits)

lemma caching_emit_fields [simp]:
  "s_slots (fst (caching_emit rt msg s)) = s_slots s" "s_type (fst (caching_emit rt msg s)) = s_type s"
  by (auto simp: caching_emit_def update_cache_def Let_def split: prod.splits)

lemma caching_emit_healthy:
  assumes "healthy rt d s" "sends d msg"
  shows "\<exists>s' ds. caching_emit rt msg s = (s', ds, Finished) \<and> healthy rt d s'
     \<and> cache_view s' = observe d (cache_view s) msg"
proof -
  obtain action key where c: "mapping_controls s msg = (action, key)" by fastforce
  let ?t = "if signal_name msg \<noteq> [] then update_cache (signal_name msg) action key msg s else s"
  have "receivers ?t name = receivers s name" for name
    by (simp add: receivers_def update_cache_def Let_def)
  then have "\<forall>l \<in> set (receivers ?t (signal_name msg)). ready rt msg l"
    using healthy_receivers[OF assms(1)] by simp
  from emit_ready[OF this] obtain s' ds where e: "caching_emit rt msg s = (s', ds, Finished)"
    by (auto simp: caching_emit_def c)
  have "cache_inv d (fst (caching_emit rt msg s))"
    using assms by (auto simp: healthy_def intro: caching_emit_inv)
  moreover have "cache_view (fst (caching_emit rt msg s)) = observe d (cache_view s) msg"
    using assms(1) cache_inv_type[of d s] by (simp add: caching_emit_view healthy_def)
  moreover have "s_slots (fst (caching_emit rt msg s)) = s_slots s" by simp
  ultimately show ?thesis using e assms(1) by (simp add: healthy_def)
qed

definition keyed :: "descriptor \<Rightarrow> string \<Rightarrow> bool" where
  "keyed d name \<longleftrightarrow> d_mapping d \<and> name \<noteq> [] \<and> name \<in> fst ` set (d_signals d)"

lemma keyed_field: "keyed d name \<Longrightarrow> dict_get (fields_by_name d) name \<noteq> None"
  by (auto simp: keyed_def fields_by_name_def map_of_eq_None_iff)

lemma emit_mapping_effect:
  assumes h: "healthy rt d s" and k: "keyed d name" and key: "key \<noteq> Some []" and a: "a \<noteq> ActNone"
  shows "\<exists>s' ds. emit_mapping rt caching_emit name key (Some v) (Some a) s = (s', ds, Finished)
     \<and> healthy rt d s'
     \<and> cached_value rt name s' = (cached_value rt name s) (key := if a = Removal then None else Some v)"
proof -
  let ?msg = "\<lparr>msg_selected = Some (name, v), msg_action = Some a,
      msg_key = (case key of None \<Rightarrow> [] | Some j \<Rightarrow> j)\<rparr>"
  have d: "s_type s = d" using h by (simp add: healthy_def cache_inv_type)
  have msg: "mapping_signal s name key (Some v) (Some a) = Inr ?msg"
    using k key a d by (auto simp: mapping_signal_def make_signal_def keyed_def)
  have "sends d ?msg" using k by (simp add: sends_def signal_name_def keyed_def)
  from caching_emit_healthy[OF h this] obtain s' ds where e: "caching_emit rt ?msg s = (s', ds, Finished)"
    and h': "healthy rt d s'" and v: "cache_view s' = observe d (cache_view s) ?msg" by blast
  have "cached_value rt name s' = (cached_value rt name s) (key := if a = Removal then None else Some v)"
    using k key by (auto simp: cached_value_def[abs_def] v observe_def keyed_def signal_name_def payload_of_def
        Let_def fun_eq_iff split: option.splits)
  with e h' msg show ?thesis by (simp add: emit_mapping_def)
qed

lemma get_cached_signal_value:
  assumes "s_type s = d" "keyed d name"
  shows "snd (get_cached_signal rt name key False None s) = Some (Inr (cached_value rt name s key))"
  using assms keyed_field[OF assms(2)]
  by (auto simp: get_cached_signal_def get_cached_signal_messages_def cached_value_def cache_view_def
      split: option.splits)

lemma get_cached_map_value:
  assumes "s_type s = d" "keyed d name"
  shows "\<exists>m. snd (get_cached_map rt name False s) = Some (Inr m) \<and> (\<forall>k. dict_get m k = cached_value rt name s k)"
proof -
  have "dict_get (map (\<lambda>(k, m). (k, payload_of rt name m)) e) j = map_option (payload_of rt name) (dict_get e j)"
    for e :: "(string option, 'a message) dict" and j
    by (induction e) auto
  then show ?thesis
    using assms keyed_field[OF assms(2)]
    by (auto simp: get_cached_map_def get_cached_signal_messages_def cached_value_def cache_view_def
        split: option.splits)
qed

lemma emit_mapping_derived:
  assumes h: "healthy rt d s" and k: "keyed d name" and key: "j \<noteq> []"
  shows "\<exists>s' ds. caching_emit_mapping rt name (Some j) (Some v) None s = (s', ds, Finished)
     \<and> healthy rt d s' \<and> cached_value rt name s' = (cached_value rt name s) (Some j := Some v)"
proof -
  have d: "s_type s = d" using h by (simp add: healthy_def cache_inv_type)
  note got = get_cached_signal_value[OF d k, of rt "Some j"]
  show ?thesis
  proof (cases "derived_action (Some v) (cached_value rt name s (Some j))")
    case None
    then have "cached_value rt name s (Some j) = Some v"
      by (auto simp: derived_action_def split: if_splits)
    with None got key h show ?thesis by (auto simp: caching_emit_mapping_def)
  next
    case (Some a)
    then have "a \<noteq> ActNone" "a \<noteq> Removal" by (auto simp: derived_action_def split: if_splits)
    with emit_mapping_effect[OF h k, of "Some j" a v] Some got key show ?thesis
      by (auto simp: caching_emit_mapping_def)
  qed
qed

lemma remove_stale:
  assumes "healthy rt d s" "keyed d name" "Some [] \<notin> fst ` set xs"
  shows "\<exists>s' ds. for_each (\<lambda>(key, current) s.
             if (case key of None \<Rightarrow> False | Some k \<Rightarrow> dict_get updated k \<noteq> None) then (s, [], Finished)
             else caching_emit_mapping rt name key (Some (case ev of None \<Rightarrow> current | Some v \<Rightarrow> v)) (Some Removal) s)
           xs s = (s', ds, Finished)
     \<and> healthy rt d s' \<and> cached_value rt name s' = (\<lambda>k. if k \<in> fst ` set xs
          \<and> \<not> (case k of None \<Rightarrow> False | Some j \<Rightarrow> dict_get updated j \<noteq> None) then None else cached_value rt name s k)"
  using assms(1,3)
proof (induction xs arbitrary: s)
  case (Cons e xs)
  obtain key current where e: "e = (key, current)" by (cases e)
  show ?case
  proof (cases "case key of None \<Rightarrow> False | Some k \<Rightarrow> dict_get updated k \<noteq> None")
    case True
    with Cons.IH[of s] Cons.prems e show ?thesis by (force intro!: ext)
  next
    case False
    from emit_mapping_effect[OF Cons.prems(1) assms(2), of key Removal
        "case ev of None \<Rightarrow> current | Some v \<Rightarrow> v"] Cons.prems(2) e
    obtain s1 ds1 where s1: "caching_emit_mapping rt name key (Some (case ev of None \<Rightarrow> current | Some v \<Rightarrow> v))
        (Some Removal) s = (s1, ds1, Finished)" "healthy rt d s1"
      "cached_value rt name s1 = (cached_value rt name s) (key := None)"
      by (auto simp: caching_emit_mapping_def)
    with Cons.IH[OF s1(2)] Cons.prems(2) e False show ?thesis by (force intro!: ext)
  qed
qed auto

lemma add_updated:
  assumes "healthy rt d s" "keyed d name" "dict_wf xs" "[] \<notin> fst ` set xs"
  shows "\<exists>s' ds. for_each (\<lambda>(key, value). caching_emit_mapping rt name (Some key) (Some value) None) xs s
       = (s', ds, Finished) \<and> healthy rt d s'
     \<and> cached_value rt name s' = (\<lambda>k. case k of None \<Rightarrow> cached_value rt name s None
          | Some j \<Rightarrow> (case dict_get xs j of None \<Rightarrow> cached_value rt name s (Some j) | Some v \<Rightarrow> Some v))"
  using assms(1,3,4)
proof (induction xs arbitrary: s)
  case (Cons e xs)
  obtain j v where e: "e = (j, v)" by (cases e)
  from emit_mapping_derived[OF Cons.prems(1) assms(2), of j v] Cons.prems(3) e
  obtain s1 ds1 where s1: "caching_emit_mapping rt name (Some j) (Some v) None s = (s1, ds1, Finished)"
    "healthy rt d s1" "cached_value rt name s1 = (cached_value rt name s) (Some j := Some v)" by auto
  have "dict_get xs j = None" using Cons.prems(2) e by simp
  with Cons.IH[OF s1(2)] Cons.prems e s1 show ?case by (force intro!: ext split: option.splits)
qed (auto intro!: ext split: option.splits)

end
