(* ===== verification/Switchboard_Props.thy ===== *)
theory Switchboard_Props
  imports Switchboard Signal_Laws
begin

section \<open>Properties of the switchboard\<close>

text \<open>
  Boards follow the service: whatever it sends, a board that was connected all the time and
  one that connects afterwards to the same signal store hold the same switches.
\<close>

subsection \<open>Callbacks\<close>

lemma invoke_callbacks_all:
  "invoke_callbacks call kind sw cbs = (map (\<lambda>(h, cb). (h, cb, sw)) cbs, None)"
  by (induction cbs) (auto simp: safe_invoke_described)

lemma update_specification_switch [simp]:
  "fst (update_specification call spec sw) = sw\<lparr>sw_specification := spec\<rparr>"
  by (simp add: update_specification_def Let_def)

lemma update_status_switch [simp]:
  "fst (update_status call st sw) = sw\<lparr>sw_status := st\<rparr>"
  by (simp add: update_status_def Let_def)

subsection \<open>What a board shows\<close>

type_synonym 'e board_view = "string \<Rightarrow> (switch_spec \<times> 'e switch_status) option"

definition board_view :: "'e board \<Rightarrow> 'e board_view" where
  "board_view b n = map_option (\<lambda>sw. (sw_specification sw, sw_status sw)) (dict_get (switches b) n)"

text \<open>A signal about a switch: the field, its payload and an action that is no removal.\<close>

definition is_update :: "'e board_message \<Rightarrow> bool" where
  "is_update m \<longleftrightarrow> msg_key m \<noteq> [] \<and> msg_action m \<in> {Some Addition, Some Update}"

lemma spec_update_view:
  "is_update m \<Longrightarrow> board_view (fst (on_signal_spec env m b)) =
     (board_view b)(msg_key m := Some (msg_specification m,
        case board_view b (msg_key m) of None \<Rightarrow> empty_status (be_no_error env) | Some (sp, st) \<Rightarrow> st))"
  by (auto simp: board_view_def on_signal_spec_def get_mapped_switch_def is_update_def put_switch_def new_switch_def
      update_specification_def fun_eq_iff Let_def split: option.splits prod.splits)

lemma status_update_view:
  "is_update m \<Longrightarrow> board_view (fst (on_signal_status env m b)) =
     (board_view b)(msg_key m := Some (case board_view b (msg_key m) of None \<Rightarrow> empty_specification | Some (sp, st) \<Rightarrow> sp,
        msg_status (be_no_error env) m))"
  by (auto simp: board_view_def on_signal_status_def get_mapped_switch_def is_update_def put_switch_def new_switch_def
      update_status_def fun_eq_iff Let_def split: option.splits prod.splits)

lemma removal_view:
  assumes "msg_key m \<noteq> []" "msg_action m = Some Removal"
  shows "board_view (fst (on_signal_spec env m b)) = (board_view b)(msg_key m := None)"
    and "board_view (fst (on_signal_status env m b)) = (board_view b)(msg_key m := None)"
  using assms
  by (auto simp: board_view_def on_signal_spec_def on_signal_status_def get_mapped_switch_def put_switch_def
      update_specification_def update_status_def fun_eq_iff Let_def split: option.splits prod.splits)

subsection \<open>The service\<close>

text \<open>
  What the service does: it sets the specification or the status of a switch, which is sent
  as an addition or an update, or drops a switch, which is sent on both signals.
\<close>

datatype 'e server_op =
    SetSpec mapping_action string switch_spec
  | SetStatus mapping_action string "'e switch_status"
  | Drop string

definition board_signal :: "string \<Rightarrow> 'e board_payload \<Rightarrow> mapping_action \<Rightarrow> string \<Rightarrow> 'e board_message" where
  "board_signal field payload action name = \<lparr>msg_selected = Some (field, payload), msg_action = Some action, msg_key = name\<rparr>"

fun op_messages :: "'e \<Rightarrow> 'e server_op \<Rightarrow> 'e board_message list" where
  "op_messages e (SetSpec a n s) = [board_signal ''specification'' (SpecPayload s) a n]"
| "op_messages e (SetStatus a n s) = [board_signal ''status'' (StatusPayload s) a n]"
| "op_messages e (Drop n) =
     [board_signal ''status'' (StatusPayload (empty_status e)) Removal n,
      board_signal ''specification'' (SpecPayload empty_specification) Removal n]"

fun op_ok :: "'e server_op \<Rightarrow> bool" where
  "op_ok (SetSpec a n s) \<longleftrightarrow> a \<in> {Addition, Update} \<and> n \<noteq> []"
| "op_ok (SetStatus a n s) \<longleftrightarrow> a \<in> {Addition, Update} \<and> n \<noteq> []"
| "op_ok (Drop n) \<longleftrightarrow> n \<noteq> []"

fun op_view :: "'e \<Rightarrow> 'e board_view \<Rightarrow> 'e server_op \<Rightarrow> 'e board_view" where
  "op_view e v (SetSpec a n s) = v(n := Some (s, case v n of None \<Rightarrow> empty_status e | Some (sp, st) \<Rightarrow> st))"
| "op_view e v (SetStatus a n s) = v(n := Some (case v n of None \<Rightarrow> empty_specification | Some (sp, st) \<Rightarrow> sp, s))"
| "op_view e v (Drop n) = v(n := None)"

lemmas board_signal_simps =
  msg_specification_def msg_status_def board_signal_def is_update_def signal_name_def

text \<open>How the board's slots are called with a message.\<close>

definition board_step :: "('w, 'e) board_env \<Rightarrow> 'e board \<Rightarrow> 'e board_message \<Rightarrow> 'e board" where
  "board_step env b m =
     (if signal_name m = ''specification'' then fst (on_signal_spec env m b)
      else if signal_name m = ''status'' then fst (on_signal_status env m b) else b)"

lemma board_step_op:
  assumes "op_ok p"
  shows "board_view (foldl (board_step env) b (op_messages (be_no_error env) p)) = op_view (be_no_error env) (board_view b) p"
  using assms
proof (cases p)
  case (SetSpec a n s)
  with assms show ?thesis
    by (simp add: board_step_def board_signal_simps spec_update_view)
next
  case (SetStatus a n s)
  with assms show ?thesis
    by (simp add: board_step_def board_signal_simps status_update_view)
next
  case (Drop n)
  with assms show ?thesis
    by (simp add: board_step_def board_signal_simps removal_view)
qed

lemma op_signals: "m \<in> set (op_messages e p) \<Longrightarrow> signal_name m = ''specification'' \<or> signal_name m = ''status''"
  by (cases p) (auto simp: board_signal_simps)

lemma board_step_ops:
  "list_all op_ok ops \<Longrightarrow>
   board_view (foldl (board_step env) b (concat (map (op_messages (be_no_error env)) ops)))
     = foldl (op_view (be_no_error env)) (board_view b) ops"
  by (induction ops arbitrary: b) (simp_all add: board_step_op)

subsection \<open>The cache of the signal store\<close>

text \<open>
  The view of the signal store agrees with that of the service: the cached messages are
  updates, and together they give specification and status of each switch.
\<close>

definition update_of :: "string \<Rightarrow> string option \<Rightarrow> 'e board_message \<Rightarrow> bool" where
  "update_of name k m \<longleftrightarrow> is_update m \<and> k = Some (msg_key m) \<and> signal_name m = name"

definition cache_shows :: "'e \<Rightarrow> 'e board_payload view \<Rightarrow> 'e board_view \<Rightarrow> bool" where
  "cache_shows e v w \<longleftrightarrow>
     (\<forall>name k m. v name k = Some m \<longrightarrow> update_of name k m)
     \<and> (\<forall>n. w n = (case (v ''specification'' (Some n), v ''status'' (Some n)) of
           (None, None) \<Rightarrow> None
         | (s, t) \<Rightarrow> Some (case s of None \<Rightarrow> empty_specification | Some m \<Rightarrow> msg_specification m,
                          case t of None \<Rightarrow> empty_status e | Some m \<Rightarrow> msg_status e m)))"

lemma observe_board_signal:
  assumes "d_mapping d" "n \<noteq> []" "field \<noteq> []"
  shows "observe d v (board_signal field p a n) =
     v(field := (v field)(Some n := if a = Removal then None else Some (board_signal field p a n)))"
  using assms by (simp add: observe_def board_signal_def signal_name_def Let_def)

lemma cache_shows_op:
  assumes d: "d_mapping d" and c: "cache_shows e v w" and p: "op_ok p"
  shows "cache_shows e (foldl (observe d) v (op_messages e p)) (op_view e w p)"
proof -
  note shape = c[unfolded cache_shows_def, THEN conjunct1, rule_format]
  note given = c[unfolded cache_shows_def, THEN conjunct2, rule_format]
  show ?thesis
  proof (cases p)
    case (SetSpec a n s)
    with p d have o: "foldl (observe d) v (op_messages e p)
        = v(''specification'' := (v ''specification'')(Some n := Some (board_signal ''specification'' (SpecPayload s) a n)))"
      by (auto simp: observe_board_signal)
    show ?thesis
      unfolding o cache_shows_def using SetSpec p shape
      by (auto simp: given update_of_def board_signal_simps split: option.splits if_splits)
  next
    case (SetStatus a n s)
    with p d have o: "foldl (observe d) v (op_messages e p)
        = v(''status'' := (v ''status'')(Some n := Some (board_signal ''status'' (StatusPayload s) a n)))"
      by (auto simp: observe_board_signal)
    show ?thesis
      unfolding o cache_shows_def using SetStatus p shape
      by (auto simp: given update_of_def board_signal_simps split: option.splits if_splits)
  next
    case (Drop n)
    with p d have o: "foldl (observe d) v (op_messages e p)
        = v(''status'' := (v ''status'')(Some n := None), ''specification'' := (v ''specification'')(Some n := None))"
      by (auto simp: observe_board_signal)
    show ?thesis
      unfolding o cache_shows_def using Drop p shape
      by (auto simp: given split: option.splits if_splits)
  qed
qed

lemma cache_shows_ops:
  "d_mapping d \<Longrightarrow> cache_shows e v w \<Longrightarrow> list_all op_ok ops \<Longrightarrow>
   cache_shows e (foldl (observe d) v (concat (map (op_messages e) ops))) (foldl (op_view e) w ops)"
proof (induction ops arbitrary: v w)
  case (Cons p ops)
  then have "cache_shows e (foldl (observe d) v (op_messages e p)) (op_view e w p)"
    by (intro cache_shows_op) simp_all
  with Cons show ?case by simp
qed simp

lemma cache_shows_empty: "cache_shows e no_view (\<lambda>_. None)"
  by (simp add: cache_shows_def no_view_def)

text \<open>Replaying the cached messages of one signal to a board.\<close>

lemma replay_spec:
  assumes "dict_wf ms" and "\<And>k m. (k, m) \<in> set ms \<Longrightarrow> update_of ''specification'' k m"
  shows "board_view (foldl (deliver env) b (map (\<lambda>(k, m). (spec_slot, m)) ms)) n =
    (case dict_get ms (Some n) of
       None \<Rightarrow> board_view b n
     | Some m \<Rightarrow> Some (msg_specification m,
         case board_view b n of None \<Rightarrow> empty_status (be_no_error env) | Some (sp, st) \<Rightarrow> st))"
  using assms
proof (induction ms arbitrary: b)
  case (Cons km ms)
  obtain k m where km: "km = (k, m)" by (cases km)
  have m: "is_update m" "k = Some (msg_key m)" using Cons.prems(2)[of k m] km by (auto simp: update_of_def)
  have none: "dict_get ms k = None" "dict_wf ms" using Cons.prems(1) km by auto
  show ?case
    using Cons.IH[OF none(2) Cons.prems(2), of "deliver env b (spec_slot, m)"] m none(1)
    by (auto simp: km deliver_def spec_update_view split: option.splits)
qed simp

lemma replay_status:
  assumes "dict_wf ms" and "\<And>k m. (k, m) \<in> set ms \<Longrightarrow> update_of ''status'' k m"
  shows "board_view (foldl (deliver env) b (map (\<lambda>(k, m). (status_slot, m)) ms)) n =
    (case dict_get ms (Some n) of
       None \<Rightarrow> board_view b n
     | Some m \<Rightarrow> Some (case board_view b n of None \<Rightarrow> empty_specification | Some (sp, st) \<Rightarrow> sp,
         msg_status (be_no_error env) m))"
  using assms
proof (induction ms arbitrary: b)
  case (Cons km ms)
  obtain k m where km: "km = (k, m)" by (cases km)
  have m: "is_update m" "k = Some (msg_key m)" using Cons.prems(2)[of k m] km by (auto simp: update_of_def)
  have none: "dict_get ms k = None" "dict_wf ms" using Cons.prems(1) km by auto
  show ?case
    using Cons.IH[OF none(2) Cons.prems(2), of "deliver env b (status_slot, m)"] m none(1)
    by (auto simp: km deliver_def spec_slot_def status_slot_def status_update_view split: option.splits)
qed simp

subsection \<open>Two boards\<close>

definition board_type :: "descriptor \<Rightarrow> bool" where
  "board_type d \<longleftrightarrow> d_mapping d \<and> {''specification'', ''status''} \<subseteq> fst ` set (d_signals d)"

definition board_slots :: "(string, listener list) dict" where
  "board_slots = [(''specification'', [spec_slot]), (''status'', [status_slot])]"

text \<open>The calls made while a list of messages is emitted.\<close>

fun emit_calls :: "'p runtime \<Rightarrow> 'p message list \<Rightarrow> 'p Signal_Store.store \<Rightarrow> 'p Signal_Store.store \<times> 'p delivery list" where
  "emit_calls rt [] s = (s, [])"
| "emit_calls rt (m # ms) s =
     (case caching_emit rt m s of (s', ds, e) \<Rightarrow> map_prod id ((@) ds) (emit_calls rt ms s'))"

lemma board_receivers:
  "s_slots s = board_slots \<Longrightarrow> receivers s ''specification'' = [spec_slot]"
  "s_slots s = board_slots \<Longrightarrow> receivers s ''status'' = [status_slot]"
  by (simp_all add: receivers_def board_slots_def dict_get_default_def ALL_SIGNALS_def)

lemma emit_board_signal:
  assumes slots: "s_slots s = board_slots" and rt: "\<forall>m. ready rt m spec_slot \<and> ready rt m status_slot"
    and field: "signal_name m \<in> {''specification'', ''status''}"
  shows "\<exists>s'. caching_emit rt m s =
     (s', [(if signal_name m = ''specification'' then spec_slot else status_slot, m)], Finished) \<and> s_slots s' = board_slots"
proof -
  obtain a k where c: "mapping_controls s m = (a, k)" by fastforce
  let ?t = "update_cache (signal_name m) a k m s"
  have t: "s_slots ?t = board_slots" using slots by (simp add: update_cache_def Let_def)
  have e: "caching_emit rt m s = emit rt m ?t" using field by (auto simp: caching_emit_def c)
  have "\<forall>l \<in> set (receivers ?t (signal_name m)). ready rt m l"
    using board_receivers[OF t] field rt by auto
  from emit_ready[OF this] e show ?thesis using board_receivers[OF t] field t by auto
qed

lemma emit_calls_board:
  assumes "s_slots s = board_slots" "\<forall>m. ready rt m spec_slot \<and> ready rt m status_slot"
    and "\<forall>m \<in> set ms. signal_name m \<in> {''specification'', ''status''}"
  shows "foldl (deliver env) b (snd (emit_calls rt ms s)) = foldl (board_step env) b ms"
  using assms(1,3)
proof (induction ms arbitrary: s b)
  case (Cons m ms)
  obtain s' where s': "caching_emit rt m s =
     (s', [(if signal_name m = ''specification'' then spec_slot else status_slot, m)], Finished)" "s_slots s' = board_slots"
    using emit_board_signal[OF Cons.prems(1) assms(2), of m] Cons.prems(2) by auto
  have "deliver env b (if signal_name m = ''specification'' then spec_slot else status_slot, m) = board_step env b m"
    using Cons.prems(2) by (auto simp: deliver_def board_step_def spec_slot_def status_slot_def)
  with s' Cons.prems(2) show ?case by (simp add: map_prod_def split_beta Cons.IH)
qed simp

lemma emit_calls_store: "fst (emit_calls rt ms s) = foldl (\<lambda>s m. fst (caching_emit rt m s)) s ms"
  by (induction ms arbitrary: s) (simp_all add: map_prod_def split_beta)

lemma signal_known:
  "board_type d \<Longrightarrow> s_type s = d \<Longrightarrow> ''specification'' \<in> set (signal_names s no_filter) \<and> ''status'' \<in> set (signal_names s no_filter)"
  by (auto simp: board_type_def signal_names_def no_filter_def)

lemma connect_empty:
  assumes "board_type d" "init_signals (Some d) = Inr s0"
  shows "connect_signals rt s0 = (s0\<lparr>s_slots := board_slots\<rparr>, [], Finished)"
  using assms signal_known[OF assms(1), of s0]
  by (auto simp: connect_signals_def caching_connect_signal_def connect_signal_def emit_cached_to_def init_signals_def
      setdefault_append_def dict_get_default_def board_slots_def signal_names_def no_filter_def)

lemma connect_complete:
  assumes d: "board_type d" and s: "cache_inv d s" "s_complete s"
    and rt: "\<forall>m. ready rt m spec_slot \<and> ready rt m status_slot"
  shows "\<exists>s'. connect_signals rt s = (s',
     map (\<lambda>(k, m). (spec_slot, m)) (dict_get_default (s_cache s) ''specification'' [])
     @ map (\<lambda>(k, m). (status_slot, m)) (dict_get_default (s_cache s) ''status'' []), Finished)"
proof -
  have t: "s_type s = d" using s(1) by (rule cache_inv_type)
  let ?s1 = "s\<lparr>s_slots := setdefault_append ''specification'' spec_slot (s_slots s)\<rparr>"
  let ?s2 = "?s1\<lparr>s_slots := setdefault_append ''status'' status_slot (s_slots ?s1)\<rparr>"
  have inv: "cache_inv d ?s1" "cache_inv d ?s2" by (rule cache_inv_cong[OF s(1)], simp, simp)+
  have in_d: "''specification'' \<in> fst ` set (d_signals d)" "''status'' \<in> fst ` set (d_signals d)"
    using d by (auto simp: board_type_def)
  have "caching_connect_signal rt ''specification'' spec_slot s
      = (?s1, map (\<lambda>(k, m). (spec_slot, m)) (dict_get_default (s_cache s) ''specification'' []), Finished)"
    using signal_known[OF d t] emit_cached_to_ready[OF inv(1) _ in_d(1)] s(2) rt
    by (simp add: caching_connect_signal_def connect_signal_def)
  moreover have "caching_connect_signal rt ''status'' status_slot ?s1
      = (?s2, map (\<lambda>(k, m). (status_slot, m)) (dict_get_default (s_cache s) ''status'' []), Finished)"
    using signal_known[OF d, of ?s1] t emit_cached_to_ready[OF inv(2) _ in_d(2)] s(2) rt
    by (simp add: caching_connect_signal_def connect_signal_def)
  ultimately show ?thesis by (simp add: connect_signals_def)
qed

lemma cached_map_view: "dict_get (dict_get_default (s_cache s) name []) k = cache_view s name k"
  by (simp add: cache_view_def dict_get_default_def split: option.splits)

lemma board_view_new [simp]: "board_view new_board n = None"
  by (simp add: board_view_def new_board_def)

lemma replay_shows:
  assumes s: "cache_inv d s" and v: "cache_shows (be_no_error (env :: ('w, 'e) board_env)) (cache_view s) w"
  shows "board_view (foldl (deliver env) new_board
     (map (\<lambda>(k, m). (spec_slot, m)) (dict_get_default (s_cache s) ''specification'' [])
      @ map (\<lambda>(k, m). (status_slot, m)) (dict_get_default (s_cache s) ''status'' []))) = w"
proof
  fix n
  have update: "update_of name k m" if "(k, m) \<in> set (dict_get_default (s_cache s) name [])" for name k m
  proof -
    have "cache_view s name k = Some m"
      using dict_get_wf[OF cache_inv_map_wf[OF s] that] by (simp add: cached_map_view)
    with v show ?thesis by (simp add: cache_shows_def)
  qed
  let ?b = "foldl (deliver env) new_board (map (\<lambda>(k, m). (spec_slot, m)) (dict_get_default (s_cache s) ''specification'' []))"
  have spec: "board_view ?b n = (case cache_view s ''specification'' (Some n) of None \<Rightarrow> None
      | Some m \<Rightarrow> Some (msg_specification m, empty_status (be_no_error env)))"
    using replay_spec[where ms = "dict_get_default (s_cache s) ''specification'' []" and env = env and b = new_board and n = n,
        OF cache_inv_map_wf[OF s] update, unfolded board_view_new option.case] by (simp add: cached_map_view)
  have "w n = (case (cache_view s ''specification'' (Some n), cache_view s ''status'' (Some n)) of
           (None, None) \<Rightarrow> None
         | (s, t) \<Rightarrow> Some (case s of None \<Rightarrow> empty_specification | Some m \<Rightarrow> msg_specification m,
                          case t of None \<Rightarrow> empty_status (be_no_error env) | Some m \<Rightarrow> msg_status (be_no_error env) m))"
    using v unfolding cache_shows_def by blast
  then show "board_view (foldl (deliver env) new_board
     (map (\<lambda>(k, m). (spec_slot, m)) (dict_get_default (s_cache s) ''specification'' [])
      @ map (\<lambda>(k, m). (status_slot, m)) (dict_get_default (s_cache s) ''status'' []))) n = w n"
    using replay_status[where ms = "dict_get_default (s_cache s) ''status'' []" and env = env and b = ?b and n = n,
        OF cache_inv_map_wf[OF s] update] spec
    by (auto simp: cached_map_view split: option.splits)
qed

text \<open>
  C15. Boards agree with the service and with each other. Whatever the service does to its
  switches, a board connected to the signal store all the time shows exactly the switches
  there are, with their latest specification and status; and a board that connects
  afterwards, once the store is complete, is sent what it needs to show the same.
\<close>

theorem boards_agree:
  assumes "board_type d" and "init_signals (Some d) = Inr s0"
    and "\<forall>m. ready rt m spec_slot \<and> ready rt m status_slot" and "list_all op_ok ops"
    and "connect_signals rt s0 = (s1, ds0, r0)"
    and "emit_calls rt (concat (map (op_messages (be_no_error (env :: ('w, 'e) board_env))) ops)) s1 = (s2, early)"
    and "connect_signals rt (s2\<lparr>s_complete := True\<rparr>) = (s3, late, r)"
  shows "r = Finished
     \<and> board_view (foldl (deliver env) new_board early) = foldl (op_view (be_no_error env)) (\<lambda>_. None) ops
     \<and> board_view (foldl (deliver env) new_board late) = foldl (op_view (be_no_error env)) (\<lambda>_. None) ops"
proof -
  let ?ms = "concat (map (op_messages (be_no_error env)) ops)"
  let ?w = "foldl (op_view (be_no_error env)) (\<lambda>_. None) ops"
  have s1: "s1 = s0\<lparr>s_slots := board_slots\<rparr>" using assms(5) connect_empty[OF assms(1,2), of rt] by simp
  have names: "\<forall>m \<in> set ?ms. signal_name m \<in> {''specification'', ''status''}" using op_signals by fastforce
  have view0: "board_view new_board = (\<lambda>_. None)" by (simp add: fun_eq_iff)
  have early: "board_view (foldl (deliver env) new_board early) = ?w"
    using emit_calls_board[OF _ assms(3) names, where s = s1 and env = env and b = new_board] assms(6)
      board_step_ops[OF assms(4), where env = env and b = new_board]
    by (simp add: s1 view0)
  have "cache_inv d s0" "cache_view s0 = no_view" using init_cache[OF assms(2)] by auto
  then have inv: "cache_inv d s1" and v: "cache_view s1 = no_view"
    by (auto simp: s1 intro: cache_inv_cong cache_view_cong[THEN trans])
  have s2: "s2 = foldl (\<lambda>s m. fst (caching_emit rt m s)) s1 ?ms" using emit_calls_store[of rt ?ms s1] assms(6) by simp
  have sent: "\<forall>m \<in> set ?ms. sends d m" using names assms(1) by (force simp: sends_def board_type_def)
  have inv2: "cache_inv d s2" and v2: "cache_view s2 = foldl (observe d) no_view ?ms"
    using cached.run_inv[OF inv sent, of rt] cached.run_abs[OF inv sent, of rt] v s2 by simp_all
  have "cache_shows (be_no_error env) (cache_view s2) ?w"
    unfolding v2 using assms(1,4) by (intro cache_shows_ops cache_shows_empty) (simp_all add: board_type_def)
  moreover have "cache_view (s2\<lparr>s_complete := True\<rparr>) = cache_view s2" by (rule cache_view_cong) simp
  moreover have inv3: "cache_inv d (s2\<lparr>s_complete := True\<rparr>)" using inv2 by (rule cache_inv_cong) simp_all
  ultimately have late: "board_view (foldl (deliver env) new_board
     (map (\<lambda>(k, m). (spec_slot, m)) (dict_get_default (s_cache (s2\<lparr>s_complete := True\<rparr>)) ''specification'' [])
      @ map (\<lambda>(k, m). (status_slot, m)) (dict_get_default (s_cache (s2\<lparr>s_complete := True\<rparr>)) ''status'' []))) = ?w"
    by (intro replay_shows) simp_all
  show ?thesis
    using connect_complete[OF assms(1) inv3 _ assms(3)] assms(7) late early by auto
qed

text \<open>A service that sets up two switches, turns one on and drops the other.\<close>

definition demo_board_type :: descriptor where
  "demo_board_type = \<lparr>d_signals = [(''specification'', 3), (''status'', 4)],
     d_others = [(''mapping_action'', 1), (''mapping_key'', 2)]\<rparr>"

definition demo_board_runtime :: "int board_payload runtime" where
  "demo_board_runtime = \<lparr>rt_default = (\<lambda>_. OtherPayload), rt_call = (\<lambda>_ _. Inr False), rt_loop = False,
     rt_background = (\<lambda>_ _. None)\<rparr>"

definition demo_board_stub :: "(unit, int) stub" where
  "demo_board_stub = \<lparr>rpc_set_specification = (\<lambda>_ w. (w, Inr True)), rpc_add_dependency = (\<lambda>_ w. (w, Inr True)),
     rpc_remove_interceptor = (\<lambda>_ _ w. (w, Inr True)), rpc_invoke_intereptor = None,
     rpc_set_target = (\<lambda>_ w. (w, Inr True)), rpc_set_attributes = (\<lambda>_ _ _ w. (w, Inr True)),
     rpc_get_culprits = (\<lambda>_ _ w. (w, Inr [])), rpc_add_switch = (\<lambda>_ w. (w, Inr True)),
     rpc_remove_switch = (\<lambda>_ _ w. (w, Inr True)), rpc_import_switches = (\<lambda>_ w. (w, Inr 0))\<rparr>"

definition demo_board_env :: "(unit, int) board_env" where
  "demo_board_env = \<lparr>be_call = (\<lambda>_ _. Inr ()), be_no_error = 0, be_stub = demo_board_stub\<rparr>"

definition demo_ops :: "int server_op list" where
  "demo_ops = [SetSpec Addition ''pump'' (empty_specification\<lparr>sp_aliases := [''P1'']\<rparr>),
     SetStatus Update ''pump'' ((empty_status 0)\<lparr>ss_active := True\<rparr>),
     SetSpec Addition ''valve'' empty_specification, Drop ''valve'']"

definition demo_board_store :: "int board_payload Signal_Store.store" where
  "demo_board_store = \<lparr>s_type = demo_board_type, s_slots = [], s_deadline = None, s_complete = False,
     s_cache = []\<rparr>"

lemma demo_board_init: "init_signals (Some demo_board_type) = Inr demo_board_store"
  by (simp add: init_signals_def demo_board_store_def demo_board_type_def)

theorem boards_agree_witness:
  "board_view (foldl (deliver demo_board_env) new_board
     (fst (snd (connect_signals demo_board_runtime
       ((fst (emit_calls demo_board_runtime (concat (map (op_messages 0) demo_ops))
          (fst (connect_signals demo_board_runtime demo_board_store))))\<lparr>s_complete := True\<rparr>))))) ''pump''
   = Some (empty_specification\<lparr>sp_aliases := [''P1'']\<rparr>, (empty_status 0)\<lparr>ss_active := True\<rparr>)"
proof -
  obtain s1 ds0 r0 where 1: "connect_signals demo_board_runtime demo_board_store = (s1, ds0, r0)"
    by (cases "connect_signals demo_board_runtime demo_board_store")
  have e: "be_no_error demo_board_env = 0" by (simp add: demo_board_env_def)
  obtain s2 early where 2: "emit_calls demo_board_runtime (concat (map (op_messages (be_no_error demo_board_env)) demo_ops)) s1
      = (s2, early)"
    by (cases "emit_calls demo_board_runtime (concat (map (op_messages (be_no_error demo_board_env)) demo_ops)) s1")
  obtain s3 late r where 3: "connect_signals demo_board_runtime (s2\<lparr>s_complete := True\<rparr>) = (s3, late, r)"
    by (cases "connect_signals demo_board_runtime (s2\<lparr>s_complete := True\<rparr>)")
  have "board_view (foldl (deliver demo_board_env) new_board late)
      = foldl (op_view (be_no_error demo_board_env)) (\<lambda>_. None) demo_ops"
    using boards_agree[OF _ demo_board_init _ _ 1 2 3]
    by (simp add: board_type_def demo_board_type_def d_mapping_def demo_ops_def demo_board_runtime_def
        spec_slot_def status_slot_def ready_def)
  with 1 2 3 e show ?thesis by (simp add: demo_ops_def)
qed

end
