(* ===== verification/Scheduler.thy ===== *)
theory Scheduler
  imports Py_Num
begin

section \<open>The task scheduler\<close>

text \<open>
  \<open>core/scheduler.py\<close>: one timer thread counts ticks and releases the locks queued for the
  current tick; each task has a thread that waits for its lock, runs its method, and queues
  the lock again. This theory holds the state, the sections the code runs under its mutex
  and the steps of a task's thread as functions; \<open>Scheduler_Run\<close> interleaves them.
  Locks and events are numbered in the order they are created. Clock readings are
  arguments; a method's outcome is an argument of the step in which it returns. Log texts
  are not modelled.
\<close>

subsection \<open>Slots\<close>

text \<open>The keys of \<open>_locks\<close>: tick counts, and \<open>INFINITY\<close> above them all.\<close>

datatype slot = At int | Forever

instantiation slot :: linorder
begin

fun less_eq_slot :: "slot \<Rightarrow> slot \<Rightarrow> bool" where
  "less_eq_slot (At m) (At n) = (m \<le> n)"
| "less_eq_slot Forever (At n) = False"
| "less_eq_slot x Forever = True"

definition less_slot :: "slot \<Rightarrow> slot \<Rightarrow> bool" where
  "less_slot x y \<longleftrightarrow> x \<le> y \<and> \<not> y \<le> x"

instance
proof
  fix x y z :: slot
  show "x < y \<longleftrightarrow> x \<le> y \<and> \<not> y \<le> x" by (simp add: less_slot_def)
  show "x \<le> x" by (cases x) auto
  show "x \<le> y \<Longrightarrow> y \<le> z \<Longrightarrow> x \<le> z" by (cases x; cases y; cases z) auto
  show "x \<le> y \<Longrightarrow> y \<le> x \<Longrightarrow> x = y" by (cases x; cases y) auto
  show "x \<le> y \<or> y \<le> x" by (cases x; cases y) auto
qed

end

subsection \<open>State\<close>

datatype task_alignment = AlignNONE | AlignLOCAL | AlignUTC

text \<open>
  The timer thread: not created, created but not yet in its loop, in its loop with the local
  variable \<open>nexttime\<close>, or returned. \<open>_timerThread\<close> is \<open>None\<close> in the first case only.
\<close>

datatype timer_thread = NoTimer | Created | Looping rat | Exited

record 'h scheduler =
  speedFactor :: rat
  nextcount :: int
  starttime :: rat
  running :: bool
  timer :: timer_thread
  locks :: "(slot, nat list) dict"
  pendingStart :: "('h, nat) dict"
  pendingException :: "('h, py_error) dict"
  tasks :: "('h, nat) dict"
  held :: "nat set"
  events_set :: "nat set"
  fresh :: nat

text \<open>
  A task in \<open>_tasks\<close> is given by the number of its lock, which also names its thread; the
  name kept with it is its handle. \<open>held\<close> are the locks that are locked, \<open>events_set\<close> the
  events that are set.
\<close>

definition new_scheduler :: "'h scheduler" where
  "new_scheduler = \<lparr>speedFactor = 1, nextcount = 0, starttime = 0, running = True, timer = NoTimer,
     locks = [(Forever, [])], pendingStart = [], pendingException = [], tasks = [],
     held = {}, events_set = {}, fresh = 0\<rparr>"

definition tick :: rat where "tick = rnd (1 / 1000)"
definition maxsleep :: rat where "maxsleep = rnd (1 / 10)"
definition timeshiftlimit :: rat where "timeshiftlimit = 5"

definition tick_count :: "'h scheduler \<Rightarrow> rat \<Rightarrow> int result" where
  "tick_count s t =
     (if speedFactor s = 0 then Inl ZeroDivisionError
      else Inr (py_trunc (fdiv (fdiv t (speedFactor s)) tick)))"

text \<open>What \<open>time\<close> knows of the local zone; \<open>isdst\<close> is the last field of \<open>localtime\<close>.\<close>

record local_zone =
  timezone :: int
  altzone :: int
  isdst :: "rat \<Rightarrow> int"

definition alignment_offset ::
    "local_zone \<Rightarrow> rat \<Rightarrow> 'h scheduler \<Rightarrow> rat \<Rightarrow> task_alignment \<Rightarrow> rat option \<Rightarrow> int result" where
  "alignment_offset z now s interval align timestamp =
     (let ts = (case timestamp of None \<Rightarrow> now | Some t \<Rightarrow> t) in
      bind_result
        (case align of
           AlignUTC \<Rightarrow> Inr 0
         | AlignLOCAL \<Rightarrow> map_sum id float_of_int (list_index [timezone z, altzone z] (isdst z ts))
         | AlignNONE \<Rightarrow> Inr (starttime s))
        (\<lambda>tz. if interval = 0 then Inl ZeroDivisionError
               else Inr (py_trunc (fsub ts (float_mod (fsub ts tz) interval)))))"

subsection \<open>Alarms\<close>

fun clear_alarm :: "nat \<Rightarrow> (slot, nat list) dict \<Rightarrow> (slot, nat list) dict \<times> bool" where
  "clear_alarm l [] = ([], False)"
| "clear_alarm l ((k, ls) # d) =
     (if l \<in> set ls then ((k, remove1 l ls) # d, True)
      else (case clear_alarm l d of (d', found) \<Rightarrow> ((k, ls) # d', found)))"

definition clearalarm :: "nat \<Rightarrow> 'h scheduler \<Rightarrow> 'h scheduler \<times> bool" where
  "clearalarm l s = (case clear_alarm l (locks s) of (d, found) \<Rightarrow> (s\<lparr>locks := d\<rparr>, found))"

text \<open>
  \<open>_setalarm\<close> names a global \<open>_nextcount\<close> and \<open>setalarm\<close> a global \<open>_mutex\<close>; neither exists.
\<close>

definition setalarm_locked :: "rat \<Rightarrow> nat \<Rightarrow> 'h scheduler \<Rightarrow> 'h scheduler \<times> unit result" where
  "setalarm_locked timeout l s = (s, Inl NameError)"

definition setalarm :: "rat \<Rightarrow> nat \<Rightarrow> 'h scheduler \<Rightarrow> 'h scheduler \<times> unit result" where
  "setalarm timeout l s = (s, Inl NameError)"

definition reschedule :: "'h \<Rightarrow> rat \<Rightarrow> 'h scheduler \<Rightarrow> 'h scheduler \<times> unit result" where
  "reschedule h delay s =
     (case dict_get (tasks s) h of
        None \<Rightarrow> (s, Inl KeyError)
      | Some l \<Rightarrow>
          (case clearalarm l (s\<lparr>tasks := dict_del h (tasks s)\<rparr>) of (s', found) \<Rightarrow>
             setalarm_locked delay l s'))"

definition scheduleList :: "'h scheduler \<Rightarrow> 'h list" where
  "scheduleList s = dict_keys (tasks s)"

text \<open>A thread has no attribute \<open>_Thread__args\<close> or \<open>_Thread__started\<close>.\<close>

definition getTask :: "'h \<Rightarrow> 'h scheduler \<Rightarrow> unit option result" where
  "getTask h s = (case dict_get (tasks s) h of None \<Rightarrow> Inr None | Some l \<Rightarrow> Inl AttributeError)"

definition isStarted :: "'h \<Rightarrow> 'h scheduler \<Rightarrow> bool result" where
  "isStarted h s = (case dict_get (tasks s) h of None \<Rightarrow> Inr False | Some l \<Rightarrow> Inl AttributeError)"

text \<open>
  \<open>remove\<close> up to the end of its mutex section: the new state, and the thread to join where a
  task was found.
\<close>

definition remove_task :: "'h \<Rightarrow> 'h scheduler \<Rightarrow> 'h scheduler \<times> nat option" where
  "remove_task h s =
     (case dict_get (tasks s) h of
        None \<Rightarrow> (s, None)
      | Some l \<Rightarrow>
          (let s1 = fst (clearalarm l (s\<lparr>tasks := dict_del h (tasks s)\<rparr>))
           in (s1\<lparr>held := held s1 - {l}\<rparr>, Some l)))"

subsection \<open>Tasks\<close>

record 'h request =
  r_interval :: rat
  r_repeats :: "int option"
  r_maxretries :: int
  r_align :: task_alignment
  r_delay :: rat

text \<open>Where a task's thread is in \<open>_runTask\<close>, and its local variables.\<close>

datatype run_point =
    Launching | Waiting | Checking | Running | Rearming | Unscheduling | Ended | Died py_error

record 'h task =
  t_handle :: 'h
  t_lock :: nat
  t_frequency :: int
  t_repeats :: "int option"
  t_maxretries :: int
  t_nextslot :: int
  t_runs :: int
  t_failures :: int
  t_pending :: "nat option"
  t_point :: run_point

text \<open>
  The first part of \<open>_runTask\<close>, which runs under the mutex taken by \<open>add\<close>. An exception
  leaves the function with what was done before it: an unknown tick count before anything
  is changed, a lock of a replaced task that is not locked or an interval of zero after the
  task has been entered.
\<close>

definition first_slot :: "local_zone \<Rightarrow> 'h request \<Rightarrow> int \<Rightarrow> 'h scheduler \<Rightarrow> int result" where
  "first_slot z r delaycount s =
     (let nextslot = nextcount s + delaycount;
          nexttime = fadd (starttime s) (fmul tick (float_of_int nextslot))
      in if r_align r = AlignNONE then Inr nextslot
         else bind_result (alignment_offset z 0 s (r_interval r) (r_align r) (Some nexttime)) (\<lambda>aligntime.
                Inr (py_trunc (fadd (fdiv (fsub (fadd (float_of_int aligntime) (r_interval r)) (starttime s)) tick) 1))))"

definition schedule_task ::
    "local_zone \<Rightarrow> 'h \<Rightarrow> 'h request \<Rightarrow> 'h scheduler \<Rightarrow> 'h scheduler \<times> 'h task result" where
  "schedule_task z h r s =
     (case bind_result (tick_count s (r_interval r)) (\<lambda>n.
             bind_result (tick_count s (r_delay r)) (\<lambda>d. Inr (n, d))) of
        Inl e \<Rightarrow> (s, Inl e)
      | Inr (n, d) \<Rightarrow>
          (let l = fresh s;
               other = dict_get (tasks s) h;
               s1 = s\<lparr>fresh := l + 1, held := insert l (held s), tasks := dict_set h l (tasks s)\<rparr>;
               s2 = (case other of None \<Rightarrow> s1 | Some k \<Rightarrow> s1\<lparr>held := held s1 - {k}\<rparr>)
           in if (case other of None \<Rightarrow> False | Some k \<Rightarrow> k \<notin> held s) then (s1, Inl RuntimeError)
              else (case first_slot z r d s2 of
                      Inl e \<Rightarrow> (s2, Inl e)
                    | Inr slot \<Rightarrow>
                        (s2\<lparr>locks := setdefault_append (At slot) l (locks s2)\<rparr>,
                         Inr \<lparr>t_handle = h, t_lock = l, t_frequency = max 1 n, t_repeats = r_repeats r,
                           t_maxretries = r_maxretries r, t_nextslot = slot, t_runs = 0, t_failures = 0,
                           t_pending = None, t_point = Launching\<rparr>))))"

text \<open>
  \<open>add\<close>: a handle that is not given is made up, an event is created for a caller that waits
  for the start, and the thread's first section runs before the mutex is free again.
\<close>

definition add_task ::
    "local_zone \<Rightarrow> 'h option \<Rightarrow> 'h \<Rightarrow> 'h request \<Rightarrow> bool \<Rightarrow> 'h scheduler \<Rightarrow> 'h scheduler \<times> 'h task result" where
  "add_task z handle unique r waitstart s =
     (let h = (case handle of None \<Rightarrow> unique | Some h \<Rightarrow> h);
          s1 = (if waitstart then s\<lparr>pendingStart := dict_set h (fresh s) (pendingStart s), fresh := fresh s + 1\<rparr> else s)
      in schedule_task z h r s1)"

text \<open>What the waiting caller gets: nothing yet, an exception, or its handle.\<close>

definition add_result :: "'h \<Rightarrow> nat \<Rightarrow> 'h scheduler \<Rightarrow> 'h result option" where
  "add_result h ev s =
     (if ev \<notin> events_set s then None
      else Some (case dict_get (pendingException s) h of None \<Rightarrow> Inr h | Some e \<Rightarrow> Inl e))"

subsection \<open>The steps of a task's thread\<close>

definition start :: "'h scheduler \<Rightarrow> 'h scheduler" where
  "start s = s\<lparr>running := True, timer := (if timer s = NoTimer then Created else timer s)\<rparr>"

definition loop_top :: "'h task \<Rightarrow> 'h task" where
  "loop_top t = t\<lparr>t_point := (case t_repeats t of
       None \<Rightarrow> Waiting | Some n \<Rightarrow> if 0 < n then Waiting else Unscheduling)\<rparr>"

definition launch :: "'h task \<Rightarrow> 'h scheduler \<Rightarrow> 'h scheduler \<times> 'h task" where
  "launch t s =
     (start (s\<lparr>pendingStart := dict_del (t_handle t) (pendingStart s)\<rparr>),
      loop_top (t\<lparr>t_pending := dict_get (pendingStart s) (t_handle t)\<rparr>))"

definition acquire :: "'h task \<Rightarrow> 'h scheduler \<Rightarrow> ('h scheduler \<times> 'h task) option" where
  "acquire t s =
     (if t_lock t \<in> held s then None
      else Some (s\<lparr>held := insert (t_lock t) (held s)\<rparr>, t\<lparr>t_point := Checking\<rparr>))"

definition is_current :: "'h task \<Rightarrow> 'h scheduler \<Rightarrow> bool" where
  "is_current t s \<longleftrightarrow> dict_get (tasks s) (t_handle t) = Some (t_lock t)"

definition check_task :: "'h task \<Rightarrow> 'h scheduler \<Rightarrow> 'h task" where
  "check_task t s = t\<lparr>t_point := (if is_current t s then Running else Unscheduling)\<rparr>"

text \<open>The method has returned (\<open>None\<close>) or raised.\<close>

definition signal_start :: "'h task \<Rightarrow> 'h scheduler \<Rightarrow> 'h scheduler" where
  "signal_start t s =
     (case t_pending t of None \<Rightarrow> s | Some ev \<Rightarrow> s\<lparr>events_set := insert ev (events_set s)\<rparr>)"

definition count_down :: "'h task \<Rightarrow> 'h task" where
  "count_down t = t\<lparr>t_pending := None, t_point := Rearming,
     t_repeats := (case t_repeats t of None \<Rightarrow> None | Some n \<Rightarrow> Some (if n = 0 then n else n - 1))\<rparr>"

definition finish_method :: "py_error option \<Rightarrow> 'h task \<Rightarrow> 'h scheduler \<Rightarrow> 'h scheduler \<times> 'h task" where
  "finish_method r t s =
     (case r of
        None \<Rightarrow> (signal_start t s, count_down (t\<lparr>t_failures := 0, t_runs := t_runs t + 1\<rparr>))
      | Some e \<Rightarrow>
          (let t' = t\<lparr>t_failures := t_failures t + 1\<rparr> in
           if t_failures t' > t_maxretries t then
             (signal_start t (if t_pending t = None then s
                              else s\<lparr>pendingException := dict_set (t_handle t) e (pendingException s)\<rparr>),
              t'\<lparr>t_pending := None, t_point := Unscheduling\<rparr>)
           else (signal_start t s, count_down t')))"

definition next_slot :: "int \<Rightarrow> int \<Rightarrow> int \<Rightarrow> int" where
  "next_slot count slot frequency =
     (if slot < count then count - 1 + frequency - (count - 1 - slot) mod frequency else slot)"

definition rearm :: "'h task \<Rightarrow> 'h scheduler \<Rightarrow> 'h scheduler \<times> 'h task" where
  "rearm t s =
     (let slot = next_slot (nextcount s) (t_nextslot t) (t_frequency t)
      in (s\<lparr>locks := setdefault_append (At slot) (t_lock t) (locks s)\<rparr>, loop_top (t\<lparr>t_nextslot := slot\<rparr>)))"

text \<open>An event has no \<open>release\<close>: a caller still waiting for the start is not told.\<close>

definition unschedule :: "'h task \<Rightarrow> 'h scheduler \<Rightarrow> 'h scheduler \<times> 'h task" where
  "unschedule t s =
     (if t_pending t \<noteq> None then (s, t\<lparr>t_point := Died AttributeError\<rparr>)
      else (if is_current t s then s\<lparr>tasks := dict_del (t_handle t) (tasks s)\<rparr> else s, t\<lparr>t_point := Ended\<rparr>))"

subsection \<open>The timer thread\<close>

definition timer_prologue :: "rat \<Rightarrow> 'h scheduler \<Rightarrow> 'h scheduler" where
  "timer_prologue now s = s\<lparr>starttime := now, timer := Looping now\<rparr>"

text \<open>
  One iteration: release the locks of the current count (releasing one that is not locked
  is ignored), move the time reference if the clock has jumped, and count on to the next
  queued slot, or to what is at most \<open>maxsleep\<close> away. An exception leaves the rest of the
  iteration out.
\<close>

definition release_due :: "'h scheduler \<Rightarrow> 'h scheduler" where
  "release_due s = s\<lparr>locks := dict_del (At (nextcount s)) (locks s),
     held := held s - set (dict_get_default (locks s) (At (nextcount s)) [])\<rparr>"

definition adjust_clock :: "rat \<Rightarrow> rat \<Rightarrow> 'h scheduler \<Rightarrow> 'h scheduler" where
  "adjust_clock now nexttime s =
     (if timeshiftlimit < \<bar>fsub now nexttime\<bar> then s\<lparr>starttime := fadd (starttime s) (fsub now nexttime)\<rparr> else s)"

definition max_ticks :: "rat \<Rightarrow> 'h scheduler \<Rightarrow> int result" where
  "max_ticks now s = tick_count s (fsub (fadd now maxsleep) (starttime s))"

definition earliest :: "slot list \<Rightarrow> slot result" where
  "earliest ks = (case ks of [] \<Rightarrow> Inl ValueError | k # ks \<Rightarrow> Inr (fold min ks k))"

definition timer_iteration :: "rat \<Rightarrow> rat \<Rightarrow> 'h scheduler \<Rightarrow> 'h scheduler" where
  "timer_iteration now nexttime s =
     (let s1 = adjust_clock now nexttime (release_due s) in
      case max_ticks now s1 of
        Inl e \<Rightarrow> s1
      | Inr m \<Rightarrow>
          (case earliest (dict_keys (locks s1)) of
             Inl e \<Rightarrow> s1
           | Inr k \<Rightarrow>
               (let n = (case k of At j \<Rightarrow> min j m | Forever \<Rightarrow> m)
                in s1\<lparr>nextcount := n, timer := Looping (fadd (starttime s1) (fmul tick (float_of_int n)))\<rparr>)))"

definition timer_step :: "rat \<Rightarrow> 'h scheduler \<Rightarrow> 'h scheduler" where
  "timer_step now s =
     (case timer s of
        Created \<Rightarrow> timer_prologue now s
      | Looping nexttime \<Rightarrow> if running s then timer_iteration now nexttime s else s\<lparr>timer := Exited\<rparr>
      | _ \<Rightarrow> s)"

text \<open>\<open>shutdown\<close> asks the timer to end, waits until it has, and forgets it.\<close>

definition shutdown_request :: "'h scheduler \<Rightarrow> 'h scheduler" where
  "shutdown_request s = s\<lparr>running := False\<rparr>"

definition shutdown_joined :: "'h scheduler \<Rightarrow> 'h scheduler option" where
  "shutdown_joined s = (if timer s = Exited then Some (s\<lparr>timer := NoTimer\<rparr>) else None)"

end
