(* ===== verification/Scheduler_Run.thy ===== *)
theory Scheduler_Run
  imports Scheduler
begin

section \<open>Runs of the task scheduler\<close>

text \<open>
  Any number of threads add, remove and reschedule tasks, the timer thread iterates, and the
  tasks' threads take their steps, in any order. What runs under the mutex is one step; a
  task's thread blocks only where it acquires its lock. Each step has a label, so that
  properties can speak of the history.
\<close>

subsection \<open>Interleaved steps\<close>

record 'h system =
  sched :: "'h scheduler"
  threads :: "nat \<Rightarrow> 'h task option"

definition new_system :: "'h system" where
  "new_system = \<lparr>sched = new_scheduler, threads = (\<lambda>_. None)\<rparr>"

datatype 'h event =
    Armed nat int "'h request option"
  | Invoked nat
  | Returned nat "py_error option"
  | Removed 'h
  | Rescheduled 'h
  | Internal

inductive sched_step :: "local_zone \<Rightarrow> 'h system \<Rightarrow> 'h event \<Rightarrow> 'h system \<Rightarrow> bool" for z where
  add_ok: "add_task z handle unique r waitstart (sched y) = (s, Inr t) \<Longrightarrow>
     sched_step z y (Armed (t_lock t) (t_nextslot t) (Some r)) \<lparr>sched = s, threads = (threads y)(t_lock t \<mapsto> t)\<rparr>"
| add_raises: "add_task z handle unique r waitstart (sched y) = (s, Inl e) \<Longrightarrow>
     sched_step z y Internal (y\<lparr>sched := s\<rparr>)"
| remove: "remove_task h (sched y) = (s, joined) \<Longrightarrow> sched_step z y (Removed h) (y\<lparr>sched := s\<rparr>)"
| rescheduled: "reschedule h delay (sched y) = (s, res) \<Longrightarrow> sched_step z y (Rescheduled h) (y\<lparr>sched := s\<rparr>)"
| timer: "sched_step z y Internal (y\<lparr>sched := timer_step now (sched y)\<rparr>)"
| speed: "sched_step z y Internal (y\<lparr>sched := (sched y)\<lparr>speedFactor := f\<rparr>\<rparr>)"
| shutdown: "sched_step z y Internal (y\<lparr>sched := shutdown_request (sched y)\<rparr>)"
| joined: "shutdown_joined (sched y) = Some s \<Longrightarrow> sched_step z y Internal (y\<lparr>sched := s\<rparr>)"
| launched: "threads y l = Some t \<Longrightarrow> t_point t = Launching \<Longrightarrow> launch t (sched y) = (s, t') \<Longrightarrow>
     sched_step z y Internal \<lparr>sched = s, threads = (threads y)(l \<mapsto> t')\<rparr>"
| acquired: "threads y l = Some t \<Longrightarrow> t_point t = Waiting \<Longrightarrow> acquire t (sched y) = Some (s, t') \<Longrightarrow>
     sched_step z y Internal \<lparr>sched = s, threads = (threads y)(l \<mapsto> t')\<rparr>"
| invoked: "threads y l = Some t \<Longrightarrow> t_point t = Checking \<Longrightarrow> is_current t (sched y) \<Longrightarrow>
     sched_step z y (Invoked l) (y\<lparr>threads := (threads y)(l \<mapsto> check_task t (sched y))\<rparr>)"
| dismissed: "threads y l = Some t \<Longrightarrow> t_point t = Checking \<Longrightarrow> \<not> is_current t (sched y) \<Longrightarrow>
     sched_step z y Internal (y\<lparr>threads := (threads y)(l \<mapsto> check_task t (sched y))\<rparr>)"
| returned: "threads y l = Some t \<Longrightarrow> t_point t = Running \<Longrightarrow> finish_method res t (sched y) = (s, t') \<Longrightarrow>
     sched_step z y (Returned l res) \<lparr>sched = s, threads = (threads y)(l \<mapsto> t')\<rparr>"
| rearmed: "threads y l = Some t \<Longrightarrow> t_point t = Rearming \<Longrightarrow> rearm t (sched y) = (s, t') \<Longrightarrow>
     sched_step z y (Armed l (t_nextslot t') None) \<lparr>sched = s, threads = (threads y)(l \<mapsto> t')\<rparr>"
| unscheduled: "threads y l = Some t \<Longrightarrow> t_point t = Unscheduling \<Longrightarrow> unschedule t (sched y) = (s, t') \<Longrightarrow>
     sched_step z y Internal \<lparr>sched = s, threads = (threads y)(l \<mapsto> t')\<rparr>"

inductive sched_run :: "local_zone \<Rightarrow> 'h system \<Rightarrow> 'h event list \<Rightarrow> 'h system \<Rightarrow> bool" for z y where
  run_nil: "sched_run z y [] y"
| run_snoc: "sched_run z y evs y' \<Longrightarrow> sched_step z y' ev y'' \<Longrightarrow> sched_run z y (evs @ [ev]) y''"

inductive_cases run_nilE: "sched_run z y [] y'"
inductive_cases run_snocE: "sched_run z y (evs @ [ev]) y'"

lemma run_invariant:
  assumes "sched_run z y evs y'" and "P y"
    and "\<And>y ev y'. sched_step z y ev y' \<Longrightarrow> ok ev \<Longrightarrow> P y \<Longrightarrow> P y'"
    and "\<forall>ev \<in> set evs. ok ev"
  shows "P y'"
  using assms(1,4,2) by (induction) (auto intro: assms(3))

subsection \<open>Queued locks\<close>

text \<open>How often a lock is queued in a slot.\<close>

definition queued :: "'h scheduler \<Rightarrow> nat \<Rightarrow> slot \<Rightarrow> nat" where
  "queued s l k = count_list (dict_get_default (locks s) k []) l"

lemma queued_cong: "locks s' = locks s \<Longrightarrow> queued s' = queued s"
  by (simp add: queued_def fun_eq_iff)

lemma queued_simps [simp]:
  "queued (s\<lparr>speedFactor := f\<rparr>) = queued s" "queued (s\<lparr>running := b\<rparr>) = queued s"
  "queued (s\<lparr>timer := m\<rparr>) = queued s" "queued (s\<lparr>starttime := x\<rparr>) = queued s"
  by (simp_all add: queued_def fun_eq_iff)

definition once :: "slot \<Rightarrow> slot \<Rightarrow> nat" where
  "once k = (\<lambda>_. 0)(k := 1)"

definition never :: "slot \<Rightarrow> nat" where
  "never = (\<lambda>_. 0)"

lemma count_list_remove1:
  "count_list (remove1 x xs) y = (if x = y then count_list xs y - 1 else count_list xs y)"
  by (induction xs) auto

lemma dict_get_default_Cons [simp]:
  "dict_get_default ((k, v) # d) j w = (if j = k then v else dict_get_default d j w)"
  by (auto simp: dict_get_default_def)

lemma clear_alarm_other:
  "x \<noteq> l \<Longrightarrow> count_list (dict_get_default (fst (clear_alarm l d)) k []) x = count_list (dict_get_default d k []) x"
  by (induction l d rule: clear_alarm.induct) (auto simp: count_list_remove1 split: prod.splits)

lemma clear_alarm_keys [simp]: "map fst (fst (clear_alarm l d)) = map fst d"
  by (induction l d rule: clear_alarm.induct) (auto split: prod.splits)

lemma clear_alarm_wf [simp]: "dict_wf (fst (clear_alarm l d)) = dict_wf d"
  by (simp add: dict_wf_def)

lemma clear_alarm_subset:
  "set (dict_get_default (fst (clear_alarm l d)) k []) \<subseteq> set (dict_get_default d k [])"
  by (induction l d rule: clear_alarm.induct) (auto dest: set_remove1_subset[THEN subsetD] split: prod.splits if_splits)

lemma clear_alarm_absent:
  "(\<And>k. l \<notin> set (dict_get_default d k [])) \<Longrightarrow> dict_wf d \<Longrightarrow> clear_alarm l d = (d, False)"
proof (induction l d rule: clear_alarm.induct)
  case (2 l k ls d)
  then have "l \<notin> set ls" by (metis dict_get_default_Cons)
  moreover have "l \<notin> set (dict_get_default d j [])" for j
  proof (cases "j = k")
    case True
    with "2.prems" show ?thesis by (simp add: dict_get_default_def)
  next
    case False
    with "2.prems"(1)[of j] show ?thesis by simp
  qed
  ultimately show ?case using 2 by simp
qed simp

lemma clear_alarm_once:
  assumes "dict_wf d" and "\<And>k. count_list (dict_get_default d k []) l = once k0 k"
  shows "count_list (dict_get_default (fst (clear_alarm l d)) k []) l = 0"
  using assms
proof (induction l d rule: clear_alarm.induct)
  case (2 l j ls d)
  have rest: "count_list (dict_get_default d i []) l = (if i = j then 0 else once k0 i)" for i
    using "2.prems"(1) "2.prems"(2)[of i] by (auto simp: dict_get_default_def split: if_splits)
  show ?case
  proof (cases "l \<in> set ls")
    case True
    then have "j = k0" using "2.prems"(2)[of j]
      by (auto simp: once_def count_list_0_iff split: if_splits)
    with True "2.prems"(2)[of k0] rest[of k] show ?thesis
      by (auto simp: once_def count_list_remove1)
  next
    case False
    then have "j \<noteq> k0" using "2.prems"(2)[of j] by (auto simp: once_def)
    then have "count_list (dict_get_default d i []) l = once k0 i" for i
      using rest[of i] by (auto simp: once_def)
    with 2(1)[OF False] "2.prems"(1) False \<open>j \<noteq> k0\<close> show ?thesis
      by (auto split: prod.splits)
  qed
qed (simp add: dict_get_default_def)

subsection \<open>No wake-up is lost\<close>

text \<open>
  A thread that waits as the current task of its handle has its lock locked and queued once,
  in its next slot, or unlocked and not queued. While it works its lock is locked and not
  queued. A thread that is no longer current finds its lock unlocked when it next waits.
\<close>

definition armed :: "'h scheduler \<Rightarrow> nat \<Rightarrow> 'h task \<Rightarrow> bool" where
  "armed s l t \<longleftrightarrow> queued s l = (if l \<in> held s then once (At (t_nextslot t)) else never)"

definition thread_ok :: "'h scheduler \<Rightarrow> nat \<Rightarrow> 'h task \<Rightarrow> bool" where
  "thread_ok s l t \<longleftrightarrow> t_lock t = l \<and>
     (if is_current t s then
        (t_point t \<in> {Launching, Waiting} \<longrightarrow> armed s l t)
        \<and> (t_point t \<in> {Checking, Running, Rearming} \<longrightarrow> l \<in> held s \<and> queued s l = never)
      else (t_point t \<in> {Launching, Waiting, Running, Rearming} \<longrightarrow> l \<notin> held s))"

definition sched_ok :: "'h scheduler \<Rightarrow> bool" where
  "sched_ok s \<longleftrightarrow> dict_wf (locks s) \<and> (\<forall>k. \<forall>l \<in> set (dict_get_default (locks s) k []). l < fresh s)
     \<and> (\<forall>h l. dict_get (tasks s) h = Some l \<longrightarrow> l < fresh s)"

definition threads_ok :: "'h scheduler \<Rightarrow> (nat \<Rightarrow> 'h task option) \<Rightarrow> bool" where
  "threads_ok s th \<longleftrightarrow> (\<forall>l t. th l = Some t \<longrightarrow>
     l < fresh s \<and> thread_ok s l t \<and> (\<forall>h. dict_get (tasks s) h = Some l \<longrightarrow> h = t_handle t))"

definition sys_inv :: "'h system \<Rightarrow> bool" where
  "sys_inv y \<longleftrightarrow> sched_ok (sched y) \<and> threads_ok (sched y) (threads y)"

lemma thread_ok_frame:
  assumes "thread_ok s l t" and "is_current t s' = is_current t s"
    and "queued s' l = queued s l" and "l \<in> held s' \<longleftrightarrow> l \<in> held s"
  shows "thread_ok s' l t"
  using assms by (auto simp: thread_ok_def armed_def split: if_splits)

lemma same_parts:
  assumes "locks s' = locks s" "tasks s' = tasks s" "held s' = held s" "fresh s \<le> fresh s'"
    and s: "sched_ok s" "threads_ok s th"
  shows "sched_ok s' \<and> threads_ok s' th"
proof
  show "sched_ok s'"
    using s(1) assms(4) unfolding sched_ok_def assms(1,2) by (blast intro: less_le_trans)
  show "threads_ok s' th"
    unfolding threads_ok_def
  proof (intro allI impI)
    fix l t assume "th l = Some t"
    with s(2) have t: "l < fresh s" "thread_ok s l t" "\<forall>h. dict_get (tasks s) h = Some l \<longrightarrow> h = t_handle t"
      by (auto simp: threads_ok_def)
    have "thread_ok s' l t"
      using t(2) by (rule thread_ok_frame) (simp_all add: is_current_def queued_def assms(1-3) fun_eq_iff)
    with t assms(2,4) show "l < fresh s' \<and> thread_ok s' l t \<and> (\<forall>h. dict_get (tasks s') h = Some l \<longrightarrow> h = t_handle t)"
      by simp
  qed
qed

lemma queued_fresh: "sched_ok s \<Longrightarrow> fresh s \<le> l \<Longrightarrow> queued s l = never"
  by (force simp: sched_ok_def queued_def never_def count_list_0_iff)

lemma queued_append:
  "queued (s\<lparr>locks := setdefault_append k l (locks s)\<rparr>) x =
     (if x = l then (queued s l)(k := queued s l k + 1) else queued s x)"
  by (auto simp: queued_def setdefault_append_get_default fun_eq_iff)

lemma never_plus [simp]: "never(k := Suc (never k)) = once k"
  by (simp add: never_def once_def)

text \<open>A step of the thread of lock \<open>l\<close> that leaves the locks of the others as they were.\<close>

lemma own_step:
  assumes th: "threads_ok s th" "th l = Some t"
    and s': "sched_ok s'" "fresh s' = fresh s"
    and own: "thread_ok s' l t'" "t_handle t' = t_handle t"
    and others: "\<And>x. x \<noteq> l \<Longrightarrow> queued s' x = queued s x" "\<And>x. x \<noteq> l \<Longrightarrow> x \<in> held s' \<longleftrightarrow> x \<in> held s"
    and kept: "\<And>h x. x \<noteq> l \<Longrightarrow> dict_get (tasks s') h = Some x \<longleftrightarrow> dict_get (tasks s) h = Some x"
      "\<And>h. dict_get (tasks s') h = Some l \<Longrightarrow> dict_get (tasks s) h = Some l"
  shows "threads_ok s' (th(l \<mapsto> t'))"
  unfolding threads_ok_def
proof (intro allI impI)
  fix x u assume x: "(th(l \<mapsto> t')) x = Some u"
  show "x < fresh s' \<and> thread_ok s' x u \<and> (\<forall>h. dict_get (tasks s') h = Some x \<longrightarrow> h = t_handle u)"
  proof (cases "x = l")
    case True
    with x th own s' kept(2) show ?thesis by (auto simp: threads_ok_def)
  next
    case False
    with x th have u: "x < fresh s" "thread_ok s x u" "\<And>h. dict_get (tasks s) h = Some x \<Longrightarrow> h = t_handle u"
      by (auto simp: threads_ok_def)
    moreover have "is_current u s' = is_current u s"
      using u(2) False kept(1) by (simp add: is_current_def thread_ok_def)
    ultimately show ?thesis
      using False others kept(1) s'(2) by (auto intro!: thread_ok_frame[OF u(2)])
  qed
qed

end
