(* ===== verification/Scheduler_Laws.thy ===== *)
theory Scheduler_Laws
  imports Scheduler_Run
begin

section \<open>What the steps of the scheduler keep\<close>

text \<open>
  Every step but \<open>reschedule\<close> keeps the invariant of \<open>Scheduler_Run\<close>: one lemma for adding
  and one for removing a task, one for the timer, one for each step of a task's thread.
\<close>

lemma schedule_task_cases:
  assumes "schedule_task z h r s = (s', res)"
  obtains (unchanged) e where "s' = s" "res = Inl e"
  | (entered) e k where "res = Inl e"
      "s' = s\<lparr>fresh := fresh s + 1, held := insert (fresh s) (held s) - k, tasks := dict_set h (fresh s) (tasks s)\<rparr>"
      "\<And>x. dict_get (tasks s) h = Some x \<Longrightarrow> x \<notin> held s \<or> k = {x}" "k \<subseteq> set_option (dict_get (tasks s) h)"
  | (queued) t n where "res = Inr t" "t_lock t = fresh s" "t_handle t = h" "t_point t = Launching"
      "t_frequency t = max 1 n" "t_repeats t = r_repeats r" "t_maxretries t = r_maxretries r" "t_pending t = None"
      "t_failures t = 0"
      "s' = s\<lparr>fresh := fresh s + 1, held := insert (fresh s) (held s) - set_option (dict_get (tasks s) h),
          tasks := dict_set h (fresh s) (tasks s), locks := setdefault_append (At (t_nextslot t)) (fresh s) (locks s)\<rparr>"
proof -
  define s1 where "s1 = s\<lparr>fresh := fresh s + 1, held := insert (fresh s) (held s), tasks := dict_set h (fresh s) (tasks s)\<rparr>"
  define s2 where "s2 = s1\<lparr>held := held s1 - set_option (dict_get (tasks s) h)\<rparr>"
  have s2_alt: "(case dict_get (tasks s) h of None \<Rightarrow> s1 | Some k \<Rightarrow> s1\<lparr>held := held s1 - {k}\<rparr>) = s2"
    by (auto simp: s2_def split: option.splits)
  consider (ticks) e where "s' = s" "res = Inl e"
    | (unlocked) x where "dict_get (tasks s) h = Some x" "x \<notin> held s" "s' = s1" "res = Inl RuntimeError"
    | (slot_error) e where "s' = s2" "res = Inl e"
    | (ok) n slot where "s' = s2\<lparr>locks := setdefault_append (At slot) (fresh s) (locks s2)\<rparr>"
        "res = Inr \<lparr>t_handle = h, t_lock = fresh s, t_frequency = max 1 n, t_repeats = r_repeats r,
           t_maxretries = r_maxretries r, t_nextslot = slot, t_runs = 0, t_failures = 0, t_pending = None, t_point = Launching\<rparr>"
    using assms
    unfolding schedule_task_def Let_def s1_def[symmetric] s2_alt
    by (auto split: sum.splits prod.splits option.splits if_splits)
  then show thesis
  proof cases
    case ticks
    then show ?thesis by (rule unchanged)
  next
    case unlocked
    show ?thesis
      by (rule entered[of RuntimeError "{}"]) (use unlocked in \<open>auto simp: s1_def\<close>)
  next
    case slot_error
    show ?thesis
      by (rule entered[of e "set_option (dict_get (tasks s) h)"]) (use slot_error in \<open>auto simp: s1_def s2_def\<close>)
  next
    case ok
    show ?thesis
      by (rule queued[OF ok(2)]) (simp_all add: ok(1) s1_def s2_def)
  qed
qed

text \<open>Entering a new task under a handle, whether or not its lock gets queued.\<close>

lemma enter_inv:
  assumes s: "sched_ok s" "threads_ok s th"
    and s': "s' = s\<lparr>fresh := fresh s + 1, held := insert (fresh s) (held s) - k, tasks := dict_set h (fresh s) (tasks s), locks := d\<rparr>"
    and k: "\<And>x. dict_get (tasks s) h = Some x \<Longrightarrow> x \<notin> held s \<or> k = {x}" "k \<subseteq> set_option (dict_get (tasks s) h)"
    and d: "d = locks s \<or> d = setdefault_append (At slot) (fresh s) (locks s)"
  shows "sched_ok s'" "threads_ok s' th"
proof -
  have "dict_wf d" using d s(1) by (auto simp: sched_ok_def)
  moreover have "x < fresh s + 1" if "x \<in> set (dict_get_default d j [])" for x j
    using that d s(1) by (auto simp: sched_ok_def setdefault_append_get_default less_Suc_eq split: if_splits)
  ultimately show "sched_ok s'"
    using s(1) by (auto simp: s' sched_ok_def less_Suc_eq)
  show "threads_ok s' th"
    unfolding threads_ok_def
  proof (intro allI impI)
    fix l t assume "th l = Some t"
    with s(2) have t: "l < fresh s" "thread_ok s l t" "\<And>j. dict_get (tasks s) j = Some l \<Longrightarrow> j = t_handle t"
      by (auto simp: threads_ok_def)
    from t(2) have lock: "t_lock t = l" by (simp add: thread_ok_def)
    have q: "queued s' l = queued s l"
      using d t(1) by (auto simp: s' queued_def setdefault_append_get_default fun_eq_iff)
    have "thread_ok s' l t"
    proof (cases "dict_get (tasks s) h = Some l")
      case True
      with t(3) have "t_handle t = h" by simp
      moreover have "l \<notin> held s'" using k(1)[OF True] t(1) by (auto simp: s')
      ultimately show ?thesis using lock t(1) by (simp add: thread_ok_def is_current_def s')
    next
      case False
      then have "l \<notin> k" using k(2) by auto
      moreover have "is_current t s' = is_current t s"
        using False lock t(1) by (auto simp: is_current_def s')
      ultimately show ?thesis
        using t(1) q by (intro thread_ok_frame[OF t(2)]) (auto simp: s')
    qed
    with t show "l < fresh s' \<and> thread_ok s' l t \<and> (\<forall>j. dict_get (tasks s') j = Some l \<longrightarrow> j = t_handle t)"
      by (auto simp: s')
  qed
qed

lemma threads_ok_update:
  assumes "threads_ok s th" "l < fresh s" "thread_ok s l t" "\<And>h. dict_get (tasks s) h = Some l \<Longrightarrow> h = t_handle t"
  shows "threads_ok s (th(l \<mapsto> t))"
  using assms by (auto simp: threads_ok_def)

lemma schedule_task_inv:
  assumes s: "sched_ok s" "threads_ok s th" and step: "schedule_task z h r s = (s', res)"
  shows "sched_ok s' \<and> threads_ok s' (case res of Inl e \<Rightarrow> th | Inr t \<Rightarrow> th(t_lock t \<mapsto> t))"
  using step
proof (cases rule: schedule_task_cases)
  case unchanged
  with s show ?thesis by simp
next
  case (entered e k)
  note inv = enter_inv[OF s, where s' = s' and k = k and h = h and d = "locks s"]
  show ?thesis using inv entered by simp
next
  case (queued t n)
  note inv = enter_inv[OF s, where s' = s' and k = "set_option (dict_get (tasks s) h)" and h = h
      and d = "setdefault_append (At (t_nextslot t)) (fresh s) (locks s)" and slot = "t_nextslot t"]
  have ok: "sched_ok s'" "threads_ok s' th" using inv queued by auto
  have "th (fresh s) = None" using s(2) by (cases "th (fresh s)") (auto simp: threads_ok_def)
  moreover have "queued s' (fresh s) = once (At (t_nextslot t))"
    using queued_append[where s = s and k = "At (t_nextslot t)" and l = "fresh s" and x = "fresh s"] queued_fresh[OF s(1), of "fresh s"] queued(10)
    by (simp add: queued_def fun_eq_iff)
  moreover have "fresh s \<in> held s'" using queued(10) s(1) by (auto simp: sched_ok_def)
  ultimately have own: "thread_ok s' (fresh s) t"
    using queued by (simp add: thread_ok_def armed_def is_current_def)
  have key: "j = t_handle t" if "dict_get (tasks s') j = Some (fresh s)" for j
    using that queued(3,10) s(1) by (auto simp: sched_ok_def split: if_splits)
  have "fresh s < fresh s'" by (simp add: queued(10))
  then have "threads_ok s' (th(fresh s \<mapsto> t))"
    by (rule threads_ok_update[OF ok(2) _ own key])
  with ok(1) queued(1,2) show ?thesis by simp
qed

lemma add_task_inv:
  assumes "sched_ok s" "threads_ok s th" "add_task z handle unique r w s = (s', res)"
  shows "sched_ok s' \<and> threads_ok s' (case res of Inl e \<Rightarrow> th | Inr t \<Rightarrow> th(t_lock t \<mapsto> t))"
proof -
  define h where "h = (case handle of None \<Rightarrow> unique | Some h \<Rightarrow> h)"
  define s1 where "s1 = (if w then s\<lparr>pendingStart := dict_set h (fresh s) (pendingStart s), fresh := fresh s + 1\<rparr> else s)"
  have inv: "sched_ok s1 \<and> threads_ok s1 th"
    using assms(1,2) by (intro same_parts[of s1 s]) (auto simp: s1_def)
  have run: "schedule_task z h r s1 = (s', res)"
    using assms(3) by (simp add: add_task_def h_def s1_def Let_def split: if_splits)
  show ?thesis by (rule schedule_task_inv[OF conjunct1[OF inv] conjunct2[OF inv] run])
qed

text \<open>Removing a task; \<open>clearalarm\<close> takes its lock out of its slot.\<close>

lemma clearalarm_simps [simp]:
  "tasks (fst (clearalarm l s)) = tasks s" "held (fst (clearalarm l s)) = held s"
  "fresh (fst (clearalarm l s)) = fresh s" "locks (fst (clearalarm l s)) = fst (clear_alarm l (locks s))"
  by (simp_all add: clearalarm_def split: prod.splits)

lemma clearalarm_ok:
  "sched_ok s \<Longrightarrow> sched_ok (fst (clearalarm l s))"
  using clear_alarm_subset[of l "locks s"] by (fastforce simp: sched_ok_def)

lemma remove_task_inv:
  assumes s: "sched_ok s" "threads_ok s th" and step: "remove_task h s = (s', joined)"
  shows "sched_ok s' \<and> threads_ok s' th"
proof (cases "dict_get (tasks s) h")
  case None
  with s step show ?thesis by (simp add: remove_task_def)
next
  case (Some l)
  define s0 where "s0 = s\<lparr>tasks := dict_del h (tasks s)\<rparr>"
  have s': "s' = (fst (clearalarm l s0))\<lparr>held := held s - {l}\<rparr>"
    using step Some by (auto simp: remove_task_def s0_def Let_def)
  have "sched_ok s0" using s(1) by (auto simp: sched_ok_def s0_def)
  then have ok: "sched_ok s'" using clearalarm_ok[of s0 l] by (simp add: s' sched_ok_def)
  have "threads_ok s' th"
    unfolding threads_ok_def
  proof (intro allI impI)
    fix x t assume "th x = Some t"
    with s(2) have t: "x < fresh s" "thread_ok s x t" "\<And>j. dict_get (tasks s) j = Some x \<Longrightarrow> j = t_handle t"
      by (auto simp: threads_ok_def)
    from t(2) have lock: "t_lock t = x" by (simp add: thread_ok_def)
    have "thread_ok s' x t"
    proof (cases "x = l")
      case True
      with t(3) Some have "h = t_handle t" by simp
      with True lock show ?thesis by (simp add: thread_ok_def is_current_def s' s0_def)
    next
      case False
      then have "queued s' x = queued s x"
        by (simp add: queued_def s' s0_def clear_alarm_other fun_eq_iff)
      moreover have "is_current t s' = is_current t s"
        using False Some lock by (auto simp: is_current_def s' s0_def)
      ultimately show ?thesis using False by (intro thread_ok_frame[OF t(2)]) (auto simp: s')
    qed
    with t show "x < fresh s' \<and> thread_ok s' x t \<and> (\<forall>j. dict_get (tasks s') j = Some x \<longrightarrow> j = t_handle t)"
      by (auto simp: s' s0_def)
  qed
  with ok show ?thesis by blast
qed

subsection \<open>The timer\<close>

lemma release_due_queued:
  "queued (release_due s) l k = (if k = At (nextcount s) then 0 else queued s l k)"
  by (simp add: queued_def release_due_def dict_get_default_simps)

lemma release_due_inv:
  assumes s: "sched_ok s" "threads_ok s th"
  shows "sched_ok (release_due s) \<and> threads_ok (release_due s) th"
proof
  show "sched_ok (release_due s)"
    using s(1) by (auto simp: sched_ok_def release_due_def dict_get_default_simps split: if_splits)
  show "threads_ok (release_due s) th"
    unfolding threads_ok_def
  proof (intro allI impI)
    fix l t assume "th l = Some t"
    with s(2) have t: "l < fresh s" "thread_ok s l t" "\<forall>j. dict_get (tasks s) j = Some l \<longrightarrow> j = t_handle t"
      by (auto simp: threads_ok_def)
    let ?k = "At (nextcount s)"
    have due: "l \<in> set (dict_get_default (locks s) ?k []) \<longleftrightarrow> queued s l ?k \<noteq> 0"
      by (simp add: queued_def count_list_0_iff)
    have held: "l \<in> held (release_due s) \<longleftrightarrow> l \<in> held s \<and> queued s l ?k = 0"
      using due by (auto simp: release_due_def)
    have q: "queued (release_due s) l = (queued s l)(?k := 0)"
      by (simp add: release_due_queued fun_eq_iff)
    have cur: "is_current t (release_due s) = is_current t s"
      by (simp add: is_current_def release_due_def)
    have "thread_ok (release_due s) l t"
    proof (cases "queued s l = never")
      case True
      then show ?thesis using held q cur
        by (intro thread_ok_frame[OF t(2)]) (auto simp: never_def fun_eq_iff)
    next
      case queued: False
      show ?thesis
      proof (cases "is_current t s \<and> t_point t \<in> {Launching, Waiting}")
        case True
        with t(2) queued have "l \<in> held s" "queued s l = once (At (t_nextslot t))"
          by (auto simp: thread_ok_def armed_def split: if_splits)
        then have "armed (release_due s) l t"
          by (simp add: armed_def held q once_def never_def fun_eq_iff)
        with True cur t(2) show ?thesis by (auto simp: thread_ok_def)
      next
        case False
        with t(2) queued cur held show ?thesis by (auto simp: thread_ok_def split: if_splits)
      qed
    qed
    with t show "l < fresh (release_due s) \<and> thread_ok (release_due s) l t
        \<and> (\<forall>j. dict_get (tasks (release_due s)) j = Some l \<longrightarrow> j = t_handle t)"
      by (simp add: release_due_def)
  qed
qed

lemma timer_iteration_parts:
  "locks (timer_iteration now nx s) = locks (release_due s)"
  "tasks (timer_iteration now nx s) = tasks (release_due s)"
  "held (timer_iteration now nx s) = held (release_due s)"
  "fresh (timer_iteration now nx s) = fresh (release_due s)"
  by (simp_all add: timer_iteration_def adjust_clock_def Let_def split: sum.splits)

lemma timer_step_inv:
  assumes "sched_ok s" "threads_ok s th"
  shows "sched_ok (timer_step now s) \<and> threads_ok (timer_step now s) th"
proof -
  consider nx where "timer_step now s = timer_iteration now nx s"
    | "locks (timer_step now s) = locks s" "tasks (timer_step now s) = tasks s"
      "held (timer_step now s) = held s" "fresh (timer_step now s) = fresh s"
    by (cases "timer s"; cases "running s") (simp_all add: timer_step_def timer_prologue_def)
  then show ?thesis
  proof cases
    case 1
    have r: "sched_ok (release_due s) \<and> threads_ok (release_due s) th"
      by (rule release_due_inv[OF assms])
    show ?thesis
      unfolding 1 using r by (intro same_parts[of _ "release_due s"]) (simp_all add: timer_iteration_parts)
  next
    case 2
    with assms show ?thesis by (intro same_parts) simp_all
  qed
qed

subsection \<open>The steps of a task's thread\<close>

lemma launch_inv:
  assumes s: "sched_ok s" "threads_ok s th" and t: "th l = Some t" "t_point t = Launching" and step: "launch t s = (s', t')"
  shows "sched_ok s' \<and> threads_ok s' (th(l \<mapsto> t'))"
proof -
  have parts: "locks s' = locks s" "tasks s' = tasks s" "held s' = held s" "fresh s' = fresh s"
    using step by (auto simp: launch_def start_def)
  then have ok: "sched_ok s'" using s(1) by (simp add: sched_ok_def)
  have point: "t_point t' \<in> {Waiting, Unscheduling}"
    and same: "t_lock t' = t_lock t" "t_handle t' = t_handle t" "t_nextslot t' = t_nextslot t"
    using step by (auto simp: launch_def loop_top_def split: option.splits if_splits)
  have "thread_ok s l t" using s(2) t(1) by (simp add: threads_ok_def)
  then have own: "thread_ok s' l t'" "t_handle t' = t_handle t"
    using point t(2) same
    by (auto simp: thread_ok_def is_current_def armed_def parts queued_cong[OF parts(1)])
  show ?thesis
    using ok own_step[OF s(2) t(1) ok parts(4) own] by (simp add: parts queued_def fun_eq_iff)
qed

lemma acquire_inv:
  assumes s: "sched_ok s" "threads_ok s th" and t: "th l = Some t" "t_point t = Waiting" and step: "acquire t s = Some (s', t')"
  shows "sched_ok s' \<and> threads_ok s' (th(l \<mapsto> t'))"
proof -
  have tok: "thread_ok s l t" and lock: "t_lock t = l" using s(2) t(1) by (auto simp: threads_ok_def thread_ok_def)
  have free: "l \<notin> held s" and s': "s' = s\<lparr>held := insert l (held s)\<rparr>" and t': "t' = t\<lparr>t_point := Checking\<rparr>"
    using step lock by (auto simp: acquire_def split: if_splits)
  have ok: "sched_ok s'" using s(1) by (simp add: sched_ok_def s')
  have "queued s' l = queued s l" by (simp add: queued_def fun_eq_iff s')
  then have own: "thread_ok s' l t'" "t_handle t' = t_handle t"
    using tok free t(2) by (auto simp: thread_ok_def is_current_def armed_def s' t')
  show ?thesis
    using ok own_step[OF s(2) t(1) ok _ own] by (simp add: s' queued_def fun_eq_iff)
qed

lemma check_inv:
  assumes s: "sched_ok s" "threads_ok s th" and t: "th l = Some t" "t_point t = Checking"
  shows "sched_ok s \<and> threads_ok s (th(l \<mapsto> check_task t s))"
proof -
  have "thread_ok s l t" using s(2) t(1) by (simp add: threads_ok_def)
  then have own: "thread_ok s l (check_task t s)" "t_handle (check_task t s) = t_handle t"
    using t(2) by (auto simp: thread_ok_def is_current_def check_task_def)
  show ?thesis
    using s(1) own_step[OF s(2) t(1) s(1) _ own] by simp
qed

lemma finish_inv:
  assumes s: "sched_ok s" "threads_ok s th" and t: "th l = Some t" "t_point t = Running"
    and step: "finish_method res t s = (s', t')"
  shows "sched_ok s' \<and> threads_ok s' (th(l \<mapsto> t'))"
proof -
  have parts: "locks s' = locks s" "tasks s' = tasks s" "held s' = held s" "fresh s' = fresh s"
    using step by (auto simp: finish_method_def signal_start_def Let_def split: option.splits if_splits)
  have point: "t_point t' \<in> {Rearming, Unscheduling}" and same: "t_lock t' = t_lock t" "t_handle t' = t_handle t"
    using step by (auto simp: finish_method_def count_down_def Let_def split: option.splits if_splits)
  have ok: "sched_ok s'" using s(1) by (simp add: sched_ok_def parts)
  have "thread_ok s l t" using s(2) t(1) by (simp add: threads_ok_def)
  then have own: "thread_ok s' l t'"
    using t(2) point same by (auto simp: thread_ok_def is_current_def parts queued_cong[OF parts(1)])
  show ?thesis
    using ok own_step[OF s(2) t(1) ok parts(4) own same(2)] by (simp add: parts queued_def fun_eq_iff)
qed

lemma rearm_inv:
  assumes s: "sched_ok s" "threads_ok s th" and t: "th l = Some t" "t_point t = Rearming" and step: "rearm t s = (s', t')"
  shows "sched_ok s' \<and> threads_ok s' (th(l \<mapsto> t'))"
proof -
  have tok: "thread_ok s l t" and lock: "t_lock t = l" and fresh: "l < fresh s"
    using s(2) t(1) by (auto simp: threads_ok_def thread_ok_def)
  define n where "n = next_slot (nextcount s) (t_nextslot t) (t_frequency t)"
  have s': "s' = s\<lparr>locks := setdefault_append (At n) l (locks s)\<rparr>" and t': "t' = loop_top (t\<lparr>t_nextslot := n\<rparr>)"
    using step lock by (auto simp: rearm_def n_def Let_def)
  have ok: "sched_ok s'" using s(1) fresh by (auto simp: sched_ok_def s' setdefault_append_get_default)
  have q: "queued s' x = (if x = l then (queued s l)(At n := queued s l (At n) + 1) else queued s x)" for x
    unfolding s' by (rule queued_append)
  have own: "thread_ok s' l t'" "t_handle t' = t_handle t"
    using tok t(2) q[of l]
    by (auto simp: thread_ok_def is_current_def armed_def s' t' loop_top_def split: option.splits if_splits)
  show ?thesis
    using ok own_step[OF s(2) t(1) ok _ own] q by (simp add: s')
qed

lemma unschedule_inv:
  assumes s: "sched_ok s" "threads_ok s th" and t: "th l = Some t" and step: "unschedule t s = (s', t')"
  shows "sched_ok s' \<and> threads_ok s' (th(l \<mapsto> t'))"
proof -
  have lock: "t_lock t = l" and key: "\<And>h. dict_get (tasks s) h = Some l \<Longrightarrow> h = t_handle t"
    using s(2) t(1) by (auto simp: threads_ok_def thread_ok_def)
  have same: "locks s' = locks s" "held s' = held s" "fresh s' = fresh s"
    using step by (auto simp: unschedule_def split: if_splits)
  have tasks: "tasks s' = tasks s \<or> (is_current t s \<and> tasks s' = dict_del (t_handle t) (tasks s))"
    using step by (auto simp: unschedule_def split: if_splits)
  have point: "t_point t' \<in> {Ended, Died AttributeError}" and t': "t_lock t' = l" "t_handle t' = t_handle t"
    using step lock by (auto simp: unschedule_def split: if_splits)
  have ok: "sched_ok s'" using s(1) tasks by (auto simp: sched_ok_def same split: if_splits)
  have own: "thread_ok s' l t'" using point t' by (auto simp: thread_ok_def)
  have kept: "dict_get (tasks s') h = Some x \<longleftrightarrow> dict_get (tasks s) h = Some x" if "x \<noteq> l" for h x
    using tasks lock that by (auto simp: is_current_def split: if_splits)
  have kept_own: "dict_get (tasks s) h = Some l" if "dict_get (tasks s') h = Some l" for h
    using tasks that by (auto split: if_splits)
  have "threads_ok s' (th(l \<mapsto> t'))"
    by (rule own_step[OF s(2) t(1) ok same(3) own t'(2) _ _ kept kept_own])
      (simp_all add: same queued_cong[OF same(1)])
  with ok show ?thesis by blast
qed

subsection \<open>All steps\<close>

fun is_rescheduled :: "'h event \<Rightarrow> bool" where
  "is_rescheduled (Rescheduled h) = True"
| "is_rescheduled _ = False"

lemma sched_step_inv:
  assumes "sched_step z y ev y'" and "\<not> is_rescheduled ev" and "sys_inv y"
  shows "sys_inv y'"
  using assms
proof (cases rule: sched_step.cases)
  case (add_ok handle unique r waitstart s t)
  then show ?thesis using assms(3) add_task_inv[of "sched y" "threads y" z handle unique r waitstart s "Inr t"]
    by (simp add: sys_inv_def)
next
  case (add_raises handle unique r waitstart s e)
  then show ?thesis using assms(3) add_task_inv[of "sched y" "threads y" z handle unique r waitstart s "Inl e"]
    by (simp add: sys_inv_def)
next
  case (remove h s joined)
  then show ?thesis using assms(3) remove_task_inv[of "sched y" "threads y" h s joined] by (simp add: sys_inv_def)
next
  case (rescheduled h delay s res)
  with assms(2) show ?thesis by simp
next
  case (timer now)
  then show ?thesis using assms(3) timer_step_inv[of "sched y" "threads y" now] by (simp add: sys_inv_def)
next
  case (speed f)
  then show ?thesis
    using assms(3) same_parts[of "(sched y)\<lparr>speedFactor := f\<rparr>" "sched y" "threads y"] by (simp add: sys_inv_def)
next
  case shutdown
  then show ?thesis
    using assms(3) same_parts[of "shutdown_request (sched y)" "sched y" "threads y"]
    by (simp add: sys_inv_def shutdown_request_def)
next
  case (joined s)
  then show ?thesis
    using assms(3) same_parts[of s "sched y" "threads y"]
    by (auto simp: sys_inv_def shutdown_joined_def split: if_splits)
next
  case (launched l t s t')
  then show ?thesis using assms(3) launch_inv[of "sched y" "threads y" l t s t'] by (simp add: sys_inv_def)
next
  case (acquired l t s t')
  then show ?thesis using assms(3) acquire_inv[of "sched y" "threads y" l t s t'] by (simp add: sys_inv_def)
next
  case (invoked l t)
  then show ?thesis using assms(3) check_inv[of "sched y" "threads y" l t] by (simp add: sys_inv_def)
next
  case (dismissed l t)
  then show ?thesis using assms(3) check_inv[of "sched y" "threads y" l t] by (simp add: sys_inv_def)
next
  case (returned l t res s t')
  then show ?thesis using assms(3) finish_inv[of "sched y" "threads y" l t res s t'] by (simp add: sys_inv_def)
next
  case (rearmed l t s t')
  then show ?thesis using assms(3) rearm_inv[of "sched y" "threads y" l t s t'] by (simp add: sys_inv_def)
next
  case (unscheduled l t s t')
  then show ?thesis using assms(3) unschedule_inv[of "sched y" "threads y" l t s t'] by (simp add: sys_inv_def)
qed

lemma new_system_inv: "sys_inv new_system"
  by (simp add: sys_inv_def new_system_def new_scheduler_def sched_ok_def threads_ok_def)

lemma sched_run_inv:
  assumes "sched_run z new_system evs y" and "list_all (\<lambda>ev. \<not> is_rescheduled ev) evs"
  shows "sys_inv y"
proof (rule run_invariant[where P = sys_inv and ok = "\<lambda>ev. \<not> is_rescheduled ev", OF assms(1) new_system_inv])
  show "\<forall>ev \<in> set evs. \<not> is_rescheduled ev" using assms(2) by (simp add: list_all_iff)
qed (rule sched_step_inv)

end
