(* ===== verification/Scheduler_History.thy ===== *)
theory Scheduler_History
  imports Scheduler_Laws
begin

section \<open>Histories of the task scheduler\<close>

text \<open>
  How the local variables of a task's thread change along a run, step by step, and what
  follows for its history: the slots it was queued in and how often its method was called.
\<close>

subsection \<open>One step of one thread\<close>

definition lock_ok :: "'h system \<Rightarrow> bool" where
  "lock_ok y \<longleftrightarrow> (\<forall>x u. threads y x = Some u \<longrightarrow> t_lock u = x \<and> x < fresh (sched y))"

lemma add_task_born:
  assumes "add_task z handle unique r w s = (s', Inr t)"
  shows "fresh s \<le> t_lock t" "t_lock t < fresh s'" "1 \<le> t_frequency t" "t_repeats t = r_repeats r" "t_point t = Launching"
proof -
  define s1 where "s1 = (if w then s\<lparr>pendingStart := dict_set (case handle of None \<Rightarrow> unique | Some h \<Rightarrow> h) (fresh s) (pendingStart s),
      fresh := fresh s + 1\<rparr> else s)"
  have "fresh s \<le> fresh s1" by (simp add: s1_def)
  moreover have "schedule_task z (case handle of None \<Rightarrow> unique | Some h \<Rightarrow> h) r s1 = (s', Inr t)"
    using assms by (simp add: add_task_def s1_def Let_def split: if_splits)
  then show "fresh s \<le> t_lock t" "t_lock t < fresh s'" "1 \<le> t_frequency t" "t_repeats t = r_repeats r" "t_point t = Launching"
    using \<open>fresh s \<le> fresh s1\<close> by (auto elim!: schedule_task_cases)
qed

lemma add_task_fresh: "add_task z handle unique r w s = (s', res) \<Longrightarrow> fresh s \<le> fresh s'"
  by (auto simp: add_task_def Let_def elim!: schedule_task_cases split: if_splits)

text \<open>The parts of the state a step of a thread leaves alone.\<close>

lemma thread_step_fresh:
  "launch t s = (s', t') \<Longrightarrow> fresh s' = fresh s \<and> t_lock t' = t_lock t \<and> tasks s' = tasks s"
  "acquire t s = Some (s', t') \<Longrightarrow> fresh s' = fresh s \<and> t_lock t' = t_lock t \<and> tasks s' = tasks s"
  "finish_method res t s = (s', t') \<Longrightarrow> fresh s' = fresh s \<and> t_lock t' = t_lock t \<and> tasks s' = tasks s"
  "rearm t s = (s', t') \<Longrightarrow> fresh s' = fresh s \<and> t_lock t' = t_lock t \<and> tasks s' = tasks s"
  "unschedule t s = (s', t') \<Longrightarrow> fresh s' = fresh s \<and> t_lock t' = t_lock t"
proof -
  show "launch t s = (s', t') \<Longrightarrow> fresh s' = fresh s \<and> t_lock t' = t_lock t \<and> tasks s' = tasks s"
    by (auto simp: launch_def start_def loop_top_def)
  show "acquire t s = Some (s', t') \<Longrightarrow> fresh s' = fresh s \<and> t_lock t' = t_lock t \<and> tasks s' = tasks s"
    by (auto simp: acquire_def split: if_splits)
  show "finish_method res t s = (s', t') \<Longrightarrow> fresh s' = fresh s \<and> t_lock t' = t_lock t \<and> tasks s' = tasks s"
    by (auto simp: finish_method_def signal_start_def count_down_def Let_def split: option.splits if_splits)
  show "rearm t s = (s', t') \<Longrightarrow> fresh s' = fresh s \<and> t_lock t' = t_lock t \<and> tasks s' = tasks s"
    by (auto simp: rearm_def loop_top_def Let_def)
  show "unschedule t s = (s', t') \<Longrightarrow> fresh s' = fresh s \<and> t_lock t' = t_lock t"
    by (auto simp: unschedule_def split: if_splits)
qed

lemma check_task_lock [simp]: "t_lock (check_task t s) = t_lock t"
  by (simp add: check_task_def)

lemma remove_task_fresh: "remove_task h s = (s', joined) \<Longrightarrow> fresh s' = fresh s"
  by (auto simp: remove_task_def Let_def split: option.splits)

lemma reschedule_state:
  "reschedule h delay s = (s', res) \<Longrightarrow>
     s' = (case dict_get (tasks s) h of None \<Rightarrow> s
           | Some l \<Rightarrow> s\<lparr>tasks := dict_del h (tasks s), locks := fst (clear_alarm l (locks s))\<rparr>)"
  by (auto simp: reschedule_def setalarm_locked_def clearalarm_def split: option.splits prod.splits)

lemma reschedule_fresh: "reschedule h delay s = (s', res) \<Longrightarrow> fresh s' = fresh s"
  by (drule reschedule_state) (simp split: option.splits)

lemma timer_step_fresh [simp]: "fresh (timer_step now s) = fresh s" "tasks (timer_step now s) = tasks s"
  by (cases "timer s"; cases "running s";
      simp add: timer_step_def timer_prologue_def timer_iteration_parts; simp add: release_due_def)+

lemma shutdown_joined_fresh: "shutdown_joined s = Some s' \<Longrightarrow> fresh s' = fresh s \<and> tasks s' = tasks s"
  by (auto simp: shutdown_joined_def split: if_splits)

lemmas step_fresh = add_task_fresh remove_task_fresh reschedule_fresh shutdown_joined_fresh thread_step_fresh

lemma sched_step_fresh: "sched_step z y ev y' \<Longrightarrow> fresh (sched y) \<le> fresh (sched y')"
  by (induction rule: sched_step.induct) (auto dest: step_fresh simp: shutdown_request_def)

lemma sched_step_lock_ok:
  assumes "sched_step z y ev y'" and "lock_ok y"
  shows "lock_ok y'"
  using assms
proof (induction rule: sched_step.induct)
  case (add_ok handle unique r waitstart y s t)
  with add_task_born[OF add_ok(1)] show ?case
    by (auto simp: lock_ok_def intro: less_le_trans[OF _ add_task_fresh[OF add_ok(1)]])
next
  case (add_raises handle unique r waitstart y s e)
  then show ?case by (auto simp: lock_ok_def intro: less_le_trans[OF _ add_task_fresh[OF add_raises(1)]])
qed (auto simp: lock_ok_def shutdown_request_def dest: step_fresh)

lemma sched_run_lock_ok: "sched_run z y evs y' \<Longrightarrow> lock_ok y \<Longrightarrow> lock_ok y'"
  by (induction rule: sched_run.induct) (auto intro: sched_step_lock_ok)

lemma new_system_lock_ok: "lock_ok new_system"
  by (simp add: lock_ok_def new_system_def)

subsection \<open>The life of a task's thread\<close>

text \<open>
  What one step can do to the local variables of a thread, given the count of the timer: the
  loop of \<open>_runTask\<close> on its own.
\<close>

inductive thread_move :: "int \<Rightarrow> 'h task \<Rightarrow> 'h event \<Rightarrow> 'h task \<Rightarrow> bool" for n t where
  move_launch: "t_point t = Launching \<Longrightarrow> thread_move n t Internal (loop_top (t\<lparr>t_pending := p\<rparr>))"
| move_acquire: "t_point t = Waiting \<Longrightarrow> thread_move n t Internal (t\<lparr>t_point := Checking\<rparr>)"
| move_invoke: "t_point t = Checking \<Longrightarrow> thread_move n t (Invoked (t_lock t)) (t\<lparr>t_point := Running\<rparr>)"
| move_dismiss: "t_point t = Checking \<Longrightarrow> thread_move n t Internal (t\<lparr>t_point := Unscheduling\<rparr>)"
| move_finish: "t_point t = Running \<Longrightarrow>
    thread_move n t (Returned (t_lock t) res) (count_down (t\<lparr>t_failures := f, t_runs := c\<rparr>))"
| move_give_up: "t_point t = Running \<Longrightarrow>
    thread_move n t (Returned (t_lock t) res) (t\<lparr>t_failures := f, t_pending := None, t_point := Unscheduling\<rparr>)"
| move_rearm: "t_point t = Rearming \<Longrightarrow> k = next_slot n (t_nextslot t) (t_frequency t) \<Longrightarrow>
    thread_move n t (Armed (t_lock t) k None) (loop_top (t\<lparr>t_nextslot := k\<rparr>))"
| move_end: "t_point t = Unscheduling \<Longrightarrow> p \<in> {Ended, Died AttributeError} \<Longrightarrow>
    thread_move n t Internal (t\<lparr>t_point := p\<rparr>)"

lemma finish_move:
  assumes "t_point t = Running" and "finish_method res t s = (s', t')"
  shows "thread_move n t (Returned (t_lock t) res) t'"
proof (cases res)
  case None
  with assms(2) have "t' = count_down (t\<lparr>t_failures := 0, t_runs := t_runs t + 1\<rparr>)" by (simp add: finish_method_def)
  then show ?thesis using assms(1) by (auto intro: move_finish)
next
  case (Some e)
  then consider "t' = count_down (t\<lparr>t_failures := t_failures t + 1, t_runs := t_runs t\<rparr>)"
    | "t' = t\<lparr>t_failures := t_failures t + 1, t_pending := None, t_point := Unscheduling\<rparr>"
    using assms(2) by (auto simp: finish_method_def Let_def split: if_splits)
  then show ?thesis using assms(1) by cases (metis move_finish, metis move_give_up)
qed

lemma sched_step_thread:
  assumes "sched_step z y ev y'" and "lock_ok y" and "threads y' l = Some t'"
  obtains (same) "threads y l = Some t'" "\<And>k r. ev \<noteq> Armed l k r" "ev \<noteq> Invoked l"
  | (born) r where "ev = Armed l (t_nextslot t') (Some r)" "fresh (sched y) \<le> l" "1 \<le> t_frequency t'"
      "t_repeats t' = r_repeats r" "t_point t' = Launching"
  | (moved) t where "threads y l = Some t" "thread_move (nextcount (sched y)) t ev t'" "t_lock t = l"
  using assms
proof (induction rule: sched_step.induct)
  case (add_ok handle unique r waitstart y s t)
  note b = add_task_born[OF add_ok.hyps]
  show ?case
  proof (cases "l = t_lock t")
    case True
    with add_ok.prems(5) have "t' = t" by simp
    with b True show ?thesis by (intro add_ok.prems(2)[of r]) simp_all
  next
    case False
    with add_ok.prems(1,5) show ?thesis by simp
  qed
next
  case (launched y x t s t1)
  then show ?case
    by (cases "x = l") (auto simp: lock_ok_def launch_def intro: move_launch)
next
  case (acquired y x t s t1)
  then show ?case
    by (cases "x = l") (auto simp: lock_ok_def acquire_def intro: move_acquire split: if_splits)
next
  case (invoked y x t)
  show ?case
  proof (cases "x = l")
    case True
    with invoked have "t_lock t = l" "t' = t\<lparr>t_point := Running\<rparr>" by (auto simp: lock_ok_def check_task_def)
    with True invoked show ?thesis using move_invoke[OF invoked.hyps(2), of "nextcount (sched y)"] by auto
  next
    case False
    with invoked show ?thesis by auto
  qed
next
  case (dismissed y x t)
  then show ?case
    by (cases "x = l") (auto simp: lock_ok_def check_task_def intro: move_dismiss)
next
  case (returned y x t res s t1)
  show ?case
  proof (cases "x = l")
    case True
    with returned have "t_lock t = l" "t' = t1" by (auto simp: lock_ok_def)
    with True returned show ?thesis
      using finish_move[OF returned.hyps(2,3), of "nextcount (sched y)"] by auto
  next
    case False
    with returned show ?thesis by auto
  qed
next
  case (rearmed y x t s t1)
  show ?case
  proof (cases "x = l")
    case True
    with rearmed have t: "t_lock t = l" "t' = t1" by (auto simp: lock_ok_def)
    have "t_nextslot t1 = next_slot (nextcount (sched y)) (t_nextslot t) (t_frequency t)"
      "t1 = loop_top (t\<lparr>t_nextslot := t_nextslot t1\<rparr>)"
      using rearmed.hyps(3) by (auto simp: rearm_def loop_top_def Let_def)
    then have "thread_move (nextcount (sched y)) t (Armed l (t_nextslot t1) None) t1"
      using move_rearm[OF rearmed.hyps(2)] t(1) by metis
    with True rearmed t show ?thesis by auto
  next
    case False
    with rearmed show ?thesis by auto
  qed
next
  case (unscheduled y x t s t1)
  show ?case
  proof (cases "x = l")
    case True
    with unscheduled have t: "t_lock t = l" "t' = t1" by (auto simp: lock_ok_def)
    have "\<exists>p \<in> {Ended, Died AttributeError}. t1 = t\<lparr>t_point := p\<rparr>"
      using unscheduled.hyps(3) by (auto simp: unschedule_def split: if_splits)
    with move_end[OF unscheduled.hyps(2)] have "thread_move (nextcount (sched y)) t Internal t1" by blast
    with True unscheduled t show ?thesis by auto
  next
    case False
    with unscheduled show ?thesis by auto
  qed
qed auto

subsection \<open>The grid\<close>

lemma next_slot_grid:
  assumes "0 < f"
  shows "next_slot n k f mod f = k mod f" "n \<le> next_slot n k f" "k \<le> next_slot n k f"
    "next_slot n k f = k \<or> next_slot n k f < n + f"
proof -
  have m: "0 \<le> (n - 1 - k) mod f" "(n - 1 - k) mod f < f" using assms by simp_all
  have "n - 1 + f - (n - 1 - k) mod f = k + (n - 1 - k - (n - 1 - k) mod f) + f" by simp
  also have "\<dots> = k + ((n - 1 - k) div f + 1) * f"
    by (simp add: minus_mod_eq_div_mult algebra_simps)
  finally have e: "n - 1 + f - (n - 1 - k) mod f = k + ((n - 1 - k) div f + 1) * f" .
  show "next_slot n k f mod f = k mod f"
    using e by (simp add: next_slot_def)
  show "n \<le> next_slot n k f" "k \<le> next_slot n k f" "next_slot n k f = k \<or> next_slot n k f < n + f"
    using m by (auto simp: next_slot_def)
qed

text \<open>What is known after a history: the slots a lock was queued in, and how often it was used.\<close>

definition known :: "'h event list \<Rightarrow> 'h system \<Rightarrow> bool" where
  "known evs y \<longleftrightarrow> lock_ok y
     \<and> (\<forall>l. (\<exists>k r. Armed l k r \<in> set evs) \<or> Invoked l \<in> set evs \<longrightarrow> threads y l \<noteq> None)"

definition on_grid :: "'h event list \<Rightarrow> 'h system \<Rightarrow> bool" where
  "on_grid evs y \<longleftrightarrow> (\<forall>l t. threads y l = Some t \<longrightarrow>
     1 \<le> t_frequency t \<and> (\<forall>k r. Armed l k r \<in> set evs \<longrightarrow> k mod t_frequency t = t_nextslot t mod t_frequency t))"

text \<open>
  A method called \<open>c\<close> times of \<open>n\<close> has \<open>m\<close> calls left while its thread goes on; the call
  under way is counted in both.
\<close>

definition budget :: "int \<Rightarrow> int \<Rightarrow> int \<Rightarrow> run_point \<Rightarrow> bool" where
  "budget c n m p \<longleftrightarrow> c \<le> max 0 n
     \<and> (p \<in> {Waiting, Checking, Running} \<longrightarrow> 1 \<le> m)
     \<and> (p \<in> {Launching, Waiting, Checking, Running, Rearming} \<longrightarrow>
         c + max 0 m \<le> max 0 n + (if p = Running then 1 else 0))"

definition within_count :: "'h event list \<Rightarrow> 'h system \<Rightarrow> bool" where
  "within_count evs y \<longleftrightarrow> (\<forall>l t k r n. threads y l = Some t \<longrightarrow> Armed l k (Some r) \<in> set evs \<longrightarrow> r_repeats r = Some n \<longrightarrow>
     (\<exists>m. t_repeats t = Some m \<and> budget (int (count_list evs (Invoked l))) n m (t_point t)))"

lemma thread_move_grid:
  assumes "thread_move n t ev t'" "1 \<le> t_frequency t"
  shows "t_frequency t' = t_frequency t \<and> t_nextslot t' mod t_frequency t = t_nextslot t mod t_frequency t
    \<and> (\<forall>l k r. ev = Armed l k r \<longrightarrow> l = t_lock t \<and> k = t_nextslot t' \<and> r = None)"
  using assms by (induction) (auto simp: loop_top_def count_down_def next_slot_grid(1))

lemma thread_move_lock: "thread_move n t ev t' \<Longrightarrow> ev = Invoked l \<Longrightarrow> l = t_lock t"
  by (auto elim: thread_move.cases)

lemma known_lt:
  "known evs y \<Longrightarrow> Armed l k r \<in> set evs \<or> Invoked l \<in> set evs \<Longrightarrow> l < fresh (sched y) \<and> threads y l \<noteq> None"
  unfolding known_def lock_ok_def by (metis not_Some_eq)

lemma step_known_threads:
  "sched_step z y ev y' \<Longrightarrow> threads y l \<noteq> None \<Longrightarrow> threads y' l \<noteq> None"
  by (induction rule: sched_step.induct) auto

lemma step_event_thread:
  "sched_step z y ev y' \<Longrightarrow> lock_ok y \<Longrightarrow> (\<exists>k r. ev = Armed l k r) \<or> ev = Invoked l \<Longrightarrow> threads y' l \<noteq> None"
  by (induction rule: sched_step.induct) (auto simp: lock_ok_def)

lemma known_step:
  assumes step: "sched_step z y ev y'" and known: "known evs y"
  shows "known (evs @ [ev]) y'"
proof -
  have ok: "lock_ok y'" using sched_step_lock_ok[OF step] known by (simp add: known_def)
  have "threads y' l \<noteq> None"
    if "(\<exists>k r. Armed l k r \<in> set (evs @ [ev])) \<or> Invoked l \<in> set (evs @ [ev])" for l
  proof (cases "(\<exists>k r. Armed l k r \<in> set evs) \<or> Invoked l \<in> set evs")
    case True
    with known_lt[OF known] have "threads y l \<noteq> None" by blast
    then show ?thesis by (rule step_known_threads[OF step])
  next
    case False
    with that have "(\<exists>k r. ev = Armed l k r) \<or> ev = Invoked l" by auto
    with step_event_thread[OF step] known show ?thesis by (simp add: known_def)
  qed
  with ok show ?thesis unfolding known_def by blast
qed

lemma on_grid_step:
  assumes step: "sched_step z y ev y'" and known: "known evs y" and grid: "on_grid evs y"
  shows "on_grid (evs @ [ev]) y'"
  unfolding on_grid_def
proof (intro allI impI)
  fix l t' assume t': "threads y' l = Some t'"
  have ok: "lock_ok y" using known by (simp add: known_def)
  show "1 \<le> t_frequency t' \<and> (\<forall>k r. Armed l k r \<in> set (evs @ [ev]) \<longrightarrow> k mod t_frequency t' = t_nextslot t' mod t_frequency t')"
    using step ok t'
  proof (cases rule: sched_step_thread)
    case same
    have "Armed l k r \<in> set (evs @ [ev]) \<longleftrightarrow> Armed l k r \<in> set evs" for k r using same(2)[of k r] by auto
    with same(1) grid show ?thesis by (simp add: on_grid_def)
  next
    case (born r)
    then have "Armed l k q \<notin> set evs" for k q using known_lt[OF known] by force
    with born show ?thesis by auto
  next
    case (moved t)
    with grid have f: "1 \<le> t_frequency t" "\<And>k r. Armed l k r \<in> set evs \<Longrightarrow> k mod t_frequency t = t_nextslot t mod t_frequency t"
      by (auto simp: on_grid_def)
    with thread_move_grid[OF moved(2) f(1)] show ?thesis by auto
  qed
qed

lemma thread_move_count:
  assumes "thread_move n t ev t'" and "t_repeats t = Some m" and "budget c b m (t_point t)"
  shows "\<exists>m'. t_repeats t' = Some m' \<and> budget (c + (if ev = Invoked (t_lock t) then 1 else 0)) b m' (t_point t')"
  using assms by (induction) (auto simp: loop_top_def count_down_def budget_def)

lemma within_count_step:
  assumes step: "sched_step z y ev y'" and known: "known evs y" and within: "within_count evs y"
  shows "within_count (evs @ [ev]) y'"
  unfolding within_count_def
proof (intro allI impI)
  fix l t' k r n
  assume t': "threads y' l = Some t'" and a: "Armed l k (Some r) \<in> set (evs @ [ev])" and n: "r_repeats r = Some n"
  have ok: "lock_ok y" using known by (simp add: known_def)
  have c: "int (count_list (evs @ [ev]) (Invoked l)) = int (count_list evs (Invoked l)) + (if ev = Invoked l then 1 else 0)"
    by simp
  show "\<exists>m. t_repeats t' = Some m \<and> budget (int (count_list (evs @ [ev]) (Invoked l))) n m (t_point t')"
    using step ok t'
  proof (cases rule: sched_step_thread)
    case same
    with a have "Armed l k (Some r) \<in> set evs" by auto
    with same(1,3) within n show ?thesis unfolding c within_count_def by simp
  next
    case (born q)
    then have none: "Armed l j p \<notin> set evs" "Invoked l \<notin> set evs" for j p using known_lt[OF known] by force+
    with a born(1) have "q = r" by auto
    moreover have "count_list evs (Invoked l) = 0" using none(2) by (simp add: count_list_0_iff)
    ultimately show ?thesis using born n unfolding c by (simp add: budget_def)
  next
    case (moved t)
    then have "ev \<noteq> Armed l k (Some r)" by (auto elim: thread_move.cases)
    with a have "Armed l k (Some r) \<in> set evs" by auto
    with within moved(1) n obtain m where m: "t_repeats t = Some m" "budget (int (count_list evs (Invoked l))) n m (t_point t)"
      unfolding within_count_def by blast
    show ?thesis using thread_move_count[OF moved(2) m] moved(3) unfolding c by auto
  qed
qed

lemma sched_run_history:
  assumes "sched_run z new_system evs y"
  shows "known evs y \<and> on_grid evs y \<and> within_count evs y"
  using assms
proof induction
  case run_nil
  show ?case by (simp add: known_def on_grid_def within_count_def lock_ok_def new_system_def)
next
  case (run_snoc evs y' ev y'')
  then show ?case using known_step on_grid_step within_count_step by blast
qed

subsection \<open>Rescheduled and removed tasks\<close>

text \<open>A lock that no task, no slot and no other thread knows of.\<close>

definition forgotten :: "nat \<Rightarrow> 'h system \<Rightarrow> bool" where
  "forgotten l y \<longleftrightarrow> lock_ok y \<and> l < fresh (sched y) \<and> (\<forall>h. dict_get (tasks (sched y)) h \<noteq> Some l)"

lemma schedule_task_forgotten:
  assumes "schedule_task z h r s = (s', res)" and "l < fresh s" and "\<forall>j. dict_get (tasks s) j \<noteq> Some l"
  shows "(\<forall>j. dict_get (tasks s') j \<noteq> Some l) \<and> queued s' l = queued s l \<and> (l \<in> held s \<longrightarrow> l \<in> held s')"
  using assms(1)
proof (cases rule: schedule_task_cases)
  case unchanged
  with assms show ?thesis by simp
next
  case (entered e k)
  with assms(2,3) show ?thesis by (auto simp: queued_def fun_eq_iff split: if_splits)
next
  case (queued t n)
  with assms(2,3) show ?thesis
    by (auto simp: queued_def fun_eq_iff setdefault_append_get_default split: if_splits)
qed

lemma add_task_forgotten:
  assumes "add_task z handle unique r w s = (s', res)" and "l < fresh s" and "\<forall>j. dict_get (tasks s) j \<noteq> Some l"
  shows "(\<forall>j. dict_get (tasks s') j \<noteq> Some l) \<and> queued s' l = queued s l \<and> (l \<in> held s \<longrightarrow> l \<in> held s')"
proof -
  define h where "h = (case handle of None \<Rightarrow> unique | Some h \<Rightarrow> h)"
  define s1 where "s1 = (if w then s\<lparr>pendingStart := dict_set h (fresh s) (pendingStart s), fresh := fresh s + 1\<rparr> else s)"
  have run: "schedule_task z h r s1 = (s', res)"
    using assms(1) by (simp add: add_task_def h_def s1_def Let_def split: if_splits)
  have "l < fresh s1" "\<forall>j. dict_get (tasks s1) j \<noteq> Some l" using assms(2,3) by (auto simp: s1_def)
  moreover have "queued s1 l = queued s l" "held s1 = held s" by (simp_all add: s1_def queued_def fun_eq_iff)
  ultimately show ?thesis using schedule_task_forgotten[OF run, of l] by simp
qed

lemma remove_task_forgotten:
  assumes "remove_task h s = (s', joined)" and "\<forall>j. dict_get (tasks s) j \<noteq> Some l"
  shows "(\<forall>j. dict_get (tasks s') j \<noteq> Some l) \<and> queued s' l = queued s l \<and> (l \<in> held s \<longrightarrow> l \<in> held s')"
proof (cases "dict_get (tasks s) h")
  case None
  with assms show ?thesis by (simp add: remove_task_def)
next
  case (Some x)
  with assms(2) have "x \<noteq> l" by auto
  with Some assms show ?thesis
    by (auto simp: remove_task_def Let_def queued_def clear_alarm_other fun_eq_iff split: if_splits)
qed

lemma reschedule_forgotten:
  assumes "reschedule h delay s = (s', res)" and "\<forall>j. dict_get (tasks s) j \<noteq> Some l"
  shows "(\<forall>j. dict_get (tasks s') j \<noteq> Some l) \<and> queued s' l = queued s l \<and> (l \<in> held s \<longrightarrow> l \<in> held s')"
proof (cases "dict_get (tasks s) h")
  case None
  with assms reschedule_state[OF assms(1)] show ?thesis by simp
next
  case (Some x)
  with assms(2) have "x \<noteq> l" by auto
  with Some reschedule_state[OF assms(1)] assms(2) show ?thesis
    by (auto simp: queued_def clear_alarm_other fun_eq_iff split: if_splits)
qed

lemma forgotten_step:
  assumes "sched_step z y ev y'" and "forgotten l y"
  shows "forgotten l y' \<and> ev \<noteq> Invoked l"
proof -
  have fresh: "l < fresh (sched y')" using sched_step_fresh[OF assms(1)] assms(2) by (simp add: forgotten_def)
  have ok: "lock_ok y'" using sched_step_lock_ok[OF assms(1)] assms(2) by (simp add: forgotten_def)
  have none: "\<forall>j. dict_get (tasks (sched y)) j \<noteq> Some l" and l: "l < fresh (sched y)" and lk: "lock_ok y"
    using assms(2) by (auto simp: forgotten_def)
  have "(\<forall>j. dict_get (tasks (sched y')) j \<noteq> Some l) \<and> ev \<noteq> Invoked l"
    using assms(1) none
  proof (cases rule: sched_step.cases)
    case (invoked x t)
    with none lk show ?thesis by (auto simp: is_current_def lock_ok_def)
  qed (use none l in \<open>auto dest: add_task_forgotten remove_task_forgotten reschedule_forgotten step_fresh
        simp: shutdown_request_def unschedule_def split: if_splits\<close>)
  with fresh ok show ?thesis by (simp add: forgotten_def)
qed

lemma forgotten_run:
  "sched_run z y evs y' \<Longrightarrow> forgotten l y \<Longrightarrow> forgotten l y' \<and> Invoked l \<notin> set evs"
  by (induction rule: sched_run.induct) (auto dest: forgotten_step)

text \<open>A forgotten lock that is locked stays locked, and its thread waits on.\<close>

definition stuck :: "nat \<Rightarrow> 'h task \<Rightarrow> 'h system \<Rightarrow> bool" where
  "stuck l t y \<longleftrightarrow> forgotten l y \<and> threads y l = Some t \<and> t_point t = Waiting
     \<and> l \<in> held (sched y) \<and> queued (sched y) l = never"

lemma timer_step_stuck:
  assumes "l \<in> held s" "queued s l = never"
  shows "l \<in> held (timer_step now s) \<and> queued (timer_step now s) l = never"
proof -
  have due: "l \<notin> set (dict_get_default (locks s) (At (nextcount s)) [])"
  proof -
    have "queued s l (At (nextcount s)) = 0" by (simp add: assms(2) never_def)
    then show ?thesis by (simp add: queued_def count_list_0_iff)
  qed
  have rel: "l \<in> held (release_due s)" "queued (release_due s) l = never"
    using assms due release_due_queued[of s l] by (auto simp: release_due_def never_def)
  have q: "queued (timer_iteration now nx s) = queued (release_due s)" for nx
    by (rule queued_cong) (rule timer_iteration_parts(1))
  have it: "l \<in> held (timer_iteration now nx s)" "queued (timer_iteration now nx s) l = never" for nx
    using rel by (simp_all only: q timer_iteration_parts)
  show ?thesis
    using assms it by (cases "timer s"; cases "running s") (simp_all add: timer_step_def timer_prologue_def queued_def)
qed

lemma thread_step_held:
  assumes "t_lock t \<noteq> l"
  shows "launch t s = (s', t') \<Longrightarrow> held s' = held s \<and> queued s' l = queued s l"
    "acquire t s = Some (s', t') \<Longrightarrow> (l \<in> held s \<longrightarrow> l \<in> held s') \<and> queued s' l = queued s l"
    "finish_method res t s = (s', t') \<Longrightarrow> held s' = held s \<and> queued s' l = queued s l"
    "rearm t s = (s', t') \<Longrightarrow> held s' = held s \<and> queued s' l = queued s l"
    "unschedule t s = (s', t') \<Longrightarrow> held s' = held s \<and> queued s' l = queued s l"
proof -
  show "launch t s = (s', t') \<Longrightarrow> held s' = held s \<and> queued s' l = queued s l"
    by (auto simp: launch_def start_def queued_def)
  show "acquire t s = Some (s', t') \<Longrightarrow> (l \<in> held s \<longrightarrow> l \<in> held s') \<and> queued s' l = queued s l"
    by (auto simp: acquire_def queued_def split: if_splits)
  show "finish_method res t s = (s', t') \<Longrightarrow> held s' = held s \<and> queued s' l = queued s l"
    by (auto simp: finish_method_def signal_start_def queued_def Let_def split: option.splits if_splits)
  show "rearm t s = (s', t') \<Longrightarrow> held s' = held s \<and> queued s' l = queued s l"
    using assms by (auto simp: rearm_def queued_append Let_def)
  show "unschedule t s = (s', t') \<Longrightarrow> held s' = held s \<and> queued s' l = queued s l"
    by (auto simp: unschedule_def queued_def split: if_splits)
qed

lemma stuck_step:
  assumes step: "sched_step z y ev y'" and stuck: "stuck l t y"
  shows "stuck l t y'"
proof -
  have f: "forgotten l y'" using forgotten_step[OF step] stuck by (simp add: stuck_def)
  have none: "\<forall>j. dict_get (tasks (sched y)) j \<noteq> Some l" and l: "l < fresh (sched y)"
    and lk: "\<And>x u. threads y x = Some u \<Longrightarrow> t_lock u = x"
    and t: "threads y l = Some t" "t_point t = Waiting" "t_lock t = l"
    and q: "l \<in> held (sched y)" "queued (sched y) l = never"
    using stuck by (auto simp: stuck_def forgotten_def lock_ok_def)
  have "l \<in> held (sched y') \<and> queued (sched y') l = never \<and> threads y' l = Some t"
    using step
  proof (cases rule: sched_step.cases)
    case (add_ok handle unique r waitstart s u)
    with add_task_forgotten[OF add_ok(3) l none] add_task_born(1)[OF add_ok(3)] t q l show ?thesis by auto
  next
    case (add_raises handle unique r waitstart s e)
    with add_task_forgotten[OF add_raises(3) l none] t q show ?thesis by auto
  next
    case (remove h s joined)
    with remove_task_forgotten[OF remove(3) none] t q show ?thesis by auto
  next
    case (rescheduled h delay s res)
    with reschedule_forgotten[OF rescheduled(3) none] t q show ?thesis by auto
  next
    case (timer now)
    with timer_step_stuck[OF q, of now] t show ?thesis by simp
  next
    case (launched x u s u')
    with t lk have "x \<noteq> l" "t_lock u \<noteq> l" by auto
    with launched thread_step_held(1)[of u l] t q show ?thesis by auto
  next
    case (acquired x u s u')
    with t lk q have "x \<noteq> l" "t_lock u \<noteq> l" by (auto simp: acquire_def)
    with acquired thread_step_held(2)[of u l] t q show ?thesis by auto
  next
    case (returned x u res s u')
    with t lk have "x \<noteq> l" "t_lock u \<noteq> l" by auto
    with returned thread_step_held(3)[of u l] t q show ?thesis by auto
  next
    case (rearmed x u s u')
    with t lk have "x \<noteq> l" "t_lock u \<noteq> l" by auto
    with rearmed thread_step_held(4)[of u l] t q show ?thesis by auto
  next
    case (unscheduled x u s u')
    with t lk have "x \<noteq> l" "t_lock u \<noteq> l" by auto
    with unscheduled thread_step_held(5)[of u l] t q show ?thesis by auto
  qed (use t q in \<open>auto simp: shutdown_request_def shutdown_joined_def split: if_splits\<close>)
  with f t show ?thesis by (simp add: stuck_def)
qed

lemma stuck_run: "sched_run z y evs y' \<Longrightarrow> stuck l t y \<Longrightarrow> stuck l t y'"
  by (induction rule: sched_run.induct) (auto intro: stuck_step)

end
