(* ===== verification/Scheduler_Demo.thy ===== *)
theory Scheduler_Demo
  imports Scheduler_History
begin

section \<open>An example run of the task scheduler\<close>

text \<open>
  A task that is to run twice, every 30 ticks: it is added, the timer starts and releases its
  lock, the method runs, and the lock is queued again in slot 120, as the count is then 100.
\<close>

definition demo_zone :: local_zone where
  "demo_zone = \<lparr>timezone = 0, altzone = 0, isdst = (\<lambda>_. 0)\<rparr>"

definition demo_request :: "nat request" where
  "demo_request = \<lparr>r_interval = rnd (3 / 100), r_repeats = Some 2, r_maxretries = 0, r_align = AlignNONE, r_delay = 0\<rparr>"

definition demo_sched :: "int \<Rightarrow> timer_thread \<Rightarrow> (slot, nat list) dict \<Rightarrow> nat set \<Rightarrow> nat scheduler" where
  "demo_sched n m d hs = \<lparr>speedFactor = 1, nextcount = n, starttime = 0, running = True, timer = m,
     locks = (Forever, []) # d, pendingStart = [], pendingException = [], tasks = [(7, 0)],
     held = hs, events_set = {}, fresh = 1\<rparr>"

definition demo_task :: "int \<Rightarrow> int \<Rightarrow> run_point \<Rightarrow> nat task" where
  "demo_task slot runs p = \<lparr>t_handle = 7, t_lock = 0, t_frequency = 30, t_repeats = Some (2 - runs),
     t_maxretries = 0, t_nextslot = slot, t_runs = runs, t_failures = 0, t_pending = None, t_point = p\<rparr>"

definition demo_system :: "nat scheduler \<Rightarrow> nat task \<Rightarrow> nat system" where
  "demo_system s t = \<lparr>sched = s, threads = (\<lambda>_. None)(0 \<mapsto> t)\<rparr>"

definition demo_history :: "nat event list" where
  "demo_history = [Armed 0 0 (Some demo_request), Internal, Internal, Internal, Internal, Invoked 0, Returned 0 None]"

lemma demo_ticks:
  "tick_count new_scheduler (rnd (3 / 100)) = Inr 30" "tick_count new_scheduler 0 = Inr 0"
  by code_simp+

text \<open>The clock readings used, in ticks.\<close>

lemma demo_floats: "fdiv maxsleep tick = 100" "py_trunc 100 = 100"
  by code_simp+

lemma rnd_maxsleep [simp]: "rnd maxsleep = maxsleep"
  by (simp add: maxsleep_def)

lemmas demo_defs = demo_sched_def demo_task_def demo_system_def

lemma demo_sched_simps [simp]:
  "timer (demo_sched n m d hs) = m" "running (demo_sched n m d hs)" "nextcount (demo_sched n m d hs) = n"
  "locks (demo_sched n m d hs) = (Forever, []) # d" "held (demo_sched n m d hs) = hs"
  "tasks (demo_sched n m d hs) = [(7, 0)]" "fresh (demo_sched n m d hs) = 1" "starttime (demo_sched n m d hs) = 0"
  by (simp_all add: demo_sched_def)

lemma demo_max_ticks: "max_ticks 0 (demo_sched n m d hs) = Inr 100"
proof -
  have "fsub (fadd 0 maxsleep) 0 = maxsleep" "fdiv maxsleep 1 = maxsleep"
    by (simp_all add: fadd_def fsub_def fdiv_def)
  then show ?thesis
    by (simp add: max_ticks_def tick_count_def demo_floats) (simp add: demo_sched_def demo_floats)
qed

definition demo_next :: rat where "demo_next = fadd 0 (fmul tick (float_of_int 100))"

lemma demo_timer:
  "timer_step 0 (demo_sched 0 (Looping 0) [(At 0, [0])] {0}) = demo_sched 100 (Looping demo_next) [] {}"
proof -
  have r: "release_due (demo_sched 0 (Looping 0) [(At 0, [0])] {0}) = demo_sched 0 (Looping 0) [] {}"
    by (simp add: release_due_def demo_sched_def)
  have a: "adjust_clock 0 0 (demo_sched 0 (Looping 0) [] {}) = demo_sched 0 (Looping 0) [] {}"
    by (simp add: adjust_clock_def fsub_def timeshiftlimit_def)
  show ?thesis
    by (simp add: timer_step_def timer_iteration_def r a demo_max_ticks Let_def)
      (simp add: demo_sched_def dict_keys_def earliest_def demo_next_def)
qed

lemma demo_add:
  "add_task demo_zone (Some 7) 0 demo_request False new_scheduler
     = (demo_sched 0 NoTimer [(At 0, [0])] {0}, Inr (demo_task 0 0 Launching))"
  by (simp add: add_task_def schedule_task_def demo_request_def demo_ticks first_slot_def Let_def)
    (simp add: new_scheduler_def demo_defs setdefault_append_def)

text \<open>The steps of the one thread there is.\<close>

lemma demo_moves:
  "t_point t = Launching \<Longrightarrow> launch t s = (s', t') \<Longrightarrow> sched_step z (demo_system s t) Internal (demo_system s' t')"
  "t_point t = Waiting \<Longrightarrow> acquire t s = Some (s', t') \<Longrightarrow> sched_step z (demo_system s t) Internal (demo_system s' t')"
  "t_point t = Checking \<Longrightarrow> is_current t s \<Longrightarrow> sched_step z (demo_system s t) (Invoked 0) (demo_system s (check_task t s))"
  "t_point t = Running \<Longrightarrow> finish_method res t s = (s', t') \<Longrightarrow>
     sched_step z (demo_system s t) (Returned 0 res) (demo_system s' t')"
  "t_point t = Rearming \<Longrightarrow> rearm t s = (s', t') \<Longrightarrow>
     sched_step z (demo_system s t) (Armed 0 (t_nextslot t') None) (demo_system s' t')"
  "sched_step z (demo_system s t) Internal (demo_system (timer_step now s) t)"
proof -
  let ?y = "demo_system s t"
  show "t_point t = Launching \<Longrightarrow> launch t s = (s', t') \<Longrightarrow> sched_step z ?y Internal (demo_system s' t')"
    using launched[of ?y 0 t s' t' z] by (simp add: demo_system_def)
  show "t_point t = Waiting \<Longrightarrow> acquire t s = Some (s', t') \<Longrightarrow> sched_step z ?y Internal (demo_system s' t')"
    using acquired[of ?y 0 t s' t' z] by (simp add: demo_system_def)
  show "t_point t = Checking \<Longrightarrow> is_current t s \<Longrightarrow> sched_step z ?y (Invoked 0) (demo_system s (check_task t s))"
    using invoked[of ?y 0 t z] by (simp add: demo_system_def)
  show "t_point t = Running \<Longrightarrow> finish_method res t s = (s', t') \<Longrightarrow> sched_step z ?y (Returned 0 res) (demo_system s' t')"
    using returned[of ?y 0 t res s' t' z] by (simp add: demo_system_def)
  show "t_point t = Rearming \<Longrightarrow> rearm t s = (s', t') \<Longrightarrow> sched_step z ?y (Armed 0 (t_nextslot t') None) (demo_system s' t')"
    using rearmed[of ?y 0 t s' t' z] by (simp add: demo_system_def)
  show "sched_step z ?y Internal (demo_system (timer_step now s) t)"
    using timer[of z ?y now] by (simp add: demo_system_def)
qed

lemma demo_steps:
  "sched_step demo_zone new_system (Armed 0 0 (Some demo_request))
     (demo_system (demo_sched 0 NoTimer [(At 0, [0])] {0}) (demo_task 0 0 Launching))"
  "sched_step demo_zone (demo_system (demo_sched 0 NoTimer [(At 0, [0])] {0}) (demo_task 0 0 Launching)) Internal
     (demo_system (demo_sched 0 Created [(At 0, [0])] {0}) (demo_task 0 0 Waiting))"
  "sched_step demo_zone (demo_system (demo_sched 0 Created [(At 0, [0])] {0}) t) Internal
     (demo_system (demo_sched 0 (Looping 0) [(At 0, [0])] {0}) t)"
  "sched_step demo_zone (demo_system (demo_sched 0 (Looping 0) [(At 0, [0])] {0}) t) Internal
     (demo_system (demo_sched 100 (Looping demo_next) [] {}) t)"
  "sched_step demo_zone (demo_system (demo_sched n m d {}) (demo_task k c Waiting)) Internal
     (demo_system (demo_sched n m d {0}) (demo_task k c Checking))"
  "sched_step demo_zone (demo_system (demo_sched n m d hs) (demo_task k c Checking)) (Invoked 0)
     (demo_system (demo_sched n m d hs) (demo_task k c Running))"
  "sched_step demo_zone (demo_system (demo_sched n m d hs) (demo_task 0 0 Running)) (Returned 0 None)
     (demo_system (demo_sched n m d hs) (demo_task 0 1 Rearming))"
  "sched_step demo_zone (demo_system (demo_sched 100 m [] hs) (demo_task 0 1 Rearming)) (Armed 0 120 None)
     (demo_system (demo_sched 100 m [(At 120, [0])] hs) (demo_task 120 1 Waiting))"
proof -
  show "sched_step demo_zone new_system (Armed 0 0 (Some demo_request))
     (demo_system (demo_sched 0 NoTimer [(At 0, [0])] {0}) (demo_task 0 0 Launching))"
  proof -
    have "add_task demo_zone (Some 7) 0 demo_request False (sched new_system)
        = (demo_sched 0 NoTimer [(At 0, [0])] {0}, Inr (demo_task 0 0 Launching))"
      using demo_add by (simp add: new_system_def)
    from add_ok[OF this] show ?thesis by (simp add: demo_task_def demo_system_def new_system_def)
  qed
  show "sched_step demo_zone (demo_system (demo_sched 0 NoTimer [(At 0, [0])] {0}) (demo_task 0 0 Launching)) Internal
     (demo_system (demo_sched 0 Created [(At 0, [0])] {0}) (demo_task 0 0 Waiting))"
    by (rule demo_moves(1)) (simp_all add: demo_task_def demo_sched_def launch_def start_def loop_top_def)
  show "sched_step demo_zone (demo_system (demo_sched 0 Created [(At 0, [0])] {0}) t) Internal
     (demo_system (demo_sched 0 (Looping 0) [(At 0, [0])] {0}) t)"
    using demo_moves(6)[of demo_zone "demo_sched 0 Created [(At 0, [0])] {0}" t 0]
    by (simp add: timer_step_def timer_prologue_def) (simp add: demo_sched_def)
  show "sched_step demo_zone (demo_system (demo_sched 0 (Looping 0) [(At 0, [0])] {0}) t) Internal
     (demo_system (demo_sched 100 (Looping demo_next) [] {}) t)"
    using demo_moves(6)[of demo_zone "demo_sched 0 (Looping 0) [(At 0, [0])] {0}" t 0] by (simp add: demo_timer)
  show "sched_step demo_zone (demo_system (demo_sched n m d {}) (demo_task k c Waiting)) Internal
     (demo_system (demo_sched n m d {0}) (demo_task k c Checking))"
    by (rule demo_moves(2)) (simp_all add: demo_task_def demo_sched_def acquire_def)
  show "sched_step demo_zone (demo_system (demo_sched n m d hs) (demo_task k c Checking)) (Invoked 0)
     (demo_system (demo_sched n m d hs) (demo_task k c Running))"
    using demo_moves(3)[of "demo_task k c Checking" "demo_sched n m d hs" demo_zone]
    by (simp add: demo_task_def is_current_def check_task_def)
  show "sched_step demo_zone (demo_system (demo_sched n m d hs) (demo_task 0 0 Running)) (Returned 0 None)
     (demo_system (demo_sched n m d hs) (demo_task 0 1 Rearming))"
    by (rule demo_moves(4)) (simp_all add: demo_task_def finish_method_def signal_start_def count_down_def)
  show "sched_step demo_zone (demo_system (demo_sched 100 m [] hs) (demo_task 0 1 Rearming)) (Armed 0 120 None)
     (demo_system (demo_sched 100 m [(At 120, [0])] hs) (demo_task 120 1 Waiting))"
    using demo_moves(5)[of "demo_task 0 1 Rearming" "demo_sched 100 m [] hs" "demo_sched 100 m [(At 120, [0])] hs" "demo_task 120 1 Waiting"]
    by (simp add: demo_task_def demo_sched_def rearm_def loop_top_def next_slot_def setdefault_append_def Let_def)
qed

lemma demo_run:
  "sched_run demo_zone new_system demo_history (demo_system (demo_sched 100 (Looping demo_next) [] {0}) (demo_task 0 1 Rearming))"
  unfolding demo_history_def
  using run_snoc[OF run_snoc[OF run_snoc[OF run_snoc[OF run_snoc[OF run_snoc[OF run_snoc[OF run_nil
    demo_steps(1)] demo_steps(2)] demo_steps(3)] demo_steps(4)] demo_steps(5)] demo_steps(6)] demo_steps(7)]
  by simp

end
