(* ===== verification/Scheduler_Props.thy ===== *)
theory Scheduler_Props
  imports Scheduler_Demo
begin

section \<open>Properties of the task scheduler\<close>

text \<open>
  Waiting tasks are woken: no wake-up is lost, and the timer comes to every queued slot. A
  task runs on a grid of slots and at most as often as asked. What removing and
  rescheduling a task do to it.
\<close>

subsection \<open>Wake-ups\<close>

text \<open>
  C32. No wake-up is lost. In every state that is reached, whatever threads add and remove
  tasks and in whatever order they step (no task being rescheduled), a thread that is
  blocked on its lock is the current one of its handle, and its lock is queued exactly once,
  in the slot the task is to run in.
\<close>

theorem no_wakeup_lost:
  assumes "sched_run z new_system evs y" and "list_all (\<lambda>ev. \<not> is_rescheduled ev) evs"
    and "threads y l = Some t" and "t_point t = Waiting" and "l \<in> held (sched y)"
  shows "is_current t (sched y) \<and> queued (sched y) l = once (At (t_nextslot t))"
proof -
  have "thread_ok (sched y) l t"
    using sched_run_inv[OF assms(1,2)] assms(3) by (simp add: sys_inv_def threads_ok_def)
  with assms(4,5) show ?thesis by (auto simp: thread_ok_def armed_def split: if_splits)
qed

lemma no_wakeup_lost_witness:
  "is_current (demo_task 120 1 Waiting) (demo_sched 100 (Looping demo_next) [(At 120, [0])] {0})
   \<and> queued (demo_sched 100 (Looping demo_next) [(At 120, [0])] {0}) 0 = once (At 120)"
  using no_wakeup_lost[OF run_snoc[OF demo_run demo_steps(8)], of 0 "demo_task 120 1 Waiting"]
  by (simp add: demo_history_def demo_system_def demo_task_def)

subsection \<open>The timer comes to every slot\<close>

definition timer_run :: "rat list \<Rightarrow> 'h scheduler \<Rightarrow> 'h scheduler" where
  "timer_run nows s = foldl (\<lambda>s now. timer_step now s) s nows"

text \<open>In each of these iterations the clock lets the count go at least up to \<open>k\<close>.\<close>

fun timely :: "int \<Rightarrow> rat list \<Rightarrow> 'h scheduler \<Rightarrow> bool" where
  "timely k [] s = True"
| "timely k (now # nows) s =
     (case timer s of
        Looping nx \<Rightarrow> running s
          \<and> (case max_ticks now (adjust_clock now nx (release_due s)) of Inr m \<Rightarrow> k \<le> m | Inl e \<Rightarrow> False)
          \<and> timely k nows (timer_step now s)
      | _ \<Rightarrow> False)"

lemma earliest_Min:
  "xs \<noteq> [] \<Longrightarrow> earliest xs = Inr (Min (set xs))"
  by (cases xs) (simp_all add: earliest_def Min.set_eq_fold del: list.set)

lemma timer_step_held: "held (timer_step now s) \<subseteq> held s"
  by (cases "timer s"; cases "running s")
    (auto simp: timer_step_def timer_prologue_def timer_iteration_parts, auto simp: release_due_def)

lemma timer_run_held: "held (timer_run nows s) \<subseteq> held s"
proof (induction nows arbitrary: s)
  case (Cons now nows)
  then show ?case using timer_step_held[of now s] by (force simp: timer_run_def)
qed (simp add: timer_run_def)

lemma release_due_locks: "locks (release_due s) = dict_del (At (nextcount s)) (locks s)"
  by (simp add: release_due_def)

text \<open>One iteration: the slot of the current count goes, the count is the first slot left.\<close>

lemma timely_step:
  assumes "timely k (now # nows) s" and "At k \<in> set (dict_keys (locks s))" and "nextcount s \<noteq> k"
  shows "locks (timer_step now s) = dict_del (At (nextcount s)) (locks s)"
    and "At (nextcount (timer_step now s)) = Min (set (dict_keys (locks (timer_step now s))))"
proof -
  obtain nx m where t: "timer s = Looping nx" "running s"
    and m: "max_ticks now (adjust_clock now nx (release_due s)) = Inr m" "k \<le> m"
    using assms(1) by (auto split: timer_thread.splits sum.splits)
  define s1 where "s1 = adjust_clock now nx (release_due s)"
  have l1: "locks s1 = dict_del (At (nextcount s)) (locks s)"
    by (simp add: s1_def adjust_clock_def release_due_locks)
  then have k: "At k \<in> set (dict_keys (locks s1))"
    using assms(2,3) by (simp add: dict_keys_get)
  then have ne: "dict_keys (locks s1) \<noteq> []" by auto
  have min: "Min (set (dict_keys (locks s1))) \<le> At k" using k by simp
  then obtain j where j: "Min (set (dict_keys (locks s1))) = At j" "j \<le> k"
    by (cases "Min (set (dict_keys (locks s1)))") auto
  have e: "timer_step now s = s1\<lparr>nextcount := j, timer := Looping (fadd (starttime s1) (fmul tick (float_of_int j)))\<rparr>"
    using t m j earliest_Min[OF ne] by (simp add: timer_step_def timer_iteration_def Let_def flip: s1_def)
  show "locks (timer_step now s) = dict_del (At (nextcount s)) (locks s)" by (simp add: e l1)
  show "At (nextcount (timer_step now s)) = Min (set (dict_keys (locks (timer_step now s))))"
    by (simp add: e j)
qed

definition due :: "int \<Rightarrow> 'h scheduler \<Rightarrow> slot list" where
  "due k s = filter (\<lambda>j. j \<le> At k) (dict_keys (locks s))"

lemma due_del:
  "dict_wf (locks s) \<Longrightarrow> locks s' = dict_del j (locks s) \<Longrightarrow> set (due k s') = set (due k s) - {j} \<and> dict_wf (locks s')"
  by (auto simp: due_def dict_keys_def delete_keys)

lemma due_length: "dict_wf (locks s) \<Longrightarrow> length (due k s) = card (set (due k s))"
  by (metis distinct_card distinct_filter due_def dict_wf_def dict_keys_def)

lemma released_now:
  assumes "timely k (now # nows) s" and "l \<in> set (dict_get_default (locks s) (At k) [])" and "nextcount s = k"
  shows "l \<notin> held (timer_step now s)"
  using assms by (auto simp: timer_step_def timer_iteration_parts release_due_def split: timer_thread.splits)

lemma slot_is_key: "l \<in> set (dict_get_default d k []) \<Longrightarrow> k \<in> set (dict_keys d)"
  by (cases "dict_get d k") (auto simp: dict_get_default_def dict_keys_get)

lemma timer_run_Cons: "timer_run (now # nows) s = timer_run nows (timer_step now s)"
  by (simp add: timer_run_def)

lemma queued_kept:
  assumes "timely k (now # nows) s" "l \<in> set (dict_get_default (locks s) (At k) [])" "nextcount s \<noteq> k"
  shows "l \<in> set (dict_get_default (locks (timer_step now s)) (At k) [])"
  using timely_step(1)[OF assms(1) slot_is_key[OF assms(2)] assms(3)] assms(2,3)
  by (simp add: dict_get_default_simps)

lemma ready_released:
  assumes "timely k nows s" "l \<in> set (dict_get_default (locks s) (At k) [])" "dict_wf (locks s)"
    and "At (nextcount s) = Min (set (dict_keys (locks s)))" "length (due k s) \<le> length nows"
  shows "l \<notin> held (timer_run nows s)"
  using assms
proof (induction nows arbitrary: s)
  case Nil
  then show ?case using slot_is_key by (force simp: due_def filter_empty_conv)
next
  case (Cons now nows)
  have key: "At k \<in> set (dict_keys (locks s))" by (rule slot_is_key) (rule Cons.prems(2))
  show ?case
  proof (cases "nextcount s = k")
    case True
    with Cons.prems(1,2) have "l \<notin> held (timer_step now s)" by (intro released_now) simp_all
    then show ?thesis using timer_run_held by (auto simp: timer_run_Cons)
  next
    case False
    note step = timely_step[OF Cons.prems(1) key False]
    have first: "At (nextcount s) \<in> set (due k s)"
    proof -
      have "finite (set (dict_keys (locks s)))" "set (dict_keys (locks s)) \<noteq> {}" using key by auto
      then show ?thesis using Cons.prems(4) key by (simp add: due_def)
    qed
    note d = due_del[OF Cons.prems(3) step(1), of k]
    have "length (due k (timer_step now s)) = card (set (due k s) - {At (nextcount s)})"
      using d by (simp add: due_length)
    also have "\<dots> = length (due k s) - 1"
      using first Cons.prems(3) by (simp add: due_length)
    finally have "length (due k (timer_step now s)) \<le> length nows" using Cons.prems(5) by simp
    then have "l \<notin> held (timer_run nows (timer_step now s))"
      using Cons.prems(1) queued_kept[OF Cons.prems(1,2) False] d step(2)
      by (intro Cons.IH) (auto split: timer_thread.splits)
    then show ?thesis by (simp add: timer_run_Cons)
  qed
qed

text \<open>
  C33. The timer comes to every queued slot. However the queue looks, a lock queued in a slot
  is unlocked after at most one iteration more than there are slots up to that one,
  if in each of them the clock is late enough for the slot.
\<close>

theorem timer_releases_in_time:
  assumes "dict_wf (locks s)" and "l \<in> set (dict_get_default (locks s) (At k) [])"
    and "timely k nows s" and "length (due k s) < length nows"
  shows "l \<notin> held (timer_run nows s)"
proof (cases nows)
  case Nil
  with assms(4) show ?thesis by simp
next
  case (Cons now rest)
  have key: "At k \<in> set (dict_keys (locks s))" by (rule slot_is_key) (rule assms(2))
  show ?thesis
  proof (cases "nextcount s = k")
    case True
    with assms Cons have "l \<notin> held (timer_step now s)" by (intro released_now) simp_all
    then show ?thesis using timer_run_held by (auto simp: Cons timer_run_Cons)
  next
    case False
    note t = assms(3)[unfolded Cons]
    note step = timely_step[OF t key False]
    note d = due_del[OF assms(1) step(1), of k]
    have "card (set (due k (timer_step now s))) \<le> card (set (due k s))"
      using d by (intro card_mono) auto
    then have "length (due k (timer_step now s)) \<le> length rest"
      using assms(1,4) d by (simp add: due_length Cons)
    then have "l \<notin> held (timer_run rest (timer_step now s))"
      using t queued_kept[OF t assms(2) False] d step(2)
      by (intro ready_released) (auto split: timer_thread.splits)
    then show ?thesis by (simp add: Cons timer_run_Cons)
  qed
qed

lemma timer_releases_in_time_witness:
  "0 \<notin> held (timer_run [0, 1 / 16] (demo_sched 0 (Looping 0) [(At 50, [0])] {0}))"
proof -
  let ?s = "demo_sched 0 (Looping 0) [(At 50, [0])] {0}"
  let ?nx = "fadd 0 (fmul tick (float_of_int 50))"
  let ?s' = "demo_sched 50 (Looping ?nx) [(At 50, [0])] {0}"
  have r: "release_due ?s = ?s" "release_due ?s' = demo_sched 50 (Looping ?nx) [] {}"
    by (simp_all add: release_due_def) (simp_all add: demo_sched_def)
  have a: "adjust_clock 0 0 ?s = ?s" by (simp add: adjust_clock_def fsub_def timeshiftlimit_def)
  have s': "timer_step 0 ?s = ?s'"
    by (simp add: timer_step_def timer_iteration_def r a demo_max_ticks Let_def)
      (simp add: demo_sched_def dict_keys_def earliest_def min_def)
  have "\<not> timeshiftlimit < \<bar>fsub (1 / 16) ?nx\<bar>" by code_simp
  then have a': "adjust_clock (1 / 16) ?nx (demo_sched 50 (Looping ?nx) [] {}) = demo_sched 50 (Looping ?nx) [] {}"
    by (simp add: adjust_clock_def)
  have "py_trunc (fdiv (fdiv (fsub (fadd (1 / 16) maxsleep) 0) 1) tick) = 162" by code_simp
  then have m': "max_ticks (1 / 16) (demo_sched 50 (Looping ?nx) [] {}) = Inr 162"
    by (simp add: max_ticks_def tick_count_def) (simp add: demo_sched_def)
  have "timely 50 [0, 1 / 16] ?s"
    by (simp add: r a s' a' m' demo_max_ticks)
  moreover have "dict_wf (locks ?s)" by simp
  moreover have "length (due 50 ?s) = 1" by (simp add: due_def dict_keys_def)
  ultimately show ?thesis by (intro timer_releases_in_time[of _ 0 50]) simp_all
qed

subsection \<open>The grid and the count\<close>

text \<open>
  C34. A task runs on a grid. When its thread queues its lock again, the slot differs from
  the first one by a multiple of the task's period in ticks, is not before the current
  count, and is the next such slot or the one the task was already due in: delays of the
  method or of the clock never shift the grid.
\<close>

theorem rearmed_on_grid:
  assumes "sched_run z new_system evs y" and "Armed l k0 (Some r) \<in> set evs"
    and "threads y l = Some t" and "sched_step z y (Armed l k None) y'"
  shows "k mod t_frequency t = k0 mod t_frequency t \<and> nextcount (sched y) \<le> k
    \<and> k < max (t_nextslot t + 1) (nextcount (sched y) + t_frequency t)"
proof -
  have ok: "lock_ok y" and f: "1 \<le> t_frequency t" "k0 mod t_frequency t = t_nextslot t mod t_frequency t"
    using sched_run_history[OF assms(1)] assms(2,3) unfolding known_def on_grid_def by blast+
  have "k = next_slot (nextcount (sched y)) (t_nextslot t) (t_frequency t)"
    using assms(4) ok assms(3) by (cases rule: sched_step.cases) (auto simp: lock_ok_def rearm_def loop_top_def Let_def)
  then show ?thesis
    using next_slot_grid[of "t_frequency t" "nextcount (sched y)" "t_nextslot t"] f by auto
qed

lemma rearmed_on_grid_witness:
  "(120::int) mod 30 = 0 mod 30 \<and> (100::int) \<le> 120 \<and> (120::int) < max (0 + 1) (100 + 30)"
  using rearmed_on_grid[OF demo_run, of 0 0 demo_request "demo_task 0 1 Rearming", OF _ _ demo_steps(8)]
  by (simp add: demo_history_def demo_system_def demo_task_def)

text \<open>
  C35. A task runs at most as often as asked. In every history the method of a task that was
  added with a count is called at most that often, whether or not calls fail.
\<close>

theorem invoked_at_most_count:
  assumes "sched_run z new_system evs y" and "Armed l k (Some r) \<in> set evs" and "r_repeats r = Some n"
  shows "int (count_list evs (Invoked l)) \<le> max 0 n"
proof -
  have k: "known evs y" and w: "within_count evs y" using sched_run_history[OF assms(1)] by auto
  obtain t where "threads y l = Some t" using known_lt[OF k] assms(2) by blast
  with w assms(2,3) show ?thesis by (force simp: within_count_def budget_def)
qed

lemma invoked_at_most_count_witness:
  "int (count_list demo_history (Invoked 0)) \<le> max 0 2"
  by (rule invoked_at_most_count[OF demo_run, of 0 0 demo_request]) (simp_all add: demo_history_def demo_request_def)

subsection \<open>Removing and rescheduling a task\<close>

lemma sched_run_append:
  "sched_run z y' evs' y'' \<Longrightarrow> sched_run z y evs y' \<Longrightarrow> sched_run z y (evs @ evs') y''"
  by (induction rule: sched_run.induct) (auto simp flip: append_assoc intro: run_snoc)



text \<open>
  Rescheduling a task loses it. \<open>reschedule\<close> of a waiting task raises \<open>NameError\<close>, and
  from then on its thread waits forever: no continuation of the run unlocks its lock.
\<close>

theorem rescheduled_task_waits_forever:
  assumes "sched_run z new_system evs y" and "list_all (\<lambda>ev. \<not> is_rescheduled ev) evs"
    and "threads y l = Some t" and "t_point t = Waiting" and "l \<in> held (sched y)"
    and "reschedule (t_handle t) delay (sched y) = (s, res)"
    and "sched_run z (y\<lparr>sched := s\<rparr>) evs' y'"
  shows "res = Inl NameError \<and> threads y' l = Some t \<and> l \<in> held (sched y')"
proof -
  have inv: "sched_ok (sched y)" "thread_ok (sched y) l t" "l < fresh (sched y)"
    "\<And>h. dict_get (tasks (sched y)) h = Some l \<Longrightarrow> h = t_handle t"
    using sched_run_inv[OF assms(1,2)] assms(3) by (auto simp: sys_inv_def threads_ok_def)
  have current: "dict_get (tasks (sched y)) (t_handle t) = Some l"
    and q: "queued (sched y) l = once (At (t_nextslot t))"
    using inv(2) assms(4,5) by (auto simp: thread_ok_def armed_def is_current_def split: if_splits)
  have s: "s = (sched y)\<lparr>tasks := dict_del (t_handle t) (tasks (sched y)), locks := fst (clear_alarm l (locks (sched y)))\<rparr>"
    using reschedule_state[OF assms(6)] current by simp
  have "queued s l = never"
    using clear_alarm_once[of "locks (sched y)" l "At (t_nextslot t)"] inv(1) q
    by (auto simp: s queued_def sched_ok_def never_def fun_eq_iff)
  moreover have "lock_ok y" using sched_run_lock_ok[OF assms(1) new_system_lock_ok] .
  ultimately have "stuck l t (y\<lparr>sched := s\<rparr>)"
    using assms(3-5) inv(3,4) by (auto simp: stuck_def forgotten_def lock_ok_def s)
  then have "stuck l t y'" by (rule stuck_run[OF assms(7)])
  moreover have "res = Inl NameError"
    using assms(6) current by (auto simp: reschedule_def setalarm_locked_def split: prod.splits)
  ultimately show ?thesis by (simp add: stuck_def)
qed

lemma rescheduled_task_waits_forever_witness:
  "snd (reschedule 7 1 (demo_sched 100 (Looping demo_next) [(At 120, [0])] {0})) = Inl NameError"
  using rescheduled_task_waits_forever[OF run_snoc[OF demo_run demo_steps(8)], of 0 "demo_task 120 1 Waiting" 1, OF _ _ _ _ surjective_pairing run_nil]
  by (simp add: demo_history_def demo_system_def demo_task_def)

end
