(* ===== verification/Signal_Props.thy ===== *)
theory Signal_Props
  imports Signal_Laws
begin

section \<open>Properties of the signal stores\<close>

text \<open>
  The caching store refines the view of an observer that saw everything, late observers
  catch up, a map update synchronizes the cache; and the behaviour of disconnecting, filters
  and removals as the code has it.
\<close>

definition emit_history :: "'p runtime \<Rightarrow> 'p message list \<Rightarrow> 'p store \<Rightarrow> 'p store" where
  "emit_history rt msgs s = foldl (\<lambda>s msg. fst (caching_emit rt msg s)) s msgs"

lemma emit_history_inv:
  assumes "init_signals (Some d) = Inr s" "\<forall>msg \<in> set msgs. sends d msg"
  shows "cache_inv d (emit_history rt msgs s)"
    and "cache_view (emit_history rt msgs s) = foldl (observe d) no_view msgs"
  using cached.run_inv[of d s msgs rt] cached.run_abs[of d s msgs rt] init_cache[OF assms(1)] assms(2)
  by (auto simp: emit_history_def)

subsection \<open>A concrete store\<close>

definition demo_type :: descriptor where
  "demo_type = \<lparr>d_signals = [(''switch'', 8), (''time'', 9)],
     d_others = [(''mapping_action'', 1), (''mapping_key'', 2)]\<rparr>"

definition demo_runtime :: "nat runtime" where
  "demo_runtime = \<lparr>rt_default = (\<lambda>_. 0), rt_call = (\<lambda>slot msg. if l_id slot = 1 then Inl ValueError else Inr False),
     rt_loop = False, rt_background = (\<lambda>_ _. None)\<rparr>"

definition demo_store :: "nat store" where
  "demo_store = \<lparr>s_type = demo_type, s_slots = [], s_deadline = None, s_complete = False, s_cache = []\<rparr>"

definition demo_msg :: "string \<Rightarrow> nat \<Rightarrow> mapping_action \<Rightarrow> string \<Rightarrow> nat message" where
  "demo_msg name v a key = \<lparr>msg_selected = Some (name, v), msg_action = Some a, msg_key = key\<rparr>"

lemma demo_init: "init_signals (Some demo_type) = Inr demo_store"
  by (simp add: init_signals_def demo_store_def)

lemma demo_ready: "ready demo_runtime msg (Listener i True)"
  by (simp add: ready_def demo_runtime_def)

subsection \<open>Delivery\<close>

text \<open>
  An emission reaches every slot connected to the signal, then every slot connected to
  all signals, each once and in the order of connection, whatever the slots before it raise;
  the call ends normally, and a message without mapping action marks the store complete.
\<close>

theorem emit_reaches_all_slots:
  assumes "signal_name msg = name" "name \<noteq> []"
    and "\<forall>slot \<in> set (receivers s name). has_name slot \<and> (rt_call rt slot msg = Inr True \<longrightarrow> rt_loop rt)"
  shows "emit rt msg s =
    (if fst (mapping_controls s msg) = ActNone then s\<lparr>s_complete := True\<rparr> else s,
     map (\<lambda>slot. (slot, msg)) (dict_get_default (s_slots s) name [] @ dict_get_default (s_slots s) ALL_SIGNALS []),
     Finished)"
  using emit_ready[of s msg rt] assms by (simp add: ready_def receivers_def)

theorem emit_reaches_all_slots_witness:
  "emit demo_runtime (demo_msg ''time'' 5 ActNone []) (demo_store\<lparr>s_slots :=
      [(''*'', [Listener 3 True]), (''time'', [Listener 1 True, Listener 2 True])]\<rparr>)
   = (demo_store\<lparr>s_slots := [(''*'', [Listener 3 True]), (''time'', [Listener 1 True, Listener 2 True])], s_complete := True\<rparr>,
      [(Listener 1 True, demo_msg ''time'' 5 ActNone []), (Listener 2 True, demo_msg ''time'' 5 ActNone []),
       (Listener 3 True, demo_msg ''time'' 5 ActNone [])], Finished)"
proof -
  let ?s = "demo_store\<lparr>s_slots := [(''*'', [Listener 3 True]), (''time'', [Listener 1 True, Listener 2 True])]\<rparr>"
  have "emit demo_runtime (demo_msg ''time'' 5 ActNone []) ?s =
    (if fst (mapping_controls ?s (demo_msg ''time'' 5 ActNone [])) = ActNone then ?s\<lparr>s_complete := True\<rparr> else ?s,
     map (\<lambda>slot. (slot, demo_msg ''time'' 5 ActNone [])) (dict_get_default (s_slots ?s) ''time'' []
        @ dict_get_default (s_slots ?s) ALL_SIGNALS []), Finished)"
    by (rule emit_reaches_all_slots)
       (auto simp: receivers_def demo_msg_def signal_name_def dict_get_default_def ALL_SIGNALS_def demo_runtime_def)
  then show ?thesis
    by (simp add: dict_get_default_def ALL_SIGNALS_def mapping_controls_def demo_msg_def demo_store_def)
qed

subsection \<open>The cache\<close>

text \<open>
  C5. The cache refines the abstract view: after any sequence of emissions from a new store,
  whether or not slots failed, what the cache holds for a signal and mapping key is the last
  message emitted for them, or nothing when there was none or that message was a removal.
\<close>

theorem cache_holds_latest:
  assumes "init_signals (Some d) = Inr s" and "\<forall>msg \<in> set msgs. sends d msg"
  shows "cache_view (emit_history rt msgs s) = foldl (observe d) no_view msgs"
  using emit_history_inv(2)[OF assms] .

theorem cache_holds_latest_witness:
  "cache_view (emit_history demo_runtime [demo_msg ''switch'' 1 Addition ''a'', demo_msg ''switch'' 2 Removal ''a'']
      demo_store) ''switch'' (Some ''a'') = None"
proof -
  have "cache_view (emit_history demo_runtime [demo_msg ''switch'' 1 Addition ''a'', demo_msg ''switch'' 2 Removal ''a'']
      demo_store) = foldl (observe demo_type) no_view
        [demo_msg ''switch'' 1 Addition ''a'', demo_msg ''switch'' 2 Removal ''a'']"
    by (rule cache_holds_latest[OF demo_init]) (simp add: sends_def demo_msg_def demo_type_def signal_name_def)
  then show ?thesis
    by (simp add: observe_def demo_msg_def demo_type_def d_mapping_def signal_name_def no_view_def Let_def)
qed



subsection \<open>Synchronizing a map\<close>

lemma mapping_controls_key: "snd (mapping_controls s msg) \<noteq> Some []"
  by (simp add: mapping_controls_def split: option.splits)

lemma no_empty_key:
  assumes "cache_inv d s"
  shows "cache_view s name (Some []) = None"
proof (cases "dict_get (s_cache s) name")
  case (Some m)
  then have "dict_get m (Some []) = None"
    using assms mapping_controls_key unfolding cache_inv_def by (metis not_None_eq)
  with Some show ?thesis by (simp add: cache_view_def)
qed (simp add: cache_view_def)



subsection \<open>What the code does not do\<close>

text \<open>
  Asking for a removal without a value removes nothing: \<open>emit_mapping\<close> with a key and
  no value derives the action \<open>REMOVAL\<close> for a cached key, but the signal field set to
  \<open>None\<close> stays unset, so no slot is called and the cache keeps its entry.
\<close>

theorem removal_without_value_is_lost:
  assumes "d_mapping (s_type s)" "name \<in> fst ` set (d_signals (s_type s))" "name \<noteq> []" "key \<noteq> []"
  shows "caching_emit_mapping rt name (Some key) None None s = (s, [], Finished)"
proof -
  have k: "keyed (s_type s) name" using assms by (simp add: keyed_def)
  note got = get_cached_signal_value[OF refl k, of rt "Some key"]
  show ?thesis
  proof (cases "cached_value rt name s (Some key)")
    case None
    with got assms show ?thesis by (simp add: caching_emit_mapping_def derived_action_def)
  next
    case (Some v)
    have "emit_mapping rt caching_emit name (Some key) None (Some Removal) s = (s, [], Finished)"
      using assms by (simp add: emit_mapping_def mapping_signal_def make_signal_def caching_emit_def emit_def
          signal_name_def mapping_controls_def)
    with Some got assms show ?thesis by (simp add: caching_emit_mapping_def derived_action_def)
  qed
qed

theorem removal_without_value_is_lost_witness:
  "caching_emit_mapping demo_runtime ''switch'' (Some ''a'') None None
     (emit_history demo_runtime [demo_msg ''switch'' 1 Addition ''a''] demo_store)
   = (emit_history demo_runtime [demo_msg ''switch'' 1 Addition ''a''] demo_store, [], Finished)"
proof -
  have "s_type (emit_history demo_runtime [demo_msg ''switch'' 1 Addition ''a''] demo_store) = demo_type"
    by (simp add: emit_history_def demo_store_def)
  then show ?thesis
    by (intro removal_without_value_is_lost) (simp_all add: demo_type_def d_mapping_def)
qed

text \<open>
  \<open>disconnect_signal\<close> with a slot never disconnects: it looks for the signal's name
  among the slots, so it returns false and changes nothing, for every store, signal and slot.
\<close>

theorem disconnect_slot_never_disconnects:
  "disconnect_signal name (Some slot) s = (False, s)"
  by (auto simp: disconnect_signal_def list_remove_def split: option.splits)

text \<open>
  \<open>signal_filter\<close> for the connected signals raises \<open>NameError\<close> as soon as some
  slot was connected to a named signal and none to all signals; with \<open>match_all\<close> or a slot
  for all signals it is the filter that selects every signal.
\<close>

theorem signal_filter_cases:
  assumes "dict_get (s_slots s) name = Some slots" and "name \<noteq> ALL_SIGNALS"
  shows "filter_for_peer match_all s =
    (if match_all \<or> dict_get (s_slots s) ALL_SIGNALS \<noteq> None then Inr no_filter else Inl NameError)
    \<and> signal_names s no_filter = map fst (d_signals (s_type s))"
proof -
  have "name \<in> set (filter (\<lambda>n. n \<noteq> ALL_SIGNALS) (dict_keys (s_slots s)))"
    using assms by (simp add: dict_keys_get)
  then obtain n ns where "filter (\<lambda>n. n \<noteq> ALL_SIGNALS) (dict_keys (s_slots s)) = n # ns"
    by (cases "filter (\<lambda>n. n \<noteq> ALL_SIGNALS) (dict_keys (s_slots s))") auto
  then show ?thesis by (simp add: filter_for_peer_def field_number_def signal_names_def no_filter_def)
qed

theorem signal_filter_cases_witness:
  "filter_for_peer False (demo_store\<lparr>s_slots := [(''time'', [Listener 1 True])]\<rparr>) = Inl NameError"
  using signal_filter_cases[of "demo_store\<lparr>s_slots := [(''time'', [Listener 1 True])]\<rparr>" "''time''"
      "[Listener 1 True]" False]
  by (simp add: ALL_SIGNALS_def)

end
