(* ===== verification/Round_Robin.thy ===== *)
theory Round_Robin
  imports Py_Prelude "HOL-Library.Monad_Syntax"
begin

section \<open>Queues that discard their oldest item (\<open>core/roundrobin.py\<close>)\<close>

text \<open>
  \<open>RoundRobin.put_roundrobin\<close> relies on \<open>put_nowait\<close> and \<open>get_nowait\<close> of the queue
  class it is mixed into. That interface is the locale \<open>bounded_queue\<close>; \<open>queue.Queue\<close>
  of the standard library is its instance: a list with a capacity, where a capacity of zero or
  less means unbounded.
\<close>

subsection \<open>The retry loop\<close>

text \<open>
  One call, with what other threads do to the queue before each attempt as a parameter. Both
  handlers catch every exception. The loop may never end, so it is a partial function.
\<close>

partial_function (option) put_loop ::
    "('q \<Rightarrow> 'x \<Rightarrow> 'q option) \<Rightarrow> ('q \<Rightarrow> ('x \<times> 'q) option) \<Rightarrow> (nat \<Rightarrow> 'q \<Rightarrow> 'q) \<Rightarrow> nat \<Rightarrow> 'q \<Rightarrow> 'x \<Rightarrow> 'q option"
where
  [code]: "put_loop put get others i q x =
     (case put (others i q) x of
        Some q' \<Rightarrow> Some q'
      | None \<Rightarrow>
         (case get (others i q) of
            None \<Rightarrow> put_loop put get others (Suc i) (others i q) x
          | Some (_, q') \<Rightarrow> put_loop put get others (Suc i) q' x))"

definition put_roundrobin where
  "put_roundrobin put get others q x = put_loop put get others 0 q x"

subsection \<open>The interface of a bounded queue\<close>

locale bounded_queue =
  fixes put_nowait :: "'q \<Rightarrow> 'x \<Rightarrow> 'q option"
    and get_nowait :: "'q \<Rightarrow> ('x \<times> 'q) option"
    and items :: "'q \<Rightarrow> 'x list"
    and capacity :: "'q \<Rightarrow> int"
  assumes put_full: "put_nowait q x = None \<longleftrightarrow> 0 < capacity q \<and> capacity q \<le> int (length (items q))"
    and put_items: "put_nowait q x = Some q' \<Longrightarrow> items q' = items q @ [x] \<and> capacity q' = capacity q"
    and get_empty: "get_nowait q = None \<longleftrightarrow> items q = []"
    and get_items: "get_nowait q = Some (y, q') \<Longrightarrow> items q = y # items q' \<and> capacity q' = capacity q"
begin

definition in_bounds :: "'q \<Rightarrow> bool" where
  "in_bounds q \<longleftrightarrow> (0 < capacity q \<longrightarrow> int (length (items q)) \<le> capacity q)"

lemma put_loop_room:
  assumes "\<not> (0 < capacity (others i q) \<and> capacity (others i q) \<le> int (length (items (others i q))))"
  shows "\<exists>q'. put_loop put_nowait get_nowait others i q x = Some q'
     \<and> items q' = items (others i q) @ [x] \<and> capacity q' = capacity (others i q)"
proof -
  from assms obtain q' where q': "put_nowait (others i q) x = Some q'"
    using put_full[of "others i q" x] by (cases "put_nowait (others i q) x") auto
  with put_items[OF q'] show ?thesis by (subst put_loop.simps) simp
qed

lemma put_loop_full:
  assumes "0 < capacity (others i q)" "capacity (others i q) \<le> int (length (items (others i q)))"
  shows "\<exists>q'. items q' = tl (items (others i q)) \<and> capacity q' = capacity (others i q)
     \<and> put_loop put_nowait get_nowait others i q x = put_loop put_nowait get_nowait others (Suc i) q' x"
proof -
  have full: "put_nowait (others i q) x = None" using put_full assms by blast
  have "items (others i q) \<noteq> []" using assms by auto
  then obtain y q' where q': "get_nowait (others i q) = Some (y, q')"
    using get_empty by (cases "get_nowait (others i q)") auto
  have "put_loop put_nowait get_nowait others i q x = put_loop put_nowait get_nowait others (Suc i) q' x"
    by (subst put_loop.simps) (simp add: full q')
  with get_items[OF q'] show ?thesis by auto
qed

text \<open>Without interference the item goes in after at most one retry.\<close>

lemma put_roundrobin_alone:
  assumes "in_bounds q"
  shows "\<exists>q'. put_roundrobin put_nowait get_nowait (\<lambda>_ q. q) q x = Some q'
     \<and> items q' = (if 0 < capacity q \<and> int (length (items q)) = capacity q then tl (items q) else items q) @ [x]
     \<and> capacity q' = capacity q \<and> in_bounds q'"
proof (cases "0 < capacity q \<and> int (length (items q)) = capacity q")
  case True
  then obtain q1 where q1: "items q1 = tl (items q)" "capacity q1 = capacity q"
    "put_loop put_nowait get_nowait (\<lambda>_ q. q) 0 q x = put_loop put_nowait get_nowait (\<lambda>_ q. q) (Suc 0) q1 x"
    using put_loop_full[of "\<lambda>_ q. q" 0 q x] by auto
  have "items q \<noteq> []" using True by auto
  then have "\<not> (0 < capacity q1 \<and> capacity q1 \<le> int (length (items q1)))"
    using True q1 by (cases "items q") auto
  then obtain q2 where "put_loop put_nowait get_nowait (\<lambda>_ q. q) (Suc 0) q1 x = Some q2"
    "items q2 = items q1 @ [x]" "capacity q2 = capacity q1"
    using put_loop_room[of "\<lambda>_ q. q" "Suc 0" q1 x] by auto
  with q1 True \<open>items q \<noteq> []\<close> show ?thesis
    by (auto simp: put_roundrobin_def in_bounds_def)
next
  case False
  then have "\<not> (0 < capacity q \<and> capacity q \<le> int (length (items q)))"
    using assms by (auto simp: in_bounds_def)
  with put_loop_room[of "\<lambda>_ q. q" 0 q x] False assms show ?thesis
    by (auto simp: put_roundrobin_def in_bounds_def)
qed

text \<open>
  With other threads: whatever they do (within the capacity) in the first \<open>n\<close> rounds, the
  call returns if afterwards they leave the queue alone.
\<close>

lemma put_loop_returns:
  assumes quiet: "\<And>j q. n \<le> j \<Longrightarrow> others j q = q"
    and fair: "\<And>j q. capacity (others j q) = capacity q \<and> (in_bounds q \<longrightarrow> in_bounds (others j q))"
    and "in_bounds q" and "i \<le> n"
  shows "\<exists>q' ys. put_loop put_nowait get_nowait others i q x = Some q' \<and> items q' = ys @ [x]
     \<and> in_bounds q' \<and> capacity q' = capacity q"
  using assms(3,4)
proof (induction "n - i" arbitrary: i q)
  case 0
  then have "\<And>j q. i \<le> j \<Longrightarrow> others j q = q" using quiet by auto
  then have same: "others (i + j) = (\<lambda>q. q)" for j by (intro ext) simp
  show ?case
  proof (cases "0 < capacity q \<and> capacity q \<le> int (length (items q))")
    case True
    then obtain q1 where q1: "items q1 = tl (items q)" "capacity q1 = capacity q"
      "put_loop put_nowait get_nowait others i q x = put_loop put_nowait get_nowait others (Suc i) q1 x"
      using put_loop_full[of others i q x] same[of 0] by auto
    have "items q \<noteq> []" using True by auto
    then have "\<not> (0 < capacity q1 \<and> capacity q1 \<le> int (length (items q1)))"
      using "0.prems"(1) True q1 by (cases "items q") (auto simp: in_bounds_def)
    with put_loop_room[of others "Suc i" q1 x] same[of 1] q1 show ?thesis
      by (auto simp: in_bounds_def)
  next
    case False
    with put_loop_room[of others i q x] same[of 0] show ?thesis by (auto simp: in_bounds_def)
  qed
next
  case (Suc m)
  have ib: "in_bounds (others i q)" and cap: "capacity (others i q) = capacity q"
    using fair Suc.prems by auto
  show ?case
  proof (cases "0 < capacity (others i q) \<and> capacity (others i q) \<le> int (length (items (others i q)))")
    case True
    then obtain q1 where q1: "items q1 = tl (items (others i q))" "capacity q1 = capacity (others i q)"
      "put_loop put_nowait get_nowait others i q x = put_loop put_nowait get_nowait others (Suc i) q1 x"
      using put_loop_full[of others i q x] by auto
    then have "in_bounds q1" using ib by (auto simp: in_bounds_def)
    with Suc.hyps(1)[of "Suc i" q1] Suc.hyps(2) Suc.prems q1(2,3) cap show ?thesis by auto
  next
    case False
    with put_loop_room[of others i q x] ib cap show ?thesis by (auto simp: in_bounds_def)
  qed
qed

end

subsection \<open>The queue of the standard library\<close>

record 'x py_queue =
  q_items :: "'x list"
  q_maxsize :: int

definition q_put_nowait :: "'x py_queue \<Rightarrow> 'x \<Rightarrow> 'x py_queue option" where
  "q_put_nowait q x =
     (if 0 < q_maxsize q \<and> q_maxsize q \<le> int (length (q_items q)) then None
      else Some (q\<lparr>q_items := q_items q @ [x]\<rparr>))"

definition q_get_nowait :: "'x py_queue \<Rightarrow> ('x \<times> 'x py_queue) option" where
  "q_get_nowait q = (case q_items q of [] \<Rightarrow> None | y # ys \<Rightarrow> Some (y, q\<lparr>q_items := ys\<rparr>))"

interpretation pyqueue: bounded_queue q_put_nowait q_get_nowait q_items q_maxsize
  by unfold_locales (auto simp: q_put_nowait_def q_get_nowait_def split: list.splits if_splits)

text \<open>
  \<open>Queue.put_roundrobin\<close> holds a mutex, so no other such call is in between.
\<close>

definition queue_put_roundrobin :: "'x py_queue \<Rightarrow> 'x \<Rightarrow> 'x py_queue option" where
  "queue_put_roundrobin q x = put_roundrobin q_put_nowait q_get_nowait (\<lambda>_ q. q) q x"

definition keep_last :: "int \<Rightarrow> 'x list \<Rightarrow> 'x list" where
  "keep_last n xs = (if 0 < n then drop (length xs - nat n) xs else xs)"

lemma keep_last_snoc:
  "(if 0 < n \<and> int (length (keep_last n xs)) = n then tl (keep_last n xs) else keep_last n xs) @ [x]
     = keep_last n (xs @ [x])"
proof (cases "0 < n \<and> nat n \<le> length xs")
  case True
  then have "tl (drop (length xs - nat n) xs) = drop (Suc (length xs) - nat n) xs"
    by (simp add: tl_drop drop_Suc[symmetric] Suc_diff_le)
  moreover have "Suc 0 - nat n = 0" using True by linarith
  ultimately show ?thesis using True by (simp add: keep_last_def)
next
  case False
  then show ?thesis by (auto simp: keep_last_def not_le)
qed

text \<open>
  A bounded queue keeps the newest items: putting any sequence of items into an empty
  queue with \<open>put_roundrobin\<close> always returns, and the queue then holds the last
  \<open>maxsize\<close> of them in order (all of them when it is unbounded).
\<close>

theorem roundrobin_keeps_newest:
  "foldl (\<lambda>q x. Option.bind q (\<lambda>q. queue_put_roundrobin q x)) (Some \<lparr>q_items = [], q_maxsize = n\<rparr>) xs
     = Some \<lparr>q_items = keep_last n xs, q_maxsize = n\<rparr>"
proof (induction xs rule: rev_induct)
  case Nil
  then show ?case by (simp add: keep_last_def)
next
  case (snoc x xs)
  let ?q = "\<lparr>q_items = keep_last n xs, q_maxsize = n\<rparr>"
  have "pyqueue.in_bounds ?q" by (auto simp: pyqueue.in_bounds_def keep_last_def)
  from pyqueue.put_roundrobin_alone[OF this, of x] obtain q' where q':
    "queue_put_roundrobin ?q x = Some q'" "q_maxsize q' = n"
    "q_items q' = (if 0 < n \<and> int (length (keep_last n xs)) = n then tl (keep_last n xs) else keep_last n xs) @ [x]"
    unfolding queue_put_roundrobin_def by (metis py_queue.select_convs)
  then have "q' = \<lparr>q_items = keep_last n (xs @ [x]), q_maxsize = n\<rparr>"
    unfolding keep_last_snoc by (cases q') simp
  with snoc q'(1) show ?case by simp
qed

text \<open>
  Other threads cannot make the call lose its item or overflow the queue: if they respect
  the capacity and leave the queue alone from some round on, \<open>put_roundrobin\<close> returns, the
  item is the last one in the queue, and the queue is not above its capacity.
\<close>

theorem roundrobin_returns_under_interference:
  fixes others :: "nat \<Rightarrow> 'x py_queue \<Rightarrow> 'x py_queue"
  assumes "\<And>j q. n \<le> j \<Longrightarrow> others j q = q"
    and "\<And>j q. q_maxsize (others j q) = q_maxsize q
       \<and> (int (length (q_items q)) \<le> q_maxsize q \<longrightarrow> int (length (q_items (others j q))) \<le> q_maxsize q)"
    and "0 < q_maxsize q" and "int (length (q_items q)) \<le> q_maxsize q"
  shows "\<exists>q' ys. put_roundrobin q_put_nowait q_get_nowait others q x = Some q'
     \<and> q_items q' = ys @ [x] \<and> int (length (q_items q')) \<le> q_maxsize q"
proof -
  obtain q' ys where "put_loop q_put_nowait q_get_nowait others 0 q x = Some q'" "q_items q' = ys @ [x]"
    "pyqueue.in_bounds q'" "q_maxsize q' = q_maxsize q"
    using pyqueue.put_loop_returns[of n others q 0 x] assms by (auto simp: pyqueue.in_bounds_def)
  with assms(3) show ?thesis by (auto simp: put_roundrobin_def pyqueue.in_bounds_def)
qed

definition one_more :: "nat \<Rightarrow> nat py_queue \<Rightarrow> nat py_queue" where
  "one_more j q = (if j = 0 \<and> int (length (q_items q)) < q_maxsize q then q\<lparr>q_items := q_items q @ [0]\<rparr> else q)"

definition busy_queue :: "nat py_queue" where
  "busy_queue = \<lparr>q_items = [7], q_maxsize = 2\<rparr>"

theorem roundrobin_returns_under_interference_witness:
  "\<exists>q' ys. put_roundrobin q_put_nowait q_get_nowait one_more busy_queue 9 = Some q'
     \<and> q_items q' = ys @ [9] \<and> int (length (q_items q')) \<le> q_maxsize busy_queue"
proof (rule roundrobin_returns_under_interference)
  show "one_more j q = q" if "1 \<le> j" for j q using that by (simp add: one_more_def)
qed (auto simp: one_more_def busy_queue_def)

end
