(* ===== verification/Enum_Names.thy ===== *)
theory Enum_Names
  imports Py_Prelude
begin

section \<open>Names of native enumerations (\<open>core/stringutils/common_prefix.py\<close>, \<open>protobuf/utils/enum.py\<close>)\<close>

text \<open>
  \<open>native_enum_from_proto\<close> strips the prefix that \<open>common_prefix\<close> finds from the
  symbols of a protobuf enumeration. The delimiter is one character.
\<close>

subsection \<open>The functions\<close>

text \<open>One round of the loop: the parts of the prefix that the next symbol has at the same place.\<close>

definition agree :: "string list \<Rightarrow> string list \<Rightarrow> string list" where
  "agree prefix_parts symbol_parts = map fst (filter (\<lambda>(p, q). p = q) (zip prefix_parts symbol_parts))"

definition common_prefix :: "string list \<Rightarrow> char \<Rightarrow> nat \<times> string" where
  "common_prefix symbols delimiter =
     (case map (split_on delimiter) symbols of
        [] \<Rightarrow> (0, [])
      | first # rest \<Rightarrow>
         (let prefix_parts = foldl agree first rest in
          (sum_list (map (\<lambda>part. length part + 1) prefix_parts), join_with [delimiter] prefix_parts)))"

text \<open>
  \<open>IntEnum(name, items)\<close> raises \<open>TypeError\<close> when a name is used twice.
\<close>

definition native_enum_from_proto :: "(string \<times> int) list \<Rightarrow> bool \<Rightarrow> (string \<times> int) list result" where
  "native_enum_from_proto items strip_common_prefix =
     (let symbols = (if strip_common_prefix
            then map (\<lambda>(key, v). (drop (fst (common_prefix (map fst items) CHR ''_'')) key, v)) items
            else items)
      in if distinct (map fst symbols) then Inr symbols else Inl TypeError)"

subsection \<open>Laws\<close>

fun is_prefix :: "'a list \<Rightarrow> 'a list \<Rightarrow> bool" where
  "is_prefix [] ys = True"
| "is_prefix (x # xs) [] = False"
| "is_prefix (x # xs) (y # ys) = (x = y \<and> is_prefix xs ys)"

lemma is_prefix_append: "is_prefix xs ys \<longleftrightarrow> (\<exists>zs. ys = xs @ zs)"
  by (induction xs ys rule: is_prefix.induct) auto

lemma join_with_append:
  "qs \<noteq> [] \<Longrightarrow> ps \<noteq> [] \<Longrightarrow> join_with d (ps @ qs) = join_with d ps @ d @ join_with d qs"
proof (induction ps)
  case (Cons p ps)
  then show ?case by (cases ps) (auto simp: join_with_Cons)
qed simp

lemma join_with_length:
  "ps \<noteq> [] \<Longrightarrow> length (join_with [d] ps) + 1 = sum_list (map (\<lambda>p. length p + 1) ps)"
proof (induction ps)
  case (Cons p ps)
  then show ?case by (cases ps) auto
qed simp

text \<open>A symbol whose parts start with the given parts, followed by more.\<close>

lemma symbol_split:
  assumes "split_on d s = ps @ qs" "ps \<noteq> []" "qs \<noteq> []"
  shows "s = join_with [d] ps @ d # join_with [d] qs"
  using join_split_on[of d s] join_with_append[OF assms(3,2), of "[d]"] assms(1) by simp

lemma common_prefix_single: "common_prefix [s] d = (length s + 1, s)"
  using join_with_length[of "split_on d s" d] by (simp add: common_prefix_def join_split_on)

text \<open>
  The symbols agree on an initial segment \<open>ps\<close> of their parts and nowhere else: what the
  documentation calls the common prefix.
\<close>

definition prefixed_by :: "char \<Rightarrow> string list \<Rightarrow> string list \<Rightarrow> bool" where
  "prefixed_by d ps symbols \<longleftrightarrow>
     foldl agree (split_on d (hd symbols)) (map (split_on d) (tl symbols)) = ps
     \<and> (\<forall>s \<in> set symbols. is_prefix ps (split_on d s) \<and> length ps < length (split_on d s))"

lemma common_prefix_prefixed:
  assumes "symbols \<noteq> []" "prefixed_by d ps symbols"
  shows "common_prefix symbols d = (sum_list (map (\<lambda>p. length p + 1) ps), join_with [d] ps)"
  using assms by (cases symbols) (simp_all add: common_prefix_def prefixed_by_def)

lemma prefixed_symbol:
  assumes "symbols \<noteq> []" "prefixed_by d ps symbols" "s \<in> set symbols"
  shows "take (fst (common_prefix symbols d)) s = (if ps = [] then [] else join_with [d] ps @ [d])"
proof (cases "ps = []")
  case True
  with common_prefix_prefixed[OF assms(1,2)] show ?thesis by simp
next
  case False
  obtain qs where qs: "split_on d s = ps @ qs" "qs \<noteq> []"
    using assms(2,3) by (auto simp: prefixed_by_def is_prefix_append)
  have "fst (common_prefix symbols d) = length (join_with [d] ps @ [d])"
    using common_prefix_prefixed[OF assms(1,2)] join_with_length[OF False, of d] by simp
  moreover have "s = (join_with [d] ps @ [d]) @ join_with [d] qs"
    using symbol_split[OF qs(1) False qs(2)] by simp
  ultimately have "take (fst (common_prefix symbols d)) s = join_with [d] ps @ [d]"
    by (metis append_eq_conv_conj)
  with False show ?thesis by simp
qed

lemma map_keys_zip: "map (\<lambda>(k, v). (f k, v)) xs = zip (map f (map fst xs)) (map snd xs)"
  by (induction xs) auto

text \<open>
  When the symbols of an enumeration agree on their leading words and on nothing after
  them, the native enumeration keeps every value, and each of its names is the symbol without
  those words: putting the words and the delimiter back gives the symbol. So distinct symbols
  keep distinct names and the conversion never fails.
\<close>

theorem native_enum_strips_prefix:
  assumes "items \<noteq> []" and "distinct (map fst items)" and "prefixed_by CHR ''_'' ps (map fst items)"
  shows "\<exists>names. native_enum_from_proto items True = Inr (zip names (map snd items))
     \<and> map (\<lambda>n. (if ps = [] then [] else join_with ''_'' ps @ ''_'') @ n) names = map fst items"
proof -
  let ?n = "fst (common_prefix (map fst items) CHR ''_'')"
  define pre where "pre = (if ps = [] then [] else join_with ''_'' ps @ ''_'')"
  have restore: "pre @ drop ?n s = s" if "s \<in> set (map fst items)" for s
    using prefixed_symbol[OF _ assms(3) that] append_take_drop_id[of ?n s] assms(1)
    unfolding pre_def by simp
  let ?names = "map (drop ?n) (map fst items)"
  have inj: "inj_on (drop ?n) (set (map fst items))" 
  proof (rule inj_onI)
    fix s t
    assume "s \<in> set (map fst items)" "t \<in> set (map fst items)" "drop ?n s = drop ?n t"
    then show "s = t" using restore[of s] restore[of t] by argo
  qed
  have "map (\<lambda>(key, v). (drop ?n key, v)) items = zip ?names (map snd items)"
    by (rule map_keys_zip)
  moreover have "map fst (map (\<lambda>(key, v). (drop ?n key, v)) items) = ?names"
    by (simp add: case_prod_unfold comp_def)
  moreover have "distinct ?names"
    using distinct_map[of "drop ?n" "map fst items", THEN iffD2, OF conjI, OF assms(2) inj] .
  ultimately have "native_enum_from_proto items True = Inr (zip ?names (map snd items))"
    by (simp add: native_enum_from_proto_def Let_def)
  moreover have "map (\<lambda>n. pre @ n) ?names = map fst items"
    unfolding map_map comp_def by (rule map_cong[OF refl], rule restore) auto
  ultimately show ?thesis unfolding pre_def by blast
qed

theorem native_enum_strips_prefix_witness:
  "\<exists>names. native_enum_from_proto [(''MAP_NONE'', 0), (''MAP_ADDITION'', 1)] True = Inr (zip names [0, 1])
     \<and> map (\<lambda>n. (if [''MAP''] = [] then [] else join_with ''_'' [''MAP''] @ ''_'') @ n) names = [''MAP_NONE'', ''MAP_ADDITION'']"
  using native_enum_strips_prefix[of "[(''MAP_NONE'', 0), (''MAP_ADDITION'', 1)]" "[''MAP'']"]
  by (simp add: prefixed_by_def agree_def)

text \<open>
  The words need not be leading ones: parts that agree at the same place are kept even
  after a difference, so the length can exceed any common prefix; and the only symbol of an
  enumeration loses its whole name.
\<close>

theorem common_prefix_overreach:
  "common_prefix [''A_X_C'', ''A_Y_C''] CHR ''_'' = (4, ''A_C'')
   \<and> native_enum_from_proto [(s, v)] True = Inr [([], v)]"
proof
  show "common_prefix [''A_X_C'', ''A_Y_C''] CHR ''_'' = (4, ''A_C'')" by code_simp
  show "native_enum_from_proto [(s, v)] True = Inr [([], v)]"
    by (simp add: native_enum_from_proto_def common_prefix_single)
qed

end
