(* ===== verification/Py_Regex.thy ===== *)
theory Py_Regex
  imports Py_Prelude
begin

section \<open>Regular expressions with groups\<close>

text \<open>
  The part of Python's \<open>re\<close> that the patterns of the sources use: classes, greedy
  repetition of a class, options, alternatives, groups and the end anchor. A match is found
  by backtracking: \<open>attempts\<close> lists the ways to match a prefix of the text in the order in
  which they are tried, each with the text that is left and the groups so far.
\<close>

datatype regex =
    Class "char \<Rightarrow> bool"
  | Many "char \<Rightarrow> bool" nat
  | Seq regex regex
  | Alt regex regex
  | Opt regex
  | Group nat regex
  | Blank
  | EndOfText

type_synonym groups = "(nat, string) dict"
type_synonym attempt = "string \<times> groups"

text \<open>What a greedy repetition of a class may leave, the longest match first.\<close>

fun runs :: "(char \<Rightarrow> bool) \<Rightarrow> string \<Rightarrow> string list" where
  "runs p [] = [[]]"
| "runs p (c # cs) = (if p c then runs p cs @ [c # cs] else [c # cs])"

definition at_end :: "string \<Rightarrow> bool" where
  "at_end s \<longleftrightarrow> s = [] \<or> s = [CHR 0x0A]"

primrec attempts :: "regex \<Rightarrow> attempt \<Rightarrow> attempt list" where
  "attempts (Class p) = (\<lambda>(s, g). case s of [] \<Rightarrow> [] | c # cs \<Rightarrow> if p c then [(cs, g)] else [])"
| "attempts (Many p n) = (\<lambda>(s, g). map (\<lambda>r. (r, g)) (filter (\<lambda>r. length r + n \<le> length s) (runs p s)))"
| "attempts (Seq a b) = (\<lambda>t. concat (map (attempts b) (attempts a t)))"
| "attempts (Alt a b) = (\<lambda>t. attempts a t @ attempts b t)"
| "attempts (Opt a) = (\<lambda>t. attempts a t @ [t])"
| "attempts (Group i a) = (\<lambda>t. map (\<lambda>(r, g). (r, dict_set i (take (length (fst t) - length r) (fst t)) g)) (attempts a t))"
| "attempts Blank = (\<lambda>t. [t])"
| "attempts EndOfText = (\<lambda>(s, g). if at_end s then [(s, g)] else [])"

text \<open>\<open>match\<close>, at the beginning of a text.\<close>

definition regex_match :: "regex \<Rightarrow> string \<Rightarrow> attempt option" where
  "regex_match r s = (case attempts r (s, []) of [] \<Rightarrow> None | t # _ \<Rightarrow> Some t)"

definition only :: "char \<Rightarrow> regex" where
  "only c = Class (\<lambda>x. x = c)"

definition one_of :: "string \<Rightarrow> regex" where
  "one_of cs = Class (\<lambda>x. x \<in> set cs)"

definition sequence :: "regex list \<Rightarrow> regex" where
  "sequence rs = foldr Seq rs Blank"

subsection \<open>The first attempt\<close>

text \<open>
  \<open>leads r t u\<close>: matching \<open>r\<close> at \<open>t\<close> first yields \<open>u\<close>. These rules follow one path
  through an expression when every first choice is the right one.
\<close>

definition leads :: "regex \<Rightarrow> attempt \<Rightarrow> attempt \<Rightarrow> bool" where
  "leads r t u \<longleftrightarrow> (\<exists>us. attempts r t = u # us)"

named_theorems lead

lemma leads_match: "leads r (s, []) u \<Longrightarrow> regex_match r s = Some u"
  by (auto simp: leads_def regex_match_def)

lemma leads_class [lead]: "p c \<Longrightarrow> leads (Class p) (c # cs, g) (cs, g)"
  by (simp add: leads_def)

lemma leads_only [lead]: "leads (only c) (c # cs, g) (cs, g)"
  by (simp add: only_def leads_class)

lemma leads_one_of [lead]: "c \<in> set cs' \<Longrightarrow> leads (one_of cs') (c # cs, g) (cs, g)"
  by (simp add: one_of_def leads_class)

lemma leads_seq [lead]: "leads a t u \<Longrightarrow> leads b u v \<Longrightarrow> leads (Seq a b) t v"
  by (auto simp: leads_def)

lemma leads_alt_left [lead]: "leads a t u \<Longrightarrow> leads (Alt a b) t u"
  by (auto simp: leads_def)

lemma leads_alt_right: "attempts a t = [] \<Longrightarrow> leads b t u \<Longrightarrow> leads (Alt a b) t u"
  by (auto simp: leads_def)

lemma leads_opt [lead]: "leads a t u \<Longrightarrow> leads (Opt a) t u"
  by (auto simp: leads_def)

lemma leads_opt_skip: "attempts a t = [] \<Longrightarrow> leads (Opt a) t t"
  by (simp add: leads_def)

lemma leads_group [lead]:
  "leads a (s, g) (r, h) \<Longrightarrow> leads (Group i a) (s, g) (r, dict_set i (take (length s - length r) s) h)"
  by (auto simp: leads_def)

lemma leads_blank [lead]: "leads Blank t t"
  by (simp add: leads_def)

lemma leads_end [lead]: "at_end s \<Longrightarrow> leads EndOfText (s, g) (s, g)"
  by (simp add: leads_def)

lemma leads_sequence_nil: "leads (sequence []) t t"
  by (simp add: sequence_def leads_blank)

lemma leads_sequence: "leads a t u \<Longrightarrow> leads (sequence as) u v \<Longrightarrow> leads (sequence (a # as)) t v"
  by (simp add: sequence_def leads_seq)

lemma attempts_sequence [simp]:
  "attempts (sequence []) t = [t]"
  "attempts (sequence (a # as)) t = concat (map (attempts (sequence as)) (attempts a t))"
  by (simp_all add: sequence_def)

lemma runs_first: "\<exists>rs. runs p s = dropWhile p s # rs"
proof (induction s)
  case (Cons c cs)
  then obtain rs where "runs p cs = dropWhile p cs # rs" by blast
  then show ?case by simp
qed simp

lemma length_drop_while: "length (dropWhile p s) + length (takeWhile p s) = length s"
  by (metis add.commute length_append takeWhile_dropWhile_id)

lemma leads_many [lead]:
  assumes "n \<le> length (takeWhile p s)"
  shows "leads (Many p n) (s, g) (dropWhile p s, g)"
proof -
  obtain rs where rs: "runs p s = dropWhile p s # rs" using runs_first by blast
  have "length (dropWhile p s) + n \<le> length s" using assms length_drop_while[of p s] by simp
  then show ?thesis by (simp add: leads_def rs)
qed

lemma takeWhile_stop: "list_all p xs \<Longrightarrow> (case ys of [] \<Rightarrow> True | y # _ \<Rightarrow> \<not> p y) \<Longrightarrow> takeWhile p (xs @ ys) = xs \<and> dropWhile p (xs @ ys) = ys"
  by (induction xs) (auto split: list.splits)

lemma leads_group_prefix:
  "leads a (xs @ ys, g) (ys, h) \<Longrightarrow> leads (Group i a) (xs @ ys, g) (ys, dict_set i xs h)"
  using leads_group[of a "xs @ ys" g ys h i] by simp

lemma leads_digits:
  "ds \<noteq> [] \<Longrightarrow> list_all p ds \<Longrightarrow> (case ys of [] \<Rightarrow> True | y # _ \<Rightarrow> \<not> p y) \<Longrightarrow>
    leads (Group i (Many p 1)) (ds @ ys, g) (ys, dict_set i ds g)"
  using leads_many[of 1 p "ds @ ys" g] takeWhile_stop[of p ds ys]
  by (intro leads_group_prefix) (simp add: Suc_le_eq)

subsection \<open>What every attempt satisfies\<close>

text \<open>Nothing is invented: the text left is a suffix, and groups hold parts of the text.\<close>

lemma runs_suffix: "r \<in> set (runs p s) \<Longrightarrow> \<exists>m. s = m @ r \<and> list_all p m"
proof (induction s)
  case (Cons c cs)
  show ?case
  proof (cases "p c \<and> r \<in> set (runs p cs)")
    case True
    with Cons.IH obtain m where "cs = m @ r" "list_all p m" by blast
    with True have "c # cs = (c # m) @ r \<and> list_all p (c # m)" by simp
    then show ?thesis by blast
  next
    case False
    with Cons.prems have "r = c # cs" by (auto split: if_splits)
    then show ?thesis by (intro exI[of _ "[]"]) simp
  qed
qed simp

lemma attempts_suffix: "u \<in> set (attempts r t) \<Longrightarrow> \<exists>m. fst t = m @ fst u"
proof (induction r arbitrary: t u)
  case (Many p n)
  then show ?case using runs_suffix by (force split: prod.splits)
next
  case (Seq a b)
  then obtain v where "v \<in> set (attempts a t)" "u \<in> set (attempts b v)" by auto
  with Seq.IH obtain m k where "fst t = m @ fst v" "fst v = k @ fst u" by blast
  then show ?case by (intro exI[of _ "m @ k"]) simp
qed (fastforce split: prod.splits list.splits if_splits)+

lemma regex_match_suffix: "regex_match r s = Some (rest, g) \<Longrightarrow> length rest \<le> length s"
  using attempts_suffix[of "(rest, g)" r "(s, [])"]
  by (auto simp: regex_match_def split: list.splits)

end
