(* ===== verification/Expander.thy ===== *)
theory Expander
  imports Py_Regex Py_Num
begin

section \<open>Expanding placeholders in text (\<open>core/stringutils/stringexpander.py\<close>)\<close>

text \<open>
  \<open>Expander.substitute\<close> replaces \<open>${KEY}\<close>, \<open>$[EXPR]\<close> and \<open>$(COMMAND)\<close> in a text, or in
  the first line of a stream of which further lines are read when a line ends with a
  backslash. The text from the current position on stands for the text and the position.
  Running a command, evaluating an expression and the modules it imports are parameters, as
  are objects other than strings, numbers, booleans and \<open>None\<close>.
\<close>

subsection \<open>Values\<close>

datatype 'v substitution = NoObject | BoolObject bool | IntObject int | StrObject string | OtherObject 'v

type_synonym 'v substitutions = "(string, 'v substitution) dict"

text \<open>
  \<open>ex_wide\<close> is the text of a code above 255, which a \<open>char\<close> cannot hold.
\<close>

record 'v expander_env =
  ex_str :: "'v \<Rightarrow> string result"
  ex_bool :: "'v \<Rightarrow> bool result"
  ex_split :: "string \<Rightarrow> string list result"
  ex_run :: "string list \<Rightarrow> 'v substitutions \<Rightarrow> string result"
  ex_module :: "string \<Rightarrow> 'v substitutions"
  ex_eval :: "string \<Rightarrow> 'v substitutions \<Rightarrow> 'v substitution result"
  ex_wide :: "nat \<Rightarrow> string"

fun object_text :: "'v expander_env \<Rightarrow> 'v substitution \<Rightarrow> string result" where
  "object_text env NoObject = Inr ''None''"
| "object_text env (BoolObject b) = Inr (if b then ''True'' else ''False'')"
| "object_text env (IntObject n) = Inr (string_of_int n)"
| "object_text env (StrObject s) = Inr s"
| "object_text env (OtherObject v) = ex_str env v"

subsection \<open>Tokens\<close>

datatype token_kind = BACKSLASH | SUBEXPRESSION | SUB_NESTED | SUB_END

definition backslash :: char where "backslash = CHR 0x5C"

text \<open>
  \<open>search_token\<close> finds the leftmost token: the text before it, its kind, its text, and the
  text after it. Closing brackets are tokens only inside a bracket.
\<close>

definition token_at :: "bool \<Rightarrow> string \<Rightarrow> (token_kind \<times> string \<times> string) option" where
  "token_at inner s =
     (case s of
        [] \<Rightarrow> None
      | c # cs \<Rightarrow>
          (if c = backslash then Some (BACKSLASH, [c], cs)
           else if c = CHR ''$'' \<and> cs \<noteq> [] \<and> hd cs \<in> set ''{[('' then Some (SUBEXPRESSION, [c, hd cs], tl cs)
           else if c \<in> set ''{[('' then Some (SUB_NESTED, [c], cs)
           else if inner \<and> c \<in> set ''}])'' then Some (SUB_END, [c], cs)
           else None))"

fun search_token :: "bool \<Rightarrow> string \<Rightarrow> (string \<times> token_kind \<times> string \<times> string) option" where
  "search_token inner [] = None"
| "search_token inner (c # cs) =
     (case token_at inner (c # cs) of
        Some (kind, token, rest) \<Rightarrow> Some ([], kind, token, rest)
      | None \<Rightarrow> map_option (\<lambda>(intro, t). (c # intro, t)) (search_token inner cs))"

definition end_tokens :: "(string, string) dict" where
  "end_tokens = [(''${'', ''}''), (''$['', '']''), (''$('', '')''), (''{'', ''}''), (''['', '']''), (''('', '')'')]"

subsection \<open>Reading lines\<close>

text \<open>A stream is the list of its further lines; \<open>None\<close> when the input is a string.\<close>

type_synonym stream = "string list option"

definition readLine :: "stream \<Rightarrow> (string \<times> stream) result" where
  "readLine instream =
     (case instream of
        None \<Rightarrow> Inl EOFError
      | Some [] \<Rightarrow> Inl EOFError
      | Some (l # ls) \<Rightarrow> if l = [] then Inl EOFError else Inr (l, Some ls))"

subsection \<open>Backslashes\<close>

text \<open>\<open>\s*(?:\n|$)\<close>: white space up to the end of the text, or else to its last new line.\<close>

definition eol_match :: "string \<Rightarrow> string option" where
  "eol_match s =
     (let white = takeWhile is_space s; rest = dropWhile is_space s in
      if rest = [] then Some []
      else if CHR 0x0A \<in> set white then Some (rev (takeWhile (\<lambda>c. c \<noteq> CHR 0x0A) (rev white)) @ rest)
      else None)"

definition is_octal :: "char \<Rightarrow> bool" where
  "is_octal c \<longleftrightarrow> is_digit c \<and> digit_val c < 8"

definition is_hex :: "char \<Rightarrow> bool" where
  "is_hex c \<longleftrightarrow> is_digit c \<or> c \<in> set ''abcdefABCDEF''"

definition hex_val :: "char \<Rightarrow> nat" where
  "hex_val c = (if is_digit c then digit_val c else (of_char c - 55) mod 32)"

text \<open>The escapes of one letter, as the string literal evaluates them.\<close>

definition letter_escapes :: "(char, nat) dict" where
  "letter_escapes = [(CHR ''0'', 0), (CHR ''a'', 7), (CHR ''b'', 8), (CHR ''n'', 10), (CHR ''f'', 12),
     (CHR ''r'', 13), (CHR ''t'', 9), (CHR ''v'', 11)]"

definition code_text :: "'v expander_env \<Rightarrow> nat \<Rightarrow> string" where
  "code_text env n = (if n < 256 then [char_of n] else ex_wide env n)"

text \<open>
  Three octal digits, \<open>x\<close> and two hexadecimal ones, or a letter; \<open>u\<close> with four or \<open>U\<close>
  with eight hexadecimal digits calls \<open>unichr\<close>, which Python 3 does not have; any other
  character stands for itself.
\<close>

definition unescape :: "'v expander_env \<Rightarrow> string \<Rightarrow> (string \<times> string) result" where
  "unescape env s =
     (if 3 \<le> length s \<and> list_all is_octal (take 3 s) then
        Inr (code_text env (64 * digit_val (s ! 0) + 8 * digit_val (s ! 1) + digit_val (s ! 2)), drop 3 s)
      else if 3 \<le> length s \<and> hd s = CHR ''x'' \<and> list_all is_hex (take 2 (tl s)) then
        Inr (code_text env (16 * hex_val (s ! 1) + hex_val (s ! 2)), drop 3 s)
      else case s of
        [] \<Rightarrow> Inl IndexError
      | c # cs \<Rightarrow>
          (case dict_get letter_escapes c of
             Some n \<Rightarrow> Inr ([char_of n], cs)
           | None \<Rightarrow>
               (if (c = CHR ''u'' \<and> 4 \<le> length cs \<and> list_all is_hex (take 4 cs))
                   \<or> (c = CHR ''U'' \<and> 8 \<le> length cs \<and> list_all is_hex (take 8 cs))
                then Inl NameError else Inr ([c], cs))))"

definition process_backslash :: "'v expander_env \<Rightarrow> string \<Rightarrow> stream \<Rightarrow> (string \<times> string \<times> stream) result" where
  "process_backslash env text_left instream =
     (case eol_match text_left of
        Some rest \<Rightarrow>
          (if rest = [] then
             (case readLine instream of
                Inl e \<Rightarrow> Inl ParseError
              | Inr (line, instream') \<Rightarrow> Inr ([], line, instream'))
           else Inr ([], rest, instream))
      | None \<Rightarrow> map_sum id (\<lambda>(arg, rest). (arg, rest, instream)) (unescape env text_left))"

subsection \<open>Variables\<close>

text \<open>
  The pattern \<open>_rx_var\<close>; its groups are numbered as in the source. The anchor at its
  beginning is left out: it is used with \<open>match\<close> from the start.
\<close>

definition is_sign :: "char \<Rightarrow> bool" where
  "is_sign c \<longleftrightarrow> c = CHR ''+'' \<or> c = CHR ''-''"

definition not_newline :: "char \<Rightarrow> bool" where
  "not_newline c \<longleftrightarrow> c \<noteq> CHR 0x0A"

definition blanks :: regex where "blanks = Many is_space 0"

definition rx_replace :: regex where
  "rx_replace = sequence [only (CHR ''/''), Group 5 (Opt (only (CHR ''/''))), Group 6 (Many (\<lambda>c. c \<noteq> CHR ''/'') 1),
     Opt (sequence [only (CHR ''/''), Group 7 (Many not_newline 0)])]"

definition rx_slice :: regex where
  "rx_slice = sequence [only (CHR '':''),
     Group 8 (sequence [Opt (Alt (sequence [Many is_space 1, Class is_sign]) blanks), Many is_digit 1]),
     blanks, Opt (only (CHR '':'')), blanks, Group 9 (sequence [Opt (Class is_sign), Many is_digit 0]),
     blanks, Opt (only (CHR '':'')), blanks, Group 10 (sequence [Opt (Class is_sign), Many is_digit 0]), blanks]"

definition rx_alternate :: regex where
  "rx_alternate = sequence [only (CHR '':''), Group 11 (Class is_sign), Group 12 (Many not_newline 0)]"

definition rx_assert :: regex where
  "rx_assert = sequence [only (CHR ''?''), Group 13 (Class is_sign), Opt (Group 14 (Many not_newline 0))]"

definition rx_ifelse :: regex where
  "rx_ifelse = sequence [Group 15 (only (CHR ''?'')), Group 16 (Many (\<lambda>c. c \<noteq> CHR '':'') 0), Opt (only (CHR '':'')),
     Group 17 (Many not_newline 0)]"

definition rx_name :: regex where
  "rx_name = Alt (Group 2 (Alt (Many is_digit 1) (only (CHR ''@''))))
     (sequence [Group 3 (Seq (Class is_word) (Many (\<lambda>c. is_word c \<or> c = CHR ''-'') 0)), blanks,
        Opt (sequence [only (CHR ''[''), Group 4 (Many is_word 0), only (CHR '']'')])])"

definition rx_var :: regex where
  "rx_var = sequence [Opt (Group 1 (only (CHR ''#''))), blanks, rx_name, blanks,
     Opt (Alt rx_replace (Alt rx_slice (Alt rx_alternate (Alt rx_assert rx_ifelse)))), EndOfText]"

text \<open>\<open>xs[start:stop:step]\<close>.\<close>

definition slice_bound :: "int \<Rightarrow> int \<Rightarrow> int \<Rightarrow> int \<Rightarrow> int" where
  "slice_bound n low high i = (let j = (if i < 0 then i + n else i) in max low (min high j))"

function slice_indices :: "int \<Rightarrow> int \<Rightarrow> int \<Rightarrow> int list" where
  "slice_indices i stop step =
     (if step = 0 \<or> (0 < step \<and> stop \<le> i) \<or> (step < 0 \<and> i \<le> stop) then []
      else i # slice_indices (i + step) stop step)"
  by pat_completeness auto
termination
  by (relation "measure (\<lambda>(i, stop, step). nat (if 0 < step then stop - i else i - stop))") auto

declare slice_indices.simps [simp del]

definition py_slice :: "int option \<Rightarrow> int option \<Rightarrow> int option \<Rightarrow> 'a list \<Rightarrow> 'a list result" where
  "py_slice start stop step xs =
     (let n = int (length xs); k = (case step of None \<Rightarrow> 1 | Some k \<Rightarrow> k);
          low = (if 0 < k then 0 else - 1); high = (if 0 < k then n else n - 1);
          a = (case start of None \<Rightarrow> (if 0 < k then low else high) | Some i \<Rightarrow> slice_bound n low high i);
          b = (case stop of None \<Rightarrow> (if 0 < k then high else low) | Some i \<Rightarrow> slice_bound n low high i)
      in if k = 0 then Inl ValueError else Inr (map (\<lambda>i. xs ! nat i) (slice_indices a b k)))"

text \<open>\<open>str.replace\<close> of a text that is not empty.\<close>

function replace_all :: "string \<Rightarrow> string \<Rightarrow> string \<Rightarrow> string" where
  "replace_all old new s =
     (if s = [] \<or> old = [] then s
      else if take (length old) s = old then new @ replace_all old new (drop (length old) s)
      else hd s # replace_all old new (tl s))"
  by pat_completeness auto
termination
  by (relation "measure (\<lambda>(old, new, s). length s)") (auto simp: less_diff_conv2 length_greater_0_conv[symmetric] simp del: length_greater_0_conv)

declare replace_all.simps [simp del]

text \<open>\<open>to_number\<close>: an integer in base 10, in the base of its prefix, or a float.\<close>

definition int_of_prefixed :: "string \<Rightarrow> int result" where
  "int_of_prefixed s =
     (let (neg, body) = split_sign (strip s);
          base = (if length body < 2 \<or> hd body \<noteq> CHR ''0'' then 0
                  else if body ! 1 \<in> set ''xX'' then 16 else if body ! 1 \<in> set ''oO'' then 8
                  else if body ! 1 \<in> set ''bB'' then 2 else 0);
          ds = drop 2 body;
          ds' = (if ds \<noteq> [] \<and> hd ds = CHR ''_'' then tl ds else ds);
          plain = filter (\<lambda>c. c \<noteq> CHR ''_'') ds';
          spaced = list_all (\<lambda>p. p \<noteq> []) (split_on (CHR ''_'') ds')
      in if base = 0 \<or> \<not> spaced \<or> \<not> list_all (\<lambda>c. is_hex c \<and> int (hex_val c) < base) plain then Inl ValueError
         else let n = foldl (\<lambda>n c. base * n + int (hex_val c)) 0 plain in Inr (if neg then - n else n))"

definition to_number :: "string \<Rightarrow> num option \<Rightarrow> num result" where
  "to_number v dflt =
     (case int_of_string v of
        Inr n \<Rightarrow> Inr (NInt n)
      | Inl _ \<Rightarrow>
          (case int_of_prefixed v of
             Inr n \<Rightarrow> Inr (NInt n)
           | Inl _ \<Rightarrow>
               (case float_of_string v of
                  Inr x \<Rightarrow> Inr (NFloat x)
                | Inl e \<Rightarrow> (case dflt of Some d \<Rightarrow> Inr d | None \<Rightarrow> Inl e))))"

text \<open>The default \<open>True\<close> is the number 1.\<close>

definition to_boolean :: "'v expander_env \<Rightarrow> 'v substitution \<Rightarrow> bool result" where
  "to_boolean env v =
     (case v of
        BoolObject b \<Rightarrow> Inr b
      | StrObject s \<Rightarrow>
          (if lower s \<in> {''true'', ''yes'', ''on''} then Inr True
           else if lower s \<in> {''false'', ''no'', ''off'', []} then Inr False
           else map_sum id (\<lambda>n. n \<noteq> NInt 0 \<and> n \<noteq> NFloat (Fin 0)) (to_number s (Some (NInt 1))))
      | NoObject \<Rightarrow> Inr False
      | IntObject n \<Rightarrow> Inr (n \<noteq> 0)
      | OtherObject x \<Rightarrow> ex_bool env x)"

text \<open>
  \<open>_getVariable\<close>. A group that is absent or empty is false; the searched text is replaced by
  a call of \<open>sub\<close>, which is not defined, when two slashes ask for a pattern; the exception for
  an invalid variable is looked up as an attribute that does not exist.
\<close>

definition group_text :: "groups \<Rightarrow> nat \<Rightarrow> string" where
  "group_text g i = dict_get_default g i []"

definition optional_int :: "string \<Rightarrow> int option result" where
  "optional_int s = (if s = [] then Inr None else map_sum id Some (int_of_string s))"

definition slice_text :: "string \<Rightarrow> string \<Rightarrow> string \<Rightarrow> string \<Rightarrow> string result" where
  "slice_text offset len step s =
     bind_result (int_of_string offset) (\<lambda>start.
     bind_result (optional_int len) (\<lambda>n.
     bind_result (optional_int step) (\<lambda>k. py_slice (Some start) (map_option ((+) start) n) k s)))"

definition getVariable :: "'v expander_env \<Rightarrow> string \<Rightarrow> 'v substitutions \<Rightarrow> string result" where
  "getVariable env identifier subs =
     (case regex_match rx_var identifier of
        None \<Rightarrow> Inl AttributeError
      | Some (rest, g) \<Rightarrow>
          (let raw = (case dict_get g 3 of None \<Rightarrow> NoObject | Some key \<Rightarrow> dict_get_default subs key NoObject);
               grp = group_text g
           in bind_result (if raw = NoObject then Inr [] else object_text env raw) (\<lambda>string.
              bind_result
                (if grp 6 \<noteq> [] then (if grp 5 \<noteq> [] then Inl NameError else Inr (replace_all (grp 6) (grp 7) string))
                 else if grp 8 \<noteq> [] then slice_text (grp 8) (grp 9) (grp 10) string
                 else Inr string) (\<lambda>string.
              let raw' = (if dict_get g 1 = None then raw else IntObject (int (length string)));
                  string' = (if dict_get g 1 = None then string else string_of_int (int (length string)))
              in if grp 13 \<noteq> [] then
                   map_sum id (\<lambda>b. if b = (grp 13 = ''+'') then grp 14 else []) (to_boolean env raw')
                 else if grp 15 \<noteq> [] then map_sum id (\<lambda>b. if b then grp 16 else grp 17) (to_boolean env raw')
                 else if grp 12 \<noteq> [] \<and> ((string' \<noteq> []) = (grp 11 = ''+'')) then Inr (grp 12)
                 else Inr string'))))"

subsection \<open>Commands and expressions\<close>

definition getCommandOutput :: "'v expander_env \<Rightarrow> string \<Rightarrow> 'v substitutions \<Rightarrow> string result" where
  "getCommandOutput env command subs =
     bind_result (ex_split env command) (\<lambda>args.
     bind_result (ex_run env args subs) (\<lambda>stdout. Inr (rev (dropWhile is_space (rev stdout)))))"

definition update_map :: "(string, 'v) dict \<Rightarrow> (string, 'v) dict \<Rightarrow> (string, 'v) dict" where
  "update_map d u = fold (\<lambda>(k, v). dict_set k v) u d"

definition getEvaluationResult :: "'v expander_env \<Rightarrow> string \<Rightarrow> 'v substitutions \<Rightarrow> 'v substitution result" where
  "getEvaluationResult env expression subs =
     (case ex_eval env expression
             (update_map (update_map (update_map [] (ex_module env ''math'')) (ex_module env ''re'')) subs) of
        Inl e \<Rightarrow> Inl ParseError
      | Inr v \<Rightarrow> Inr v)"

text \<open>What a subexpression stands for; \<open>None\<close> becomes the empty text.\<close>

definition evaluate :: "'v expander_env \<Rightarrow> 'v substitutions \<Rightarrow> string \<Rightarrow> string \<Rightarrow> string result" where
  "evaluate env subs start arg =
     (if start = ''$('' then getCommandOutput env arg subs
      else if start = ''${'' then getVariable env arg subs
      else bind_result (getEvaluationResult env arg subs)
             (\<lambda>raw. if raw = NoObject then Inr [] else object_text env raw))"

subsection \<open>Expansion\<close>

text \<open>
  Every call yields the expanded text, the text that is left, the end token that stopped it,
  if any, and the stream. \<open>rec\<close> expands up to the next end token.
\<close>

type_synonym expansion = "(string \<times> string \<times> string option \<times> stream) result"

definition check_end :: "string \<Rightarrow> string option \<Rightarrow> unit result" where
  "check_end start end_token =
     (case end_token of
        None \<Rightarrow> Inl ParseError
      | Some e \<Rightarrow> if dict_get end_tokens start = Some e then Inr () else Inl ParseError)"

definition process_subexpression ::
    "(string \<Rightarrow> stream \<Rightarrow> expansion option) \<Rightarrow> 'v expander_env \<Rightarrow> 'v substitutions \<Rightarrow> string \<Rightarrow> string \<Rightarrow> stream
     \<Rightarrow> (string \<times> string \<times> stream) result option" where
  "process_subexpression rec env subs start text_left instream =
     map_option (\<lambda>r. bind_result r (\<lambda>(arg, rest, end_token, instream').
       bind_result (check_end start end_token) (\<lambda>_.
         case evaluate env subs start arg of
           Inl e \<Rightarrow> Inl ParseError
         | Inr s \<Rightarrow> Inr (s, rest, instream'))))
       (rec text_left instream)"

definition process_sub_nested ::
    "(string \<Rightarrow> stream \<Rightarrow> expansion option) \<Rightarrow> string \<Rightarrow> string \<Rightarrow> stream \<Rightarrow> (string \<times> string \<times> stream) result option" where
  "process_sub_nested rec start text_left instream =
     map_option (map_sum id (\<lambda>(arg, rest, end_token, instream').
       (start @ arg @ (case end_token of None \<Rightarrow> [] | Some e \<Rightarrow> e), rest, instream')))
       (rec text_left instream)"

text \<open>
  \<open>_expandText\<close>. The fuel bounds the number of tokens on the way; \<open>None\<close> when it runs out.
\<close>

primrec expandText ::
    "'v expander_env \<Rightarrow> 'v substitutions \<Rightarrow> nat \<Rightarrow> bool \<Rightarrow> string \<Rightarrow> stream \<Rightarrow> expansion option" where
  "expandText env subs 0 = (\<lambda>inner text_left instream. None)"
| "expandText env subs (Suc fuel) = (\<lambda>inner text_left instream.
     case search_token inner text_left of
       None \<Rightarrow> Some (Inr (text_left, [], None, instream))
     | Some (intro, kind, token, rest) \<Rightarrow>
         if kind = SUB_END then Some (Inr (intro, rest, Some token, instream))
         else
           (case (case kind of
                BACKSLASH \<Rightarrow> Some (process_backslash env rest instream)
              | SUBEXPRESSION \<Rightarrow> process_subexpression (expandText env subs fuel True) env subs token rest instream
              | _ \<Rightarrow> process_sub_nested (expandText env subs fuel True) token rest instream) of
              None \<Rightarrow> None
            | Some (Inl e) \<Rightarrow> Some (Inl e)
            | Some (Inr (arg, rest', instream')) \<Rightarrow>
                map_option (map_sum id (\<lambda>(more, last). (intro @ arg @ more, last)))
                  (expandText env subs fuel inner rest' instream')))"

text \<open>What is left to read, one more than which is enough fuel.\<close>

definition unread :: "string \<Rightarrow> stream \<Rightarrow> nat" where
  "unread text_left instream = length text_left + (case instream of None \<Rightarrow> 0 | Some ls \<Rightarrow> length (concat ls))"

text \<open>\<open>substitute\<close>: the input is a string, a stream, or nothing.\<close>

datatype template = StrTemplate string | StreamTemplate "string list" | NoTemplate

definition substitute ::
    "'v expander_env \<Rightarrow> template \<Rightarrow> 'v substitutions \<Rightarrow> 'v substitutions \<Rightarrow> string result option" where
  "substitute env input substitutions kwargs =
     (case (case input of
              StrTemplate s \<Rightarrow> Inr (s, None)
            | StreamTemplate ls \<Rightarrow> readLine (Some ls)
            | NoTemplate \<Rightarrow> Inr ([], None)) of
        Inl e \<Rightarrow> Some (Inl e)
      | Inr (text_left, instream) \<Rightarrow>
          map_option (map_sum id fst)
            (expandText env (update_map kwargs substitutions) (Suc (unread text_left instream)) False
               text_left instream))"

subsection \<open>Escaping\<close>

text \<open>
  \<open>_escape\<close>. The last group of its pattern lacks brackets: it matches these ten
  characters as they stand, and \<open>ord\<close> of that text raises \<open>TypeError\<close>.
\<close>

definition escapes :: "(char, string) dict" where
  "escapes = [(CHR 0x0A, [backslash, CHR ''n'']), (CHR 0x0D, [backslash, CHR ''r'']), (CHR 0x09, [backslash, CHR ''t'']),
     (CHR 0x27, [backslash, CHR 0x27]), (CHR 0x22, [backslash, CHR 0x22]), (CHR ''$'', [backslash, CHR ''$'']),
     (backslash, [backslash, backslash])]"

definition unbracketed :: string where
  "unbracketed = [CHR 0x00] @ ''-x1F'' @ [CHR 0x7F] @ ''-xA0''"

function escape :: "string list \<Rightarrow> string \<Rightarrow> string result" where
  "escape keep [] = Inr []"
| "escape keep (c # cs) =
     (case dict_get escapes c of
        Some e \<Rightarrow> map_sum id ((@) (if [c] \<in> set keep then [c] else e)) (escape keep cs)
      | None \<Rightarrow>
          (if take 10 (c # cs) = unbracketed
           then (if unbracketed \<in> set keep then map_sum id ((@) unbracketed) (escape keep (drop 9 cs)) else Inl TypeError)
           else map_sum id ((#) c) (escape keep cs)))"
  by pat_completeness auto
termination
  by (relation "measure (\<lambda>(keep, s). length s)") auto

definition escape_text :: "string list \<Rightarrow> string \<Rightarrow> string \<Rightarrow> string result" where
  "escape_text keep quote s = map_sum id (\<lambda>t. quote @ t @ quote) (escape keep s)"

end
