(* ===== verification/Expander_Props.thy ===== *)
theory Expander_Props
  imports Expander
begin

section \<open>Properties of the text expander\<close>

text \<open>
  Expansion always returns: every call consumes a token, of the text or of a line that is
  read. Templates written with \<open>escape\<close> and references expand to what they stand for, and
  the forms of a reference do what the comments of the source say.
\<close>

subsection \<open>Totality\<close>

lemma token_at_length: "token_at inner s = Some (kind, token, rest) \<Longrightarrow> length rest < length s"
  by (auto simp: token_at_def split: list.splits if_splits)

lemma search_token_length:
  "search_token inner s = Some (intro, kind, token, rest) \<Longrightarrow> length rest < length s"
proof (induction s arbitrary: intro)
  case (Cons c cs)
  show ?case
  proof (cases "token_at inner (c # cs)")
    case None
    with Cons show ?thesis by fastforce
  next
    case (Some t)
    with Cons.prems show ?thesis by (auto dest: token_at_length split: prod.splits)
  qed
qed simp

lemma eol_match_length: "eol_match s = Some r \<Longrightarrow> length r \<le> length s"
proof -
  assume "eol_match s = Some r"
  moreover have "length (takeWhile (\<lambda>c. c \<noteq> CHR 0x0A) (rev (takeWhile is_space s))) + length (dropWhile is_space s) \<le> length s"
    using length_takeWhile_le[of "\<lambda>c. c \<noteq> CHR 0x0A" "rev (takeWhile is_space s)"] length_drop_while[of is_space s] by simp
  ultimately show ?thesis by (auto simp: eol_match_def Let_def split: if_splits)
qed

lemma unescape_length: "unescape env s = Inr (arg, rest) \<Longrightarrow> length rest \<le> length s"
  by (auto simp: unescape_def split: if_splits list.splits option.splits)

lemma readLine_unread: "readLine instream = Inr (line, instream') \<Longrightarrow> unread line instream' \<le> unread s instream"
  by (auto simp: readLine_def unread_def split: option.splits list.splits if_splits)

lemma unread_mono: "length r \<le> length s \<Longrightarrow> unread r instream \<le> unread s instream"
  by (simp add: unread_def)

lemma process_backslash_unread:
  "process_backslash env s instream = Inr (arg, rest, instream') \<Longrightarrow> unread rest instream' \<le> unread s instream"
  by (auto simp: process_backslash_def map_sum_def dest!: readLine_unread unescape_length eol_match_length
      intro: unread_mono split: option.splits if_splits sum.splits)

text \<open>The calls of \<open>expandText\<close>: with enough fuel each returns and leaves no more to read.\<close>

definition returns :: "nat \<Rightarrow> expansion option \<Rightarrow> bool" where
  "returns n r \<longleftrightarrow> (\<exists>x. r = Some x \<and> (\<forall>arg rest e instream. x = Inr (arg, rest, e, instream) \<longrightarrow> unread rest instream \<le> n))"

lemma process_subexpression_returns:
  assumes "returns n (rec s instream)"
  shows "\<exists>x. process_subexpression rec env subs start s instream = Some x
    \<and> (\<forall>arg rest instream'. x = Inr (arg, rest, instream') \<longrightarrow> unread rest instream' \<le> n)"
proof -
  obtain x where "rec s instream = Some x"
    "\<And>arg rest e instream'. x = Inr (arg, rest, e, instream') \<Longrightarrow> unread rest instream' \<le> n"
    using assms unfolding returns_def by blast
  then show ?thesis
    by (cases x) (auto simp: process_subexpression_def result_simps split: sum.splits)
qed

lemma process_sub_nested_returns:
  assumes "returns n (rec s instream)"
  shows "\<exists>x. process_sub_nested rec start s instream = Some x
    \<and> (\<forall>arg rest instream'. x = Inr (arg, rest, instream') \<longrightarrow> unread rest instream' \<le> n)"
proof -
  obtain x where "rec s instream = Some x"
    "\<And>arg rest e instream'. x = Inr (arg, rest, e, instream') \<Longrightarrow> unread rest instream' \<le> n"
    using assms unfolding returns_def by blast
  then show ?thesis by (cases x) (auto simp: process_sub_nested_def)
qed

lemma returns_trans: "returns m r \<Longrightarrow> m \<le> n \<Longrightarrow> returns n r"
  by (force simp: returns_def)

lemma returns_map:
  assumes "returns n r"
  shows "returns n (map_option (map_sum id (\<lambda>(more, last). (f more, last))) r)"
proof -
  obtain x where "r = Some x" using assms by (auto simp: returns_def)
  with assms show ?thesis by (cases x) (auto simp: returns_def)
qed

lemma expandText_returns:
  "unread s instream < fuel \<Longrightarrow> returns (unread s instream) (expandText env subs fuel inner s instream)"
proof (induction fuel arbitrary: inner s instream)
  case (Suc fuel)
  show ?case
  proof (cases "search_token inner s")
    case None
    then show ?thesis by (simp add: returns_def unread_def)
  next
    case (Some t)
    obtain intro kind token rest where t: "t = (intro, kind, token, rest)" by (cases t)
    have less: "unread rest instream < unread s instream"
      using search_token_length Some t by (fastforce simp: unread_def)
    define p where "p = (case kind of
                BACKSLASH \<Rightarrow> Some (process_backslash env rest instream)
              | SUBEXPRESSION \<Rightarrow> process_subexpression (expandText env subs fuel True) env subs token rest instream
              | _ \<Rightarrow> process_sub_nested (expandText env subs fuel True) token rest instream)"
    have rec: "returns (unread rest instream) (expandText env subs fuel True rest instream)"
      using less Suc by simp
    have "\<exists>x. p = Some x \<and> (\<forall>arg rest' instream'. x = Inr (arg, rest', instream')
        \<longrightarrow> unread rest' instream' \<le> unread rest instream)"
      using process_subexpression_returns[where rec = "expandText env subs fuel True", OF rec]
        process_sub_nested_returns[where rec = "expandText env subs fuel True", OF rec]
      by (cases kind) (auto simp: p_def dest: process_backslash_unread)
    then obtain x where x: "p = Some x" "\<And>arg rest' instream'. x = Inr (arg, rest', instream')
        \<Longrightarrow> unread rest' instream' \<le> unread rest instream" by blast
    show ?thesis
    proof (cases "kind = SUB_END")
      case True
      then show ?thesis using Some t less by (simp add: returns_def)
    next
      case False
      then have e: "expandText env subs (Suc fuel) inner s instream = (case x of Inl e \<Rightarrow> Some (Inl e)
          | Inr (arg, rest', instream') \<Rightarrow> map_option (map_sum id (\<lambda>(more, last). (intro @ arg @ more, last)))
                  (expandText env subs fuel inner rest' instream'))"
        using Some t x(1) unfolding p_def by (auto split: sum.splits)
      show ?thesis
      proof (cases x)
        case (Inl err)
        then show ?thesis by (simp only: e sum.case) (simp add: returns_def)
      next
        case (Inr y)
        obtain arg rest' instream' where y: "y = (arg, rest', instream')" by (cases y)
        have le: "unread rest' instream' < unread s instream" using x(2) Inr y less by fastforce
        then have "returns (unread rest' instream') (expandText env subs fuel inner rest' instream')"
          using Suc by simp
        with le have "returns (unread s instream) (expandText env subs fuel inner rest' instream')"
          by (auto intro: returns_trans)
        then show ?thesis by (simp only: e Inr y sum.case prod.case returns_map)
      qed
    qed
  qed
qed simp

text \<open>
  Substitution always returns, with a text or an exception: whatever the template, the
  lines of its stream, the nesting of its brackets and the results of its commands.
\<close>

theorem substitute_total: "\<exists>r. substitute env input substitutions kwargs = Some r"
  using expandText_returns[OF lessI, where env = env and subs = "update_map kwargs substitutions" and inner = False]
  by (fastforce simp: substitute_def returns_def split: sum.splits prod.splits)

subsection \<open>References\<close>

text \<open>A name that a reference can have, and the text of its value.\<close>

definition ref_name :: "string \<Rightarrow> bool" where
  "ref_name k \<longleftrightarrow> (case k of [] \<Rightarrow> False
     | c # cs \<Rightarrow> (is_alpha c \<or> c = CHR ''_'') \<and> list_all (\<lambda>c. is_word c \<or> c = CHR ''-'') cs)"

definition text_of :: "'v expander_env \<Rightarrow> 'v substitutions \<Rightarrow> string \<Rightarrow> string result" where
  "text_of env subs k =
     (case dict_get_default subs k NoObject of NoObject \<Rightarrow> Inr [] | v \<Rightarrow> object_text env v)"

definition rest_ok :: "string \<Rightarrow> bool" where
  "rest_ok r \<longleftrightarrow> r = [] \<or> (\<not> is_word (hd r) \<and> hd r \<noteq> CHR ''-'' \<and> \<not> is_space (hd r) \<and> hd r \<noteq> CHR ''['')"

lemma class_facts:
  "is_alpha c \<Longrightarrow> \<not> is_digit c" "is_alpha c \<Longrightarrow> \<not> is_space c" "is_digit c \<Longrightarrow> \<not> is_space c" "is_word c \<Longrightarrow> \<not> is_space c"
  "is_word c \<Longrightarrow> c \<noteq> CHR ''#''" "is_word c \<Longrightarrow> c \<noteq> CHR ''@''" "is_alpha c \<Longrightarrow> is_word c" "is_digit c \<Longrightarrow> is_word c"
  by (auto simp: is_alpha_def is_digit_def is_space_def is_word_def)

lemma ref_nameE:
  assumes "ref_name k"
  obtains c cs where "k = c # cs" "is_word c" "\<not> is_digit c" "\<not> is_space c" "c \<noteq> CHR ''#''" "c \<noteq> CHR ''@''"
    "\<forall>x \<in> set cs. is_word x \<or> x = CHR ''-''"
proof -
  obtain c cs where k: "k = c # cs" using assms by (cases k) (auto simp: ref_name_def)
  have w: "is_word c" "\<not> is_digit c" using assms k
    by (auto simp: ref_name_def is_word_def class_facts) (simp add: is_digit_def)
  show thesis using that[OF k w] assms k class_facts w by (auto simp: ref_name_def list_all_iff)
qed

lemma blanks_stay: "r = [] \<or> \<not> is_space (hd r) \<Longrightarrow> leads blanks (r, g) (r, g)"
  using leads_many[of 0 is_space r g] by (cases r) (auto simp: blanks_def)

lemma name_matches:
  assumes k: "ref_name k" and r: "rest_ok r"
  shows "leads rx_name (k @ r, g) (r, dict_set 3 k g)"
proof -
  obtain c cs where c: "k = c # cs" "is_word c" "\<not> is_digit c" "c \<noteq> CHR ''@''" "\<forall>x \<in> set cs. is_word x \<or> x = CHR ''-''"
    using k by (rule ref_nameE)
  let ?p = "\<lambda>c. is_word c \<or> c = CHR ''-''"
  have "leads (Many ?p 0) (cs @ r, g) (dropWhile ?p (cs @ r), g)" by (rule leads_many) simp
  moreover have "dropWhile ?p (cs @ r) = r" using c(5) r by (cases r) (auto simp: rest_ok_def dropWhile_append2)
  ultimately have "leads (Seq (Class is_word) (Many ?p 0)) (k @ r, g) (r, g)"
    using leads_seq[OF leads_class[of is_word, OF c(2)]] c(1) by simp
  then have name: "leads (Group 3 (Seq (Class is_word) (Many ?p 0))) (k @ r, g) (r, dict_set 3 k g)"
    using leads_group[where i = 3] by fastforce
  have none: "attempts (Group 2 (Alt (Many is_digit 1) (only (CHR ''@'')))) (k @ r, g) = []"
    using c by (simp add: only_def)
  have no_index: "attempts (sequence [only (CHR ''[''), Group 4 (Many is_word 0), only (CHR '']'')]) (r, h) = []" for h
    using r by (cases r) (auto simp: rest_ok_def only_def)
  have stay: "leads blanks (r, h) (r, h)" for h using r by (intro blanks_stay) (auto simp: rest_ok_def)
  have "leads (sequence [Group 3 (Seq (Class is_word) (Many ?p 0)), blanks,
        Opt (sequence [only (CHR ''[''), Group 4 (Many is_word 0), only (CHR '']'')])]) (k @ r, g) (r, dict_set 3 k g)"
    by (rule leads_sequence[OF name leads_sequence[OF stay leads_sequence[OF leads_opt_skip[OF no_index] leads_sequence_nil]]])
  then show ?thesis unfolding rx_name_def by (rule leads_alt_right[OF none])
qed

lemma var_matches:
  assumes "ref_name k" "rest_ok r"
    and "leads (Opt (Alt rx_replace (Alt rx_slice (Alt rx_alternate (Alt rx_assert rx_ifelse))))) (r, [(3, k)]) ([], g)"
  shows "regex_match rx_var (k @ r) = Some ([], g)"
proof -
  obtain c cs where c: "k = c # cs" "\<not> is_space c" "c \<noteq> CHR ''#''" using assms(1) by (rule ref_nameE)
  have none: "attempts (Group 1 (only (CHR ''#''))) (k @ r, []) = []" using c by (simp add: only_def)
  have name: "leads rx_name (k @ r, []) (r, [(3, k)])" using name_matches[OF assms(1,2), of "[]"] by simp
  have stay: "leads blanks (k @ r, []) (k @ r, [])" "leads blanks (r, h) (r, h)" for h
    using c assms(2) by (intro blanks_stay, simp, intro blanks_stay) (auto simp: rest_ok_def)
  have "at_end []" by (simp add: at_end_def)
  then have "leads rx_var (k @ r, []) ([], g)"
    unfolding rx_var_def
    by (intro leads_sequence[OF leads_opt_skip[OF none]] leads_sequence[OF stay(1)] leads_sequence[OF name]
        leads_sequence[OF stay(2)] leads_sequence[OF assms(3)] leads_sequence[OF leads_end] leads_sequence_nil)
  then show ?thesis by (rule leads_match)
qed

lemma length_matches:
  assumes "ref_name k"
  shows "regex_match rx_var (CHR ''#'' # k) = Some ([], [(1, ''#''), (3, k)])"
proof -
  obtain c cs where c: "k = c # cs" "\<not> is_space c" using assms by (rule ref_nameE)
  have "leads (Group 1 (only (CHR ''#''))) (CHR ''#'' # k, []) (k, [(1, ''#'')])"
    by (simp add: leads_def only_def)
  note hash = leads_opt[OF this]
  have name: "leads rx_name (k, [(1, ''#'')]) ([], [(1, ''#''), (3, k)])"
    using name_matches[OF assms, of "[]" "[(1, ''#'')]"] by (simp add: rest_ok_def)
  have none: "attempts (Alt rx_replace (Alt rx_slice (Alt rx_alternate (Alt rx_assert rx_ifelse)))) ([], g) = []" for g
    by (simp add: rx_replace_def rx_slice_def rx_alternate_def rx_assert_def rx_ifelse_def only_def)
  have stay: "leads blanks (k, h) (k, h)" "leads blanks ([], h) ([], h)" for h
    using c by (simp_all add: blanks_stay)
  have "at_end []" by (simp add: at_end_def)
  then have "leads rx_var (CHR ''#'' # k, []) ([], [(1, ''#''), (3, k)])"
    unfolding rx_var_def
    by (intro leads_sequence[OF hash] leads_sequence[OF stay(1)] leads_sequence[OF name]
        leads_sequence[OF stay(2)] leads_sequence[OF leads_opt_skip[OF none]] leads_sequence[OF leads_end] leads_sequence_nil)
  then show ?thesis by (rule leads_match)
qed

lemma leads_greedy:
  assumes "list_all p m" and "r = [] \<or> \<not> p (hd r)" and "n \<le> length m"
  shows "leads (Many p n) (m @ r, g) (r, g)"
proof -
  have "dropWhile p (m @ r) = r" "takeWhile p (m @ r) = m"
    using assms(1,2) by (cases r; auto simp: list_all_iff dropWhile_append2 takeWhile_append2)+
  then show ?thesis using leads_many[of n p "m @ r" g] assms(3) by simp
qed

lemma leads_captured: "leads a (m @ r, g) (r, h) \<Longrightarrow> leads (Group i a) (m @ r, g) (r, dict_set i m h)"
  using leads_group[of a "m @ r" g r h i] by simp

lemma leads_group_greedy:
  "list_all p m \<Longrightarrow> r = [] \<or> \<not> p (hd r) \<Longrightarrow> n \<le> length m \<Longrightarrow> h = dict_set i m g \<Longrightarrow>
   leads (Group i (Many p n)) (m @ r, g) (r, h)"
  by (simp add: leads_captured leads_greedy)

lemma leads_group_all:
  "list_all p m \<Longrightarrow> n \<le> length m \<Longrightarrow> h = dict_set i m g \<Longrightarrow> leads (Group i (Many p n)) (m, g) ([], h)"
  using leads_group_greedy[of p m "[]"] by simp

lemma plain_matches:
  assumes "ref_name k"
  shows "regex_match rx_var k = Some ([], [(3, k)])"
proof -
  have none: "attempts (Alt rx_replace (Alt rx_slice (Alt rx_alternate (Alt rx_assert rx_ifelse)))) ([], g) = []" for g
    by (simp add: rx_replace_def rx_slice_def rx_alternate_def rx_assert_def rx_ifelse_def only_def)
  show ?thesis using var_matches[OF assms _ leads_opt_skip[OF none]] by (simp add: rest_ok_def)
qed

lemma alternate_matches:
  assumes "ref_name k" "is_sign c" "list_all not_newline alt"
  shows "regex_match rx_var (k @ CHR '':'' # c # alt) = Some ([], [(3, k), (11, [c]), (12, alt)])"
proof -
  have c: "\<not> is_digit c" "\<not> is_space c" using assms(2) by (auto simp: is_sign_def is_digit_def is_space_def)
  let ?r = "CHR '':'' # c # alt"
  have sign: "leads (Group 11 (Class is_sign)) (c # alt, [(3, k)]) (alt, [(3, k), (11, [c])])"
    using assms(2) by (simp add: leads_def)
  have rest: "leads (Group 12 (Many not_newline 0)) (alt, [(3, k), (11, [c])]) ([], [(3, k), (11, [c]), (12, alt)])"
    using assms(3) by (rule leads_group_all) simp_all
  have alt: "leads rx_alternate (?r, [(3, k)]) ([], [(3, k), (11, [c]), (12, alt)])"
    unfolding rx_alternate_def
    by (intro leads_sequence[OF leads_only] leads_sequence[OF sign] leads_sequence[OF rest] leads_sequence_nil)
  have "attempts rx_replace (?r, [(3, k)]) = []" by (simp add: rx_replace_def only_def)
  moreover have "attempts rx_slice (?r, [(3, k)]) = []" using c by (simp add: rx_slice_def only_def blanks_def)
  ultimately have "leads (Opt (Alt rx_replace (Alt rx_slice (Alt rx_alternate (Alt rx_assert rx_ifelse)))))
      (?r, [(3, k)]) ([], [(3, k), (11, [c]), (12, alt)])"
    by (intro leads_opt leads_alt_right leads_alt_left alt)
  from var_matches[OF assms(1) _ this] show ?thesis by (auto simp: rest_ok_def is_word_def is_digit_def is_alpha_def is_space_def)
qed

lemma replace_matches:
  assumes "ref_name k" "old \<noteq> []" "CHR ''/'' \<notin> set old" "list_all not_newline new"
  shows "regex_match rx_var (k @ CHR ''/'' # old @ CHR ''/'' # new) = Some ([], [(3, k), (5, []), (6, old), (7, new)])"
proof -
  let ?r = "CHR ''/'' # old @ CHR ''/'' # new"
  have "attempts (only (CHR ''/'')) (old @ CHR ''/'' # new, g) = []" for g
    using assms(2,3) by (cases old) (auto simp: only_def)
  then have one: "leads (Group 5 (Opt (only (CHR ''/'')))) (old @ CHR ''/'' # new, [(3, k)]) (old @ CHR ''/'' # new, [(3, k), (5, [])])"
    by (simp add: leads_def)
  have "list_all (\<lambda>c. c \<noteq> CHR ''/'') old" using assms(3) by (auto simp: list_all_iff)
  then have two: "leads (Group 6 (Many (\<lambda>c. c \<noteq> CHR ''/'') 1)) (old @ CHR ''/'' # new, [(3, k), (5, [])])
      (CHR ''/'' # new, [(3, k), (5, []), (6, old)])"
    using assms(2) by (intro leads_group_greedy) (simp_all add: Suc_le_eq)
  have rest: "leads (Group 7 (Many not_newline 0)) (new, [(3, k), (5, []), (6, old)]) ([], [(3, k), (5, []), (6, old), (7, new)])"
    using assms(4) by (rule leads_group_all) simp_all
  have three: "leads (Opt (sequence [only (CHR ''/''), Group 7 (Many not_newline 0)]))
      (CHR ''/'' # new, [(3, k), (5, []), (6, old)]) ([], [(3, k), (5, []), (6, old), (7, new)])"
    by (intro leads_opt leads_sequence[OF leads_only] leads_sequence[OF rest] leads_sequence_nil)
  have "leads rx_replace (?r, [(3, k)]) ([], [(3, k), (5, []), (6, old), (7, new)])"
    unfolding rx_replace_def
    by (intro leads_sequence[OF leads_only] leads_sequence[OF one] leads_sequence[OF two] leads_sequence[OF three] leads_sequence_nil)
  then have "leads (Opt (Alt rx_replace (Alt rx_slice (Alt rx_alternate (Alt rx_assert rx_ifelse)))))
      (?r, [(3, k)]) ([], [(3, k), (5, []), (6, old), (7, new)])"
    by (intro leads_opt leads_alt_left)
  from var_matches[OF assms(1) _ this] show ?thesis by (auto simp: rest_ok_def is_word_def is_digit_def is_alpha_def is_space_def)
qed

lemma ifelse_matches:
  assumes "ref_name k" "CHR '':'' \<notin> set yes" "yes \<noteq> [] \<longrightarrow> \<not> is_sign (hd yes)" "list_all not_newline no"
  shows "regex_match rx_var (k @ CHR ''?'' # yes @ CHR '':'' # no) = Some ([], [(3, k), (15, ''?''), (16, yes), (17, no)])"
proof -
  let ?r = "CHR ''?'' # yes @ CHR '':'' # no"
  have mark: "leads (Group 15 (only (CHR ''?''))) (?r, [(3, k)]) (yes @ CHR '':'' # no, [(3, k), (15, ''?'')])"
    by (simp add: leads_def only_def)
  have "list_all (\<lambda>c. c \<noteq> CHR '':'') yes" using assms(2) by (auto simp: list_all_iff)
  then have yes: "leads (Group 16 (Many (\<lambda>c. c \<noteq> CHR '':'') 0)) (yes @ CHR '':'' # no, [(3, k), (15, ''?'')])
      (CHR '':'' # no, [(3, k), (15, ''?''), (16, yes)])"
    by (intro leads_group_greedy) simp_all
  have no: "leads (Group 17 (Many not_newline 0)) (no, [(3, k), (15, ''?''), (16, yes)])
      ([], [(3, k), (15, ''?''), (16, yes), (17, no)])"
    using assms(4) by (rule leads_group_all) simp_all
  have ifelse: "leads rx_ifelse (?r, [(3, k)]) ([], [(3, k), (15, ''?''), (16, yes), (17, no)])"
    unfolding rx_ifelse_def
    by (intro leads_sequence[OF mark] leads_sequence[OF yes] leads_sequence[OF leads_opt[OF leads_only]]
        leads_sequence[OF no] leads_sequence_nil)
  have "\<not> is_sign (hd (yes @ CHR '':'' # no))" using assms(3) by (cases yes) (auto simp: is_sign_def)
  then have "attempts rx_assert (?r, [(3, k)]) = []" by (cases yes) (auto simp: rx_assert_def only_def)
  moreover have "attempts rx_replace (?r, [(3, k)]) = []" "attempts rx_slice (?r, [(3, k)]) = []"
    "attempts rx_alternate (?r, [(3, k)]) = []"
    by (simp_all add: rx_replace_def rx_slice_def rx_alternate_def only_def)
  ultimately have "leads (Opt (Alt rx_replace (Alt rx_slice (Alt rx_alternate (Alt rx_assert rx_ifelse)))))
      (?r, [(3, k)]) ([], [(3, k), (15, ''?''), (16, yes), (17, no)])"
    by (intro leads_opt leads_alt_right ifelse)
  from var_matches[OF assms(1) _ this] show ?thesis by (auto simp: rest_ok_def is_word_def is_digit_def is_alpha_def is_space_def)
qed

lemma slice_matches:
  assumes "ref_name k"
  shows "regex_match rx_var (k @ CHR '':'' # digits_of_nat i @ CHR '':'' # digits_of_nat n)
    = Some ([], [(3, k), (8, digits_of_nat i), (9, digits_of_nat n), (10, [])])"
proof -
  let ?i = "digits_of_nat i" and ?n = "digits_of_nat n"
  let ?r = "CHR '':'' # ?i @ CHR '':'' # ?n"
  have digits: "list_all is_digit (digits_of_nat x)" for x using digits_of_nat_digits by (auto simp: list_all_iff)
  have hd: "is_digit (hd (digits_of_nat x))" for x using hd_in_set[OF digits_of_nat_nonempty] digits_of_nat_digits by blast
  have first: "digits_of_nat x = hd (digits_of_nat x) # tl (digits_of_nat x)"
      "\<not> is_space (hd (digits_of_nat x))" "\<not> is_sign (hd (digits_of_nat x))" "hd (digits_of_nat x) \<noteq> CHR '':''" for x
    using hd[of x] by (simp, auto simp: is_sign_def digit_not_special) (simp add: is_digit_def)
  have colon: "\<not> is_digit (CHR '':'')" "\<not> is_space (CHR '':'')" by (simp_all add: is_digit_def is_space_def)
  have stay: "leads blanks (?i @ CHR '':'' # ?n, g) (?i @ CHR '':'' # ?n, g)" "leads blanks (CHR '':'' # ?n, g) (CHR '':'' # ?n, g)"
      "leads blanks (?n, g) (?n, g)" "leads blanks ([], g) ([], g)" for g
    using first colon by (auto intro!: blanks_stay)
  have no_gap: "attempts (sequence [Many is_space 1, Class is_sign]) (?i @ CHR '':'' # ?n, g) = []" for g
    using first[of i] by (cases "digits_of_nat i") auto
  have many: "leads (Many is_digit 1) (?i @ CHR '':'' # ?n, g) (CHR '':'' # ?n, g)" for g
    using digits colon by (intro leads_greedy) (simp_all add: Suc_le_eq)
  have "leads (sequence [Opt (Alt (sequence [Many is_space 1, Class is_sign]) blanks), Many is_digit 1])
      (?i @ CHR '':'' # ?n, g) (CHR '':'' # ?n, g)" for g
    by (intro leads_sequence[OF leads_opt[OF leads_alt_right[OF no_gap stay(1)]]] leads_sequence[OF many] leads_sequence_nil)
  from leads_captured[OF this, where i = 8 and g = "[(3, k)]"]
  have offset: "leads (Group 8 (sequence [Opt (Alt (sequence [Many is_space 1, Class is_sign]) blanks), Many is_digit 1]))
      (?i @ CHR '':'' # ?n, [(3, k)]) (CHR '':'' # ?n, [(3, k), (8, ?i)])" by simp
  have unsigned: "leads (Opt (Class is_sign)) (?n, g) (?n, g)" for g
    using first[of n] by (intro leads_opt_skip) (cases "digits_of_nat n"; simp)
  have "leads (Many is_digit 0) (?n, g) ([], g)" for g
    using leads_greedy[OF digits, of "[]"] by simp
  then have "leads (sequence [Opt (Class is_sign), Many is_digit 0]) (?n @ [], g) ([], g)" for g
    using leads_sequence[OF unsigned leads_sequence[OF _ leads_sequence_nil]] by simp
  from leads_captured[OF this, where i = 9 and g = "[(3, k), (8, ?i)]"]
  have len: "leads (Group 9 (sequence [Opt (Class is_sign), Many is_digit 0])) (?n, [(3, k), (8, ?i)])
      ([], [(3, k), (8, ?i), (9, ?n)])" by simp
  have no_colon: "leads (Opt (only (CHR '':''))) ([], g) ([], g)" for g by (simp add: leads_def only_def)
  have step: "leads (Group 10 (sequence [Opt (Class is_sign), Many is_digit 0])) ([], [(3, k), (8, ?i), (9, ?n)])
      ([], [(3, k), (8, ?i), (9, ?n), (10, [])])"
    by (simp add: leads_def)
  have slice: "leads rx_slice (?r, [(3, k)]) ([], [(3, k), (8, ?i), (9, ?n), (10, [])])"
    unfolding rx_slice_def
    by (intro leads_sequence[OF leads_only] leads_sequence[OF offset] leads_sequence[OF stay(2)]
        leads_sequence[OF leads_opt[OF leads_only]] leads_sequence[OF stay(3)] leads_sequence[OF len]
        leads_sequence[OF stay(4)] leads_sequence[OF no_colon] leads_sequence[OF step] leads_sequence_nil)
  have "attempts rx_replace (?r, [(3, k)]) = []" by (simp add: rx_replace_def only_def)
  then have "leads (Opt (Alt rx_replace (Alt rx_slice (Alt rx_alternate (Alt rx_assert rx_ifelse)))))
      (?r, [(3, k)]) ([], [(3, k), (8, ?i), (9, ?n), (10, [])])"
    by (intro leads_opt leads_alt_right leads_alt_left slice)
  from var_matches[OF assms _ this] show ?thesis by (auto simp: rest_ok_def is_word_def is_digit_def is_alpha_def is_space_def)
qed

lemma slice_indices_upto: "slice_indices a b 1 = [a..b - 1]"
proof (induction "nat (b - a)" arbitrary: a)
  case 0
  then show ?case by (subst slice_indices.simps) simp
next
  case (Suc n)
  then have "slice_indices (a + 1) b 1 = [a + 1..b - 1]" by simp
  with Suc(2) show ?case by (subst slice_indices.simps) (simp add: upto_rec1)
qed

lemma py_slice_take: "py_slice (Some (int i)) (Some (int i + int n)) None xs = Inr (take n (drop i xs))"
proof -
  let ?l = "int (length xs)"
  have "map (\<lambda>j. xs ! nat j) [min ?l (int i)..min ?l (int i + int n) - 1] = take n (drop i xs)"
    by (rule nth_equalityI) (auto simp: min_def nat_add_distrib split: if_split_asm)
  then show ?thesis
    by (simp add: py_slice_def slice_bound_def slice_indices_upto Let_def max_absorb2)
qed

text \<open>The steps of \<open>_getVariable\<close> once the reference is taken apart.\<close>

lemma getVariable_steps:
  assumes m: "regex_match rx_var x = Some ([], g)" and k: "dict_get g 3 = Some k" and s: "text_of env subs k = Inr s"
  shows "getVariable env x subs =
    (let raw = dict_get_default subs k NoObject; grp = group_text g in
     bind_result
        (if grp 6 \<noteq> [] then (if grp 5 \<noteq> [] then Inl NameError else Inr (replace_all (grp 6) (grp 7) s))
         else if grp 8 \<noteq> [] then slice_text (grp 8) (grp 9) (grp 10) s
         else Inr s) (\<lambda>string.
      let raw' = (if dict_get g 1 = None then raw else IntObject (int (length string)));
          string' = (if dict_get g 1 = None then string else string_of_int (int (length string)))
      in if grp 13 \<noteq> [] then
           map_sum id (\<lambda>b. if b = (grp 13 = ''+'') then grp 14 else []) (to_boolean env raw')
         else if grp 15 \<noteq> [] then map_sum id (\<lambda>b. if b then grp 16 else grp 17) (to_boolean env raw')
         else if grp 12 \<noteq> [] \<and> ((string' \<noteq> []) = (grp 11 = ''+'')) then Inr (grp 12)
         else Inr string'))"
proof -
  have "(if dict_get_default subs k NoObject = NoObject then Inr [] else object_text env (dict_get_default subs k NoObject)) = Inr s"
    using s by (auto simp: text_of_def split: substitution.splits)
  then show ?thesis by (simp only: getVariable_def m k option.case prod.case Let_def bind_result.simps)
qed

text \<open>
  What the forms of a reference stand for, given the text of the variable: its length,
  a default or an alternative for it, a replacement in it, a choice by its truth value, and
  a part of it. An empty alternative counts as none.
\<close>

theorem variable_forms:
  assumes k: "ref_name k" and s: "text_of env subs k = Inr s"
    and alt: "list_all not_newline alt"
    and old: "old \<noteq> []" "CHR ''/'' \<notin> set old" and new: "list_all not_newline new"
    and yes: "CHR '':'' \<notin> set yes" "yes \<noteq> [] \<longrightarrow> \<not> is_sign (hd yes)" and no: "list_all not_newline no"
  shows "getVariable env k subs = Inr s
    \<and> getVariable env (CHR ''#'' # k) subs = Inr (string_of_int (int (length s)))
    \<and> getVariable env (k @ '':-'' @ alt) subs = Inr (if s = [] then alt else s)
    \<and> getVariable env (k @ '':+'' @ alt) subs = Inr (if s = [] \<or> alt = [] then s else alt)
    \<and> getVariable env (k @ ''/'' @ old @ ''/'' @ new) subs = Inr (replace_all old new s)
    \<and> getVariable env (k @ ''?'' @ yes @ '':'' @ no) subs
        = map_sum id (\<lambda>b. if b then yes else no) (to_boolean env (dict_get_default subs k NoObject))
    \<and> getVariable env (k @ '':'' @ digits_of_nat i @ '':'' @ digits_of_nat n) subs = Inr (take n (drop i s))"
proof -
  note steps = group_text_def dict_get_default_def[of "_ :: groups"] Let_def slice_text_def optional_int_def int_of_digits py_slice_take
  have sign: "is_sign (CHR ''-'')" "is_sign (CHR ''+'')" by (simp_all add: is_sign_def)
  have "getVariable env k subs = Inr s"
    by (subst getVariable_steps[OF plain_matches[OF k] _ s]) (simp_all add: steps)
  moreover have "getVariable env (CHR ''#'' # k) subs = Inr (string_of_int (int (length s)))"
    by (subst getVariable_steps[OF length_matches[OF k] _ s]) (simp_all add: steps)
  moreover have "getVariable env (k @ '':-'' @ alt) subs = Inr (if s = [] then alt else s)"
    using getVariable_steps[OF alternate_matches[OF k sign(1) alt] _ s] by (simp add: steps)
  moreover have "getVariable env (k @ '':+'' @ alt) subs = Inr (if s = [] \<or> alt = [] then s else alt)"
    using getVariable_steps[OF alternate_matches[OF k sign(2) alt] _ s] by (simp add: steps)
  moreover have "getVariable env (k @ ''/'' @ old @ ''/'' @ new) subs = Inr (replace_all old new s)"
    using getVariable_steps[OF replace_matches[OF k old new] _ s] old by (simp add: steps)
  moreover have "getVariable env (k @ ''?'' @ yes @ '':'' @ no) subs
        = map_sum id (\<lambda>b. if b then yes else no) (to_boolean env (dict_get_default subs k NoObject))"
    using getVariable_steps[OF ifelse_matches[OF k yes no] _ s] by (simp add: steps cong: if_cong)
  moreover have "getVariable env (k @ '':'' @ digits_of_nat i @ '':'' @ digits_of_nat n) subs = Inr (take n (drop i s))"
    using getVariable_steps[OF slice_matches[OF k] _ s] by (simp add: steps)
  ultimately show ?thesis by blast
qed

subsection \<open>Templates\<close>

text \<open>
  A template as a list of characters and references, the text it is written as, and the text
  it stands for.
\<close>

datatype atom = Letter char | Ref string

fun atom_source :: "atom \<Rightarrow> string" where
  "atom_source (Letter c) = (case dict_get escapes c of None \<Rightarrow> [c] | Some e \<Rightarrow> e)"
| "atom_source (Ref k) = ''${'' @ k @ ''}''"

abbreviation source :: "atom list \<Rightarrow> string" where
  "source as \<equiv> concat (map atom_source as)"

fun atom_value :: "(string \<Rightarrow> string) \<Rightarrow> atom \<Rightarrow> string" where
  "atom_value f (Letter c) = [c]"
| "atom_value f (Ref k) = f k"

abbreviation meaning :: "(string \<Rightarrow> string) \<Rightarrow> atom list \<Rightarrow> string" where
  "meaning f as \<equiv> concat (map (atom_value f) as)"

definition refs_ok :: "'v expander_env \<Rightarrow> 'v substitutions \<Rightarrow> (string \<Rightarrow> string) \<Rightarrow> atom list \<Rightarrow> bool" where
  "refs_ok env subs f as \<longleftrightarrow> (\<forall>k. Ref k \<in> set as \<longrightarrow> ref_name k \<and> text_of env subs k = Inr (f k))"

text \<open>The first token of a written template.\<close>

definition plain :: "bool \<Rightarrow> char \<Rightarrow> bool" where
  "plain inner c \<longleftrightarrow> dict_get escapes c = None \<and> c \<notin> set ''{[('' \<and> (inner \<longrightarrow> c \<notin> set ''}])'')"

lemma plain_no_token: "plain inner c \<Longrightarrow> token_at inner (c # cs) = None"
  by (auto simp: plain_def token_at_def escapes_def split: if_splits)

lemma search_plain:
  "list_all (plain inner) ps \<Longrightarrow> search_token inner (ps @ s) = map_option (\<lambda>(intro, t). (ps @ intro, t)) (search_token inner s)"
proof (induction ps)
  case Nil
  have "(\<lambda>(intro, t). ([] @ intro, t)) = (id :: string \<times> token_kind \<times> string \<times> string \<Rightarrow> _)" by auto
  then show ?case by (simp add: option.map_ident)
next
  case (Cons c ps)
  then show ?case by (simp add: plain_no_token option.map_comp o_def split_beta)
qed

lemma split_plain:
  obtains ps bs where "as = map Letter ps @ bs" "list_all (plain inner) ps"
    "bs = [] \<or> (\<exists>k cs. bs = Ref k # cs) \<or> (\<exists>c cs. bs = Letter c # cs \<and> \<not> plain inner c)"
proof -
  have "\<exists>ps bs. as = map Letter ps @ bs \<and> list_all (plain inner) ps
      \<and> (bs = [] \<or> (\<exists>k cs. bs = Ref k # cs) \<or> (\<exists>c cs. bs = Letter c # cs \<and> \<not> plain inner c))"
  proof (induction as)
    case (Cons a as)
    then obtain ps bs where IH: "as = map Letter ps @ bs" "list_all (plain inner) ps"
      "bs = [] \<or> (\<exists>k cs. bs = Ref k # cs) \<or> (\<exists>c cs. bs = Letter c # cs \<and> \<not> plain inner c)" by blast
    show ?case
    proof (cases "\<exists>c. a = Letter c \<and> plain inner c")
      case True
      then obtain c where "a = Letter c" "plain inner c" by blast
      with IH have "a # as = map Letter (c # ps) @ bs \<and> list_all (plain inner) (c # ps)" by simp
      with IH(3) show ?thesis by blast
    next
      case False
      have "a # as = map Letter [] @ (a # as) \<and> list_all (plain inner) []" by simp
      moreover have "(\<exists>k cs. a # as = Ref k # cs) \<or> (\<exists>c cs. a # as = Letter c # cs \<and> \<not> plain inner c)"
        using False by (cases a) auto
      ultimately show ?thesis by blast
    qed
  qed simp
  then show thesis using that by blast
qed

lemma plain_source: "list_all (plain inner) ps \<Longrightarrow> source (map Letter ps) = ps"
  by (induction ps) (auto simp: plain_def)

lemma plain_meaning: "meaning f (map Letter ps) = ps" "concat (map (atom_value f \<circ> Letter) ps) = ps"
  by (induction ps) auto

lemma process_other:
  assumes "\<not> is_space x" "\<not> is_digit x" "x \<noteq> CHR ''x''" "x \<noteq> CHR ''u''" "x \<noteq> CHR ''U''"
  shows "process_backslash env (x # later) instream
    = Inr ([case dict_get letter_escapes x of None \<Rightarrow> x | Some n \<Rightarrow> char_of n], later, instream)"
  using assms by (simp add: process_backslash_def eol_match_def unescape_def is_octal_def Let_def numeral_3_eq_3 split: option.splits)

lemma process_escaped:
  assumes "dict_get escapes c = Some e"
  shows "\<exists>x. e = [backslash, x] \<and> process_backslash env (x # later) instream = Inr ([c], later, instream)"
proof -
  have controls: "char_of (10 :: nat) = CHR 0x0A" "char_of (13 :: nat) = CHR 0x0D" "char_of (9 :: nat) = CHR 0x09"
    by code_simp+
  have "(c, e) \<in> set escapes" using assms by (rule map_of_SomeD)
  then show ?thesis
    unfolding escapes_def set_simps
    by (elim insertE; simp add: process_other letter_escapes_def is_space_def is_digit_def backslash_def controls)
qed

lemma word_plain: "is_word x \<or> x = CHR ''-'' \<Longrightarrow> plain True x"
proof -
  assume x: "is_word x \<or> x = CHR ''-''"
  have "\<forall>y \<in> set (map fst escapes @ ''{[('' @ ''}])''). \<not> is_word y \<and> y \<noteq> CHR ''-''"
    by (simp add: escapes_def backslash_def is_word_def is_digit_def is_alpha_def)
  with x have "x \<notin> set (map fst escapes @ ''{[('' @ ''}])'')" by blast
  then show ?thesis by (auto simp: plain_def map_of_eq_None_iff)
qed

lemma ref_token:
  assumes "ref_name k"
  shows "search_token True (k @ CHR ''}'' # s) = Some (k, SUB_END, ''}'', s)"
proof -
  obtain c cs where c: "k = c # cs" "is_word c" "\<forall>x \<in> set cs. is_word x \<or> x = CHR ''-''"
    using assms by (rule ref_nameE)
  then have "list_all (plain True) k" by (simp add: list_all_iff word_plain)
  from search_plain[OF this, of "CHR ''}'' # s"] show ?thesis by (simp add: token_at_def backslash_def)
qed

text \<open>
  Where an expansion stops, and with what: at the end of the template, or, inside a bracket,
  at a closing one.
\<close>

definition stops :: "(string \<Rightarrow> string) \<Rightarrow> bool \<Rightarrow> stream \<Rightarrow> atom list \<Rightarrow> expansion \<Rightarrow> bool" where
  "stops f inner instream as r \<longleftrightarrow>
     r = Inr (meaning f as, [], None, instream)
     \<or> (\<exists>as1 c as2. inner \<and> as = as1 @ Letter c # as2 \<and> r = Inr (meaning f as1, source as2, Some [c], instream))"

lemma stops_after:
  assumes "stops f inner instream bs r"
  shows "stops f inner instream (as @ bs) (map_sum id (\<lambda>(later, last). (meaning f as @ later, last)) r)"
  using assms unfolding stops_def
proof (elim disjE exE conjE)
  fix as1 c as2
  assume "inner" "bs = as1 @ Letter c # as2" "r = Inr (meaning f as1, source as2, Some [c], instream)"
  then have "inner \<and> as @ bs = (as @ as1) @ Letter c # as2
      \<and> map_sum id (\<lambda>(later, last). (meaning f as @ later, last)) r
        = Inr (meaning f (as @ as1), source as2, Some [c], instream)" by simp
  then show "map_sum id (\<lambda>(later, last). (meaning f as @ later, last)) r = Inr (meaning f (as @ bs), [], None, instream)
      \<or> (\<exists>as1 c as2. inner \<and> as @ bs = as1 @ Letter c # as2
          \<and> map_sum id (\<lambda>(later, last). (meaning f as @ later, last)) r
            = Inr (meaning f as1, source as2, Some [c], instream))" by blast
qed simp

text \<open>A nested bracket: what it encloses is kept as it is.\<close>

lemma nested_stops:
  assumes "stops f True instream as r"
  shows "\<exists>as1 as2. as = as1 @ as2
    \<and> map_sum id (\<lambda>(arg, rest, end_token, instream').
        ([b] @ arg @ (case end_token of None \<Rightarrow> [] | Some e \<Rightarrow> e), rest, instream')) r
      = Inr (b # meaning f as1, source as2, instream)"
  using assms unfolding stops_def
proof (elim disjE exE conjE)
  assume "r = Inr (meaning f as, [], None, instream)"
  then show ?thesis by (intro exI[of _ as] exI[of _ "[]"]) simp
next
  fix as1 c as2
  assume "as = as1 @ Letter c # as2" "r = Inr (meaning f as1, source as2, Some [c], instream)"
  then show ?thesis by (intro exI[of _ "as1 @ [Letter c]"] exI[of _ as2]) simp
qed

lemma refs_ok_append: "refs_ok env subs f (as @ bs) \<longleftrightarrow> refs_ok env subs f as \<and> refs_ok env subs f bs"
  by (auto simp: refs_ok_def)

lemma reference_expands:
  assumes "ref_name k" "text_of env subs k = Inr s"
  shows "process_subexpression (expandText env subs fuel True) env subs ''${'' (k @ CHR ''}'' # rest) instream
    = (if fuel = 0 then None else Some (Inr (s, rest, instream)))"
proof -
  have "getVariable env k subs = Inr s"
    by (subst getVariable_steps[OF plain_matches[OF assms(1)] _ assms(2)])
       (simp_all add: group_text_def dict_get_default_def Let_def)
  then have "evaluate env subs ''${'' k = Inr s" by (simp add: evaluate_def)
  with ref_token[OF assms(1), of rest] show ?thesis
    by (cases fuel) (simp_all add: process_subexpression_def check_end_def end_tokens_def)
qed

lemma expandText_source:
  "refs_ok env subs f as \<Longrightarrow> expandText env subs fuel inner (source as) instream = Some r \<Longrightarrow> stops f inner instream as r"
proof (induction fuel arbitrary: inner as r)
  case (Suc fuel)
  obtain ps bs where as: "as = map Letter ps @ bs" "list_all (plain inner) ps"
    and bs: "bs = [] \<or> (\<exists>k cs. bs = Ref k # cs) \<or> (\<exists>c cs. bs = Letter c # cs \<and> \<not> plain inner c)"
    using split_plain[of as inner] by blast
  have source: "source as = ps @ source bs" using as plain_source[OF as(2)] by simp
  have ok: "refs_ok env subs f bs" using Suc.prems(1) as by (simp add: refs_ok_append)
  text \<open>what comes after a token that stands for \<open>m\<close>\<close>
  have onward: "stops f inner instream as r"
    if split: "as = map Letter ps @ cs @ ds"
      and later: "map_option (map_sum id (\<lambda>(later, last). (ps @ meaning f cs @ later, last)))
             (expandText env subs fuel inner (source ds) instream) = Some r" for cs ds
  proof -
    obtain q where q: "expandText env subs fuel inner (source ds) instream = Some q" using later by auto
    have "refs_ok env subs f ds" using Suc.prems(1) split by (simp add: refs_ok_append)
    from Suc.IH[OF this q] have "stops f inner instream ds q" .
    from stops_after[OF this, of "map Letter ps @ cs"] split later q show ?thesis by (simp add: plain_meaning o_def)
  qed
  note step = Suc.prems(2)[simplified source expandText.simps search_plain[OF as(2)]]
  from bs show ?case
  proof (elim disjE exE conjE)
    assume "bs = []"
    with step as show ?thesis by (simp add: stops_def plain_meaning)
  next
    fix k cs
    assume k: "bs = Ref k # cs"
    then have "ref_name k" "text_of env subs k = Inr (f k)" using ok by (simp_all add: refs_ok_def)
    note ref = reference_expands[OF this, of fuel "source cs" instream]
    have "search_token inner (source bs) = Some ([], SUBEXPRESSION, ''${'', k @ CHR ''}'' # source cs)"
      by (simp add: k token_at_def backslash_def)
    with step ref have "map_option (map_sum id (\<lambda>(later, last). (ps @ meaning f [Ref k] @ later, last)))
             (expandText env subs fuel inner (source cs) instream) = Some r"
      by (simp split: if_splits)
    with as k show ?thesis by (intro onward[of "[Ref k]" cs]) simp_all
  next
    fix c cs
    assume c: "bs = Letter c # cs" "\<not> plain inner c"
    show ?thesis
    proof (cases "dict_get escapes c")
      case (Some e)
      then obtain x where x: "e = [backslash, x]"
        "process_backslash env (x # source cs) instream = Inr ([c], source cs, instream)"
        using process_escaped[of c e env "source cs" instream] by blast
      have "search_token inner (source bs) = Some ([], BACKSLASH, [backslash], x # source cs)"
        by (simp add: c Some x token_at_def)
      with step x have "map_option (map_sum id (\<lambda>(later, last). (ps @ meaning f [Letter c] @ later, last)))
             (expandText env subs fuel inner (source cs) instream) = Some r" by simp
      with as c show ?thesis by (intro onward[of "[Letter c]" cs]) simp_all
    next
      case None
      then have dull: "c \<noteq> backslash" "c \<noteq> CHR ''$''" by (auto simp: escapes_def backslash_def)
      show ?thesis
      proof (cases "c \<in> set ''{[(''")
        case True
        have "search_token inner (source bs) = Some ([], SUB_NESTED, [c], source cs)"
          using True dull None by (simp add: c token_at_def)
        with step have s: "(case process_sub_nested (expandText env subs fuel True) [c] (source cs) instream of
              None \<Rightarrow> None
            | Some (Inl e) \<Rightarrow> Some (Inl e)
            | Some (Inr (arg, rest', instream')) \<Rightarrow>
                map_option (map_sum id (\<lambda>(more, last). (ps @ arg @ more, last)))
                  (expandText env subs fuel inner rest' instream')) = Some r" by simp
        then obtain q where q: "expandText env subs fuel True (source cs) instream = Some q"
          by (auto simp: process_sub_nested_def split: option.splits)
        have "refs_ok env subs f cs" using ok c by (simp add: refs_ok_def)
        from nested_stops[OF Suc.IH[OF this q], of c] obtain as1 as2 where n: "cs = as1 @ as2"
          "process_sub_nested (expandText env subs fuel True) [c] (source cs) instream
            = Some (Inr (c # meaning f as1, source as2, instream))"
          using q by (auto simp: process_sub_nested_def)
        with s as c show ?thesis by (intro onward[of "Letter c # as1" as2]) simp_all
      next
        case False
        with c None have "inner" "c \<in> set ''}])''" by (auto simp: plain_def)
        with dull have "search_token inner (source bs) = Some ([], SUB_END, [c], source cs)"
          by (auto simp: c None token_at_def)
        with step have "r = Inr (ps, source cs, Some [c], instream)" by simp
        with \<open>inner\<close> as c show ?thesis
          unfolding stops_def by (intro disjI2 exI[of _ "map Letter ps"] exI[of _ c] exI[of _ cs]) (simp add: plain_meaning)
      qed
    qed
  qed
qed simp

lemma source_expands:
  assumes "refs_ok env subs f as" and "unread (source as) instream < fuel"
  shows "expandText env subs fuel False (source as) instream = Some (Inr (meaning f as, [], None, instream))"
proof -
  obtain r where r: "expandText env subs fuel False (source as) instream = Some r"
    using expandText_returns[OF assms(2), of env subs False] by (auto simp: returns_def)
  with expandText_source[OF assms(1) r] show ?thesis by (simp add: stops_def)
qed

text \<open>A template in pieces: plain text written with \<open>escape\<close>, and references.\<close>

datatype piece = Plain string | Variable string

fun piece_source :: "piece \<Rightarrow> string result" where
  "piece_source (Plain s) = escape_text [] [] s"
| "piece_source (Variable k) = Inr (''${'' @ k @ ''}'')"

fun piece_value :: "'v expander_env \<Rightarrow> 'v substitutions \<Rightarrow> piece \<Rightarrow> string result" where
  "piece_value env subs (Plain s) = Inr s"
| "piece_value env subs (Variable k) = text_of env subs k"

fun piece_atoms :: "piece \<Rightarrow> atom list" where
  "piece_atoms (Plain s) = map Letter s"
| "piece_atoms (Variable k) = [Ref k]"

lemma piece_ref: "Ref k \<in> set (piece_atoms p) \<longleftrightarrow> p = Variable k"
  by (cases p) auto

lemma map_sum_Inr_iff: "map_sum id f r = Inr y \<longleftrightarrow> (\<exists>x. r = Inr x \<and> y = f x)"
  by (cases r) auto

lemma escape_source: "escape [] s = Inr t \<Longrightarrow> source (map Letter s) = t"
proof (induction "[] :: string list" s arbitrary: t rule: escape.induct)
  case (2 c cs)
  then show ?case by (auto simp: map_sum_Inr_iff split: option.splits if_splits)
qed simp

lemma pieces_source: "map_result piece_source ps = Inr ts \<Longrightarrow> concat ts = source (concat (map piece_atoms ps))"
proof (induction ps arbitrary: ts)
  case (Cons p ps)
  then obtain t us where "piece_source p = Inr t" "map_result piece_source ps = Inr us" "ts = t # us"
    by (auto simp: result_simps)
  with Cons.IH show ?case by (cases p) (auto simp: escape_text_def map_sum_Inr_iff dest: escape_source)
qed simp

text \<open>
  C29. A template expands to what it stands for: plain text, whatever its characters, is
  kept when it is written with \<open>escape\<close>, brackets and all, and each reference is replaced
  by the text of its variable, or by nothing when there is none.
\<close>

theorem substitute_template:
  assumes "map_result piece_source ps = Inr ts"
    and "map_result (piece_value env (update_map kwargs substitutions)) ps = Inr vs"
    and "\<forall>k. Variable k \<in> set ps \<longrightarrow> ref_name k"
  shows "substitute env (StrTemplate (concat ts)) substitutions kwargs = Some (Inr (concat vs))"
proof -
  let ?subs = "update_map kwargs substitutions"
  let ?f = "\<lambda>k. case text_of env ?subs k of Inl e \<Rightarrow> [] | Inr s \<Rightarrow> s"
  let ?as = "concat (map piece_atoms ps)"
  have known: "text_of env ?subs k = Inr (?f k)" if k: "Variable k \<in> set ps" for k
  proof -
    obtain i where "i < length ps" "ps ! i = Variable k" using k by (auto simp: in_set_conv_nth)
    with map_result_Inr_nth[OF assms(2)] show ?thesis by fastforce
  qed
  have refs: "Variable k \<in> set ps" if "Ref k \<in> set ?as" for k
    using that by (auto simp: piece_ref)
  have ok: "refs_ok env ?subs ?f ?as" using refs known assms(3) unfolding refs_ok_def by blast
  have "concat vs = meaning ?f ?as"
    using assms(2)
  proof (induction ps arbitrary: vs)
    case (Cons p ps)
    then obtain v ws where "piece_value env ?subs p = Inr v" "map_result (piece_value env ?subs) ps = Inr ws" "vs = v # ws"
      by (auto simp: result_simps)
    with Cons.IH show ?case by (cases p) (auto simp: plain_meaning)
  qed simp
  with source_expands[OF ok lessI, of None] show ?thesis
    by (simp add: substitute_def pieces_source[OF assms(1)])
qed

text \<open>An environment whose commands print nothing and whose other objects are numbers.\<close>

definition demo_env :: "nat expander_env" where
  "demo_env = \<lparr>ex_str = (\<lambda>n. Inr (digits_of_nat n)), ex_bool = (\<lambda>n. Inr (n \<noteq> 0)), ex_split = (\<lambda>s. Inr [s]),
     ex_run = (\<lambda>_ _. Inr []), ex_module = (\<lambda>_. []), ex_eval = (\<lambda>_ _. Inr NoObject), ex_wide = (\<lambda>_. ''?'')\<rparr>"

theorem substitute_template_witness:
  "substitute demo_env (StrTemplate ([backslash, CHR ''$''] @ ''{a]${name}'')) [(''name'', StrObject ''Joe'')] []
    = Some (Inr ''${a]Joe'')"
proof -
  let ?ps = "[Plain ''${a]'', Variable ''name'']"
  have "map_result piece_source ?ps = Inr [[backslash, CHR ''$''] @ ''{a]'', ''${name}'']"
    by (simp add: escape_text_def escapes_def backslash_def unbracketed_def)
  moreover have "map_result (piece_value demo_env (update_map [] [(''name'', StrObject ''Joe'')])) ?ps = Inr [''${a]'', ''Joe'']"
    by (simp add: text_of_def update_map_def dict_get_default_def)
  moreover have "\<forall>k. Variable k \<in> set ?ps \<longrightarrow> ref_name k"
    by (simp add: ref_name_def is_alpha_def is_word_def)
  ultimately have "substitute demo_env (StrTemplate (concat [[backslash, CHR ''$''] @ ''{a]'', ''${name}'']))
      [(''name'', StrObject ''Joe'')] [] = Some (Inr (concat [''${a]'', ''Joe'']))"
    by (rule substitute_template)
  then show ?thesis by simp
qed

theorem variable_forms_witness:
  "getVariable demo_env ''name:-none'' [(''name'', StrObject ''Joseph'')] = Inr ''Joseph''
    \<and> getVariable demo_env ''name/se/hn'' [(''name'', StrObject ''Joseph'')] = Inr (replace_all ''se'' ''hn'' ''Joseph'')
    \<and> getVariable demo_env (''name:'' @ digits_of_nat 1 @ '':'' @ digits_of_nat 2) [(''name'', StrObject ''Joseph'')] = Inr ''os''"
  using variable_forms[of "''name''" demo_env "[(''name'', StrObject ''Joseph'')]" "''Joseph''" "''none''" "''se''" "''hn''" "''y''" "''n''" 1 2]
  by (simp add: ref_name_def is_alpha_def is_word_def text_of_def dict_get_default_def not_newline_def is_sign_def)

end
