(* ===== verification/Duration_Text.thy ===== *)
theory Duration_Text
  imports Time_Interval
begin

section \<open>Printing and parsing durations\<close>

text \<open>
  What the printed form of a whole number of seconds looks like, and what the pattern of
  \<open>from_string\<close> makes of it.
\<close>

subsection \<open>Digit strings\<close>

lemma takeWhile_all: "\<forall>c \<in> set s. P c \<Longrightarrow> takeWhile P s = s \<and> dropWhile P s = []"
  by simp

lemma float_of_digits:
  assumes d: "\<forall>c \<in> set s. is_digit c" and "s \<noteq> []"
  shows "float_of_string s = Inr (Fin (rnd (of_nat (nat_of_digits 0 s))))"
proof -
  obtain c cs where s: "s = c # cs" using assms(2) by (cases s) auto
  have c: "is_digit c" using d s by simp
  have sign: "split_sign s = (False, s)" using c s by (simp add: digit_not_special)
  have "lower s \<noteq> ''inf''" "lower s \<noteq> ''infinity''" "lower s \<noteq> ''nan''"
    unfolding lower_digit[OF d] using c s by (auto simp: digit_not_special)
  moreover have e: "takeWhile (\<lambda>c. c \<noteq> CHR ''e'' \<and> c \<noteq> CHR ''E'') s = s
      \<and> dropWhile (\<lambda>c. c \<noteq> CHR ''e'' \<and> c \<noteq> CHR ''E'') s = []"
    by (rule takeWhile_all) (use d in \<open>auto simp: digit_not_special\<close>)
  moreover have p: "takeWhile (\<lambda>c. c \<noteq> CHR ''.'') s = s \<and> dropWhile (\<lambda>c. c \<noteq> CHR ''.'') s = []"
    by (rule takeWhile_all) (use d in \<open>auto simp: digit_not_special\<close>)
  moreover have "opt_digits s = Some s" using assms by (simp add: opt_digits_def digits_us_digits)
  ultimately have "parse_decimal s = Some (of_nat (nat_of_digits 0 s))"
    using assms(2) by (simp del: takeWhile_eq_all_conv dropWhile_eq_Nil_conv
        add: parse_decimal_def Let_def opt_digits_def parse_exponent_def)
  with \<open>lower s \<noteq> ''inf''\<close> \<open>lower s \<noteq> ''infinity''\<close> \<open>lower s \<noteq> ''nan''\<close> show ?thesis
    by (simp add: float_of_string_def strip_digits[OF d] sign)
qed

lemma all_digits: "\<forall>c \<in> set (digits_of_nat n). is_digit c"
  by (auto dest: digits_of_nat_digits)

lemma word_value_digits: "int n \<le> 2 ^ 53 \<Longrightarrow> word_value (digits_of_nat n) = Fin (of_nat n)"
  using float_of_digits[OF all_digits, of n] rnd_int[of "int n"] by (simp add: nat_of_digits_of_nat)

subsection \<open>Matching one component\<close>

definition ends_number :: "string \<Rightarrow> bool" where
  "ends_number r \<longleftrightarrow> (case r of [] \<Rightarrow> True | c # cs \<Rightarrow> \<not> is_digit c \<and> c \<noteq> CHR ''.'')"

lemma number_prefix_digits:
  assumes "ends_number r"
  shows "number_prefix (digits_of_nat n @ r) = Some (digits_of_nat n, r)"
proof -
  have "takeWhile is_digit (digits_of_nat n @ r) = digits_of_nat n"
    "dropWhile is_digit (digits_of_nat n @ r) = r"
    using assms all_digits by (auto simp: ends_number_def takeWhile_append dropWhile_append split: list.splits)
  then show ?thesis using assms by (auto simp: number_prefix_def ends_number_def split: list.splits)
qed

lemma no_space_digits: "dropWhile is_space (digits_of_nat n @ r) = digits_of_nat n @ r"
proof -
  obtain c cs where c: "digits_of_nat n = c # cs" by (cases "digits_of_nat n") auto
  then have "is_digit c" using all_digits[of n] by simp
  with c show ?thesis by (simp add: digit_not_special)
qed

lemma match_take:
  assumes "ends_number (c # r)" "strip_prefix sufs (c # r) = Some r" "match_units us fin r = Some gs"
  shows "match_units ((g, sufs) # us) fin (digits_of_nat n @ c # r) = Some ((g, digits_of_nat n) # gs)"
  using assms by (simp add: no_space_digits take_unit_def number_prefix_digits)

lemma match_skip:
  assumes "ends_number (c # r)" "strip_prefix sufs (c # r) = None"
  shows "match_units ((g, sufs) # us) fin (digits_of_nat n @ c # r) = match_units us fin (digits_of_nat n @ c # r)"
  using assms by (simp add: no_space_digits take_unit_def number_prefix_digits)

definition no_number :: "string \<Rightarrow> bool" where
  "no_number s \<longleftrightarrow> (case s of [] \<Rightarrow> True | c # cs \<Rightarrow> \<not> is_digit c \<and> \<not> is_space c)"

lemma match_none:
  assumes "no_number s"
  shows "match_units us fin s = fin s"
proof (induction us)
  case (Cons u us)
  have "dropWhile is_space s = s" "number_prefix s = None"
    using assms by (auto simp: no_number_def number_prefix_def Let_def split: list.splits)
  with Cons show ?case by (cases u) (simp add: take_unit_def)
qed simp

subsection \<open>The printed form\<close>

definition comp :: "nat \<Rightarrow> char \<Rightarrow> string" where
  "comp q c = (if q = 0 then [] else digits_of_nat q @ [c])"

definition group :: "nat \<Rightarrow> nat \<Rightarrow> (nat \<times> string) list" where
  "group g q = (if q = 0 then [] else [(g, digits_of_nat q)])"

lemma join_with_Nil: "join_with [] ps = concat ps"
  by (induction ps rule: induct_list012) auto

lemma short_decimal_int: "short_decimal (of_nat s) = digits_of_nat s"
proof -
  have r: "nat (round_half_even (of_nat s * 10 ^ 9)) = s * 10 ^ 9"
    using round_half_even_int[of "int s * 10 ^ 9"] by (simp add: nat_mult_distrib)
  have zero: "digits_of_nat 0 = ''0''" by code_simp
  have f: "fixed_decimal 9 (of_nat s) = digits_of_nat s @ ''.000000000''"
  proof -
    have pad: "pad_left 9 CHR ''0'' ''0'' = ''000000000''" by code_simp
    have "\<bar>of_nat s\<bar> * 10 ^ 9 = (of_nat s * 10 ^ 9 :: rat)" by simp
    then have n: "nat (round_half_even (\<bar>of_nat s\<bar> * 10 ^ 9)) = s * 10 ^ 9" using r by (simp only:)
    have "s * 10 ^ 9 div 10 ^ 9 = s" "s * 10 ^ 9 mod 10 ^ 9 = 0" by simp_all
    then show ?thesis unfolding fixed_decimal_def Let_def n by (simp only: zero pad) simp
  qed
  obtain c cs where c: "rev (digits_of_nat s) = c # cs" by (cases "rev (digits_of_nat s)") auto
  then have "c \<in> set (digits_of_nat s)" by (metis list.set_intros(1) set_rev)
  then have "is_digit c" using all_digits by blast
  moreover have "drop_zeros (CHR ''.'' # c # cs) = CHR ''.'' # c # cs" by (cases cs) simp_all
  ultimately have "dropWhile (\<lambda>c. c = CHR ''.'' \<or> c = CHR '','') (drop_zeros (rev (fixed_decimal 9 (of_nat s))))
      = rev (digits_of_nat s)"
    unfolding f by (simp add: c digit_not_special)
  then show ?thesis unfolding short_decimal_def by simp
qed

lemma float_floordiv_nat:
  "int m \<le> 2 ^ 53 \<Longrightarrow> 0 < D \<Longrightarrow> float_floordiv (of_nat m) (of_nat D) = of_nat (m div D)"
  using float_floordiv_int[of "int m" "int D"] by (simp flip: of_nat_div)

lemma add_component:
  assumes "suffix \<noteq> []" "0 < D" "int m \<le> 2 ^ 53"
  shows "add_components ((suffix, int D) # cs) parts (of_nat m) =
    add_components cs (parts @ (if m div D = 0 then [] else [digits_of_nat (m div D) @ suffix])) (of_nat (m mod D))"
proof (cases "D \<le> m")
  case True
  have q: "float_floordiv (of_nat m) (of_nat D) = of_nat (m div D)"
    using assms by (simp add: float_floordiv_nat)
  have r: "float_mod (of_nat m) (of_nat D) = of_nat (m mod D)"
    using float_mod_int[of "int m" "int D"] assms by (simp flip: of_nat_mod)
  have "py_trunc (of_nat (m div D) :: rat) = int (m div D)"
    using py_trunc_of_int[of "int (m div D)"] by simp
  then show ?thesis
    using True assms q r by (simp add: string_of_int_def div_eq_0_iff del: of_nat_div)
next
  case False
  then show ?thesis using assms by (simp add: div_eq_0_iff)
qed

lemma add_component_none: "add_components (([], D) # cs) parts r = add_components cs parts r"
  by simp

subsection \<open>A whole number of seconds\<close>

definition year_part :: "nat \<Rightarrow> nat" where "year_part n = n div 31536000"
definition day_part :: "nat \<Rightarrow> nat" where "day_part n = n mod 31536000 div 86400"
definition clock_part :: "nat \<Rightarrow> nat" where "clock_part n = n mod 31536000 mod 86400"
definition hour_part :: "nat \<Rightarrow> nat" where "hour_part n = clock_part n div 3600"
definition minute_part :: "nat \<Rightarrow> nat" where "minute_part n = clock_part n mod 3600 div 60"
definition second_part :: "nat \<Rightarrow> nat" where "second_part n = clock_part n mod 3600 mod 60"

lemmas part_defs = year_part_def day_part_def clock_part_def hour_part_def minute_part_def second_part_def

lemma parts_sum:
  "n = year_part n * 31536000 + day_part n * 86400 + hour_part n * 3600 + minute_part n * 60 + second_part n"
  unfolding part_defs by presburger

lemma units_nat:
  "YEAR = int 31536000" "MONTH = int 2592000" "WEEK = int 604800" "DAY = int 86400" "HOUR = int 3600"
  "MINUTE = int 60" "LEAP = int 126144000"
  by (simp_all add: unit_defs)

definition text_part :: "nat \<Rightarrow> string \<Rightarrow> string list" where
  "text_part q suffix = (if q = 0 then [] else [digits_of_nat q @ suffix])"

text \<open>Above four years a day is taken off for every four years.\<close>

definition printed_seconds :: "nat \<Rightarrow> nat" where
  "printed_seconds n = (if 126144000 < n then n - 86400 * (n div 126144000) else n)"

lemma printed_seconds_le: "printed_seconds n \<le> n"
  by (simp add: printed_seconds_def)

lemma printed_seconds_pos: "0 < n \<Longrightarrow> 0 < printed_seconds n"
proof -
  assume n: "0 < n"
  have "86400 * (n div 126144000) < n" if "126144000 < n"
    using that times_div_less_eq_dividend[of 126144000 n] by simp
  with n show ?thesis by (simp add: printed_seconds_def)
qed

lemma printed_seconds_float:
  assumes "int n \<le> 2 ^ 53"
  shows "(if of_int LEAP < (of_nat n :: rat)
    then fsub (of_nat n) (fmul (of_int DAY) (float_floordiv (of_nat n) (of_int LEAP))) else of_nat n)
    = of_nat (printed_seconds n)"
proof (cases "126144000 < n")
  case True
  let ?q = "n div 126144000"
  have le: "86400 * ?q \<le> n" using times_div_less_eq_dividend[of 126144000 n] by simp
  have q: "float_floordiv (of_nat n) (of_int LEAP) = (of_nat ?q :: rat)"
    using float_floordiv_nat[OF assms, of 126144000] by (simp add: units_nat)
  have "fmul (of_int DAY) (of_nat ?q) = of_int (int (86400 * ?q))"
    using rnd_int[of "int (86400 * ?q)"] le assms by (simp add: fmul_def units_nat)
  moreover have "fsub (of_nat n) (of_int (int (86400 * ?q))) = of_int (int (n - 86400 * ?q))"
    using rnd_int[of "int (n - 86400 * ?q)"] le assms by (simp add: fsub_def of_nat_diff)
  moreover have "of_int LEAP < (of_nat n :: rat)" using True by (simp add: units_nat)
  ultimately show ?thesis using True by (simp add: q printed_seconds_def)
next
  case False
  then show ?thesis by (simp add: units_nat printed_seconds_def)
qed

lemma finite_parts_whole:
  assumes "int N \<le> 2 ^ 53" and "years_suffix f \<noteq> []" "months_suffix f = []" "weeks_suffix f = []"
    "days_suffix f \<noteq> []" "hours_suffix f \<noteq> []" "minutes_suffix f \<noteq> []" "seconds_suffix f \<noteq> []" "decimals f = 0"
    and "0 < N" "n = printed_seconds N"
  shows "finite_parts f (of_nat N) =
    text_part (year_part n) (years_suffix f) @ text_part (day_part n) (days_suffix f)
    @ (if date_time_separator f \<noteq> [] \<and> clock_part n \<noteq> 0 then [date_time_separator f] else [])
    @ text_part (hour_part n) (hours_suffix f) @ text_part (minute_part n) (minutes_suffix f)
    @ text_part (second_part n) (seconds_suffix f)"
proof -
  have small: "int n \<le> 2 ^ 53" "int (n mod 31536000) \<le> 2 ^ 53" "int (clock_part n) \<le> 2 ^ 53"
    "int (clock_part n mod 3600) \<le> 2 ^ 53"
    using assms(1,11) printed_seconds_le[of N] by (simp_all add: clock_part_def zmod_int[symmetric] le_trans[rotated])
  have n: "0 < n" using printed_seconds_pos assms(10,11) by simp
  have D: "0 < (31536000 :: nat)" "0 < (86400 :: nat)" "0 < (3600 :: nat)" "0 < (60 :: nat)" by simp_all
  have date: "add_components (date_components f) [] (of_nat n)
      = (text_part (year_part n) (years_suffix f) @ text_part (day_part n) (days_suffix f), of_nat (clock_part n))"
    unfolding date_components_def assms(3,4) units_nat(1,4)
    unfolding add_component[OF assms(2) D(1) small(1)] add_component_none
    unfolding add_component[OF assms(5) D(2) small(2)] add_components.simps(1)
    by (simp add: text_part_def part_defs)
  have time: "add_components (time_components f) ps (of_nat (clock_part n))
      = (ps @ text_part (hour_part n) (hours_suffix f) @ text_part (minute_part n) (minutes_suffix f),
         of_nat (second_part n))" for ps
    unfolding time_components_def units_nat(5,6)
    unfolding add_component[OF assms(6) D(3) small(3)]
    unfolding add_component[OF assms(7) D(4) small(4)] add_components.simps(1)
    by (simp add: text_part_def hour_part_def minute_part_def second_part_def)
  have clock: "clock_part n = 0" if "hour_part n = 0" "minute_part n = 0" "second_part n = 0"
    using that div_mult_mod_eq[of "clock_part n" 3600] div_mult_mod_eq[of "clock_part n mod 3600" 60]
    unfolding hour_part_def minute_part_def second_part_def by simp
  have some: "clock_part n \<noteq> 0" if "year_part n = 0" "day_part n = 0"
    using that n parts_sum[of n] by (auto simp: hour_part_def minute_part_def second_part_def)
  show ?thesis
    unfolding finite_parts_def Let_def printed_seconds_float[OF assms(1)] assms(11)[symmetric] date
    using some clock by (auto simp: time text_part_def short_decimal_int assms(8,9))
qed

lemma concat_text_part: "concat (text_part q [c]) = comp q c"
  by (simp add: text_part_def comp_def)

lemma iso_string:
  assumes "0 < N" "int N \<le> 2 ^ 53" "n = printed_seconds N"
  shows "to_iso8601_string (Fin (of_nat N)) = CHR ''P'' # comp (year_part n) CHR ''Y'' @ comp (day_part n) CHR ''D''
    @ (if clock_part n = 0 then [] else CHR ''T'' # comp (hour_part n) CHR ''H''
       @ comp (minute_part n) CHR ''M'' @ comp (second_part n) CHR ''S'')"
proof -
  have zero: "comp (hour_part n) c = [] \<and> comp (minute_part n) d = [] \<and> comp (second_part n) e = []"
    if "clock_part n = 0" for c d e
    using that by (simp add: comp_def hour_part_def minute_part_def second_part_def)
  show ?thesis
    using assms zero
    by (simp add: to_iso8601_string_def interval_to_string_def default_format_def finite_parts_whole[OF _ _ _ _ _ _ _ _ _ _ assms(3)]
        join_with_Nil concat_text_part)
qed

subsection \<open>Reading it back\<close>

lemma strip_prefix_char: "strip_prefix [[a], [b]] (c # r) = (if c = a \<or> c = b then Some r else None)"
  by simp

lemma comp_no_number: "no_number r \<Longrightarrow> q = 0 \<Longrightarrow> no_number (comp q c @ r)"
  by (simp add: comp_def)

text \<open>One component, present or not.\<close>

lemma match_comp_take:
  assumes "strip_prefix sufs (c # r) = Some r" "\<not> is_digit c" "c \<noteq> CHR ''.''" "match_units us fin r = Some gs"
    and "q = 0 \<Longrightarrow> match_units ((g, sufs) # us) fin r = Some gs"
  shows "match_units ((g, sufs) # us) fin (comp q c @ r) = Some (group g q @ gs)"
  using assms by (cases "q = 0") (simp_all add: comp_def group_def match_take ends_number_def del: match_units.simps)

lemma match_units_skip_comp:
  assumes "\<forall>u \<in> set us1. strip_prefix (snd u) (c # r) = None" "\<not> is_digit c" "c \<noteq> CHR ''.''" "q \<noteq> 0"
  shows "match_units (us1 @ us) fin (comp q c @ r) = match_units us fin (comp q c @ r)"
  using assms(1)
proof (induction us1)
  case (Cons u us1)
  then show ?case
    using assms(2-4) match_skip[of c r "snd u" "fst u" "us1 @ us" fin q]
    by (cases u) (simp add: comp_def ends_number_def del: match_units.simps)
qed simp

lemma match_clock:
  "match_units time_units match_end (comp h CHR ''H'' @ comp m CHR ''M'' @ comp s CHR ''S'')
     = Some (group 6 h @ group 7 m @ group 8 s)"
proof -
  let ?sub = "[(9, [''ms'']), (10, [''us'']), (11, [''ns''])] :: (nat \<times> string list) list"
  have none: "match_units us match_end [] = Some []" for us
    using match_none[of "[]" us match_end] by (simp add: no_number_def match_end_def)
  have s: "match_units ((8, [''s'', ''S'']) # ?sub) match_end (comp s CHR ''S'') = Some (group 8 s)"
    using match_comp_take[of "[''s'', ''S'']" "CHR ''S''" "[]" ?sub match_end "[]" s 8] none
    by (simp add: is_digit_def del: match_units.simps)
  have m: "match_units ((7, [''m'', ''M'']) # (8, [''s'', ''S'']) # ?sub) match_end (comp m CHR ''M'' @ comp s CHR ''S'')
      = Some (group 7 m @ group 8 s)"
  proof (rule match_comp_take[OF _ _ _ s])
    show "match_units ((7, [''m'', ''M'']) # (8, [''s'', ''S'']) # ?sub) match_end (comp s CHR ''S'') = Some (group 8 s)"
    proof (cases "s = 0")
      case False
      then show ?thesis
        using match_units_skip_comp[of "[(7, [''m'', ''M''])]" "CHR ''S''" "[]" s] s
        by (simp add: is_digit_def del: match_units.simps)
    qed (simp add: comp_def group_def none del: match_units.simps)
  qed (simp_all add: is_digit_def)
  have h: "match_units time_units match_end (comp m CHR ''M'' @ comp s CHR ''S'') = Some (group 7 m @ group 8 s)"
  proof (cases "m = 0")
    case False
    then show ?thesis
      using match_units_skip_comp[of "[(6, [''h'', ''H''])]" "CHR ''M''" "comp s CHR ''S''" m] m
      by (simp add: time_units_def is_digit_def del: match_units.simps)
  next
    case True
    show ?thesis
    proof (cases "s = 0")
      case False
      then show ?thesis
        using match_units_skip_comp[of "[(6, [''h'', ''H'']), (7, [''m'', ''M''])]" "CHR ''S''" "[]" s] s True
        by (simp add: time_units_def is_digit_def comp_def group_def del: match_units.simps)
    qed (simp add: True comp_def group_def none del: match_units.simps)
  qed
  then show ?thesis
    unfolding time_units_def
    by (intro match_comp_take m) (simp_all add: is_digit_def del: match_units.simps)
qed

lemma match_date:
  assumes "no_number r" "match_time r = Some gs"
  shows "match_units date_units match_time (comp y CHR ''Y'' @ comp d CHR ''D'' @ r) = Some (group 2 y @ group 5 d @ gs)"
proof -
  have rest: "match_units us match_time r = Some gs" for us using match_none[OF assms(1)] assms(2) by simp
  have d: "match_units [(5, [''d'', ''D''])] match_time (comp d CHR ''D'' @ r) = Some (group 5 d @ gs)"
    by (rule match_comp_take) (use rest in \<open>simp_all add: is_digit_def del: match_units.simps(2)\<close>)
  have skip: "match_units (us @ [(5, [''d'', ''D''])]) match_time (comp d CHR ''D'' @ r) = Some (group 5 d @ gs)"
    if "\<forall>u \<in> set us. strip_prefix (snd u) (CHR ''D'' # r) = None" for us
  proof (cases "d = 0")
    case True
    then show ?thesis using rest by (simp add: comp_def group_def)
  next
    case False
    then show ?thesis using match_units_skip_comp[OF that] d by (simp add: is_digit_def)
  qed
  show ?thesis
    unfolding date_units_def
  proof (rule match_comp_take)
    show "match_units [(3, [''m'', ''M'']), (4, [''w'', ''W'']), (5, [''d'', ''D''])] match_time
        (comp d CHR ''D'' @ r) = Some (group 5 d @ gs)"
      using skip[of "[(3, [''m'', ''M'']), (4, [''w'', ''W''])]"] by (simp del: match_units.simps)
    show "match_units [(2, [''y'', ''Y'']), (3, [''m'', ''M'']), (4, [''w'', ''W'']), (5, [''d'', ''D''])] match_time
        (comp d CHR ''D'' @ r) = Some (group 5 d @ gs)"
      using skip[of "[(2, [''y'', ''Y'']), (3, [''m'', ''M'']), (4, [''w'', ''W''])]"] by (simp del: match_units.simps)
  qed (simp_all add: is_digit_def)
qed

subsection \<open>Adding the components up\<close>

lemma sum_units_group:
  assumes "unit_factor g = NInt (int F)" "0 < F" "int (acc + q * F) \<le> 2 ^ 53"
  shows "sum_units (group g q @ gs) (Fin (of_nat acc)) = sum_units gs (Fin (of_nat (acc + q * F)))"
proof (cases "q = 0")
  case False
  have le: "q \<le> q * F" "F \<le> q * F" using assms(2) False by simp_all
  have "acc + q * F \<le> 2 ^ 53" using assms(3) by (simp del: of_nat_add of_nat_mult)
  then have "q \<le> 2 ^ 53" "F \<le> 2 ^ 53" "F * q \<le> 2 ^ 53" "acc + F * q \<le> 2 ^ 53"
    using le by (simp_all only: mult.commute[of F q])
  then have small: "int q \<le> 2 ^ 53" "\<bar>int F\<bar> \<le> 2 ^ 53" "\<bar>int F * int q\<bar> \<le> 2 ^ 53"
    "\<bar>int acc + int F * int q\<bar> \<le> 2 ^ 53"
    by (simp_all flip: of_nat_mult of_nat_add)
  have "fmul (of_nat F) (of_nat q) = of_nat (F * q)" using fmul_int[OF small(3)] by simp
  moreover have "fadd (of_nat acc) (of_nat (F * q)) = of_nat (acc + q * F)"
    using fadd_int[of "int acc" "int F * int q"] small(4) by (simp add: mult.commute)
  ultimately show ?thesis
    using False small float_of_int_exact[OF small(2)]
    by (simp add: group_def assms(1) word_value_digits del: word_value.simps of_nat_mult)
qed (simp add: group_def)

lemma factors:
  "unit_factor 2 = NInt (int 31536000)" "unit_factor 5 = NInt (int 86400)" "unit_factor 6 = NInt (int 3600)"
  "unit_factor 7 = NInt (int 60)" "unit_factor 8 = NInt (int 1)"
  by (simp_all add: unit_factor_def unit_defs SECOND_def)

lemma sum_parts:
  assumes "int n \<le> 2 ^ 53"
  shows "sum_units (group 2 (year_part n) @ group 5 (day_part n) @ group 6 (hour_part n) @ group 7 (minute_part n)
    @ group 8 (second_part n)) (Fin 0) = Fin (of_nat n)"
proof -
  let ?a = "year_part n * 31536000" let ?b = "?a + day_part n * 86400"
  let ?c = "?b + hour_part n * 3600" let ?d = "?c + minute_part n * 60"
  have total: "?d + second_part n * 1 = n" using parts_sum[of n] by simp
  have "?a \<le> n" "?b \<le> n" "?c \<le> n" "?d \<le> n" using total by linarith+
  then have small: "int (0 + ?a) \<le> 2 ^ 53" "int ?b \<le> 2 ^ 53" "int ?c \<le> 2 ^ 53" "int ?d \<le> 2 ^ 53"
    "int (?d + second_part n * 1) \<le> 2 ^ 53"
    using assms total by linarith+
  show ?thesis
    using sum_units_group[OF factors(1) _ small(1)] sum_units_group[OF factors(2) _ small(2)]
      sum_units_group[OF factors(3) _ small(3)] sum_units_group[OF factors(4) _ small(4)]
      sum_units_group[OF factors(5) _ small(5), of "[]"]
    unfolding total by simp
qed

lemma no_leap_days:
  assumes "y < 126144000" "\<forall>g \<in> set gs. fst g \<noteq> 2"
  shows "leap_days (group 2 y @ gs) (Fin x) = pf_add (Fin x) (Fin 0) \<or> leap_days (group 2 y @ gs) (Fin x) = Fin x"
proof (cases "y = 0")
  case True
  have "map_of gs 2 = None" using assms(2) by (auto simp: map_of_eq_None_iff)
  then show ?thesis by (simp add: leap_days_def group_def True)
next
  case False
  have "float_floordiv (of_nat y) (of_int LEAP) = 0"
    using float_floordiv_nat[of y 126144000] assms(1) by (simp add: units_nat)
  then show ?thesis
    using False assms(1) by (simp add: leap_days_def group_def word_value_digits fmul_def del: word_value.simps)
qed

lemma match_iso:
  assumes "r = (if clock_part n = 0 then [] else CHR ''T'' # comp (hour_part n) CHR ''H''
       @ comp (minute_part n) CHR ''M'' @ comp (second_part n) CHR ''S'')"
  shows "match_time r = Some (group 6 (hour_part n) @ group 7 (minute_part n) @ group 8 (second_part n))"
proof (cases "clock_part n = 0")
  case True
  then have "hour_part n = 0" "minute_part n = 0" "second_part n = 0"
    by (simp_all add: hour_part_def minute_part_def second_part_def)
  then show ?thesis
    using True match_none[of "[]" time_units match_end]
    by (simp add: assms match_time_def group_def no_number_def match_end_def)
next
  case False
  then show ?thesis using match_clock by (simp add: assms match_time_def is_space_def)
qed

subsection \<open>Round trip\<close>

text \<open>
  C31. Round trip of the ISO 8601 text. A positive whole number of seconds is printed by
  \<open>to_iso8601_string\<close> as a text \<open>from_string\<close> accepts. Up to four years of 365 days the
  value read back is the value printed. Above that the printer takes a day off for every four
  years and the reader does not add it again (it divides the number of years by the seconds
  of four years), so that what is read back is short by those days.
\<close>
theorem iso8601_roundtrip:
  assumes "0 < N" "int N \<le> 10 ^ 15"
  shows "interval_from_string (to_iso8601_string (Fin (of_nat N))) =
    Inr (Fin (of_nat (if int N \<le> LEAP then N else N - nat DAY * (N div nat LEAP))))"
proof -
  define n where "n = printed_seconds N"
  have small: "int N \<le> 2 ^ 53" "int n \<le> 2 ^ 53" "n \<le> 10 ^ 15"
    using assms printed_seconds_le[of N] by (simp_all add: n_def)
  have y: "year_part n < 126144000" using small(3) by (simp add: year_part_def div_less_iff_less_mult)
  let ?gs = "group 5 (day_part n) @ group 6 (hour_part n) @ group 7 (minute_part n) @ group 8 (second_part n)"
  have gs: "\<forall>g \<in> set ?gs. fst g \<noteq> 2" by (auto simp: group_def)
  have nonempty: "group 2 (year_part n) @ ?gs \<noteq> []"
    using parts_sum[of n] printed_seconds_pos[OF assms(1)] by (auto simp: group_def n_def)
  have match: "match_duration (to_iso8601_string (Fin (of_nat N))) = Some (False, group 2 (year_part n) @ ?gs)"
    unfolding match_duration_def iso_string[OF assms(1) small(1) n_def]
    by (simp add: match_date[OF _ match_iso[OF refl]] no_number_def is_digit_def is_space_def)
  have "leap_days (group 2 (year_part n) @ ?gs) (Fin (of_nat n)) = Fin (of_nat n)"
    using no_leap_days[OF y gs, of "of_nat n"] fadd_int[of "int n" 0] small(2) by auto
  moreover have "interval (NFloat (Fin (of_nat n))) = Fin (of_nat n)"
    using rnd_int[of "int n"] small(2) by simp
  moreover have "n = (if int N \<le> LEAP then N else N - nat DAY * (N div nat LEAP))"
    by (simp add: n_def printed_seconds_def units_nat)
  ultimately show ?thesis
    unfolding interval_from_string_def match using nonempty sum_parts[OF small(2)] by (simp add: Let_def)
qed

text \<open>Five years of 365 days are read back as four years and 364 days.\<close>

lemma iso8601_roundtrip_witness:
  "interval_from_string (to_iso8601_string (Fin (of_nat 3661))) = Inr (Fin 3661)
   \<and> interval_from_string (to_iso8601_string (Fin (of_nat 157680000))) = Inr (Fin 157593600)"
  using iso8601_roundtrip[of 3661] iso8601_roundtrip[of 157680000] by (simp add: unit_defs)

lemma date_text_not_matched:
  assumes "c = CHR ''y'' \<or> c = CHR ''d''"
  shows "match_duration (digits_of_nat q @ c # r) = None"
proof -
  obtain e es where e: "digits_of_nat q = e # es" by (cases "digits_of_nat q") auto
  then have digit: "is_digit e" using all_digits[of q] by simp
  have skip: "match_units (us1 @ []) match_end (digits_of_nat q @ c # r) = None"
    if "us1 = time_units" for us1
  proof -
    have "\<forall>u \<in> set us1. strip_prefix (snd u) (c # r) = None"
      using assms that by (auto simp: time_units_def)
    then have "match_units (us1 @ []) match_end (digits_of_nat q @ c # r) = match_units [] match_end (digits_of_nat q @ c # r)"
    proof (induction us1)
      case (Cons u us1)
      then show ?case
        using assms match_skip[of c r "snd u" "fst u" "us1 @ []" match_end q]
        by (cases u) (auto simp: ends_number_def is_digit_def simp del: match_units.simps)
    qed simp
    then show ?thesis by (simp add: match_end_def)
  qed
  have "match_time (digits_of_nat q @ c # r) = None"
    using skip[OF refl] digit by (simp add: match_time_def no_space_digits e digit_not_special)
  then show ?thesis using digit by (simp add: match_duration_def e digit_not_special)
qed

lemma join_parts: "join_with s (p # ps) = p @ (if ps = [] then [] else s @ join_with s ps)"
  by (cases ps) auto

text \<open>
  Texts the printer makes and the reader refuses. The default text of one day or more
  starts with a component of years or days, which the pattern of \<open>from_string\<close> accepts only
  after a \<open>P\<close>, so that \<open>from_string\<close> raises \<open>ValueError\<close>; and the ISO 8601 text of the
  empty interval is \<open>PT\<close>, which has no component, and is refused in the same way.
\<close>
theorem long_text_unreadable:
  assumes "DAY \<le> int N" "int N \<le> 10 ^ 15"
  shows "interval_from_string (interval_to_string default_format (Fin (of_nat N))) = Inl ValueError
    \<and> interval_from_string (to_iso8601_string (Fin 0)) = Inl ValueError"
proof
  define n where "n = printed_seconds N"
  have small: "int N \<le> 2 ^ 53" "0 < N" using assms by (simp_all add: unit_defs)
  have long: "86400 \<le> n"
  proof (cases "126144000 < N")
    case True
    have "86400 * (N div 126144000) + 86400 \<le> N"
      using True times_div_less_eq_dividend[of 126144000 N] by linarith
    then show ?thesis using True by (simp add: n_def printed_seconds_def)
  qed (use assms(1) in \<open>simp add: n_def printed_seconds_def unit_defs\<close>)
  have "year_part n \<noteq> 0 \<or> day_part n \<noteq> 0"
    using long by (auto simp: year_part_def day_part_def div_eq_0_iff)
  then obtain q c r where "interval_to_string default_format (Fin (of_nat N)) = digits_of_nat q @ c # r"
    and "c = CHR ''y'' \<or> c = CHR ''d''"
    using small
    by (cases "year_part n = 0")
      (auto simp: interval_to_string_def default_format_def finite_parts_whole[OF _ _ _ _ _ _ _ _ _ _ n_def]
        text_part_def join_parts)
  then show "interval_from_string (interval_to_string default_format (Fin (of_nat N))) = Inl ValueError"
    by (simp add: interval_from_string_def date_text_not_matched)
  have "to_iso8601_string (Fin 0) = ''PT''"
    by (simp add: to_iso8601_string_def interval_to_string_def default_format_def finite_parts_def Let_def
        date_components_def time_components_def unit_defs)
  moreover have "match_duration ''PT'' = Some (False, [])" by code_simp
  ultimately show "interval_from_string (to_iso8601_string (Fin 0)) = Inl ValueError"
    by (simp add: interval_from_string_def)
qed

lemma long_text_unreadable_witness:
  "interval_from_string (interval_to_string default_format (Fin (of_nat 90061))) = Inl ValueError"
  using long_text_unreadable[of 90061] by (simp add: unit_defs)

end
