(* ===== verification/Zmq_Endpoint.thy ===== *)
theory Zmq_Endpoint
  imports Settings Invocation
begin

section \<open>Messaging endpoints (\<open>messaging/common/endpoint.py\<close>, \<open>messaging/zmq/basic/endpoint.py\<close>)\<close>

text \<open>
  The settings of an endpoint, the addresses it uses, and its connections. ZeroMQ is not part
  of the sources: a socket is the list of calls that were made on it and succeeded, and which
  call raises is a parameter.
\<close>

subsection \<open>Settings of a channel\<close>

text \<open>The names of the settings files; a scope that is \<open>None\<close> or empty has none.\<close>

definition settings_file :: "string \<Rightarrow> string \<Rightarrow> string" where
  "settings_file messaging_flavor scope_name = lower messaging_flavor @ ''-endpoints-'' @ lower scope_name"

definition settings_scopes :: "string \<Rightarrow> string \<Rightarrow> string option \<Rightarrow> string option \<Rightarrow> string list" where
  "settings_scopes messaging_flavor channel_name product_name project_name =
     map (settings_file messaging_flavor)
       (filter (\<lambda>scope. scope \<noteq> [])
         (channel_name # map (\<lambda>scope. case scope of None \<Rightarrow> [] | Some n \<Rightarrow> n) [product_name, project_name]
          @ [''common'']))"

definition setting :: "vmap \<Rightarrow> string \<Rightarrow> string \<Rightarrow> variant \<Rightarrow> variant result" where
  "setting settings channel_name key fallback =
     (case bind_result (subscript (VMap settings) (CStr channel_name)) (\<lambda>channel. subscript channel (CStr key)) of
        Inr v \<Rightarrow> Inr v
      | Inl e \<Rightarrow>
         (if e = TypeError \<or> e = KeyError then
            (case dict_get_default settings ''_default_'' (VMap []) of
               VMap d \<Rightarrow> Inr (dict_get_default d key fallback)
             | _ \<Rightarrow> Inl AttributeError)
          else Inl e))"

subsection \<open>Addresses\<close>

text \<open>
  The pattern has three optional parts: a scheme of word characters before \<open>://\<close>, a host
  that is \<open>*\<close>, a bracketed address or a possibly empty run of word characters, dashes and
  dots, and a colon with digits. It matches a prefix of the text; what follows is ignored.
\<close>

definition host_char :: "char \<Rightarrow> bool" where
  "host_char c \<longleftrightarrow> is_word c \<or> c = CHR ''-'' \<or> c = CHR ''.''"

definition bracket_char :: "char \<Rightarrow> bool" where
  "bracket_char c \<longleftrightarrow> is_word c \<or> c = CHR ''.'' \<or> c = CHR '':''"

definition match_scheme :: "string \<Rightarrow> string \<times> string" where
  "match_scheme target =
     (let word = takeWhile is_word target; rest = dropWhile is_word target in
      if take 3 rest = ''://'' then (word, drop 3 rest) else ([], target))"

definition match_host :: "string \<Rightarrow> string \<times> string" where
  "match_host target =
     (let plain = (takeWhile host_char target, dropWhile host_char target) in
      case target of
        [] \<Rightarrow> ([], [])
      | c # cs \<Rightarrow>
         (if c = CHR ''*'' then (''*'', cs)
          else if c = CHR ''['' then
            (case dropWhile bracket_char cs of
               d # ds \<Rightarrow> (if d = CHR '']'' then (c # takeWhile bracket_char cs @ [d], ds) else plain)
             | [] \<Rightarrow> plain)
          else plain))"

definition match_port :: "string \<Rightarrow> nat option" where
  "match_port target =
     (case target of
        [] \<Rightarrow> None
      | c # cs \<Rightarrow>
         (if c = CHR '':'' \<and> takeWhile is_digit cs \<noteq> [] then Some (nat_of_digits 0 (takeWhile is_digit cs))
          else None))"

definition splitAddress :: "string \<Rightarrow> string \<times> string \<times> nat option" where
  "splitAddress target =
     (let (scheme, rest) = match_scheme target; (host, rest) = match_host rest
      in (scheme, host, match_port rest))"

text \<open>
  \<open>str(x)\<close>; of a float, a list or a dictionary it is a parameter. The host must be a string
  to be joined.
\<close>

fun py_str :: "(variant \<Rightarrow> string) \<Rightarrow> variant \<Rightarrow> string" where
  "py_str repr (VStr s) = s"
| "py_str repr (VInt n) = string_of_int n"
| "py_str repr (VBool b) = (if b then ''True'' else ''False'')"
| "py_str repr VNull = ''None''"
| "py_str repr v = repr v"

definition joinAddress :: "(variant \<Rightarrow> string) \<Rightarrow> variant \<Rightarrow> variant \<Rightarrow> variant \<Rightarrow> string result" where
  "joinAddress repr scheme name port =
     (case name of
        VStr host \<Rightarrow>
          Inr ((if truthy scheme then py_str repr scheme @ ''://'' else []) @ host
               @ (if truthy port then CHR '':'' # py_str repr port else []))
      | _ \<Rightarrow> Inl TypeError)"

record config =
  cf_settings :: vmap
  cf_channel :: string
  cf_provided :: "string option"
  cf_repr :: "variant \<Rightarrow> string"

text \<open>\<open>provided or self._provided_address or ""\<close>.\<close>

definition chosen_address :: "config \<Rightarrow> string option \<Rightarrow> string" where
  "chosen_address cf provided =
     (case provided of
        Some (c # cs) \<Rightarrow> c # cs
      | _ \<Rightarrow> (case cf_provided cf of None \<Rightarrow> [] | Some a \<Rightarrow> a))"

definition realaddress ::
    "config \<Rightarrow> string option \<Rightarrow> string \<Rightarrow> string \<Rightarrow> string \<Rightarrow> string \<Rightarrow> string \<Rightarrow> nat \<Rightarrow> string result" where
  "realaddress cf provided schemeOption hostOption portOption defaultScheme defaultHost defaultPort =
     (let (scheme, host, port) = splitAddress (chosen_address cf provided);
          lookup = setting (cf_settings cf) (cf_channel cf) in
      bind_result (if schemeOption \<noteq> [] \<and> scheme = [] then lookup schemeOption (VStr defaultScheme) else Inr (VStr scheme))
        (\<lambda>scheme.
      bind_result (if hostOption \<noteq> [] \<and> host = [] then lookup hostOption (VStr defaultHost) else Inr (VStr host))
        (\<lambda>host.
      bind_result (if portOption \<noteq> [] \<and> port = None then lookup portOption (VInt (int defaultPort))
                   else Inr (case port of None \<Rightarrow> VNull | Some p \<Rightarrow> VInt (int p)))
        (\<lambda>port. joinAddress (cf_repr cf) scheme host port))))"

definition sanitized_host_address :: "config \<Rightarrow> string option \<Rightarrow> string result" where
  "sanitized_host_address cf provided =
     realaddress cf provided ''scheme'' ''host'' ''port'' ''tcp'' ''localhost'' 5555"

definition sanitized_bind_address :: "config \<Rightarrow> string option \<Rightarrow> string result" where
  "sanitized_bind_address cf provided =
     realaddress cf provided ''scheme'' ''listen'' ''port'' ''tcp'' ''*'' 5555"

subsection \<open>Connections\<close>

datatype socket_call = SockConnect string | SockDisconnect string | SockBind string | SockUnbind string

datatype role = UNDEFINED | HOST | SATELLITE

text \<open>\<open>e_calls\<close> are the socket's successful calls, the latest last.\<close>

record endpoint =
  e_role :: role
  bound_address :: "string option"
  host_address :: "string option"
  e_calls :: "socket_call list"

type_synonym socket = "socket_call list \<Rightarrow> socket_call \<Rightarrow> py_error option"

definition new_endpoint :: "role \<Rightarrow> endpoint" where
  "new_endpoint r = \<lparr>e_role = r, bound_address = None, host_address = None, e_calls = []\<rparr>"

definition call_socket :: "socket \<Rightarrow> socket_call \<Rightarrow> endpoint \<Rightarrow> endpoint \<times> py_error option" where
  "call_socket sock call e =
     (case sock (e_calls e) call of
        None \<Rightarrow> (e\<lparr>e_calls := e_calls e @ [call]\<rparr>, None)
      | Some err \<Rightarrow> (e, Some err))"

definition is_set :: "string option \<Rightarrow> bool" where
  "is_set a \<longleftrightarrow> a \<noteq> None \<and> a \<noteq> Some []"

definition connect :: "socket \<Rightarrow> config \<Rightarrow> string option \<Rightarrow> endpoint \<Rightarrow> endpoint \<times> py_error option" where
  "connect sock cf address e =
     (if is_set (host_address e) then (e, None)
      else case sanitized_host_address cf address of
        Inl err \<Rightarrow> (e, Some err)
      | Inr addr \<Rightarrow>
         (case call_socket sock (SockConnect addr) e of
            (e', None) \<Rightarrow> (e'\<lparr>host_address := Some addr\<rparr>, None)
          | (e', Some err) \<Rightarrow> (e', Some err)))"

definition disconnect :: "socket \<Rightarrow> endpoint \<Rightarrow> endpoint \<times> py_error option" where
  "disconnect sock e =
     (if is_set (host_address e)
      then call_socket sock (SockDisconnect (the (host_address e))) (e\<lparr>host_address := None\<rparr>)
      else (e, None))"

definition bind :: "socket \<Rightarrow> config \<Rightarrow> string option \<Rightarrow> endpoint \<Rightarrow> endpoint \<times> py_error option" where
  "bind sock cf address e =
     (if is_set (bound_address e) then (e, None)
      else case sanitized_bind_address cf address of
        Inl err \<Rightarrow> (e, Some err)
      | Inr addr \<Rightarrow>
         (case call_socket sock (SockBind addr) e of
            (e', None) \<Rightarrow> (e'\<lparr>bound_address := Some addr\<rparr>, None)
          | (e', Some err) \<Rightarrow> (e', Some err)))"

definition unbind :: "socket \<Rightarrow> endpoint \<Rightarrow> endpoint \<times> py_error option" where
  "unbind sock e =
     (if is_set (bound_address e)
      then call_socket sock (SockUnbind (the (bound_address e))) (e\<lparr>bound_address := None\<rparr>)
      else (e, None))"

definition initialize :: "socket \<Rightarrow> config \<Rightarrow> endpoint \<Rightarrow> endpoint \<times> py_error option" where
  "initialize sock cf e =
     (if e_role e = HOST then bind sock cf None e
      else if e_role e = SATELLITE then connect sock cf None e
      else (e, None))"

definition deinitialize :: "socket \<Rightarrow> endpoint \<Rightarrow> endpoint \<times> py_error option" where
  "deinitialize sock e =
     (if e_role e = HOST then unbind sock e
      else if e_role e = SATELLITE then disconnect sock e
      else (e, None))"

subsection \<open>Reading a message\<close>

text \<open>
  \<open>receive_parts\<close> reads frames until one is the last; \<open>recv\<close> yields the next frame with its
  \<open>more\<close> flag. \<open>None\<close>: the next frame never comes.
\<close>

fun receive_parts :: "('b list \<times> bool) list \<Rightarrow> ('b list list \<times> ('b list \<times> bool) list) option" where
  "receive_parts [] = None"
| "receive_parts ((frame, goes_on) # frames) =
     (if goes_on then map_option (\<lambda>(parts, rest). (frame # parts, rest)) (receive_parts frames)
      else Some ([frame], frames))"

definition receive_bytes :: "('b list \<times> bool) list \<Rightarrow> ('b list \<times> ('b list \<times> bool) list) option" where
  "receive_bytes frames = map_option (\<lambda>(parts, rest). (concat parts, rest)) (receive_parts frames)"

end
