(* ===== verification/Zmq_Pubsub.thy ===== *)
theory Zmq_Pubsub
  imports Zmq_Endpoint Signal_Laws
begin

section \<open>Publishing and subscribing over ZeroMQ (\<open>messaging/zmq/basic\<close>, \<open>messaging/zmq/protobuf\<close>)\<close>

text \<open>
  A published message is a list of frames. Texts are ASCII, so that their UTF-8 encoding is
  the text. A handler acts on a state \<open>'s\<close>; a subscriber's set of handlers is a list without
  duplicates, in the order in which the set yields them. The filters of a subscriber are what
  was subscribed on its socket and not unsubscribed.
\<close>

subsection \<open>Topics and publishers\<close>

datatype topic = TopicNone | TopicBytes string | TopicBytearray string | TopicStr string | TopicOther

fun encode_topic :: "topic \<Rightarrow> string option result" where
  "encode_topic TopicNone = Inr None"
| "encode_topic (TopicBytes b) = Inr (Some b)"
| "encode_topic (TopicBytearray b) = Inr (Some b)"
| "encode_topic (TopicStr s) = Inr (Some s)"
| "encode_topic TopicOther = Inl TypeError"

text \<open>Each frame is sent with the flag that tells whether more frames follow.\<close>

definition publish :: "topic \<Rightarrow> string \<Rightarrow> (string \<times> bool) list result" where
  "publish t data =
     (if t = TopicNone then Inr [(data, False)]
      else bind_result (encode_topic t) (\<lambda>header. Inr [(the header, True), (data, False)]))"

definition write_bytes :: "string option \<Rightarrow> string \<Rightarrow> (string \<times> bool) list result" where
  "write_bytes writer_topic data =
     publish (case writer_topic of None \<Rightarrow> TopicNone | Some b \<Rightarrow> TopicBytes b) data"

subsection \<open>Handlers\<close>

record 's handler =
  h_key :: nat
  h_filter :: "string option"
  h_handle :: "string \<Rightarrow> 's \<Rightarrow> 's \<times> unit result"

definition combine_parts :: "string list \<Rightarrow> bool \<Rightarrow> string" where
  "combine_parts parts remove_header = concat (drop (if remove_header then 1 else 0) parts)"

definition handle_parts :: "'s handler \<Rightarrow> string list \<Rightarrow> 's \<Rightarrow> 's \<times> unit result" where
  "handle_parts h parts s = h_handle h (combine_parts parts (h_filter h \<noteq> None)) s"

subsection \<open>Subscribers\<close>

record 's subscriber =
  subscriptions :: "'s handler list"
  filters :: "string list"

definition new_subscriber :: "'s subscriber" where
  "new_subscriber = \<lparr>subscriptions = [], filters = []\<rparr>"

text \<open>\<open>len(handler.message_filter)\<close> raises \<open>TypeError\<close> for \<open>None\<close>.\<close>

definition add_handler :: "'s handler \<Rightarrow> 's subscriber \<Rightarrow> 's subscriber \<times> py_error option" where
  "add_handler h s =
     (case h_filter h of
        None \<Rightarrow> (s, Some TypeError)
      | Some f \<Rightarrow>
         (\<lparr>subscriptions = (if h_key h \<in> h_key ` set (subscriptions s) then subscriptions s
                            else subscriptions s @ [h]),
           filters = filters s @ [f]\<rparr>, None))"

text \<open>The log entry has two places for its three arguments, and raises first.\<close>

definition remove_handler :: "'s handler \<Rightarrow> 's subscriber \<Rightarrow> 's subscriber \<times> py_error option" where
  "remove_handler h s = (s, Some TypeError)"

definition clear_handlers :: "'s subscriber \<Rightarrow> 's subscriber" where
  "clear_handlers s =
     \<lparr>subscriptions = [],
      filters = fold (\<lambda>h fs. case h_filter h of None \<Rightarrow> fs | Some f \<Rightarrow> remove1 f fs) (subscriptions s) (filters s)\<rparr>"

definition accepts :: "string list \<Rightarrow> 's handler \<Rightarrow> bool" where
  "accepts parts h \<longleftrightarrow> (case h_filter h of None \<Rightarrow> True | Some f \<Rightarrow> f = hd parts)"

text \<open>
  The loop over the handlers; the calls made are recorded with the key of the handler and the
  payload it got. The result tells whether any handler matched.
\<close>

fun invoke_handlers :: "string list \<Rightarrow> 's handler list \<Rightarrow> 's \<Rightarrow> 's \<times> (nat \<times> string) list" where
  "invoke_handlers parts [] s = (s, [])"
| "invoke_handlers parts (h # hs) s =
     (if accepts parts h then
        (let (s', outcome) = handle_parts h parts s in
         case safe_invoke outcome (Some ''Subscriber handler'') None True True of
           Inl e \<Rightarrow> (s', [])
         | Inr _ \<Rightarrow> (let (s'', calls) = invoke_handlers parts hs s' in
                     (s'', (h_key h, combine_parts parts (h_filter h \<noteq> None)) # calls)))
      else invoke_handlers parts hs s)"

definition process_message :: "'s subscriber \<Rightarrow> string list \<Rightarrow> 's \<Rightarrow> 's \<times> (nat \<times> string) list \<times> bool" where
  "process_message sub parts s =
     (let (s', calls) = invoke_handlers parts (subscriptions sub) s in (s', calls, calls \<noteq> []))"

text \<open>One message read from the frames that arrived, and processed.\<close>

definition receive_step ::
    "'s subscriber \<Rightarrow> (string \<times> bool) list \<Rightarrow> 's \<Rightarrow> ('s \<times> (nat \<times> string) list \<times> (string \<times> bool) list) option" where
  "receive_step sub frames s =
     (case receive_parts frames of
        None \<Rightarrow> None
      | Some (parts, rest) \<Rightarrow>
         (let (s', calls, found) = process_message sub parts s in Some (s', calls, rest)))"

subsection \<open>Messages of a protobuf type\<close>

record 'm message_type =
  full_name :: string
  serialize :: "'m \<Rightarrow> string"
  parse :: "string \<Rightarrow> 'm result"

definition writer_topic :: "'m message_type \<Rightarrow> topic \<Rightarrow> string option result" where
  "writer_topic ty t = encode_topic (if t = TopicNone then TopicStr (full_name ty) else t)"

definition write_proto :: "'m message_type \<Rightarrow> string option \<Rightarrow> 'm \<Rightarrow> (string \<times> bool) list result" where
  "write_proto ty tpc message = write_bytes tpc (serialize ty message)"

definition proto_handler ::
    "nat \<Rightarrow> 'm message_type \<Rightarrow> topic \<Rightarrow> ('m \<Rightarrow> 's \<Rightarrow> 's \<times> unit result) \<Rightarrow> 's handler result" where
  "proto_handler key ty message_filter handle_proto =
     bind_result (encode_topic (if message_filter = TopicNone then TopicStr (full_name ty) else message_filter))
       (\<lambda>f. Inr \<lparr>h_key = key, h_filter = f,
                 h_handle = (\<lambda>data s. case parse ty data of Inl e \<Rightarrow> (s, Inl e) | Inr m \<Rightarrow> handle_proto m s)\<rparr>)"

subsection \<open>Signals over ZeroMQ\<close>

text \<open>
  \<open>SignalHandler.handle_proto\<close> emits into the local store. The call ends with what the
  emission ended with; one that never returns is not an end, and is left as it is.
\<close>

definition signal_handler ::
    "nat \<Rightarrow> 'p message message_type \<Rightarrow> ('p message \<Rightarrow> 'p store \<Rightarrow> 'p act) \<Rightarrow> 'p store handler result" where
  "signal_handler key ty emit_local =
     proto_handler key ty TopicNone
       (\<lambda>m s. case emit_local m s of
          (s', ds, Failed e) \<Rightarrow> (s', Inl e)
        | (s', ds, _) \<Rightarrow> (s', Inr ()))"

record 'p signal_writer =
  sw_started :: bool
  sw_slot :: listener

definition start_writer ::
    "(listener \<Rightarrow> 'p store \<Rightarrow> 'p act) \<Rightarrow> 'p signal_writer \<Rightarrow> 'p store \<Rightarrow> 'p signal_writer \<times> 'p act" where
  "start_writer connect_to w s =
     (if sw_started w then (w, (s, [], Finished))
      else case connect_to (sw_slot w) s of
        (s', ds, Finished) \<Rightarrow> (w\<lparr>sw_started := True\<rparr>, (s', ds, Finished))
      | (s', ds, e) \<Rightarrow> (w, (s', ds, e)))"

definition stop_writer :: "'p signal_writer \<Rightarrow> 'p store \<Rightarrow> 'p signal_writer \<times> 'p store" where
  "stop_writer w s =
     (if sw_started w then (w\<lparr>sw_started := False\<rparr>, snd (disconnect_all (Some (sw_slot w)) s)) else (w, s))"

text \<open>What the writer's slot publishes for the calls an operation of its store made.\<close>

fun published :: "'p message message_type \<Rightarrow> listener \<Rightarrow> 'p delivery list \<Rightarrow> (string \<times> bool) list" where
  "published ty slot [] = []"
| "published ty slot ((l, m) # ds) =
     (if l = slot then
        (case bind_result (writer_topic ty TopicNone) (\<lambda>tpc. write_proto ty tpc m) of
           Inl e \<Rightarrow> [] | Inr frames \<Rightarrow> frames)
      else []) @ published ty slot ds"

text \<open>The subscriber's loop over the frames that arrived.\<close>

function receive_all :: "'s subscriber \<Rightarrow> (string \<times> bool) list \<Rightarrow> 's \<Rightarrow> 's" where
  "receive_all sub frames s =
     (case receive_parts frames of
        None \<Rightarrow> s
      | Some (parts, rest) \<Rightarrow> receive_all sub rest (fst (process_message sub parts s)))"
  by auto

lemma receive_parts_shorter: "receive_parts frames = Some (parts, rest) \<Longrightarrow> length rest < length frames"
  by (induction frames arbitrary: parts) (auto split: if_splits)

termination receive_all
  by (relation "measure (\<lambda>(sub, frames, s). length frames)") (auto dest: receive_parts_shorter)

declare receive_all.simps [simp del]

end
