(* ===== verification/Zmq_Pubsub_Props.thy ===== *)
theory Zmq_Pubsub_Props
  imports Zmq_Pubsub Signal_Props
begin

section \<open>Properties of publishers and subscribers\<close>

text \<open>
  A published payload reaches the handlers of its topic; what a subscriber is subscribed to
  after any sequence of operations; and two signal stores, one emitting through a writer and
  one fed by a handler, agree.
\<close>

subsection \<open>Delivery\<close>

lemma safe_invoke_ok: "\<exists>v. safe_invoke r (Some ''Subscriber handler'') None True True = Inr v"
  by (simp add: safe_invoke_described)

lemma invoke_handlers_spec:
  "invoke_handlers parts hs s =
     (foldl (\<lambda>s h. fst (handle_parts h parts s)) s (filter (accepts parts) hs),
      map (\<lambda>h. (h_key h, combine_parts parts (h_filter h \<noteq> None))) (filter (accepts parts) hs))"
proof (induction hs arbitrary: s)
  case (Cons h hs)
  obtain s' r where h: "handle_parts h parts s = (s', r)" by fastforce
  obtain v where "safe_invoke r (Some ''Subscriber handler'') None True True = Inr v" using safe_invoke_ok by blast
  then show ?case using Cons h by simp
qed simp

lemma publish_frames: "encode_topic t = Inr (Some f) \<Longrightarrow> publish t data = Inr [(f, True), (data, False)]"
  by (cases t) (auto simp: publish_def)

text \<open>
  C14. A payload published under a topic reaches exactly the handlers of that topic and those
  without filter, each once and in order, whatever the handlers before it raise: a handler of
  the topic gets the payload, one without filter the topic and the payload in one. The frames
  of later messages stay for the next turn.
\<close>

theorem published_payload_reaches_handlers:
  assumes "encode_topic t = Inr (Some f)" and "publish t data = Inr frames"
  shows "receive_step sub (frames @ later) s =
    (let hs = filter (\<lambda>h. h_filter h = None \<or> h_filter h = Some f) (subscriptions sub);
         payload = (\<lambda>h. case h_filter h of None \<Rightarrow> f @ data | Some _ \<Rightarrow> data)
     in Some (foldl (\<lambda>s h. fst (h_handle h (payload h) s)) s hs, map (\<lambda>h. (h_key h, payload h)) hs, later))"
proof -
  have frames: "frames = [(f, True), (data, False)]" using assms by (simp add: publish_frames)
  have pick: "accepts [f, data] = (\<lambda>h. h_filter h = None \<or> h_filter h = Some f)"
    by (auto simp: accepts_def fun_eq_iff split: option.splits)
  have payload: "combine_parts [f, data] (\<exists>y. h_filter h = Some y) = (case h_filter h of None \<Rightarrow> f @ data | Some _ \<Rightarrow> data)"
    for h :: "'a handler"
    by (cases "h_filter h") (simp_all add: combine_parts_def)
  show ?thesis
    unfolding frames
    by (simp add: receive_step_def process_message_def invoke_handlers_spec handle_parts_def payload pick Let_def)
qed

definition count_handler :: "nat \<Rightarrow> string option \<Rightarrow> nat handler" where
  "count_handler key f = \<lparr>h_key = key, h_filter = f, h_handle = (\<lambda>data n. (n + length data, Inl ValueError))\<rparr>"

theorem published_payload_reaches_handlers_witness:
  "receive_step \<lparr>subscriptions = [count_handler 1 (Some ''a''), count_handler 2 (Some ''b''), count_handler 3 (Some ''a'')],
      filters = [''a'', ''b'', ''a'']\<rparr> ([(''a'', True), (''xyz'', False)] @ []) 0 = Some (6, [(1, ''xyz''), (3, ''xyz'')], [])"
  using published_payload_reaches_handlers[of "TopicStr ''a''" "''a''" "''xyz''" "[(''a'', True), (''xyz'', False)]"
      "\<lparr>subscriptions = [count_handler 1 (Some ''a''), count_handler 2 (Some ''b''), count_handler 3 (Some ''a'')],
      filters = [''a'', ''b'', ''a'']\<rparr>" "[]" 0]
  by (simp add: publish_def count_handler_def)

subsection \<open>Subscriptions\<close>

datatype 's sub_op = Add "'s handler" | Remove "'s handler" | Clear

fun sub_step :: "'s subscriber \<Rightarrow> 's sub_op \<Rightarrow> 's subscriber" where
  "sub_step s (Add h) = fst (add_handler h s)"
| "sub_step s (Remove h) = fst (remove_handler h s)"
| "sub_step s Clear = clear_handlers s"

text \<open>
  The specification: the keys of the handlers; adding needs a filter, removing has no effect,
  clearing leaves none.
\<close>

fun sub_spec :: "nat set \<Rightarrow> 's sub_op \<Rightarrow> nat set" where
  "sub_spec ks (Add h) = (if h_filter h = None then ks else insert (h_key h) ks)"
| "sub_spec ks (Remove h) = ks"
| "sub_spec ks Clear = {}"

definition sub_inv :: "'s subscriber \<Rightarrow> bool" where
  "sub_inv s \<longleftrightarrow> distinct (map h_key (subscriptions s))
     \<and> (\<forall>h \<in> set (subscriptions s). \<exists>f. h_filter h = Some f \<and> f \<in> set (filters s))"

interpretation subscriber: simulation sub_step sub_spec "\<lambda>s. h_key ` set (subscriptions s)" sub_inv "\<lambda>_. True"
proof
  show "sub_inv (sub_step s m)" if "sub_inv s" for s :: "'s subscriber" and m
    using that by (cases m)
      (auto simp: sub_inv_def add_handler_def remove_handler_def clear_handlers_def split: option.splits)
  show "h_key ` set (subscriptions (sub_step s m)) = sub_spec (h_key ` set (subscriptions s)) m" for s :: "'s subscriber" and m
    by (cases m) (auto simp: add_handler_def remove_handler_def clear_handlers_def split: option.splits)
qed

text \<open>
  After any sequence of additions, removals and clearings, the handlers of a subscriber
  are those added with a filter since the last clearing: removing never removes one. Each of
  them is held once and its filter is subscribed on the socket.
\<close>

theorem subscriptions_refine_additions:
  "(let sub = foldl sub_step new_subscriber ops in
    h_key ` set (subscriptions sub) = foldl sub_spec {} ops \<and> distinct (map h_key (subscriptions sub))
    \<and> list_all (\<lambda>h. case h_filter h of None \<Rightarrow> False | Some f \<Rightarrow> f \<in> set (filters sub)) (subscriptions sub))"
proof -
  have start: "sub_inv new_subscriber" "h_key ` set (subscriptions new_subscriber) = {}"
    by (simp_all add: sub_inv_def new_subscriber_def)
  show ?thesis
    using subscriber.run_inv[OF start(1), of ops] subscriber.run_abs[OF start(1), of ops, unfolded start(2)]
    by (fastforce simp: sub_inv_def Let_def list_all_iff split: option.splits)
qed

subsection \<open>Two stores\<close>

text \<open>What a store's slots are called with over a history of emissions.\<close>

fun emit_trace :: "'p runtime \<Rightarrow> 'p message list \<Rightarrow> 'p store \<Rightarrow> 'p delivery list" where
  "emit_trace rt [] s = []"
| "emit_trace rt (m # ms) s =
     (case caching_emit rt m s of (s', ds, e) \<Rightarrow> ds @ emit_trace rt ms s')"

lemma published_frames:
  "published ty w ds = concat (map (\<lambda>m. [(full_name ty, True), (serialize ty m, False)])
     (map snd (filter (\<lambda>d. fst d = w) ds)))"
  by (induction ds rule: published.induct[of "\<lambda>_ _ ds. _ ds", case_names Nil Cons])
     (auto simp: writer_topic_def write_proto_def write_bytes_def publish_def)

lemma receive_relayed:
  assumes "\<forall>m \<in> set ms. parse ty (serialize ty m) = Inr m"
    and "signal_handler key ty emit_local = Inr h"
  shows "receive_all \<lparr>subscriptions = [h], filters = fs\<rparr>
      (concat (map (\<lambda>m. [(full_name ty, True), (serialize ty m, False)]) ms)) s
    = foldl (\<lambda>s m. fst (emit_local m s)) s ms"
  using assms(1)
proof (induction ms arbitrary: s)
  case Nil
  show ?case by (subst receive_all.simps) simp
next
  case (Cons m ms)
  have h: "h_filter h = Some (full_name ty)"
    "h_handle h = (\<lambda>data s. case parse ty data of Inl e \<Rightarrow> (s, Inl e)
        | Inr m \<Rightarrow> (case emit_local m s of (s', ds, Failed e) \<Rightarrow> (s', Inl e) | (s', ds, _) \<Rightarrow> (s', Inr ())))"
    using assms(2) by (auto simp: signal_handler_def proto_handler_def)
  have "fst (case emit_local m s of (s', ds, Failed e) \<Rightarrow> (s', Inl e) | (s', ds, _) \<Rightarrow> (s', Inr ()))
      = fst (emit_local m s)"
    by (auto split: prod.splits status.splits)
  then have "fst (process_message \<lparr>subscriptions = [h], filters = fs\<rparr> [full_name ty, serialize ty m] s)
      = fst (emit_local m s)"
    by (simp add: process_message_def invoke_handlers_spec accepts_def handle_parts_def combine_parts_def h Cons.prems)
  then show ?case by (subst receive_all.simps) (simp add: Cons)
qed

lemma receivers_single:
  "s_slots t = [(ALL_SIGNALS, [w])] \<Longrightarrow> n \<noteq> ALL_SIGNALS \<Longrightarrow> receivers t n = (if n = [] then [] else [w])"
  by (simp add: receivers_def dict_get_default_def)

text \<open>A store whose only slot is one connected to all signals calls it for each emission.\<close>

lemma emit_trace_single:
  assumes "\<forall>m. ready rt m w" "ALL_SIGNALS \<notin> fst ` set (d_signals d)"
    and "s_slots s = [(ALL_SIGNALS, [w])]" "\<forall>m \<in> set ms. sends d m"
  shows "emit_trace rt ms s = map (Pair w) (filter (\<lambda>m. signal_name m \<noteq> []) ms)"
  using assms(3,4)
proof (induction ms arbitrary: s)
  case (Cons m ms)
  obtain action key where c: "mapping_controls s m = (action, key)" by fastforce
  let ?t = "if signal_name m \<noteq> [] then update_cache (signal_name m) action key m s else s"
  have "s_slots ?t = [(ALL_SIGNALS, [w])]" using Cons.prems by (simp add: update_cache_def Let_def)
  moreover have "signal_name m \<noteq> ALL_SIGNALS" using Cons.prems(2) assms(2) unfolding sends_def
    by (metis ALL_SIGNALS_def list.set_intros(1) not_Cons_self2)
  ultimately have r: "receivers ?t (signal_name m) = (if signal_name m = [] then [] else [w])"
    by (rule receivers_single)
  have "caching_emit rt m s = (fst (caching_emit rt m s), map (\<lambda>l. (l, m)) (receivers ?t (signal_name m)), Finished)"
    unfolding caching_emit_def c using emit_ready[of ?t m rt] r assms(1) by auto
  then have e: "caching_emit rt m s = (fst (caching_emit rt m s), if signal_name m = [] then [] else [(w, m)], Finished)"
    unfolding r by (simp split: if_splits)
  have "s_slots (fst (caching_emit rt m s)) = [(ALL_SIGNALS, [w])]" using Cons.prems by simp
  from Cons.IH[OF this] Cons.prems(2) show ?case by (subst emit_trace.simps, subst e) simp
qed simp

lemma observe_unnamed:
  "foldl (observe d) v (filter (\<lambda>m. signal_name m \<noteq> []) ms) = foldl (observe d) v ms"
  by (induction ms arbitrary: v) (simp_all add: observe_def)

lemma observed_message: "foldl (observe d) v ms name k = Some m \<Longrightarrow> m \<in> set ms \<or> v name k = Some m"
  by (induction ms arbitrary: v) (fastforce simp: observe_def Let_def split: if_splits)+

text \<open>The replay sends messages of the history.\<close>

lemma replayed_history:
  assumes "cache_inv d s" "cache_view s = foldl (observe d) no_view ms"
  shows "set (replayed d s) \<subseteq> set ms"
proof
  fix m
  assume "m \<in> set (replayed d s)"
  then obtain name k where "(k, m) \<in> set (dict_get_default (s_cache s) name [])"
    by (force simp: replayed_def)
  then have "dict_get (dict_get_default (s_cache s) name []) k = Some m"
    by (rule dict_get_wf[OF cache_inv_map_wf[OF assms(1)]])
  then have "cache_view s name k = Some m"
    by (auto simp: cache_view_def dict_get_default_def split: option.splits)
  then show "m \<in> set ms" using observed_message[of d no_view ms name k m] assms(2) by (simp add: no_view_def)
qed

definition idle_writer :: "listener \<Rightarrow> 'p signal_writer" where
  "idle_writer slot = \<lparr>sw_started = False, sw_slot = slot\<rparr>"


definition demo_codec :: "nat message message_type" where
  "demo_codec = \<lparr>full_name = ''cc.demo.Signal'', serialize = (\<lambda>m. if m = demo_msg ''time'' 4 ActNone [] then ''t'' else ''s''),
     parse = (\<lambda>data. if data = ''t'' then Inr (demo_msg ''time'' 4 ActNone [])
        else if data = ''s'' then Inr (demo_msg ''switch'' 1 Addition ''a'') else Inl DecodeError)\<rparr>"


subsection \<open>Stopping a writer\<close>

text \<open>
  Stopping a writer leaves its slot connected, because disconnecting one slot never
  removes it; after starting again the slot is connected twice, and every emission is
  published twice.
\<close>

theorem restarted_writer_publishes_twice:
  assumes "ALL_SIGNALS \<noteq> signal_name m" "signal_name m \<noteq> []" "\<forall>m. ready rt m slot"
    and "s_slots s = []"
    and "start_writer (\<lambda>l s. (connect_all l s, [], Finished)) (idle_writer slot) s = (w1, s1, ds1, e1)"
    and "stop_writer w1 s1 = (w2, s2)"
    and "start_writer (\<lambda>l s. (connect_all l s, [], Finished)) w2 s2 = (w3, s3, ds3, e3)"
  shows "published ty slot (fst (snd (emit rt m s2))) = [(full_name ty, True), (serialize ty m, False)]
    \<and> published ty slot (fst (snd (emit rt m s3)))
      = concat (replicate 2 [(full_name ty, True), (serialize ty m, False)])"
proof -
  have s1: "s1 = connect_all slot s" "w1 = (idle_writer slot)\<lparr>sw_started := True\<rparr>"
    using assms(5) by (auto simp: start_writer_def idle_writer_def)
  then have slots1: "s_slots s1 = [(ALL_SIGNALS, [slot])]"
    using assms(4) by (simp add: connect_all_def setdefault_append_def)
  have "s2 = s1" "w2 = idle_writer slot"
    using assms(6) slots1 s1(2)
    by (auto simp: stop_writer_def idle_writer_def disconnect_all_def disconnect_signal_def list_remove_def)
  then have slots3: "s_slots s3 = [(ALL_SIGNALS, [slot, slot])]" and slots2: "s_slots s2 = [(ALL_SIGNALS, [slot])]"
    using assms(7) slots1
    by (auto simp: start_writer_def idle_writer_def connect_all_def setdefault_append_def dict_get_default_def)
  have receivers: "receivers s2 (signal_name m) = [slot]" "receivers s3 (signal_name m) = [slot, slot]"
    using slots2 slots3 assms(1,2) by (auto simp: receivers_def dict_get_default_def)
  have "fst (snd (emit rt m s2)) = [(slot, m)]" "fst (snd (emit rt m s3)) = [(slot, m), (slot, m)]"
    using emit_ready[of s2 m rt] emit_ready[of s3 m rt] assms(3) by (simp_all add: receivers)
  then show ?thesis by (simp add: published_frames numeral_2_eq_2)
qed

theorem restarted_writer_publishes_twice_witness:
  "\<exists>s3. published demo_codec (Listener 7 True) (fst (snd (emit demo_runtime (demo_msg ''time'' 4 ActNone []) s3)))
      = concat (replicate 2 [(''cc.demo.Signal'', True), (''t'', False)])"
proof -
  let ?c = "\<lambda>l s. (connect_all l s, [], Finished)"
  obtain w1 s1 ds1 e1 where 1: "start_writer ?c (idle_writer (Listener 7 True)) demo_store = (w1, s1, ds1, e1)"
    by (metis prod.exhaust)
  obtain w2 s2 where 2: "stop_writer w1 s1 = (w2, s2)" by fastforce
  obtain w3 s3 ds3 e3 where 3: "start_writer ?c w2 s2 = (w3, s3, ds3, e3)" by (metis prod.exhaust)
  have "ALL_SIGNALS \<noteq> signal_name (demo_msg ''time'' 4 ActNone [])" "signal_name (demo_msg ''time'' 4 ActNone []) \<noteq> []"
    by (simp_all add: ALL_SIGNALS_def demo_msg_def signal_name_def)
  from restarted_writer_publishes_twice[OF this _ _ 1 2 3, of demo_runtime demo_codec] demo_ready
  show ?thesis by (auto simp: demo_store_def demo_codec_def)
qed

end
