(* ===== verification/Zmq_Rpc.thy ===== *)
theory Zmq_Rpc
  imports Zmq_Endpoint Variant
begin

section \<open>Remote procedure calls over ZeroMQ (\<open>messaging/zmq/protobuf\<close>, \<open>messaging/zmq/basic/responder.py\<close>)\<close>

text \<open>
  A client sends a request with the serialized argument and raises or returns what the reply
  holds; a server looks up the interface, its request handler the method. The generated
  classes of the messages are records with their encoding as a parameter. What an interface's
  methods do is a parameter, acting on a state \<open>'a\<close>; \<open>'m\<close> is the type of decoded arguments.
\<close>

subsection \<open>Messages\<close>

datatype status_code = CodeOK | CodeINVALID | CodeFAILED | CodeOther int

record event =
  ev_text :: string
  ev_symbol :: string
  ev_attributes :: "(string \<times> value_message) list"

record request =
  q_client_id :: int
  q_request_id :: int
  q_interface :: string
  q_method :: string
  q_param :: string

record reply =
  r_client_id :: int
  r_request_id :: int
  r_status :: "(status_code \<times> event) option"
  r_param :: string

definition empty_reply :: reply where
  "empty_reply = \<lparr>r_client_id = 0, r_request_id = 0, r_status = None, r_param = []\<rparr>"

text \<open>
  The encodings into the bytes on the wire, an abstract type \<open>'w\<close>; \<open>None\<close> is \<open>DecodeError\<close>. \<open>unset_code\<close> is what the status code of a reply
  reads as when it was not set.
\<close>

record ('w, 's, 'd) rpc =
  encode_request :: "request \<Rightarrow> 'w"
  decode_request :: "'w \<Rightarrow> request option"
  encode_reply :: "reply \<Rightarrow> 'w"
  decode_reply :: "'w \<Rightarrow> reply option"
  unset_code :: status_code
  rpc_schema :: variant_schema
  rpc_clock :: "('s, 'd) clock"

definition add_to_reply :: "status_code \<Rightarrow> event \<Rightarrow> reply \<Rightarrow> reply" where
  "add_to_reply code details r = r\<lparr>r_status := Some (code, details)\<rparr>"

subsection \<open>Request handlers\<close>

text \<open>
  What a method may do: return a message (its serialization), \<open>None\<close> or another object, or
  raise an exception with a class name, a text and arguments.
\<close>

datatype ('s, 'd) method_end =
    Returned string
  | ReturnedNone
  | ReturnedOther
  | Raised string string "('s, 'd) object list"

text \<open>
  A method has the names of its positional parameters, \<open>self\<close> first, their annotations
  (an annotation may lack \<open>FromString\<close>), and its body, which gets the argument if one is
  passed. An attribute of the handler need not be callable.
\<close>

record ('m, 'a, 's, 'd) rpc_method =
  md_name :: string
  md_args :: "string list"
  md_annotations :: "string \<Rightarrow> (string \<Rightarrow> 'm result) option option"
  md_call :: "'m option \<Rightarrow> 'a \<Rightarrow> 'a \<times> ('s, 'd) method_end"

datatype ('m, 'a, 's, 'd) attribute = NotCallable | Callable "('m, 'a, 's, 'd) rpc_method"

record ('m, 'a, 's, 'd) request_handler =
  rh_interface :: string
  rh_attributes :: "string \<Rightarrow> ('m, 'a, 's, 'd) attribute option"

definition error_reply ::
    "('w, 's, 'd) rpc \<Rightarrow> status_code \<Rightarrow> string \<Rightarrow> string \<Rightarrow> (string \<times> ('s, 'd) object) list \<Rightarrow> reply \<Rightarrow> reply outcome" where
  "error_reply rp code txt symbol attributes r =
     bind_outcome (keyValueMap (rpc_schema rp) (rpc_clock rp) attributes)
       (\<lambda>attrs. Some (Inr (add_to_reply code \<lparr>ev_text = txt, ev_symbol = symbol, ev_attributes = attrs\<rparr> r)))"

text \<open>An exception's arguments are put into the reply, as a tuple.\<close>

definition invoke_handler ::
    "('w, 's, 'd) rpc \<Rightarrow> ('m, 'a, 's, 'd) rpc_method \<Rightarrow> 'm option \<Rightarrow> reply \<Rightarrow> 'a \<Rightarrow> 'a \<times> reply outcome" where
  "invoke_handler rp m arg r a =
     (case md_call m arg a of
        (a', Raised symbol txt args) \<Rightarrow>
          (a', error_reply rp CodeFAILED txt symbol [(''exception_args'', PTuple args)] r)
      | (a', ReturnedNone) \<Rightarrow> (a', Some (Inr (r\<lparr>r_param := []\<rparr>)))
      | (a', Returned data) \<Rightarrow> (a', Some (Inr (r\<lparr>r_param := data\<rparr>)))
      | (a', ReturnedOther) \<Rightarrow> (a', Some (Inl AttributeError)))"

definition process_handler_invocation ::
    "('w, 's, 'd) rpc \<Rightarrow> ('m, 'a, 's, 'd) request_handler \<Rightarrow> ('m, 'a, 's, 'd) attribute \<Rightarrow> request \<Rightarrow> reply \<Rightarrow> 'a
     \<Rightarrow> 'a \<times> reply outcome" where
  "process_handler_invocation rp rh handler q r a =
     (case handler of
        NotCallable \<Rightarrow> (a, Some (Inl TypeError))
      | Callable m \<Rightarrow>
         (let arg = bind_result (list_index (md_args m) 1) (\<lambda>argname.
                case md_annotations m argname of
                  None \<Rightarrow> Inl KeyError
                | Some None \<Rightarrow> Inl AttributeError
                | Some (Some from_string) \<Rightarrow> from_string (q_param q))
          in case arg of
            Inr v \<Rightarrow> invoke_handler rp m (Some v) r a
          | Inl e \<Rightarrow>
             (if e = IndexError then invoke_handler rp m None r a
              else if e = KeyError \<or> e = AttributeError then
                (a, error_reply rp CodeFAILED ''Handler method does not have an input argument with a ProtoBuf message annotation''
                      ''InvalidHandlerMethod''
                      [(''interface_name'', PStr (rh_interface rh)), (''method_name'', PStr (md_name m))] r)
              else (a, Some (Inl e)))))"

definition call_request_handler ::
    "('w, 's, 'd) rpc \<Rightarrow> ('m, 'a, 's, 'd) request_handler \<Rightarrow> request \<Rightarrow> reply \<Rightarrow> 'a \<Rightarrow> 'a \<times> reply outcome" where
  "call_request_handler rp rh q r a =
     (case rh_attributes rh (q_method q) of
        None \<Rightarrow>
          (a, error_reply rp CodeINVALID ''Requested method not found'' ''NotFound''
                [(''interface_name'', PStr (q_interface q)), (''method_name'', PStr (q_method q))] r)
      | Some handler \<Rightarrow> process_handler_invocation rp rh handler q r a)"

subsection \<open>Server\<close>

type_synonym ('m, 'a, 's, 'd) handlers = "(string, ('m, 'a, 's, 'd) request_handler) dict"

definition new_handlers :: "('m, 'a, 's, 'd) request_handler list \<Rightarrow> ('m, 'a, 's, 'd) handlers" where
  "new_handlers hs = foldl (\<lambda>d h. dict_set (rh_interface h) h d) [] hs"

text \<open>The error replies of the server use the undefined name \<open>Event\<close>.\<close>

definition process_protobuf_request ::
    "('w, 's, 'd) rpc \<Rightarrow> ('m, 'a, 's, 'd) handlers \<Rightarrow> request \<Rightarrow> reply \<Rightarrow> 'a \<Rightarrow> 'a \<times> reply outcome" where
  "process_protobuf_request rp hs q r a =
     (let r = r\<lparr>r_client_id := q_client_id q, r_request_id := q_request_id q\<rparr> in
      case dict_get hs (q_interface q) of
        None \<Rightarrow> (a, Some (Inl NameError))
      | Some rh \<Rightarrow> call_request_handler rp rh q r a)"

definition process_request ::
    "('w, 's, 'd) rpc \<Rightarrow> ('m, 'a, 's, 'd) handlers \<Rightarrow> 'w \<Rightarrow> 'a \<Rightarrow> 'a \<times> 'w outcome" where
  "process_request rp hs data a =
     (case decode_request rp data of
        None \<Rightarrow> (a, Some (Inl NameError))
      | Some q \<Rightarrow>
         (case process_protobuf_request rp hs q empty_reply a of
            (a', r) \<Rightarrow> (a', bind_outcome r (\<lambda>r. Some (Inr (encode_reply rp r))))))"

text \<open>
  The loop of \<open>Responder.run\<close> over the requests that arrive before it is told to stop: the
  replies it sent, and the exception that ended it. \<open>None\<close> in the last component: a request
  whose processing never ends.
\<close>

fun serve ::
    "('w \<Rightarrow> 'a \<Rightarrow> 'a \<times> 'w outcome) \<Rightarrow> 'w list \<Rightarrow> 'a \<Rightarrow> 'a \<times> 'w list \<times> py_error option option" where
  "serve process [] a = (a, [], Some None)"
| "serve process (q # qs) a =
     (case process q a of
        (a', None) \<Rightarrow> (a', [], None)
      | (a', Some (Inl e)) \<Rightarrow> (a', [], Some (Some e))
      | (a', Some (Inr rep)) \<Rightarrow> (case serve process qs a' of (a'', reps, e) \<Rightarrow> (a'', rep # reps, e)))"

text \<open>\<open>run\<close>: \<open>initialize\<close>, then \<open>bind\<close> and the loop, and \<open>deinitialize\<close> in any case.\<close>

definition responder_run ::
    "socket \<Rightarrow> config \<Rightarrow> ('w \<Rightarrow> 'a \<Rightarrow> 'a \<times> 'w outcome) \<Rightarrow> 'w list \<Rightarrow> endpoint \<Rightarrow> 'a
     \<Rightarrow> endpoint \<times> 'a \<times> 'w list \<times> py_error option option" where
  "responder_run sock cf process requests e a =
     (case initialize sock cf e of
        (e1, Some err) \<Rightarrow> (e1, a, [], Some (Some err))
      | (e1, None) \<Rightarrow>
         (case bind sock cf None e1 of
            (e2, Some err) \<Rightarrow> (fst (deinitialize sock e2), a, [], Some (Some err))
          | (e2, None) \<Rightarrow>
             (case serve process requests a of
                (a', reps, None) \<Rightarrow> (e2, a', reps, None)
              | (a', reps, Some err) \<Rightarrow>
                 (case deinitialize sock e2 of
                    (e3, None) \<Rightarrow> (e3, a', reps, Some err)
                  | (e3, Some err') \<Rightarrow> (e3, a', reps, Some (Some err'))))))"

subsection \<open>Client\<close>

record client =
  cl_client_id :: int
  cl_request_id :: int
  cl_interface :: string

text \<open>\<open>last_client_id\<close> counts the clients of the process.\<close>

definition new_client :: "int \<Rightarrow> string option \<Rightarrow> string option \<Rightarrow> (client \<times> int) result" where
  "new_client last_client_id class_interface interface_name =
     (case (if interface_name \<noteq> None \<and> interface_name \<noteq> Some [] then interface_name else class_interface) of
        Some (c # cs) \<Rightarrow>
          Inr (\<lparr>cl_client_id = last_client_id + 1, cl_request_id = 0, cl_interface = c # cs\<rparr>, last_client_id + 1)
      | _ \<Rightarrow> Inl AssertionError)"

definition send_invocation :: "string \<Rightarrow> string \<Rightarrow> client \<Rightarrow> client \<times> request" where
  "send_invocation method_name param c =
     (let c = c\<lparr>cl_request_id := cl_request_id c + 1\<rparr> in
      (c, \<lparr>q_client_id = cl_client_id c, q_request_id = cl_request_id c, q_interface = cl_interface c,
           q_method = method_name, q_param = param\<rparr>))"

datatype 'r call_end = CallOk 'r | CallError status_code "event option" | CallRaised py_error

definition receive_protobuf_result :: "('w, 's, 'd) rpc \<Rightarrow> (string \<Rightarrow> 'r result) \<Rightarrow> 'w \<Rightarrow> 'r call_end" where
  "receive_protobuf_result rp response_from_string data =
     (case decode_reply rp data of
        None \<Rightarrow> CallRaised DecodeError
      | Some r \<Rightarrow>
         (let (code, details) = (case r_status r of None \<Rightarrow> (unset_code rp, None) | Some (code, d) \<Rightarrow> (code, Some d)) in
          if code = CodeOK then
            (case response_from_string (r_param r) of Inr m \<Rightarrow> CallOk m | Inl e \<Rightarrow> CallRaised e)
          else CallError code details))"

text \<open>
  \<open>call\<close> with a peer that answers the request's bytes, or never does; a request that is
  \<open>None\<close> is sent as an empty message, whose serialization is empty.
\<close>

definition call ::
    "('w, 's, 'd) rpc \<Rightarrow> string \<Rightarrow> string option \<Rightarrow> (string \<Rightarrow> 'r result) \<Rightarrow> ('w \<Rightarrow> 'a \<Rightarrow> 'a \<times> 'w option)
     \<Rightarrow> client \<Rightarrow> 'a \<Rightarrow> client \<times> 'a \<times> 'r call_end option" where
  "call rp method_name serialized response_from_string peer c a =
     (let (c', q) = send_invocation method_name (case serialized of None \<Rightarrow> [] | Some s \<Rightarrow> s) c;
          (a', answer) = peer (encode_request rp q) a
      in (c', a', map_option (receive_protobuf_result rp response_from_string) answer))"

text \<open>A server as the peer: it answers what it sends back, and nothing when it stops.\<close>

definition server_peer :: "('w, 's, 'd) rpc \<Rightarrow> ('m, 'a, 's, 'd) handlers \<Rightarrow> 'w \<Rightarrow> 'a \<Rightarrow> 'a \<times> 'w option" where
  "server_peer rp hs data a =
     (case serve (process_request rp hs) [data] a of (a', reps, e) \<Rightarrow> (a', case reps of [] \<Rightarrow> None | r # rs \<Rightarrow> Some r))"

end
