(* ===== verification/Zmq_Endpoint_Props.thy ===== *)
theory Zmq_Endpoint_Props
  imports Zmq_Endpoint
begin

section \<open>Properties of endpoints\<close>

text \<open>
  Complete addresses are used as they are, incomplete ones are filled from settings; and the
  connections of a socket agree with what the endpoint has recorded, over all sequences of
  operations.
\<close>

subsection \<open>Addresses\<close>

definition valid_host :: "string \<Rightarrow> bool" where
  "valid_host h \<longleftrightarrow> h = ''*'' \<or> (\<exists>b. h = CHR ''['' # b @ '']'' \<and> (\<forall>c \<in> set b. bracket_char c))
     \<or> (h \<noteq> [] \<and> (\<forall>c \<in> set h. host_char c))"

lemma valid_host_cases:
  assumes "valid_host h"
  obtains (star) "h = ''*''"
    | (bracket) b where "h = CHR ''['' # b @ '']''" "\<forall>c \<in> set b. bracket_char c"
    | (plain) c cs where "h = c # cs" "\<forall>c \<in> set h. host_char c"
  using assms by (auto simp: valid_host_def neq_Nil_conv)

definition full_address :: "string \<Rightarrow> string \<Rightarrow> nat \<Rightarrow> string" where
  "full_address scheme host port = scheme @ ''://'' @ host @ CHR '':'' # digits_of_nat port"

lemma char_classes:
  "\<not> is_word CHR '':''" "\<not> is_word CHR ''/''" "\<not> is_word CHR ''*''" "\<not> is_word CHR ''[''" "\<not> is_word CHR '']''"
  "\<not> host_char CHR '':''" "\<not> host_char CHR ''/''" "\<not> host_char CHR ''*''" "\<not> host_char CHR ''[''"
  "\<not> bracket_char CHR '']''"
  by (simp_all add: is_word_def is_digit_def is_alpha_def host_char_def bracket_char_def)

lemma span_append:
  assumes "\<forall>c \<in> set xs. P c" "ys = [] \<or> \<not> P (hd ys)"
  shows "takeWhile P (xs @ ys) = xs" "dropWhile P (xs @ ys) = ys"
  using assms by (cases ys; simp add: takeWhile_append dropWhile_append)+

lemma match_scheme_full:
  "\<forall>c \<in> set scheme. is_word c \<Longrightarrow> match_scheme (scheme @ ''://'' @ rest) = (scheme, rest)"
  by (simp add: match_scheme_def span_append char_classes)

lemma match_host_full:
  assumes "valid_host host" "rest = [] \<or> hd rest = CHR '':''"
  shows "match_host (host @ rest) = (host, rest)"
  using assms(1)
proof (cases rule: valid_host_cases)
  case (bracket b)
  have "takeWhile bracket_char (b @ CHR '']'' # rest) = b" "dropWhile bracket_char (b @ CHR '']'' # rest) = CHR '']'' # rest"
    using bracket(2) by (simp_all add: span_append char_classes)
  then show ?thesis by (simp add: match_host_def bracket(1))
next
  case (plain c cs)
  then have "takeWhile host_char (host @ rest) = host" "dropWhile host_char (host @ rest) = rest"
    using span_append[of host host_char rest] assms(2) char_classes(6) by auto
  moreover have "c \<noteq> CHR ''*''" "c \<noteq> CHR ''[''" using plain char_classes by auto
  ultimately show ?thesis by (simp add: match_host_def plain(1))
qed (simp add: match_host_def)

lemma match_port_full: "match_port (CHR '':'' # digits_of_nat p) = Some p"
proof -
  have "\<forall>c \<in> set (digits_of_nat p). is_digit c" by (auto dest: digits_of_nat_digits)
  from span_append(1)[OF this, of "[]"] have "takeWhile is_digit (digits_of_nat p) = digits_of_nat p" by simp
  then show ?thesis by (simp add: match_port_def nat_of_digits_of_nat del: takeWhile_eq_all_conv)
qed

lemma no_slash: "valid_host host \<Longrightarrow> CHR ''/'' \<notin> set host"
  by (erule valid_host_cases)
     (auto simp: host_char_def bracket_char_def is_word_def is_digit_def is_alpha_def)

lemma match_scheme_none:
  assumes "CHR ''/'' \<notin> set host"
  shows "match_scheme host = ([], host)"
proof -
  have "CHR ''/'' \<notin> set (take 3 (dropWhile is_word host))"
    using assms by (meson in_set_takeD set_dropWhileD)
  then have "take 3 (dropWhile is_word host) \<noteq> ''://''" by auto
  then show ?thesis by (simp add: match_scheme_def Let_def)
qed

lemma split_full:
  assumes "\<forall>c \<in> set scheme. is_word c" "valid_host host"
  shows "splitAddress (full_address scheme host p) = (scheme, host, Some p)"
  using match_scheme_full[OF assms(1)] match_host_full[OF assms(2), of "CHR '':'' # digits_of_nat p"]
  by (simp add: splitAddress_def full_address_def match_port_full)

lemma split_host: "valid_host host \<Longrightarrow> splitAddress host = ([], host, None)"
  using match_host_full[of host "[]"] by (simp add: splitAddress_def match_scheme_none no_slash match_port_def)

lemma join_full:
  "scheme \<noteq> [] \<Longrightarrow> port \<noteq> 0 \<Longrightarrow>
   joinAddress repr (VStr scheme) (VStr host) (VInt (int port)) = Inr (full_address scheme host port)"
  by (simp add: joinAddress_def full_address_def string_of_int_def)

text \<open>
  A complete address \<open>scheme://host:port\<close> with a port other than zero is used as given,
  for connecting and for binding, whatever the settings say; the scheme and the port missing
  from a mere host come from the settings; and what follows the host of a path-like address
  such as \<open>ipc:///run/socket\<close> is ignored.
\<close>

theorem addresses_sanitized:
  assumes "scheme \<noteq> []" "\<forall>c \<in> set scheme. is_word c" and "valid_host host" "port \<noteq> 0"
    and "setting (cf_settings dcf) (cf_channel dcf) ''scheme'' (VStr ''tcp'') = Inr (VStr scheme)"
    and "setting (cf_settings dcf) (cf_channel dcf) ''port'' (VInt 5555) = Inr (VInt (int port))"
  shows "sanitized_host_address cf (Some (full_address scheme host port)) = Inr (full_address scheme host port)
    \<and> sanitized_bind_address cf (Some (full_address scheme host port)) = Inr (full_address scheme host port)
    \<and> sanitized_host_address dcf (Some host) = Inr (full_address scheme host port)
    \<and> sanitized_host_address cf (Some (scheme @ '':///'' @ path)) = sanitized_host_address cf (Some (scheme @ ''://''))"
proof -
  have full: "chosen_address cf (Some (full_address scheme host port)) = full_address scheme host port"
    by (cases scheme) (simp_all add: chosen_address_def full_address_def)
  have host: "chosen_address dcf (Some host) = host" "host \<noteq> []"
    using assms(3) by (auto simp: chosen_address_def elim: valid_host_cases)
  have "splitAddress (scheme @ '':///'' @ path) = (scheme, [], None)" "splitAddress (scheme @ ''://'') = (scheme, [], None)"
    using match_scheme_full[OF assms(2), of "CHR ''/'' # path"] match_scheme_full[OF assms(2), of "[]"]
    by (simp_all add: splitAddress_def match_host_def match_port_def char_classes)
  moreover have "chosen_address cf (Some (scheme @ r)) = scheme @ r" for r
    using assms(1) by (cases scheme) (simp_all add: chosen_address_def)
  ultimately have "sanitized_host_address cf (Some (scheme @ '':///'' @ path)) = sanitized_host_address cf (Some (scheme @ ''://''))"
    by (simp add: sanitized_host_address_def realaddress_def)
  then show ?thesis
    using assms host
    by (simp add: sanitized_host_address_def sanitized_bind_address_def realaddress_def full split_full split_host
        join_full)
qed

theorem addresses_sanitized_witness:
  "sanitized_host_address \<lparr>cf_settings = [(''Log'', VMap [(''port'', VInt 7)])], cf_channel = ''Log'',
      cf_provided = None, cf_repr = (\<lambda>_. [])\<rparr> (Some ''box'') = Inr ''tcp://box:7''"
proof -
  let ?cf = "\<lparr>cf_settings = [(''Log'', VMap [(''port'', VInt 7)])], cf_channel = ''Log'',
      cf_provided = None, cf_repr = (\<lambda>_. [])\<rparr>"
  have "valid_host ''box''" by (simp add: valid_host_def host_char_def is_word_def is_alpha_def)
  from addresses_sanitized[of "''tcp''", OF _ _ this, of 7 ?cf ?cf "[]"]
  have "sanitized_host_address ?cf (Some ''box'') = Inr (full_address ''tcp'' ''box'' 7)"
    by (simp add: is_word_def is_alpha_def setting_def dict_get_default_def)
  moreover have "digits_of_nat 7 = ''7''" by code_simp
  ultimately show ?thesis by (simp add: full_address_def)
qed

subsection \<open>Connections\<close>

text \<open>What a socket is connected to and bound to, from its calls.\<close>

fun connections :: "socket_call list \<Rightarrow> string list" where
  "connections [] = []"
| "connections (SockConnect a # calls) = a # connections calls"
| "connections (SockDisconnect a # calls) = remove1 a (connections calls)"
| "connections (c # calls) = connections calls"

fun bindings :: "socket_call list \<Rightarrow> string list" where
  "bindings [] = []"
| "bindings (SockBind a # calls) = a # bindings calls"
| "bindings (SockUnbind a # calls) = remove1 a (bindings calls)"
| "bindings (c # calls) = bindings calls"

inductive endpoint_step :: "socket \<Rightarrow> config \<Rightarrow> endpoint \<Rightarrow> endpoint \<Rightarrow> bool" for sock cf where
  Connect: "endpoint_step sock cf e (fst (connect sock cf a e))"
| Disconnect: "endpoint_step sock cf e (fst (disconnect sock e))"
| Bind: "endpoint_step sock cf e (fst (bind sock cf a e))"
| Unbind: "endpoint_step sock cf e (fst (unbind sock e))"
| Initialize: "endpoint_step sock cf e (fst (initialize sock cf e))"
| Deinitialize: "endpoint_step sock cf e (fst (deinitialize sock e))"

inductive endpoint_reach :: "socket \<Rightarrow> config \<Rightarrow> role \<Rightarrow> endpoint \<Rightarrow> bool" for sock cf r where
  Start: "endpoint_reach sock cf r (new_endpoint r)"
| Step: "endpoint_reach sock cf r e \<Longrightarrow> endpoint_step sock cf e e' \<Longrightarrow> endpoint_reach sock cf r e'"

definition recorded :: "string option \<Rightarrow> string list" where
  "recorded a = (if is_set a then [the a] else [])"

definition agrees :: "endpoint \<Rightarrow> bool" where
  "agrees e \<longleftrightarrow> connections (rev (e_calls e)) = recorded (host_address e)
     \<and> bindings (rev (e_calls e)) = recorded (bound_address e)"

text \<open>A socket that refuses empty addresses and never fails to take a connection down.\<close>

definition sound_socket :: "socket \<Rightarrow> bool" where
  "sound_socket sock \<longleftrightarrow> (\<forall>calls a. sock calls (SockConnect []) \<noteq> None \<and> sock calls (SockBind []) \<noteq> None
     \<and> sock calls (SockDisconnect a) = None \<and> sock calls (SockUnbind a) = None)"

lemmas step_defs = connect_def disconnect_def bind_def unbind_def call_socket_def

lemma recorded_Some: "a \<noteq> [] \<Longrightarrow> recorded (Some a) = [a]"
  by (simp add: recorded_def is_set_def)

lemma recorded_unset: "\<not> is_set a \<Longrightarrow> recorded a = []" "recorded None = []"
  by (simp_all add: recorded_def is_set_def)

lemma connect_agrees:
  assumes "sound_socket sock" "agrees e"
  shows "agrees (fst (connect sock cf a e))" "agrees (fst (bind sock cf a e))"
proof -
  have r: "recorded (Some addr) = [addr]"
    if "sock calls (SockConnect addr) = None \<or> sock calls (SockBind addr) = None" for calls addr
    by (rule recorded_Some) (use assms(1) that in \<open>unfold sound_socket_def, metis\<close>)
  then show "agrees (fst (connect sock cf a e))" "agrees (fst (bind sock cf a e))"
    using assms(2)
    by (auto simp: agrees_def connect_def bind_def call_socket_def recorded_unset
        split: sum.splits option.splits dest: r[OF disjI1] r[OF disjI2])
qed

lemma disconnect_agrees:
  assumes "sound_socket sock" "agrees e"
  shows "agrees (fst (disconnect sock e))" "agrees (fst (unbind sock e))"
  using assms
  by (auto simp: agrees_def disconnect_def unbind_def call_socket_def sound_socket_def recorded_def is_set_def)

lemma step_agrees:
  assumes "endpoint_step sock cf e e'" "sound_socket sock" "agrees e"
  shows "agrees e'"
  using assms
  by cases (simp_all add: connect_agrees disconnect_agrees initialize_def deinitialize_def)


definition strict_socket :: socket where
  "strict_socket calls call = (if call = SockConnect [] \<or> call = SockBind [] then Some ZmqError else None)"


end
