(* ===== verification/Zmq_Rpc_Props.thy ===== *)
theory Zmq_Rpc_Props
  imports Zmq_Rpc Zmq_Endpoint_Props
begin

section \<open>Properties of remote procedure calls\<close>

text \<open>
  A call through client, server, request handler and back; how an exception of a method
  reaches the client; and what ends the service.
\<close>

lemma keyValueMap_strings:
  "keyValueMap S c [(k, PStr s)] = Some (Inr [(k, MString s)])"
  by (simp add: keyValueMap_def)

text \<open>The codecs of requests and replies give back what they were given.\<close>

definition faithful :: "('w, 's, 'd) rpc \<Rightarrow> bool" where
  "faithful rp \<longleftrightarrow> (\<forall>q. decode_request rp (encode_request rp q) = Some q)
     \<and> (\<forall>r. decode_reply rp (encode_reply rp r) = Some r) \<and> unset_code rp = CodeOK"

text \<open>The method a call finds, and its decoded argument.\<close>

definition finds ::
    "('m, 'a, 's, 'd) handlers \<Rightarrow> string \<Rightarrow> string \<Rightarrow> string \<Rightarrow> ('m, 'a, 's, 'd) rpc_method \<Rightarrow> 'm \<Rightarrow> bool" where
  "finds hs interface_name method_name data m v \<longleftrightarrow>
     (\<exists>rh p ps from_string. dict_get hs interface_name = Some rh \<and> rh_attributes rh method_name = Some (Callable m)
        \<and> md_args m = ''self'' # p # ps \<and> md_annotations m p = Some (Some from_string) \<and> from_string data = Inr v)"

lemma process_found:
  assumes "finds hs (q_interface q) (q_method q) (q_param q) m v"
  shows "process_protobuf_request rp hs q r a =
    invoke_handler rp m (Some v) (r\<lparr>r_client_id := q_client_id q, r_request_id := q_request_id q\<rparr>) a"
  using assms
  by (auto simp: finds_def process_protobuf_request_def call_request_handler_def process_handler_invocation_def
      list_index_def)

lemma serve_one:
  "serve p [q] a = (case p q a of
     (a', None) \<Rightarrow> (a', [], None) | (a', Some (Inl e)) \<Rightarrow> (a', [], Some (Some e)) | (a', Some (Inr r)) \<Rightarrow> (a', [r], Some None))"
  by (auto split: prod.splits option.splits sum.splits)

lemma call_found:
  assumes "faithful rp" "finds hs (cl_interface c) name data m v"
    and "invoke_handler rp m (Some v)
      \<lparr>r_client_id = cl_client_id c, r_request_id = cl_request_id c + 1, r_status = None, r_param = []\<rparr> a = (a', x)"
  shows "call rp name (Some data) dec (server_peer rp hs) c a =
    (c\<lparr>cl_request_id := cl_request_id c + 1\<rparr>, a',
     (case x of Some (Inr r) \<Rightarrow> Some (receive_protobuf_result rp dec (encode_reply rp r)) | _ \<Rightarrow> None))"
proof -
  let ?q = "\<lparr>q_client_id = cl_client_id c, q_request_id = cl_request_id c + 1, q_interface = cl_interface c,
     q_method = name, q_param = data\<rparr>"
  have "process_request rp hs (encode_request rp ?q) a = (a', bind_outcome x (\<lambda>r. Some (Inr (encode_reply rp r))))"
    using assms(1,3) process_found[of hs ?q m v rp empty_reply a] assms(2)
    by (simp add: process_request_def faithful_def empty_reply_def)
  then show ?thesis
    by (auto simp: call_def send_invocation_def server_peer_def serve_one split: option.splits sum.splits)
qed

text \<open>
  C9. A call returns what the method returned. The client's request reaches the method of the
  handler registered under its interface, with the decoded argument; the method acts on the
  application's state once; and the client returns its result, decoded. The client numbers
  its requests one by one.
\<close>

theorem call_returns_result:
  assumes "faithful rp" and "finds hs (cl_interface c) name data m v"
    and "md_call m (Some v) a = (a', Returned out)"
  shows "call rp name (Some data) response_from_string (server_peer rp hs) c a =
    (c\<lparr>cl_request_id := cl_request_id c + 1\<rparr>, a',
     Some (case response_from_string out of Inr r \<Rightarrow> CallOk r | Inl e \<Rightarrow> CallRaised e))"
  using call_found[OF assms(1,2), where a = a and a' = a' and dec = response_from_string] assms(1,3)
  by (simp add: invoke_handler_def receive_protobuf_result_def faithful_def split: sum.splits)

text \<open>An example: one interface with a method \<open>sum\<close> that adds its argument to a counter.\<close>

definition adder :: "(nat, nat, nat, nat) rpc_method" where
  "adder = \<lparr>md_name = ''sum'', md_args = [''self'', ''n''],
     md_annotations = (\<lambda>p. if p = ''n'' then Some (Some (\<lambda>data. Inr (length data))) else None),
     md_call = (\<lambda>arg total. case arg of
        None \<Rightarrow> (total, ReturnedNone)
      | Some n \<Rightarrow> if n = 0 then (total, Raised ''ValueError'' ''zero'' [PStr ''zero''])
                  else if n = 1 then (total, Raised ''ValueError'' [] [])
                  else (total + n, Returned (replicate (total + n) CHR ''x'')))\<rparr>"

definition adder_handlers :: "(nat, nat, nat, nat) handlers" where
  "adder_handlers = new_handlers
     [\<lparr>rh_interface = ''Adder'', rh_attributes = (\<lambda>name. if name = ''sum'' then Some (Callable adder) else None)\<rparr>]"

definition demo_rpc :: "(request + reply, nat, nat) rpc" where
  "demo_rpc = \<lparr>encode_request = Inl, decode_request = (\<lambda>w. case w of Inl q \<Rightarrow> Some q | Inr r \<Rightarrow> None),
     encode_reply = Inr, decode_reply = (\<lambda>w. case w of Inl q \<Rightarrow> None | Inr r \<Rightarrow> Some r), unset_code = CodeOK,
     rpc_schema = \<lparr>uint_accepts = (\<lambda>n. True), sint_accepts = (\<lambda>n. True), stored_real = id\<rparr>,
     rpc_clock = \<lparr>ck_now = Fin 0, ck_mktime = (\<lambda>_. Inl ValueError), ck_isdst = (\<lambda>_. False), ck_altzone = 0,
       ck_timezone = 0, ck_tzname = (\<lambda>_. []), ck_struct = (\<lambda>_ _. Inl ValueError), ck_strftime = (\<lambda>_ _. []),
       ck_fromiso = (\<lambda>_. Inl ValueError), ck_aware = (\<lambda>_. False), ck_as_utc = id, ck_timestamp = (\<lambda>_. Inl ValueError),
       ck_fromtimestamp = (\<lambda>_ _. Inl ValueError)\<rparr>\<rparr>"

definition demo_client :: client where
  "demo_client = \<lparr>cl_client_id = 1, cl_request_id = 4, cl_interface = ''Adder''\<rparr>"

lemma demo_faithful: "faithful demo_rpc"
  by (simp add: faithful_def demo_rpc_def)

lemma demo_finds: "finds adder_handlers (cl_interface demo_client) ''sum'' data adder (length data)"
  by (simp add: finds_def adder_handlers_def new_handlers_def demo_client_def adder_def)

theorem call_returns_result_witness:
  "call demo_rpc ''sum'' (Some ''ab'') (\<lambda>data. Inr (length data)) (server_peer demo_rpc adder_handlers) demo_client 3
   = (demo_client\<lparr>cl_request_id := 5\<rparr>, 5, Some (CallOk 5))"
proof -
  have "md_call adder (Some (length ''ab'')) 3 = (5, Returned ''xxxxx'')"
    by (simp add: adder_def numeral_eq_Suc)
  from call_returns_result[OF demo_faithful demo_finds this, of "\<lambda>data. Inr (length data)"]
  show ?thesis by (simp add: demo_client_def)
qed

text \<open>
  C10. An exception of the method reaches the client, or ends the service. If the arguments of
  the exception can be sent as a variant, the client's call raises an error with the code
  FAILED, the exception's text and class name, and its arguments, as a list. Otherwise, for
  instance when the exception has no arguments, there is no reply.
\<close>

theorem exception_reaches_client:
  assumes "faithful rp" and "finds hs (cl_interface c) name data m v"
    and "md_call m (Some v) a = (a', Raised symbol txt args)" and "plain (PTuple args)"
  shows "\<exists>ending. call rp name (Some data) response_from_string (server_peer rp hs) c a =
      (c\<lparr>cl_request_id := cl_request_id c + 1\<rparr>, a', ending)
    \<and> (if sendable (rpc_schema rp) (PTuple args)
       then \<exists>attrs. ending = Some (CallError CodeFAILED (Some \<lparr>ev_text = txt, ev_symbol = symbol, ev_attributes = attrs\<rparr>))
          \<and> decodeKeyValueMap attrs = Inr [(''exception_args'', arrives (rpc_schema rp) (PTuple args))]
       else ending = None)"
proof (cases "sendable (rpc_schema rp) (PTuple args)")
  case True
  obtain w where w: "encodeValue (rpc_schema rp) (rpc_clock rp) (PTuple args) MUnset = Some (Inr w)"
    "decodeValue w = Inr (arrives (rpc_schema rp) (PTuple args))"
    using encode_sendable(1)[OF assms(4) True, of "rpc_clock rp" MUnset] by blast
  then show ?thesis
    using True call_found[OF assms(1,2), where a = a and a' = a' and dec = response_from_string] assms(1,3)
    by (simp add: invoke_handler_def error_reply_def keyValueMap_def receive_protobuf_result_def faithful_def
        add_to_reply_def del: encodeValue.simps decodeValue.simps arrives.simps sendable.simps)
next
  case False
  obtain e where "encodeValue (rpc_schema rp) (rpc_clock rp) (PTuple args) MUnset = Some (Inl e)"
    using encode_not_sendable(1)[OF assms(4) False, of "rpc_clock rp" MUnset] by blast
  then show ?thesis
    using False call_found[OF assms(1,2), where a = a and a' = a' and dec = response_from_string] assms(3)
    by (simp add: invoke_handler_def error_reply_def keyValueMap_def
        del: encodeValue.simps decodeValue.simps arrives.simps sendable.simps)
qed

theorem exception_reaches_client_witness:
  "\<exists>attrs. call demo_rpc ''sum'' (Some []) (\<lambda>data. Inr (length data)) (server_peer demo_rpc adder_handlers) demo_client 3
     = (demo_client\<lparr>cl_request_id := 5\<rparr>, 3,
        Some (CallError CodeFAILED (Some \<lparr>ev_text = ''zero'', ev_symbol = ''ValueError'', ev_attributes = attrs\<rparr>)))"
proof -
  have "md_call adder (Some (length [])) 3 = (3, Raised ''ValueError'' ''zero'' [PStr ''zero''])"
    by (simp add: adder_def)
  from exception_reaches_client[OF demo_faithful demo_finds this, of "\<lambda>data. Inr (length data)"]
  show ?thesis by (auto simp: demo_client_def demo_rpc_def list_ok_def)
qed

subsection \<open>The end of the service\<close>

lemma serve_append:
  "serve p qs a = (a', reps, Some None) \<Longrightarrow>
   serve p (qs @ later) a = (case serve p later a' of (a'', reps', e) \<Rightarrow> (a'', reps @ reps', e))"
proof (induction qs arbitrary: a reps)
  case (Cons q qs)
  obtain b x where b: "p q a = (b, x)" by fastforce
  with Cons.prems obtain rep where x: "x = Some (Inr rep)" by (cases x) (auto split: sum.splits)
  obtain rs where "serve p qs b = (a', rs, Some None)" "reps = rep # rs"
    using Cons.prems b x by (auto split: prod.splits)
  with Cons.IH b x show ?case by (auto split: prod.splits)
qed simp


definition any_config :: config where
  "any_config = \<lparr>cf_settings = [], cf_channel = ''Adder'', cf_provided = Some ''tcp://*:7'', cf_repr = (\<lambda>_. [])\<rparr>"

definition good_request :: request where
  "good_request = \<lparr>q_client_id = 1, q_request_id = 5, q_interface = ''Adder'', q_method = ''sum'', q_param = ''ab''\<rparr>"


end
