(* ===== verification/Grpc_Watch.thy ===== *)
theory Grpc_Watch
  imports Signal_Store
begin

section \<open>Streaming signals (\<open>messaging/grpc/request_handler/signal_request_handler.py\<close>)\<close>

text \<open>
  \<open>SignalRequestHandler.Watch\<close> runs in a thread of its own for each client: it connects its
  queue to the signals of the server's store one by one, marks the end of the cached ones
  with an empty message, and yields what arrives in the queue until the call ends. Other
  threads emit signals at any time. gRPC carries what is yielded to the client in order;
  there the message is emitted in the client's store. One step of the system is one access
  to shared state.
\<close>

subsection \<open>The queue\<close>

text \<open>
  \<open>queue.put_nowait\<close>: a maximal size of \<open>None\<close> cannot be compared with a number, zero or
  less is no limit.
\<close>

definition put_nowait :: "int option \<Rightarrow> 'a \<Rightarrow> 'a list \<Rightarrow> 'a list result" where
  "put_nowait max_queue_size x q =
     (case max_queue_size of
        None \<Rightarrow> Inl TypeError
      | Some n \<Rightarrow> if 0 < n \<and> n \<le> int (length q) then Inl QueueFull else Inr (q @ [x]))"

subsection \<open>The state of a call\<close>

text \<open>
  \<open>wt_todo\<close> are the signals still to connect and \<open>wt_done\<close> those connected, the latest,
  held by the variable \<open>signal_name\<close>, first. \<open>wt_replaying\<close> holds between the two halves of
  \<open>connect_signal\<close>, \<open>wt_marked\<close> after the empty message was put. \<open>wt_lost\<close> counts the messages
  that did not fit; the code does not keep it.
\<close>

record 'p watching =
  wt_max :: "int option"
  wt_todo :: "string list"
  wt_done :: "string list"
  wt_replaying :: bool
  wt_marked :: bool
  wt_queue :: "'p message list"
  wt_lost :: nat

text \<open>The wire carries what was yielded; \<open>sy_client\<close> is the store of the client.\<close>

record 'p watch_system =
  sy_server :: "'p store"
  sy_calls :: "nat \<Rightarrow> 'p watching option"
  sy_wire :: "nat \<Rightarrow> 'p message list"
  sy_client :: "nat \<Rightarrow> 'p store"

definition queue_slot :: "nat \<Rightarrow> listener" where
  "queue_slot i = Listener i True"

text \<open>
  A delivery puts the message into the queue of the call whose slot it is. An exception of
  \<open>put_nowait\<close> is caught by the store, which calls slots with \<open>safe_invoke\<close>.
\<close>

definition enqueue :: "'p message \<Rightarrow> 'p watching \<Rightarrow> 'p watching" where
  "enqueue msg w =
     (case put_nowait (wt_max w) msg (wt_queue w) of
        Inl e \<Rightarrow> w\<lparr>wt_lost := wt_lost w + 1\<rparr>
      | Inr q \<Rightarrow> w\<lparr>wt_queue := q\<rparr>)"

definition deliver_to :: "nat \<Rightarrow> 'p delivery list \<Rightarrow> 'p watching \<Rightarrow> 'p watching" where
  "deliver_to i ds w = fold (\<lambda>d. enqueue (snd d)) (filter (\<lambda>d. fst d = queue_slot i) ds) w"

definition deliver_calls :: "'p delivery list \<Rightarrow> (nat \<Rightarrow> 'p watching option) \<Rightarrow> nat \<Rightarrow> 'p watching option" where
  "deliver_calls ds calls = (\<lambda>i. map_option (deliver_to i ds) (calls i))"

definition empty_message :: "'p message" where
  "empty_message = \<lparr>msg_selected = None, msg_action = Some ActNone, msg_key = []\<rparr>"

subsection \<open>Steps\<close>

datatype 'p watch_event =
    Emit "'p message"
  | Open nat signal_filter "int option"
  | Attach nat
  | Replay nat
  | Mark nat
  | Yield nat
  | Receive nat
  | Close nat

text \<open>\<open>signal_store.emit\<close> by some thread of the server.\<close>

definition server_emit :: "'p runtime \<Rightarrow> 'p message \<Rightarrow> 'p watch_system \<Rightarrow> 'p watch_system" where
  "server_emit rt msg y =
     (case caching_emit rt msg (sy_server y) of
        (s, ds, _) \<Rightarrow> y\<lparr>sy_server := s, sy_calls := deliver_calls ds (sy_calls y)\<rparr>)"

text \<open>The call begins: a new queue, and the names that the filter selects.\<close>

definition watch_open :: "nat \<Rightarrow> signal_filter \<Rightarrow> int option \<Rightarrow> 'p watch_system \<Rightarrow> 'p watch_system option" where
  "watch_open i flt limit y =
     (if sy_calls y i \<noteq> None then None
      else Some (y\<lparr>sy_calls := (sy_calls y)(i \<mapsto>
        \<lparr>wt_max = limit, wt_todo = signal_names (sy_server y) flt, wt_done = [], wt_replaying = False,
         wt_marked = False, wt_queue = [], wt_lost = 0\<rparr>)\<rparr>))"

text \<open>The two halves of \<open>connect_signal\<close>: adding the slot, and sending it what is cached.\<close>

definition watch_attach :: "nat \<Rightarrow> 'p watch_system \<Rightarrow> 'p watch_system option" where
  "watch_attach i y =
     (case sy_calls y i of
        None \<Rightarrow> None
      | Some w \<Rightarrow>
          (case wt_todo w of
             [] \<Rightarrow> None
           | name # names \<Rightarrow>
               (if wt_replaying w then None
                else case connect_signal name (queue_slot i) (sy_server y) of
                  Inl e \<Rightarrow> None
                | Inr s \<Rightarrow> Some (y\<lparr>sy_server := s, sy_calls := (sy_calls y)(i \<mapsto>
                    w\<lparr>wt_todo := names, wt_done := name # wt_done w, wt_replaying := True\<rparr>)\<rparr>))))"

definition watch_replay :: "'p runtime \<Rightarrow> nat \<Rightarrow> 'p watch_system \<Rightarrow> 'p watch_system option" where
  "watch_replay rt i y =
     (case sy_calls y i of
        None \<Rightarrow> None
      | Some w \<Rightarrow>
          (if \<not> wt_replaying w then None
           else case emit_cached_to rt (hd (wt_done w)) (queue_slot i) (sy_server y) of
             (s, ds, Finished) \<Rightarrow> Some (y\<lparr>sy_server := s, sy_calls := (deliver_calls ds (sy_calls y))(i \<mapsto>
                 deliver_to i ds (w\<lparr>wt_replaying := False\<rparr>))\<rparr>)
           | _ \<Rightarrow> None))"

text \<open>
  The end of the call, \<open>finally\<close>: every slot of the last signal connected is taken out; with
  no signal connected the variable is unbound and the exception changes nothing else.
\<close>

definition watch_finally :: "nat \<Rightarrow> 'p watching \<Rightarrow> 'p watch_system \<Rightarrow> 'p watch_system" where
  "watch_finally i w y =
     (case wt_done w of
        [] \<Rightarrow> y\<lparr>sy_calls := (sy_calls y)(i := None)\<rparr>
      | name # _ \<Rightarrow> y\<lparr>sy_server := snd (disconnect_signal name None (sy_server y)), sy_calls := (sy_calls y)(i := None)\<rparr>)"

text \<open>Putting the empty message is not guarded: an exception ends the call.\<close>

definition watch_mark :: "nat \<Rightarrow> 'p watch_system \<Rightarrow> 'p watch_system option" where
  "watch_mark i y =
     (case sy_calls y i of
        None \<Rightarrow> None
      | Some w \<Rightarrow>
          (if wt_todo w \<noteq> [] \<or> wt_replaying w \<or> wt_marked w then None
           else case put_nowait (wt_max w) empty_message (wt_queue w) of
             Inl e \<Rightarrow> Some (watch_finally i w y)
           | Inr q \<Rightarrow> Some (y\<lparr>sy_calls := (sy_calls y)(i \<mapsto> w\<lparr>wt_queue := q, wt_marked := True\<rparr>)\<rparr>)))"

text \<open>\<open>queue.get\<close> and \<open>yield\<close>; a message is never false.\<close>

definition watch_yield :: "nat \<Rightarrow> 'p watch_system \<Rightarrow> 'p watch_system option" where
  "watch_yield i y =
     (case sy_calls y i of
        None \<Rightarrow> None
      | Some w \<Rightarrow>
          (case wt_queue w of
             [] \<Rightarrow> None
           | msg # q \<Rightarrow>
               (if \<not> wt_marked w then None
                else Some (y\<lparr>sy_calls := (sy_calls y)(i \<mapsto> w\<lparr>wt_queue := q\<rparr>),
                             sy_wire := (sy_wire y)(i := sy_wire y i @ [msg])\<rparr>))))"

text \<open>The client's reader calls \<open>emit\<close> of its store with the next message of the stream.\<close>

definition client_receive :: "'p runtime \<Rightarrow> nat \<Rightarrow> 'p watch_system \<Rightarrow> 'p watch_system option" where
  "client_receive crt i y =
     (case sy_wire y i of
        [] \<Rightarrow> None
      | msg # later \<Rightarrow> Some (y\<lparr>sy_wire := (sy_wire y)(i := later),
          sy_client := (sy_client y)(i := fst (caching_emit crt msg (sy_client y i)))\<rparr>))"

definition watch_close :: "nat \<Rightarrow> 'p watch_system \<Rightarrow> 'p watch_system option" where
  "watch_close i y =
     (case sy_calls y i of
        None \<Rightarrow> None
      | Some w \<Rightarrow> if wt_marked w then Some (watch_finally i w y) else None)"

fun watch_step :: "'p runtime \<Rightarrow> 'p runtime \<Rightarrow> 'p watch_event \<Rightarrow> 'p watch_system \<Rightarrow> 'p watch_system option" where
  "watch_step rt crt (Emit msg) y = Some (server_emit rt msg y)"
| "watch_step rt crt (Open i flt limit) y = watch_open i flt limit y"
| "watch_step rt crt (Attach i) y = watch_attach i y"
| "watch_step rt crt (Replay i) y = watch_replay rt i y"
| "watch_step rt crt (Mark i) y = watch_mark i y"
| "watch_step rt crt (Yield i) y = watch_yield i y"
| "watch_step rt crt (Receive i) y = client_receive crt i y"
| "watch_step rt crt (Close i) y = watch_close i y"

fun watch_run :: "'p runtime \<Rightarrow> 'p runtime \<Rightarrow> 'p watch_event list \<Rightarrow> 'p watch_system \<Rightarrow> 'p watch_system option" where
  "watch_run rt crt [] y = Some y"
| "watch_run rt crt (e # es) y = (case watch_step rt crt e y of None \<Rightarrow> None | Some y' \<Rightarrow> watch_run rt crt es y')"

definition watch_start :: "'p store \<Rightarrow> 'p store \<Rightarrow> 'p watch_system" where
  "watch_start server client =
     \<lparr>sy_server = server, sy_calls = (\<lambda>_. None), sy_wire = (\<lambda>_. []), sy_client = (\<lambda>_. client)\<rparr>"

end
