(* ===== verification/Grpc_Watch_Props.thy ===== *)
theory Grpc_Watch_Props
  imports Grpc_Watch Signal_Laws
begin

section \<open>Properties of streamed signals\<close>

text \<open>
  While no call ends, every client follows the server's store: what its store has seen,
  with what is on the wire and in the queue, is what the server's store shows. A cache that
  does not fit in the queue ends the call, and the end of a call cuts off the others.
\<close>

subsection \<open>Deliveries\<close>

lemma queue_slot_inj [simp]: "queue_slot i = queue_slot j \<longleftrightarrow> i = j"
  by (simp add: queue_slot_def)

lemma enqueue_fields [simp]:
  "wt_max (enqueue m w) = wt_max w" "wt_todo (enqueue m w) = wt_todo w" "wt_done (enqueue m w) = wt_done w"
  "wt_replaying (enqueue m w) = wt_replaying w" "wt_marked (enqueue m w) = wt_marked w"
  by (simp_all add: enqueue_def split: sum.split)

lemma enqueue_kept: "wt_lost (enqueue m w) = 0 \<Longrightarrow> wt_lost w = 0 \<and> wt_queue (enqueue m w) = wt_queue w @ [m]"
  by (auto simp: enqueue_def put_nowait_def split: sum.splits option.splits if_splits)

lemma deliver_fields [simp]:
  "wt_max (deliver_to i ds w) = wt_max w" "wt_todo (deliver_to i ds w) = wt_todo w" "wt_done (deliver_to i ds w) = wt_done w"
  "wt_replaying (deliver_to i ds w) = wt_replaying w" "wt_marked (deliver_to i ds w) = wt_marked w"
  unfolding deliver_to_def by (induction ds arbitrary: w) auto

lemma deliver_kept:
  "wt_lost (deliver_to i ds w) = 0 \<Longrightarrow>
   wt_lost w = 0 \<and> wt_queue (deliver_to i ds w) = wt_queue w @ map snd (filter (\<lambda>d. fst d = queue_slot i) ds)"
  unfolding deliver_to_def
proof (induction ds arbitrary: w)
  case (Cons d ds)
  show ?case
  proof (cases "fst d = queue_slot i")
    case True
    with Cons.prems Cons.IH[of "enqueue (snd d) w"] enqueue_kept[of "snd d" w] show ?thesis by simp
  next
    case False
    with Cons.prems Cons.IH[of w] show ?thesis by simp
  qed
qed simp

lemma deliver_calls_simp [simp]: "deliver_calls ds calls j = map_option (deliver_to j ds) (calls j)"
  by (simp add: deliver_calls_def)

text \<open>Observing a message again changes nothing.\<close>

lemma observe_at:
  "observe d v m name = (if name = signal_name m \<and> name \<noteq> []
     then (v name)((if d_mapping d \<and> msg_action m \<noteq> None \<and> msg_key m \<noteq> [] then Some (msg_key m) else None) :=
       if d_mapping d \<and> msg_action m = Some Removal then None else Some m) else v name)"
  by (auto simp: observe_def Let_def split: option.splits)

lemma observe_again: "observe d (observe d v m) m = observe d v m"
  by (simp add: observe_def Let_def)

lemma observe_copies: "foldl (observe d) v (replicate (Suc n) m) = observe d v m"
  by (induction n arbitrary: v) (simp_all add: observe_again)

lemma observe_none: "signal_name m = [] \<Longrightarrow> observe d v m = v"
  by (rule ext) (simp add: observe_at)

subsection \<open>The runtime\<close>

text \<open>The queues' slots can be called, and other threads act by steps of their own.\<close>

definition queue_runtime :: "'p runtime \<Rightarrow> bool" where
  "queue_runtime rt \<longleftrightarrow> (\<forall>i m. ready rt m (queue_slot i)) \<and> rt_background rt = (\<lambda>_ _. None)"

lemma sent_cached:
  "\<forall>m. ready rt m slot \<Longrightarrow>
   for_each (\<lambda>(k, msg). emit_to rt msg slot) ms s = (s, map (Pair slot) (map snd ms), Finished)"
  by (induction ms) (auto simp: emit_to_ready split: prod.splits)

lemma get_cached_found:
  assumes "queue_runtime rt" "get_cached_signal_messages rt name True s = (t, Some (Inr m))"
  shows "t = s \<and> m = dict_get_default (s_cache s) name []"
  using assms
  by (auto simp: get_cached_signal_messages_def wait_complete_def queue_runtime_def dict_get_default_def
      split: option.splits if_splits)

lemma emit_cached_finished:
  assumes "queue_runtime rt" "emit_cached_to rt name (queue_slot i) s = (s', ds, Finished)"
  shows "s' = s \<and> ds = map (Pair (queue_slot i)) (map snd (dict_get_default (s_cache s) name []))"
proof (cases "s_cache s = []")
  case True
  then show ?thesis using assms(2) by (simp add: emit_cached_to_def dict_get_default_def)
next
  case False
  have ready: "\<forall>m. ready rt m (queue_slot i)" using assms(1) by (simp add: queue_runtime_def)
  obtain t r where g: "get_cached_signal_messages rt name True s = (t, r)" by fastforce
  with assms(2) False obtain m where r: "r = Some (Inr m)"
    by (auto simp: emit_cached_to_def split: option.splits sum.splits)
  with get_cached_found[OF assms(1), of name s t m] g assms(2) False
    sent_cached[OF ready, of "dict_get_default (s_cache s) name []" s]
  show ?thesis by (auto simp: emit_cached_to_def)
qed

subsection \<open>Undisturbed runs\<close>

text \<open>
  The states that are reached while no call ends: neither by \<open>Close\<close> nor by an exception.
\<close>

inductive undisturbed :: "'p runtime \<Rightarrow> 'p runtime \<Rightarrow> descriptor \<Rightarrow> 'p watch_system \<Rightarrow> bool" for rt crt d where
  begin_watch: "init_signals (Some d) = Inr server \<Longrightarrow> init_signals (Some d) = Inr client \<Longrightarrow>
    undisturbed rt crt d (watch_start server client)"
| step_watch: "undisturbed rt crt d y \<Longrightarrow> watch_step rt crt e y = Some y' \<Longrightarrow>
    dom (sy_calls y) \<subseteq> dom (sy_calls y') \<Longrightarrow> (\<And>m. e = Emit m \<Longrightarrow> sends d m) \<Longrightarrow> undisturbed rt crt d y'"

text \<open>What the client knows or is about to.\<close>

definition told :: "descriptor \<Rightarrow> 'p watch_system \<Rightarrow> nat \<Rightarrow> 'p watching \<Rightarrow> 'p view" where
  "told d y i w = foldl (observe d) (cache_view (sy_client y i)) (sy_wire y i @ wt_queue w)"

definition slots_of :: "'p watch_system \<Rightarrow> string \<Rightarrow> listener set" where
  "slots_of y name = set (dict_get_default (s_slots (sy_server y)) name [])"

definition call_tells :: "descriptor \<Rightarrow> 'p watch_system \<Rightarrow> nat \<Rightarrow> 'p watching \<Rightarrow> bool" where
  "call_tells d y i w \<longleftrightarrow> (\<forall>name.
     if name \<notin> set (wt_done w) then told d y i w name = (\<lambda>_. None)
     else if wt_replaying w \<and> name = hd (wt_done w)
       then \<forall>k. told d y i w name k \<in> {None, cache_view (sy_server y) name k}
     else told d y i w name = cache_view (sy_server y) name)"

definition call_inv :: "descriptor \<Rightarrow> 'p watch_system \<Rightarrow> nat \<Rightarrow> 'p watching \<Rightarrow> bool" where
  "call_inv d y i w \<longleftrightarrow> distinct (wt_todo w @ wt_done w) \<and> set (wt_todo w @ wt_done w) \<subseteq> fst ` set (d_signals d)
     \<and> (\<forall>name. queue_slot i \<in> slots_of y name \<longleftrightarrow> name \<in> set (wt_done w))
     \<and> (wt_replaying w \<longrightarrow> wt_done w \<noteq> [])
     \<and> (wt_lost w = 0 \<longrightarrow> call_tells d y i w)"

definition idle_inv :: "'p watch_system \<Rightarrow> nat \<Rightarrow> bool" where
  "idle_inv y i \<longleftrightarrow> sy_wire y i = [] \<and> cache_view (sy_client y i) = no_view \<and> (\<forall>name. queue_slot i \<notin> slots_of y name)"

definition watch_inv :: "descriptor \<Rightarrow> 'p watch_system \<Rightarrow> bool" where
  "watch_inv d y \<longleftrightarrow> cache_inv d (sy_server y) \<and> (\<forall>i. s_type (sy_client y i) = d)
     \<and> (\<forall>name. slots_of y name \<subseteq> range queue_slot)
     \<and> (\<forall>i. case sy_calls y i of None \<Rightarrow> idle_inv y i | Some w \<Rightarrow> call_inv d y i w)"

definition proper :: "descriptor \<Rightarrow> bool" where
  "proper d \<longleftrightarrow> distinct (map fst (d_signals d)) \<and> ALL_SIGNALS \<notin> fst ` set (d_signals d)"

lemma receiver_delivery:
  "map snd (filter (\<lambda>d. fst d = queue_slot i) (map (\<lambda>l. (l, m)) ls)) = replicate (count_list ls (queue_slot i)) m"
  by (induction ls) auto

lemma server_emit_eq:
  assumes "queue_runtime rt" "watch_inv d y" "sends d m" "proper d"
  shows "\<exists>s. server_emit rt m y = y\<lparr>sy_server := s,
        sy_calls := deliver_calls (map (\<lambda>l. (l, m)) (receivers (sy_server y) (signal_name m))) (sy_calls y)\<rparr>
     \<and> cache_inv d s \<and> s_slots s = s_slots (sy_server y) \<and> cache_view s = observe d (cache_view (sy_server y)) m"
proof -
  let ?s = "sy_server y"
  have inv: "cache_inv d ?s" using assms(2) by (simp add: watch_inv_def)
  have slots: "set (dict_get_default (s_slots ?s) name []) \<subseteq> range queue_slot" for name
    using assms(2) by (simp add: watch_inv_def slots_of_def)
  obtain a k where c: "mapping_controls ?s m = (a, k)" by fastforce
  let ?t = "if signal_name m \<noteq> [] then update_cache (signal_name m) a k m ?s else ?s"
  have same: "receivers ?t name = receivers ?s name" for name by (simp add: receivers_def update_cache_def Let_def)
  have "set (receivers ?s (signal_name m)) \<subseteq> range queue_slot"
    using slots[of "signal_name m"] slots[of ALL_SIGNALS] by (simp add: receivers_def)
  moreover have "ready rt m (queue_slot i)" for i using assms(1) by (simp add: queue_runtime_def)
  ultimately have "\<forall>l \<in> set (receivers ?t (signal_name m)). ready rt m l" unfolding same by blast
  from emit_ready[OF this] have e: "\<exists>s. caching_emit rt m ?s
      = (s, map (\<lambda>l. (l, m)) (receivers ?s (signal_name m)), Finished)"
    by (simp add: caching_emit_def c same)
  then obtain s where s: "caching_emit rt m ?s = (s, map (\<lambda>l. (l, m)) (receivers ?s (signal_name m)), Finished)" by blast
  then have "server_emit rt m y = y\<lparr>sy_server := s,
        sy_calls := deliver_calls (map (\<lambda>l. (l, m)) (receivers ?s (signal_name m))) (sy_calls y)\<rparr>"
    by (simp add: server_emit_def)
  moreover have "cache_inv d s" using caching_emit_inv[OF inv assms(3), of rt] s by simp
  moreover have "s_slots s = s_slots ?s" using caching_emit_fields(1)[of rt m ?s] s by simp
  moreover have "cache_view s = observe d (cache_view ?s) m"
    using caching_emit_view[of rt m ?s] s cache_inv_type[OF inv] by simp
  ultimately show ?thesis by blast
qed

text \<open>A message that a call receives is of a signal it has connected.\<close>

lemma no_all_slots:
  assumes "watch_inv d y" "proper d"
  shows "dict_get_default (s_slots (sy_server y)) ALL_SIGNALS [] = []"
proof -
  have "queue_slot i \<notin> slots_of y ALL_SIGNALS" for i
  proof (cases "sy_calls y i")
    case None
    then show ?thesis using assms(1) by (fastforce simp: watch_inv_def idle_inv_def dest: spec[of _ i])
  next
    case (Some w)
    then have c: "call_inv d y i w" using assms(1) by (fastforce simp: watch_inv_def dest: spec[of _ i])
    then have "set (wt_done w) \<subseteq> fst ` set (d_signals d)" by (simp add: call_inv_def)
    then have "ALL_SIGNALS \<notin> set (wt_done w)" using assms(2) by (auto simp: proper_def)
    with c show ?thesis by (simp add: call_inv_def)
  qed
  moreover have "slots_of y ALL_SIGNALS \<subseteq> range queue_slot" using assms(1) by (simp add: watch_inv_def)
  ultimately have "slots_of y ALL_SIGNALS = {}" by blast
  then show ?thesis by (simp add: slots_of_def)
qed

lemma told_cong: "wt_queue w = wt_queue v \<Longrightarrow> told d y i w = told d y i v"
  by (simp add: told_def)

lemma emit_told:
  assumes "watch_inv d y" "proper d" "sy_calls y i = Some w"
    and "w' = deliver_to i (map (\<lambda>l. (l, m)) (receivers (sy_server y) (signal_name m))) w" "wt_lost w' = 0"
    and "sy_client y' i = sy_client y i" "sy_wire y' i = sy_wire y i"
  shows "wt_lost w = 0 \<and> told d y' i w' = (if signal_name m \<in> set (wt_done w) then observe d (told d y i w) m else told d y i w)"
proof -
  let ?ls = "receivers (sy_server y) (signal_name m)"
  have k: "wt_lost w = 0" "wt_queue w' = wt_queue w @ replicate (count_list ?ls (queue_slot i)) m"
    using deliver_kept[of i "map (\<lambda>l. (l, m)) ?ls" w] assms(4,5) by (simp_all only: receiver_delivery)
  have c: "call_inv d y i w" using assms(1,3) by (fastforce simp: watch_inv_def dest: spec[of _ i])
  have member: "queue_slot i \<in> set ?ls \<longleftrightarrow> signal_name m \<noteq> [] \<and> signal_name m \<in> set (wt_done w)"
    using c no_all_slots[OF assms(1,2)] by (simp add: receivers_def call_inv_def slots_of_def)
  have t: "told d y' i w' = foldl (observe d) (told d y i w) (replicate (count_list ?ls (queue_slot i)) m)"
    by (simp add: told_def k(2) assms(6,7))
  show ?thesis
  proof (cases "queue_slot i \<in> set ?ls")
    case True
    then obtain n where "count_list ?ls (queue_slot i) = Suc n" by (metis count_list_0_iff not0_implies_Suc)
    with True t member k(1) show ?thesis by (simp only: observe_copies if_True)
  next
    case False
    then have "count_list ?ls (queue_slot i) = 0" by (simp add: count_list_0_iff)
    with False t member k(1) show ?thesis by (auto simp: observe_none)
  qed
qed

subsection \<open>The invariant is kept\<close>

lemma watch_invE:
  assumes "watch_inv d y"
  shows "cache_inv d (sy_server y)" "s_type (sy_client y i) = d" "slots_of y name \<subseteq> range queue_slot"
    "sy_calls y i = Some w \<Longrightarrow> call_inv d y i w" "sy_calls y i = None \<Longrightarrow> idle_inv y i"
proof -
  from assms have "case sy_calls y i of None \<Rightarrow> idle_inv y i | Some w \<Rightarrow> call_inv d y i w" by (simp add: watch_inv_def)
  then show "sy_calls y i = Some w \<Longrightarrow> call_inv d y i w" "sy_calls y i = None \<Longrightarrow> idle_inv y i" by simp_all
qed (use assms in \<open>simp_all add: watch_inv_def\<close>)

lemma watch_invI:
  assumes "cache_inv d (sy_server y)" "\<And>i. s_type (sy_client y i) = d" "\<And>name. slots_of y name \<subseteq> range queue_slot"
    "\<And>i w. sy_calls y i = Some w \<Longrightarrow> call_inv d y i w" "\<And>i. sy_calls y i = None \<Longrightarrow> idle_inv y i"
  shows "watch_inv d y"
  using assms by (auto simp: watch_inv_def split: option.split)

text \<open>What concerns one call is not changed by a step of another.\<close>

lemma call_inv_frame:
  assumes "cache_view (sy_server y') = cache_view (sy_server y)"
    and "\<And>name. queue_slot j \<in> slots_of y' name \<longleftrightarrow> queue_slot j \<in> slots_of y name"
    and "sy_client y' j = sy_client y j" "sy_wire y' j = sy_wire y j"
  shows "call_inv d y' j w = call_inv d y j w" "idle_inv y' j = idle_inv y j"
  using assms by (simp_all add: call_inv_def call_tells_def told_def idle_inv_def)

lemma start_inv:
  assumes "init_signals (Some d) = Inr server" "init_signals (Some d) = Inr client"
  shows "watch_inv d (watch_start server client)"
proof -
  have "cache_inv d server" "cache_view client = no_view" "s_slots server = []" "s_type client = d"
    using init_cache[OF assms(1)] init_cache[OF assms(2)] assms by (auto simp: init_signals_def)
  then show ?thesis
    by (intro watch_invI) (simp_all add: watch_start_def slots_of_def idle_inv_def dict_get_default_def)
qed

lemma emit_inv:
  assumes "queue_runtime rt" "proper d" "watch_inv d y" "sends d m"
  shows "watch_inv d (server_emit rt m y)"
proof -
  let ?ds = "map (\<lambda>l. (l, m)) (receivers (sy_server y) (signal_name m))"
  obtain s where e: "server_emit rt m y = y\<lparr>sy_server := s, sy_calls := deliver_calls ?ds (sy_calls y)\<rparr>"
    and s: "cache_inv d s" "s_slots s = s_slots (sy_server y)" "cache_view s = observe d (cache_view (sy_server y)) m"
    using server_emit_eq[OF assms(1,3,4,2)] by blast
  let ?y = "server_emit rt m y"
  have slots: "slots_of ?y = slots_of y" by (rule ext) (simp add: e s slots_of_def)
  have call: "call_inv d ?y i w'" if w': "sy_calls ?y i = Some w'" for i w'
  proof -
    obtain w where w: "sy_calls y i = Some w" "w' = deliver_to i ?ds w" using w' by (auto simp: e)
    have c: "call_inv d y i w" using watch_invE(4)[OF assms(3) w(1)] .
    have "call_tells d ?y i w'" if lost: "wt_lost w' = 0"
    proof -
      have t: "wt_lost w = 0" "told d ?y i w' = (if signal_name m \<in> set (wt_done w) then observe d (told d y i w) m else told d y i w)"
        using emit_told[OF assms(3,2) w lost, of ?y] by (simp_all add: e)
      with c have "call_tells d y i w" by (simp add: call_inv_def)
      have server: "cache_view (sy_server ?y) = observe d (cache_view (sy_server y)) m" by (simp add: e s(3))
      have kept: "wt_done w' = wt_done w" "wt_replaying w' = wt_replaying w" by (simp_all add: w(2))
      show ?thesis
        unfolding call_tells_def kept
      proof
        fix name
        note tells = \<open>call_tells d y i w\<close>[unfolded call_tells_def, rule_format, of name]
        show "if name \<notin> set (wt_done w) then told d ?y i w' name = (\<lambda>_. None)
          else if wt_replaying w \<and> name = hd (wt_done w)
            then \<forall>k. told d ?y i w' name k \<in> {None, cache_view (sy_server ?y) name k}
          else told d ?y i w' name = cache_view (sy_server ?y) name"
        proof (cases "name = signal_name m \<and> name \<noteq> []")
          case True
          with tells show ?thesis unfolding t(2) server observe_at by auto
        next
          case False
          then have still: "observe d v m name = v name" for v by (auto simp: observe_at)
          then have "told d ?y i w' name = told d y i w name" by (simp add: t(2))
          moreover have "cache_view (sy_server ?y) name = cache_view (sy_server y) name" by (simp add: server still)
          ultimately show ?thesis using tells by (simp only:)
        qed
      qed
    qed
    with c show ?thesis by (simp add: call_inv_def slots w(2))
  qed
  have idle: "idle_inv ?y i" if "sy_calls ?y i = None" for i
  proof -
    have frame: "sy_client ?y = sy_client y" "sy_wire ?y = sy_wire y" by (simp_all add: e)
    have "sy_calls y i = None" using that by (simp add: e)
    then show ?thesis using watch_invE(5)[OF assms(3), of i] by (simp add: idle_inv_def slots frame)
  qed
  show ?thesis
  proof (rule watch_invI)
    show "cache_inv d (sy_server ?y)" using s(1) by (simp add: e)
    show "s_type (sy_client ?y i) = d" for i using watch_invE(2)[OF assms(3)] by (simp add: e)
    show "slots_of ?y name \<subseteq> range queue_slot" for name using watch_invE(3)[OF assms(3)] by (simp add: slots)
  qed (fact call idle)+
qed

lemma open_inv:
  assumes "proper d" "watch_inv d y" "watch_open i flt limit y = Some y'"
  shows "watch_inv d y'"
proof -
  let ?w = "\<lparr>wt_max = limit, wt_todo = signal_names (sy_server y) flt, wt_done = [], wt_replaying = False,
         wt_marked = False, wt_queue = [], wt_lost = 0\<rparr>"
  have y: "sy_calls y i = None" "y' = y\<lparr>sy_calls := (sy_calls y)(i \<mapsto> ?w)\<rparr>"
    using assms(3) by (auto simp: watch_open_def split: if_splits)
  have frame: "sy_server y' = sy_server y" "sy_client y' = sy_client y" "sy_wire y' = sy_wire y" "slots_of y' = slots_of y"
    by (auto simp: y slots_of_def)
  have same: "call_inv d y' j v = call_inv d y j v" "idle_inv y' j = idle_inv y j" for j v
    using call_inv_frame[where y' = y' and y = y] by (simp_all add: frame)
  have "signal_names (sy_server y) flt = map fst (filter (\<lambda>f. polarity flt = (snd f \<in> set (indices flt))) (d_signals d))"
    using watch_invE(1)[OF assms(2)] by (simp add: signal_names_def cache_inv_type)
  then have "distinct (signal_names (sy_server y) flt)" "set (signal_names (sy_server y) flt) \<subseteq> fst ` set (d_signals d)"
    using assms(1) by (auto simp: proper_def distinct_map_filter)
  moreover have "idle_inv y i" using watch_invE(5)[OF assms(2) y(1)] .
  ultimately have "call_inv d y' i ?w"
    by (simp add: call_inv_def call_tells_def told_def idle_inv_def no_view_def y slots_of_def)
  then show ?thesis
    using watch_invE[OF assms(2)] same by (intro watch_invI) (auto simp: y slots_of_def split: if_splits)
qed

lemma attach_inv:
  assumes "watch_inv d y" "watch_attach i y = Some y'"
  shows "watch_inv d y'"
proof -
  obtain w name names s where w: "sy_calls y i = Some w" "wt_todo w = name # names" "\<not> wt_replaying w"
    and s: "connect_signal name (queue_slot i) (sy_server y) = Inr s"
    and y': "y' = y\<lparr>sy_server := s, sy_calls := (sy_calls y)(i \<mapsto>
        w\<lparr>wt_todo := names, wt_done := name # wt_done w, wt_replaying := True\<rparr>)\<rparr>"
    using assms(2) by (auto simp: watch_attach_def split: option.splits list.splits if_splits sum.splits)
  have s': "s = sy_server y\<lparr>s_slots := setdefault_append name (queue_slot i) (s_slots (sy_server y))\<rparr>"
    using s by (auto simp: connect_signal_def split: if_splits)
  have slots: "slots_of y' n = (if n = name then insert (queue_slot i) (slots_of y n) else slots_of y n)" for n
    by (auto simp: slots_of_def y' s' setdefault_append_def dict_get_default_def)
  have view: "cache_view (sy_server y') = cache_view (sy_server y)" by (rule cache_view_cong) (simp add: y' s')
  have frame: "sy_client y' = sy_client y" "sy_wire y' = sy_wire y" by (simp_all add: y')
  have same: "call_inv d y' j v = call_inv d y j v" "idle_inv y' j = idle_inv y j" if "j \<noteq> i" for j v
    using that call_inv_frame[where y' = y' and y = y and j = j] by (simp_all add: view slots frame)
  have c: "call_inv d y i w" using watch_invE(4)[OF assms(1) w(1)] .
  have "told d y' i (w\<lparr>wt_todo := names, wt_done := name # wt_done w, wt_replaying := True\<rparr>) = told d y i w"
    by (simp add: told_def frame)
  then have "call_inv d y' i (w\<lparr>wt_todo := names, wt_done := name # wt_done w, wt_replaying := True\<rparr>)"
    using c w(2,3) by (auto simp: call_inv_def call_tells_def slots view)
  moreover have "cache_inv d s" using watch_invE(1)[OF assms(1)] by (rule cache_inv_cong) (simp_all add: s')
  ultimately show ?thesis
    using watch_invE[OF assms(1)] same by (intro watch_invI) (auto simp: y' slots[unfolded y'] split: if_splits)
qed

lemma told_replayed:
  assumes "cache_inv d s"
  shows "foldl (observe d) v (map snd (dict_get_default (s_cache s) name []))
    = v(name := \<lambda>k. case cache_view s name k of None \<Rightarrow> v name k | Some m \<Rightarrow> Some m)"
  using observe_cache[OF assms, of "[name]" v] by (auto simp: fun_eq_iff)

lemma replay_inv:
  assumes "queue_runtime rt" "watch_inv d y" "watch_replay rt i y = Some y'"
  shows "watch_inv d y'"
proof -
  obtain w s ds where w: "sy_calls y i = Some w" "wt_replaying w"
    and e: "emit_cached_to rt (hd (wt_done w)) (queue_slot i) (sy_server y) = (s, ds, Finished)"
    and y: "y' = y\<lparr>sy_server := s, sy_calls := (deliver_calls ds (sy_calls y))(i \<mapsto> deliver_to i ds (w\<lparr>wt_replaying := False\<rparr>))\<rparr>"
    using assms(3) by (auto simp: watch_replay_def split: option.splits if_splits prod.splits status.splits)
  let ?name = "hd (wt_done w)" and ?w = "deliver_to i ds (w\<lparr>wt_replaying := False\<rparr>)"
  have s: "s = sy_server y"
    and ds: "ds = map (Pair (queue_slot i)) (map snd (dict_get_default (s_cache (sy_server y)) ?name []))"
    using emit_cached_finished[OF assms(1) e] by simp_all
  have others: "deliver_to j ds v = v" if "j \<noteq> i" for j v
  proof -
    have "filter (\<lambda>d. fst d = queue_slot j) ds = []" using that by (auto simp: ds filter_empty_conv)
    then show ?thesis by (simp add: deliver_to_def)
  qed
  have own: "map snd (filter (\<lambda>d. fst d = queue_slot i) ds) = map snd (dict_get_default (s_cache (sy_server y)) ?name [])"
    by (simp add: ds filter_map o_def)
  have frame: "sy_server y' = sy_server y" "sy_client y' = sy_client y" "sy_wire y' = sy_wire y" "slots_of y' = slots_of y"
    by (auto simp: y s slots_of_def)
  have same: "call_inv d y' j v = call_inv d y j v" "idle_inv y' j = idle_inv y j" for j v
    using call_inv_frame[where y' = y' and y = y] by (simp_all add: frame)
  have c: "call_inv d y i w" using watch_invE(4)[OF assms(2) w(1)] .
  have "call_tells d y i ?w" if lost: "wt_lost ?w = 0"
  proof -
    have k: "wt_lost w = 0" "wt_queue ?w = wt_queue w @ map snd (dict_get_default (s_cache (sy_server y)) ?name [])"
      using deliver_kept[OF lost] own by simp_all
    with c have tells: "call_tells d y i w" by (simp add: call_inv_def)
    have "told d y i ?w = (told d y i w)(?name := \<lambda>k. case cache_view (sy_server y) ?name k of
        None \<Rightarrow> told d y i w ?name k | Some m \<Rightarrow> Some m)"
      using told_replayed[OF watch_invE(1)[OF assms(2)], of "told d y i w" ?name] by (simp add: told_def k(2))
    moreover have "told d y i w ?name k \<in> {None, cache_view (sy_server y) ?name k}" for k
      using tells[unfolded call_tells_def, rule_format, of ?name] w(2) c by (auto simp: call_inv_def)
    ultimately have now: "told d y i ?w ?name = cache_view (sy_server y) ?name"
      by (fastforce simp: fun_eq_iff split: option.splits)
    have later: "told d y i ?w name = told d y i w name" if "name \<noteq> ?name" for name
      using that \<open>told d y i ?w = _\<close> by simp
    show ?thesis
      unfolding call_tells_def
    proof
      fix name
      show "if name \<notin> set (wt_done ?w) then told d y i ?w name = (\<lambda>_. None)
          else if wt_replaying ?w \<and> name = hd (wt_done ?w)
            then \<forall>k. told d y i ?w name k \<in> {None, cache_view (sy_server y) name k}
          else told d y i ?w name = cache_view (sy_server y) name"
        using tells[unfolded call_tells_def, rule_format, of name] now later[of name] w(2) c
        by (cases "name = ?name") (auto simp: call_inv_def)
    qed
  qed
  with c have "call_inv d y i ?w" by (simp add: call_inv_def)
  then show ?thesis
    using watch_invE[OF assms(2)] by (intro watch_invI) (auto simp: same frame, auto simp: y others split: if_splits)
qed

lemma queue_moves_inv:
  assumes "watch_inv d y" "sy_calls y i = Some w" "told d y' i w' = told d y i w"
    and "wt_done w' = wt_done w" "wt_todo w' = wt_todo w" "wt_replaying w' = wt_replaying w" "wt_lost w' = wt_lost w"
    and "sy_server y' = sy_server y" "sy_calls y' = (sy_calls y)(i \<mapsto> w')" "\<And>j. s_type (sy_client y' j) = d"
    and "\<And>j. j \<noteq> i \<Longrightarrow> sy_client y' j = sy_client y j \<and> sy_wire y' j = sy_wire y j"
  shows "watch_inv d y'"
proof -
  have slots: "slots_of y' = slots_of y" by (rule ext) (simp add: slots_of_def assms(8))
  have same: "call_inv d y' j v = call_inv d y j v" "idle_inv y' j = idle_inv y j" if "j \<noteq> i" for j v
    using call_inv_frame[where y' = y' and y = y and j = j] assms(11)[OF that] by (simp_all add: slots assms(8))
  have "call_inv d y' i w' = call_inv d y i w"
    unfolding call_inv_def call_tells_def by (simp only: slots assms(3-8))
  with watch_invE(4)[OF assms(1,2)] have "call_inv d y' i w'" by simp
  then show ?thesis
    using watch_invE[OF assms(1)] same assms(10) by (intro watch_invI) (auto simp: slots assms(8,9) split: if_splits)
qed

lemma mark_inv:
  assumes "watch_inv d y" "watch_mark i y = Some y'" "dom (sy_calls y) \<subseteq> dom (sy_calls y')"
  shows "watch_inv d y'"
proof -
  obtain w where w: "sy_calls y i = Some w" using assms(2) by (auto simp: watch_mark_def split: option.splits)
  have "sy_calls y' i \<noteq> None" using assms(3) w by blast
  then obtain q where q: "put_nowait (wt_max w) empty_message (wt_queue w) = Inr q"
    "y' = y\<lparr>sy_calls := (sy_calls y)(i \<mapsto> w\<lparr>wt_queue := q, wt_marked := True\<rparr>)\<rparr>"
    using assms(2) w by (auto simp: watch_mark_def watch_finally_def split: if_splits sum.splits list.splits)
  then have "q = wt_queue w @ [empty_message]" by (auto simp: put_nowait_def split: option.splits if_splits)
  then have "told d y' i (w\<lparr>wt_queue := q, wt_marked := True\<rparr>) = told d y i w"
    by (simp add: told_def q(2) observe_none empty_message_def signal_name_def)
  with assms(1) w show ?thesis
    by (rule queue_moves_inv) (use watch_invE(2)[OF assms(1)] in \<open>simp_all add: q(2)\<close>)
qed

lemma yield_inv:
  assumes "watch_inv d y" "watch_yield i y = Some y'"
  shows "watch_inv d y'"
proof -
  obtain w m q where w: "sy_calls y i = Some w" "wt_queue w = m # q"
    and y: "y' = y\<lparr>sy_calls := (sy_calls y)(i \<mapsto> w\<lparr>wt_queue := q\<rparr>), sy_wire := (sy_wire y)(i := sy_wire y i @ [m])\<rparr>"
    using assms(2) by (auto simp: watch_yield_def split: option.splits list.splits if_splits)
  have "told d y' i (w\<lparr>wt_queue := q\<rparr>) = told d y i w" by (simp add: told_def y w(2))
  with assms(1) w(1) show ?thesis
    by (rule queue_moves_inv) (use watch_invE(2)[OF assms(1)] in \<open>simp_all add: y\<close>)
qed

lemma receive_inv:
  assumes "watch_inv d y" "client_receive crt i y = Some y'"
  shows "watch_inv d y'"
proof -
  obtain m later where m: "sy_wire y i = m # later"
    and y: "y' = y\<lparr>sy_wire := (sy_wire y)(i := later),
          sy_client := (sy_client y)(i := fst (caching_emit crt m (sy_client y i)))\<rparr>"
    using assms(2) by (auto simp: client_receive_def split: list.splits)
  have "sy_calls y i \<noteq> None" using watch_invE(5)[OF assms(1), of i] m by (auto simp: idle_inv_def)
  then obtain w where w: "sy_calls y i = Some w" by blast
  have "told d y' i w = told d y i w"
    using watch_invE(2)[OF assms(1), of i] by (simp add: told_def y m caching_emit_view)
  with assms(1) w show ?thesis
    by (rule queue_moves_inv) (use watch_invE(2)[OF assms(1)] w in \<open>auto simp: y\<close>)
qed

lemma undisturbed_inv:
  assumes "queue_runtime rt" "proper d" "undisturbed rt crt d y"
  shows "watch_inv d y"
  using assms(3)
proof (induction rule: undisturbed.induct)
  case (begin_watch server client)
  then show ?case by (rule start_inv)
next
  case (step_watch y e y')
  show ?case
  proof (cases e)
    case (Close i)
    with step_watch.hyps obtain w where w: "sy_calls y i = Some w" "y' = watch_finally i w y"
      by (auto simp: watch_close_def split: option.splits if_splits)
    then have "sy_calls y' i = None" by (simp add: watch_finally_def split: list.split)
    with w(1) step_watch.hyps(3) show ?thesis by blast
  qed (use step_watch emit_inv[OF assms(1,2)] open_inv[OF assms(2)] attach_inv replay_inv[OF assms(1)] mark_inv
      yield_inv receive_inv in auto)
qed

subsection \<open>Clients follow the server\<close>


text \<open>Before the mark nothing leaves a queue: what was lost means that it is full.\<close>

definition all_or_full :: "'p watching \<Rightarrow> bool" where
  "all_or_full w \<longleftrightarrow> wt_lost w = 0 \<or> (\<exists>e. put_nowait (wt_max w) (empty_message :: 'p message) (wt_queue w) = Inl e)"

lemma enqueue_full: "all_or_full w \<Longrightarrow> all_or_full (enqueue m w)"
  by (auto simp: all_or_full_def enqueue_def put_nowait_def split: option.splits if_splits)

lemma deliver_full: "all_or_full w \<Longrightarrow> all_or_full (deliver_to i ds w)"
  unfolding deliver_to_def by (induction ds arbitrary: w) (simp_all add: enqueue_full)

lemma all_or_full_cong:
  "wt_lost v = wt_lost w \<Longrightarrow> wt_max v = wt_max w \<Longrightarrow> wt_queue v = wt_queue w \<Longrightarrow> all_or_full v = all_or_full w"
  by (simp add: all_or_full_def)

lemma all_or_full_connecting [simp]:
  "all_or_full (w\<lparr>wt_todo := a, wt_done := b, wt_replaying := c\<rparr>) = all_or_full w"
  by (rule all_or_full_cong) simp_all

definition unmarked_ok :: "'p watch_system \<Rightarrow> bool" where
  "unmarked_ok y \<longleftrightarrow> (\<forall>i w. sy_calls y i = Some w \<and> \<not> wt_marked w \<longrightarrow> all_or_full w)"

lemma unmarked_step:
  assumes "unmarked_ok y" "watch_step rt crt e y = Some y'"
  shows "unmarked_ok y'"
proof -
  have old: "all_or_full w" if "sy_calls y i = Some w" "\<not> wt_marked w" for i w
    using that assms(1) unfolding unmarked_ok_def by blast
  have "all_or_full v" if v: "sy_calls y' j = Some v" "\<not> wt_marked v" for j v
  proof (cases e)
    case (Emit m)
    then obtain ds w where "sy_calls y j = Some w" "v = deliver_to j ds w"
      using assms(2) v(1) by (auto simp: server_emit_def split: prod.splits)
    with v(2) old show ?thesis by (simp add: deliver_full)
  next
    case (Open i flt limit)
    have "all_or_full x" if "wt_lost x = 0" for x :: "'a watching" using that by (simp add: all_or_full_def)
    with Open assms(2) v old show ?thesis by (auto simp: watch_open_def split: if_splits)
  next
    case (Attach i)
    with assms(2) v old show ?thesis
      by (auto simp: watch_attach_def split: option.splits list.splits if_splits sum.splits)
  next
    case (Replay i)
    have idle: "all_or_full (x\<lparr>wt_replaying := False\<rparr>) = all_or_full x" for x :: "'a watching"
      by (rule all_or_full_cong) simp_all
    show ?thesis
    proof (cases "j = i")
      case True
      with Replay assms(2) v old show ?thesis
        by (auto simp: watch_replay_def deliver_full idle split: option.splits if_splits prod.splits status.splits)
    next
      case False
      with Replay assms(2) v old show ?thesis
        by (auto simp: watch_replay_def deliver_full split: option.splits if_splits prod.splits status.splits)
    qed
  next
    case (Mark i)
    with assms(2) v old show ?thesis
      by (auto simp: watch_mark_def watch_finally_def split: option.splits list.splits if_splits sum.splits)
  next
    case (Yield i)
    with assms(2) v old show ?thesis by (auto simp: watch_yield_def split: option.splits list.splits if_splits)
  next
    case (Receive i)
    with assms(2) v old show ?thesis by (auto simp: client_receive_def split: list.splits)
  next
    case (Close i)
    with assms(2) v old show ?thesis
      by (auto simp: watch_close_def watch_finally_def split: option.splits list.splits if_splits)
  qed
  then show ?thesis unfolding unmarked_ok_def by blast
qed

lemma unmarked_run: "unmarked_ok y \<Longrightarrow> watch_run rt crt es y = Some y' \<Longrightarrow> unmarked_ok y'"
  by (induction es arbitrary: y) (auto split: option.splits dest: unmarked_step)


text \<open>
  The end of one call cuts off the others: it takes out every slot of the signal that
  it connected last, so that no call hears of that signal any more, while the slots of its
  other signals stay and fill a queue that nobody reads.
\<close>

theorem ended_call_cuts_others:
  assumes "sy_calls y i = Some w" "wt_done w = name # names" "watch_step rt crt (Close i) y = Some y'"
    and "signal_name msg = name" and "dict_get_default (s_slots (sy_server y)) ALL_SIGNALS [] = []"
  shows "sy_calls (server_emit rt msg y') = (sy_calls y)(i := None)
    \<and> (\<forall>other \<in> set names. other \<noteq> name \<longrightarrow> slots_of y' other = slots_of y other)"
proof -
  have y': "y' = y\<lparr>sy_server := snd (disconnect_signal name None (sy_server y)), sy_calls := (sy_calls y)(i := None)\<rparr>"
    using assms(1-3) by (auto simp: watch_close_def watch_finally_def split: if_splits)
  have slots: "s_slots (sy_server y') = dict_del name (s_slots (sy_server y))"
    by (simp add: y' disconnect_signal_def)
  let ?s = "sy_server y'"
  obtain a k where c: "mapping_controls ?s msg = (a, k)" by fastforce
  let ?t = "if signal_name msg \<noteq> [] then update_cache (signal_name msg) a k msg ?s else ?s"
  have t: "s_slots ?t = s_slots ?s" by (simp add: update_cache_def Let_def)
  have none: "receivers ?t name = []"
    using assms(5) unfolding receivers_def t slots
    by (auto simp: dict_get_default_def delete_conv' split: option.splits)
  have "snd (caching_emit rt msg ?s) = ([], Finished)"
    using emit_ready[of ?t msg rt] none by (simp add: caching_emit_def c assms(4))
  then have "sy_calls (server_emit rt msg y') = deliver_calls [] (sy_calls y')"
    by (cases "caching_emit rt msg ?s") (simp add: server_emit_def)
  also have "\<dots> = (sy_calls y)(i := None)"
  proof
    fix j
    have "deliver_to j [] = (\<lambda>w :: 'a watching. w)" by (simp add: deliver_to_def fun_eq_iff)
    then show "deliver_calls [] (sy_calls y') j = ((sy_calls y)(i := None)) j" by (simp add: y' option.map_ident)
  qed
  finally have "sy_calls (server_emit rt msg y') = (sy_calls y)(i := None)" .
  moreover have "slots_of y' other = slots_of y other" if "other \<noteq> name" for other
    using that by (simp add: slots_of_def slots dict_get_default_def delete_conv')
  ultimately show ?thesis by blast
qed

subsection \<open>A server with two signals\<close>

definition watch_demo_type :: descriptor where
  "watch_demo_type = \<lparr>d_signals = [(''switch'', 8), (''time'', 9)],
     d_others = [(''mapping_action'', 1), (''mapping_key'', 2)]\<rparr>"

definition watch_demo_runtime :: "nat runtime" where
  "watch_demo_runtime = \<lparr>rt_default = (\<lambda>_. 0), rt_call = (\<lambda>_ _. Inr False), rt_loop = False, rt_background = (\<lambda>_ _. None)\<rparr>"

definition watch_demo_store :: "nat store" where
  "watch_demo_store = \<lparr>s_type = watch_demo_type, s_slots = [], s_deadline = None, s_complete = False, s_cache = []\<rparr>"

definition watch_demo_msg :: "string \<Rightarrow> nat \<Rightarrow> nat message" where
  "watch_demo_msg name v = \<lparr>msg_selected = Some (name, v), msg_action = Some ActNone, msg_key = []\<rparr>"

definition watch_demo :: "nat watch_system" where
  "watch_demo = watch_start watch_demo_store watch_demo_store"

lemma watch_demo_facts:
  "queue_runtime watch_demo_runtime" "proper watch_demo_type" "init_signals (Some watch_demo_type) = Inr watch_demo_store"
  by (simp_all add: queue_runtime_def ready_def watch_demo_runtime_def queue_slot_def proper_def watch_demo_type_def
      ALL_SIGNALS_def init_signals_def watch_demo_store_def)

text \<open>Two signals are emitted before and while a client connects.\<close>

definition watch_demo_events :: "nat watch_event list" where
  "watch_demo_events = [Emit (watch_demo_msg ''switch'' 1), Open 0 no_filter (Some 256), Attach 0, Replay 0,
     Emit (watch_demo_msg ''switch'' 2), Emit (watch_demo_msg ''time'' 3), Attach 0, Replay 0, Mark 0, Yield 0, Receive 0]"

definition watch_demo_state :: "nat \<Rightarrow> nat watch_system" where
  "watch_demo_state n = the (watch_run watch_demo_runtime watch_demo_runtime (take n watch_demo_events) watch_demo)"

lemma watch_run_append:
  "watch_run rt crt (es @ fs) y = (case watch_run rt crt es y of None \<Rightarrow> None | Some y' \<Rightarrow> watch_run rt crt fs y')"
  by (induction es arbitrary: y) (simp_all split: option.split)

lemma watch_demo_all: "watch_run watch_demo_runtime watch_demo_runtime watch_demo_events watch_demo \<noteq> None"
  by code_simp

lemma watch_demo_run:
  "watch_run watch_demo_runtime watch_demo_runtime (take n watch_demo_events) watch_demo = Some (watch_demo_state n)"
proof -
  have "watch_run watch_demo_runtime watch_demo_runtime (take n watch_demo_events) watch_demo \<noteq> None"
    using watch_demo_all watch_run_append[of _ _ "take n watch_demo_events" "drop n watch_demo_events"]
    by (auto split: option.splits)
  then show ?thesis by (simp add: watch_demo_state_def)
qed

lemma watch_demo_step:
  assumes "n < length watch_demo_events"
  shows "watch_step watch_demo_runtime watch_demo_runtime (watch_demo_events ! n) (watch_demo_state n)
    = Some (watch_demo_state (Suc n))"
  using watch_demo_run[of "Suc n"] watch_demo_run[of n] assms
  by (simp add: take_Suc_conv_app_nth watch_run_append del: watch_step.simps split: option.splits)

lemma calls_kept:
  assumes "watch_step rt crt e y = Some y'" "\<And>i. e = Mark i \<Longrightarrow> sy_calls y' i \<noteq> None" "\<And>i. e \<noteq> Close i"
  shows "dom (sy_calls y) \<subseteq> dom (sy_calls y')"
  using assms
  by (cases e) (auto simp: server_emit_def watch_open_def watch_attach_def watch_replay_def watch_mark_def watch_finally_def
      watch_yield_def client_receive_def split: option.splits list.splits prod.splits if_splits sum.splits status.splits)

lemma watch_demo_marked: "sy_calls (watch_demo_state 9) 0 \<noteq> None"
  by code_simp

lemma watch_demo_undisturbed:
  "n \<le> length watch_demo_events \<Longrightarrow> undisturbed watch_demo_runtime watch_demo_runtime watch_demo_type (watch_demo_state n)"
proof (induction n)
  case 0
  have "watch_demo_state 0 = watch_demo" by (simp add: watch_demo_state_def)
  then show ?case using begin_watch[OF watch_demo_facts(3) watch_demo_facts(3)] by (simp add: watch_demo_def)
next
  case (Suc n)
  have n: "n < 11" using Suc.prems by (simp add: watch_demo_events_def)
  have step: "watch_step watch_demo_runtime watch_demo_runtime (watch_demo_events ! n) (watch_demo_state n)
    = Some (watch_demo_state (Suc n))"
    using Suc.prems by (intro watch_demo_step) simp
  have "n \<in> {0,1,2,3,4,5,6,7,8,9,10}" using n by (simp, arith)
  then have e: "watch_demo_events ! n \<noteq> Close i" "watch_demo_events ! n = Mark i \<Longrightarrow> i = 0 \<and> n = 8"
    "watch_demo_events ! n = Emit m \<Longrightarrow> sends watch_demo_type m" for i m
    by (auto simp: watch_demo_events_def sends_def signal_name_def watch_demo_msg_def watch_demo_type_def)
  have "dom (sy_calls (watch_demo_state n)) \<subseteq> dom (sy_calls (watch_demo_state (Suc n)))"
    by (rule calls_kept[OF step]) (use e watch_demo_marked in \<open>auto simp: numeral_eq_Suc\<close>)
  with Suc step e(3) show ?case by (intro step_watch[OF _ step]) auto
qed



theorem ended_call_cuts_others_witness:
  "\<exists>y. watch_step watch_demo_runtime watch_demo_runtime (Close 0) (watch_demo_state 11) = Some y
    \<and> slots_of y ''switch'' = slots_of (watch_demo_state 11) ''switch'' \<and> slots_of y ''switch'' \<noteq> {}"
proof -
  have state: "map_option (\<lambda>w. (wt_marked w, wt_done w)) (sy_calls (watch_demo_state 11) 0) = Some (True, [''time'', ''switch''])"
      "dict_get_default (s_slots (sy_server (watch_demo_state 11))) ALL_SIGNALS [] = []"
      "dict_get_default (s_slots (sy_server (watch_demo_state 11))) ''switch'' [] \<noteq> []"
    by code_simp+
  then obtain w where w: "sy_calls (watch_demo_state 11) 0 = Some w" "wt_marked w" "wt_done w = [''time'', ''switch'']" by auto
  then have step: "watch_step watch_demo_runtime watch_demo_runtime (Close 0) (watch_demo_state 11)
      = Some (watch_finally 0 w (watch_demo_state 11))" by (simp add: watch_close_def)
  have "signal_name (watch_demo_msg ''time'' 4) = ''time''" by (simp add: signal_name_def watch_demo_msg_def)
  from ended_call_cuts_others[OF w(1,3) step this state(2)] step state(3) show ?thesis by (auto simp: slots_of_def)
qed

end
