(* ===== verification/Grpc_Reader.thy ===== *)
theory Grpc_Reader
  imports Signal_Store
begin

section \<open>Watching a server (\<open>messaging/grpc/client/readers.py\<close>, \<open>messaging/grpc/client/signal_client.py\<close>)\<close>

text \<open>
  \<open>ThreadReader\<close> runs \<open>worker\<close> in a thread for each stream it is started with. The worker
  calls back with every message and ends when the stream does, or when it finds the reader
  inactive after a call. The attribute \<open>thread\<close> is shared by all workers of the reader. A
  step is one access to it, or one message.
\<close>

subsection \<open>The reader\<close>

datatype phase = Waiting | Called | Ended

text \<open>
  Workers are numbered in the order in which they were started, each with a stream of its
  own; \<open>rd_log\<close> holds the callbacks that were made, with the worker that made them.
\<close>

record 'm reader =
  rd_thread :: "nat option"
  rd_phases :: "phase list"
  rd_cancelled :: "nat list"
  rd_log :: "(nat \<times> 'm) list"

definition new_reader :: "'m reader" where
  "new_reader = \<lparr>rd_thread = None, rd_phases = [], rd_cancelled = [], rd_log = []\<rparr>"

definition reader_active :: "'m reader \<Rightarrow> bool" where
  "reader_active r \<longleftrightarrow> rd_thread r \<noteq> None"

definition reader_start :: "'m reader \<Rightarrow> 'm reader" where
  "reader_start r =
     (if reader_active r then r
      else r\<lparr>rd_thread := Some (length (rd_phases r)), rd_phases := rd_phases r @ [Waiting]\<rparr>)"

text \<open>The second result is the thread that \<open>stop\<close> joins when asked to wait.\<close>

definition reader_stop :: "'m reader \<Rightarrow> 'm reader \<times> nat option" where
  "reader_stop r = (r\<lparr>rd_thread := None\<rparr>, rd_thread r)"

definition phase_of :: "nat \<Rightarrow> 'm reader \<Rightarrow> phase" where
  "phase_of i r = (if i < length (rd_phases r) then rd_phases r ! i else Ended)"

text \<open>The clause \<open>finally\<close> of the worker; cancelling a stream that has ended does nothing.\<close>

definition worker_finally :: "nat \<Rightarrow> 'm reader \<Rightarrow> 'm reader" where
  "worker_finally i r =
     r\<lparr>rd_thread := None, rd_phases := (rd_phases r)[i := Ended], rd_cancelled := rd_cancelled r @ [i]\<rparr>"

text \<open>The next message of the stream: the callback returns, or it raises and the worker ends.\<close>

definition worker_next :: "bool \<Rightarrow> nat \<Rightarrow> 'm \<Rightarrow> 'm reader \<Rightarrow> 'm reader option" where
  "worker_next raises i m r =
     (if phase_of i r \<noteq> Waiting then None
      else let r' = r\<lparr>rd_log := rd_log r @ [(i, m)]\<rparr> in
        Some (if raises then worker_finally i r' else r'\<lparr>rd_phases := (rd_phases r')[i := Called]\<rparr>))"

definition worker_check :: "nat \<Rightarrow> 'm reader \<Rightarrow> 'm reader option" where
  "worker_check i r =
     (if phase_of i r \<noteq> Called then None
      else Some (if reader_active r then r\<lparr>rd_phases := (rd_phases r)[i := Waiting]\<rparr> else worker_finally i r))"

text \<open>The stream ends, or raises.\<close>

definition worker_end :: "nat \<Rightarrow> 'm reader \<Rightarrow> 'm reader option" where
  "worker_end i r = (if phase_of i r \<noteq> Waiting then None else Some (worker_finally i r))"

datatype 'm reader_event = Start | Stop | Next bool nat 'm | Check nat | StreamEnd nat

fun reader_step :: "'m reader_event \<Rightarrow> 'm reader \<Rightarrow> 'm reader option" where
  "reader_step Start r = Some (reader_start r)"
| "reader_step Stop r = Some (fst (reader_stop r))"
| "reader_step (Next raises i m) r = worker_next raises i m r"
| "reader_step (Check i) r = worker_check i r"
| "reader_step (StreamEnd i) r = worker_end i r"

fun reader_run :: "'m reader_event list \<Rightarrow> 'm reader \<Rightarrow> 'm reader option" where
  "reader_run [] r = Some r"
| "reader_run (e # es) r = (case reader_step e r of None \<Rightarrow> None | Some r' \<Rightarrow> reader_run es r')"

subsection \<open>The client\<close>

text \<open>\<open>sc_requests\<close> are the filters that \<open>watch\<close> was called with, one for each stream.\<close>

record 'p signal_client =
  sc_store :: "'p store"
  sc_reader :: "'p message reader"
  sc_requests :: "signal_filter list"

text \<open>
  The store is the one given, else that of the class, else a new one for the signal type
  given or that of the class. A client without any of them cannot be made. What a subclass
  defines are parameters.
\<close>

definition client_store ::
    "'p store option \<Rightarrow> 'p store option \<Rightarrow> descriptor option \<Rightarrow> descriptor option \<Rightarrow> 'p store result" where
  "client_store given class_store signal_type class_type =
     (case given of
        Some s \<Rightarrow> Inr s
      | None \<Rightarrow> (case class_store of
          Some s \<Rightarrow> Inr s
        | None \<Rightarrow> (case (case signal_type of None \<Rightarrow> class_type | Some t \<Rightarrow> Some t) of
            None \<Rightarrow> Inl AssertionError
          | Some t \<Rightarrow> init_signals (Some t))))"

definition start_watching :: "bool \<Rightarrow> 'p signal_client \<Rightarrow> 'p signal_client result" where
  "start_watching watch_all c =
     (if reader_active (sc_reader c) then Inr c
      else bind_result (filter_for_peer watch_all (sc_store c)) (\<lambda>flt.
        Inr (c\<lparr>sc_requests := sc_requests c @ [flt], sc_reader := reader_start (sc_reader c)\<rparr>)))"

definition stop_watching :: "'p signal_client \<Rightarrow> 'p signal_client" where
  "stop_watching c = c\<lparr>sc_reader := fst (reader_stop (sc_reader c))\<rparr>"

definition new_signal_client ::
    "'p store option \<Rightarrow> 'p store option \<Rightarrow> descriptor option \<Rightarrow> descriptor option \<Rightarrow> bool \<Rightarrow> 'p signal_client result" where
  "new_signal_client given class_store signal_type class_type watch_all =
     bind_result (client_store given class_store signal_type class_type) (\<lambda>s.
       let c = \<lparr>sc_store = s, sc_reader = new_reader, sc_requests = []\<rparr> in
       if watch_all then start_watching True c else Inr c)"

text \<open>
  Connecting replays what is cached to the callback; \<open>start_watching\<close> is called with its
  default and so watches all signals whatever was asked for.
\<close>

definition start_notify_signals ::
    "'p runtime \<Rightarrow> listener \<Rightarrow> string list option \<Rightarrow> 'p signal_client \<Rightarrow> 'p signal_client \<times> 'p delivery list \<times> status" where
  "start_notify_signals rt callback signals c =
     (case (case signals of
              Some (name # names) \<Rightarrow> for_each (\<lambda>n. caching_connect_signal rt n callback) (name # names) (sc_store c)
            | _ \<Rightarrow> caching_connect_all rt callback (sc_store c)) of
        (s, ds, Finished) \<Rightarrow> (case start_watching True (c\<lparr>sc_store := s\<rparr>) of
            Inl e \<Rightarrow> (c\<lparr>sc_store := s\<rparr>, ds, Failed e)
          | Inr c' \<Rightarrow> (c', ds, Finished))
      | (s, ds, f) \<Rightarrow> (c\<lparr>sc_store := s\<rparr>, ds, f))"

definition stop_notify_signals :: "listener option \<Rightarrow> string list option \<Rightarrow> 'p signal_client \<Rightarrow> 'p signal_client" where
  "stop_notify_signals callback signals c =
     (case signals of
        Some (name # names) \<Rightarrow>
          c\<lparr>sc_store := fold (\<lambda>n s. snd (disconnect_signal n callback s)) (name # names) (sc_store c)\<rparr>
      | _ \<Rightarrow> c\<lparr>sc_store := snd (disconnect_all callback (sc_store c))\<rparr>)"

definition client_wait_complete ::
    "'p runtime \<Rightarrow> rat option \<Rightarrow> 'p signal_client \<Rightarrow> 'p signal_client \<times> bool result option" where
  "client_wait_complete rt timeout c =
     (case wait_complete rt timeout (sc_store c) of (s, r) \<Rightarrow> (c\<lparr>sc_store := s\<rparr>, r))"

subsection \<open>One stream at a time\<close>

text \<open>As long as nobody stops it, the reader has at most one worker, the thread it names.\<close>

definition sole_worker :: "'m reader \<Rightarrow> bool" where
  "sole_worker r \<longleftrightarrow> (\<forall>i. phase_of i r \<noteq> Ended \<longleftrightarrow> rd_thread r = Some i)"

lemma phase_finally [simp]:
  "phase_of j (worker_finally i r) = (if j = i then Ended else phase_of j r)"
  "rd_thread (worker_finally i r) = None" "rd_log (worker_finally i r) = rd_log r"
  by (auto simp: phase_of_def worker_finally_def)

lemma phase_log [simp]: "phase_of j (r\<lparr>rd_log := l\<rparr>) = phase_of j r" "phase_of j (r\<lparr>rd_thread := t\<rparr>) = phase_of j r"
  by (simp_all add: phase_of_def)

lemma phase_update [simp]:
  "phase_of i r \<noteq> Ended \<Longrightarrow> phase_of j (r\<lparr>rd_phases := (rd_phases r)[i := p]\<rparr>) = (if j = i then p else phase_of j r)"
  "phase_of i r \<noteq> Ended \<Longrightarrow>
     phase_of j (r\<lparr>rd_log := l, rd_phases := (rd_phases r)[i := p]\<rparr>) = (if j = i then p else phase_of j r)"
  by (auto simp: phase_of_def split: if_splits)

lemma phase_start:
  "\<not> reader_active r \<Longrightarrow> phase_of j (reader_start r) = (if j = length (rd_phases r) then Waiting else phase_of j r)"
  by (auto simp: phase_of_def reader_start_def nth_append)

lemma phase_beyond [simp]: "phase_of (length (rd_phases r)) r = Ended"
  by (simp add: phase_of_def)

lemma sole_of:
  assumes "sole_worker r" "phase_of i r \<noteq> Ended"
  shows "rd_thread r = Some i" "phase_of j r \<noteq> Ended \<longleftrightarrow> j = i"
  using assms unfolding sole_worker_def by (metis option.inject)+

lemma sole_step:
  assumes "sole_worker r" "reader_step e r = Some r'" "e \<noteq> Stop"
  shows "sole_worker r'"
proof (cases e)
  case Start
  show ?thesis
  proof (cases "reader_active r")
    case True
    with Start assms show ?thesis by (simp add: reader_start_def)
  next
    case False
    then have "rd_thread r = None" "rd_thread (reader_start r) = Some (length (rd_phases r))"
      by (simp_all add: reader_active_def reader_start_def)
    with Start assms False show ?thesis by (auto simp: sole_worker_def phase_start split: if_splits)
  qed
next
  case (Next raises i m)
  then have "phase_of i r \<noteq> Ended" using assms(2) by (auto simp: worker_next_def Let_def split: if_splits)
  note one = sole_of[OF assms(1) this]
  with Next assms(2) show ?thesis by (auto simp: sole_worker_def worker_next_def Let_def split: if_splits)
next
  case (Check i)
  then have "phase_of i r \<noteq> Ended" using assms(2) by (auto simp: worker_check_def split: if_splits)
  note one = sole_of[OF assms(1) this]
  with Check assms(2) show ?thesis by (auto simp: sole_worker_def worker_check_def split: if_splits)
next
  case (StreamEnd i)
  then have "phase_of i r \<noteq> Ended" using assms(2) by (auto simp: worker_end_def split: if_splits)
  note one = sole_of[OF assms(1) this]
  with StreamEnd assms(2) show ?thesis by (auto simp: sole_worker_def worker_end_def split: if_splits)
qed (use assms in simp)

lemma sole_run: "sole_worker r \<Longrightarrow> reader_run es r = Some r' \<Longrightarrow> Stop \<notin> set es \<Longrightarrow> sole_worker r'"
  by (induction es arbitrary: r) (auto split: option.splits dest: sole_step)

lemma sole_new: "sole_worker new_reader"
  by (simp add: sole_worker_def new_reader_def phase_of_def)

definition in_turn :: "'m reader \<Rightarrow> bool" where
  "in_turn r \<longleftrightarrow> sole_worker r \<and> sorted (map fst (rd_log r)) \<and> list_all (\<lambda>c. fst c < length (rd_phases r)) (rd_log r)
     \<and> (\<forall>t. rd_thread r = Some t \<longrightarrow> Suc t = length (rd_phases r))"

lemma in_turn_step:
  assumes "in_turn r" "reader_step e r = Some r'" "e \<noteq> Stop"
  shows "in_turn r'"
proof -
  note sole = assms(1)[unfolded in_turn_def, THEN conjunct1]
  have thread: "rd_thread r = Some i" if "phase_of i r \<noteq> Ended" for i
    using sole that by (auto simp: sole_worker_def)
  have "sole_worker r'" using sole assms(2,3) by (rule sole_step)
  moreover have "sorted (map fst (rd_log r')) \<and> list_all (\<lambda>c. fst c < length (rd_phases r')) (rd_log r')
      \<and> (\<forall>t. rd_thread r' = Some t \<longrightarrow> Suc t = length (rd_phases r'))"
  proof (cases e)
    case Start
    have "list_all (\<lambda>c. fst c < Suc (length (rd_phases r))) (rd_log r)"
      using assms(1) by (simp add: in_turn_def list_all_iff less_SucI)
    moreover have "r' = reader_start r" using Start assms(2) by simp
    ultimately show ?thesis
      using assms(1) by (cases "reader_active r") (simp_all add: in_turn_def reader_start_def reader_active_def)
  next
    case (Next raises i m)
    then have waiting: "phase_of i r = Waiting" using assms(2) by (auto simp: worker_next_def split: if_splits)
    with thread[of i] have i: "Suc i = length (rd_phases r)" using assms(1) by (simp add: in_turn_def)
    have log: "rd_log r' = rd_log r @ [(i, m)]" "length (rd_phases r') = length (rd_phases r)" "rd_thread r' \<in> {None, rd_thread r}"
      using Next assms(2) waiting by (auto simp: worker_next_def worker_finally_def Let_def split: if_splits)
    have "\<forall>k \<in> set (map fst (rd_log r)). k \<le> i" using assms(1) i by (fastforce simp: in_turn_def list_all_iff)
    with log i assms(1) show ?thesis by (auto simp: in_turn_def sorted_append)
  qed (use assms in \<open>auto simp: in_turn_def worker_check_def worker_end_def
      worker_finally_def split: if_splits\<close>)
  ultimately show ?thesis by (simp add: in_turn_def)
qed

lemma in_turn_run: "in_turn r \<Longrightarrow> reader_run es r = Some r' \<Longrightarrow> Stop \<notin> set es \<Longrightarrow> in_turn r'"
  by (induction es arbitrary: r) (auto split: option.splits dest: in_turn_step)

text \<open>What the workers were given, in the order of the events.\<close>

definition given :: "'m reader_event list \<Rightarrow> (nat \<times> 'm) list" where
  "given es = concat (map (\<lambda>e. case e of Next raises i m \<Rightarrow> [(i, m)] | _ \<Rightarrow> []) es)"

lemma given_step: "reader_step e r = Some r' \<Longrightarrow> rd_log r' = rd_log r @ given [e]"
  by (cases e) (auto simp: given_def reader_start_def reader_stop_def worker_next_def worker_check_def worker_end_def Let_def
      split: if_splits)

lemma given_run: "reader_run es r = Some r' \<Longrightarrow> rd_log r' = rd_log r @ given es"
proof (induction es arbitrary: r)
  case (Cons e es)
  have "given (e # es) = given [e] @ given es" by (simp add: given_def)
  with Cons show ?case by (auto split: option.splits dest: given_step)
qed (simp add: given_def)

text \<open>
  C18. A client that is never stopped reads one stream at a time: however often it is
  started, and whatever streams and callbacks do, the callbacks are made message by message
  in the order of the streams, all of one stream before those of the next, and the reader is
  active exactly while a worker is alive.
\<close>

theorem streams_read_in_turn:
  assumes "reader_run es new_reader = Some r" and "Stop \<notin> set es"
  shows "rd_log r = given es \<and> sorted (map fst (rd_log r))
    \<and> (reader_active r \<longleftrightarrow> (\<exists>i. phase_of i r \<noteq> Ended)) \<and> (\<forall>i j. phase_of i r \<noteq> Ended \<and> phase_of j r \<noteq> Ended \<longrightarrow> i = j)"
proof -
  have "in_turn new_reader" using sole_new by (simp add: in_turn_def new_reader_def)
  from in_turn_run[OF this assms] have "in_turn r" .
  with given_run[OF assms(1)] show ?thesis
    by (auto simp: in_turn_def sole_worker_def reader_active_def new_reader_def)
qed

definition reader_demo :: "nat reader_event list" where
  "reader_demo = [Start, Next False 0 7, Start, Check 0, Next True 0 8, Start, Next False 1 9]"

theorem streams_read_in_turn_witness:
  "\<exists>r. reader_run reader_demo new_reader = Some r \<and> rd_log r = [(0, 7), (0, 8), (1, 9)] \<and> reader_active r"
proof -
  have "reader_run reader_demo new_reader \<noteq> None" by code_simp
  then obtain r where r: "reader_run reader_demo new_reader = Some r" by blast
  have "map_option reader_active (reader_run reader_demo new_reader) = Some True" by code_simp
  with r have "reader_active r" by simp
  moreover have "Stop \<notin> set reader_demo" by (simp add: reader_demo_def)
  note streams_read_in_turn[OF r this]
  moreover have "given reader_demo = [(0, 7), (0, 8), (1, 9)]" by code_simp
  ultimately show ?thesis using r by simp
qed

subsection \<open>After a stop\<close>

definition calls_of :: "nat \<Rightarrow> 'm reader \<Rightarrow> nat" where
  "calls_of i r = length (filter (\<lambda>c. fst c = i) (rd_log r))"

definition calls_left :: "nat \<Rightarrow> 'm reader \<Rightarrow> nat" where
  "calls_left i r = (if phase_of i r = Waiting then 1 else 0)"

lemma stopped_step:
  assumes "reader_step e r = Some r'" "\<not> reader_active r" "e \<noteq> Start"
  shows "\<not> reader_active r' \<and> calls_of i r' + calls_left i r' \<le> calls_of i r + calls_left i r"
  using assms
  by (cases e) (auto simp: reader_active_def reader_stop_def worker_next_def worker_check_def worker_end_def Let_def
      calls_of_def calls_left_def split: if_splits)

lemma stopped_run:
  assumes "reader_run es r = Some r'" "\<not> reader_active r" "Start \<notin> set es"
  shows "calls_of i r' + calls_left i r' \<le> calls_of i r + calls_left i r"
  using assms
proof (induction es arbitrary: r)
  case (Cons e es)
  then obtain s where s: "reader_step e r = Some s" "reader_run es s = Some r'" by (auto split: option.splits)
  with stopped_step[OF s(1), of i] Cons have "\<not> reader_active s"
    "calls_of i s + calls_left i s \<le> calls_of i r + calls_left i r" by auto
  with Cons.IH[OF s(2)] Cons.prems(3) show ?case by force
qed simp

text \<open>
  A stopped client is soon silent: from a stop on, until it is started again, a worker
  calls back at most once more, and not at all unless it was waiting for a message when the
  reader was stopped. After that message it ends.
\<close>

theorem stopped_reader_silent:
  assumes "reader_run es (fst (reader_stop r)) = Some r'" and "Start \<notin> set es"
  shows "calls_of i r' \<le> calls_of i r + (if phase_of i r = Waiting then 1 else 0)
    \<and> (phase_of i r' = Called \<longrightarrow> (\<exists>r''. reader_step (Check i) r' = Some r'' \<and> phase_of i r'' = Ended \<and> i \<in> set (rd_cancelled r'')))"
proof -
  have off: "\<not> reader_active (fst (reader_stop r))" by (simp add: reader_active_def reader_stop_def)
  have stays: "reader_run fs s = Some s' \<Longrightarrow> \<not> reader_active s \<Longrightarrow> Start \<notin> set fs \<Longrightarrow> \<not> reader_active s'" for fs and s s' :: "'a reader"
    by (induction fs arbitrary: s) (auto split: option.splits dest: stopped_step)
  have "calls_of i r' + calls_left i r' \<le> calls_of i (fst (reader_stop r)) + calls_left i (fst (reader_stop r))"
    using stopped_run[OF assms(1) off assms(2)] .
  moreover have "\<not> reader_active r'" using stays[OF assms(1) off assms(2)] .
  ultimately show ?thesis
    by (auto simp: calls_of_def calls_left_def reader_stop_def worker_check_def worker_finally_def phase_of_def split: if_splits)
qed

definition both :: "nat \<Rightarrow> nat \<Rightarrow> 'm \<Rightarrow> 'm reader_event list" where
  "both i j m = [Next False i m, Check i, Next False j m, Check j]"

lemma both_step:
  assumes "reader_active r" "phase_of i r = Waiting" "phase_of j r = Waiting" "i \<noteq> j"
  shows "\<exists>r'. reader_run (both i j m) r = Some r' \<and> rd_log r' = rd_log r @ [(i, m), (j, m)] \<and> reader_active r'
    \<and> phase_of i r' = Waiting \<and> phase_of j r' = Waiting"
proof -
  have len: "i < length (rd_phases r)" "j < length (rd_phases r)" and ph: "rd_phases r ! i = Waiting" "rd_phases r ! j = Waiting"
    using assms(2,3) by (auto simp: phase_of_def split: if_splits)
  show ?thesis
    using assms(1,4) len ph by (simp add: both_def worker_next_def worker_check_def phase_of_def reader_active_def)
qed

lemma reader_run_append:
  "reader_run (es @ fs) r = (case reader_run es r of None \<Rightarrow> None | Some r' \<Rightarrow> reader_run fs r')"
  by (induction es arbitrary: r) (simp_all split: option.split)

lemma both_run:
  assumes "reader_active r" "phase_of i r = Waiting" "phase_of j r = Waiting" "i \<noteq> j"
  shows "\<exists>r'. reader_run (concat (map (both i j) ms)) r = Some r' \<and> rd_log r' = rd_log r @ concat (map (\<lambda>m. [(i, m), (j, m)]) ms)
    \<and> reader_active r' \<and> phase_of i r' = Waiting \<and> phase_of j r' = Waiting"
  using assms(1-3)
proof (induction ms arbitrary: r)
  case (Cons m ms)
  from both_step[OF Cons.prems assms(4), of m] obtain s where
    s: "reader_run (both i j m) r = Some s" "rd_log s = rd_log r @ [(i, m), (j, m)]" "reader_active s"
       "phase_of i s = Waiting" "phase_of j s = Waiting" by blast
  from Cons.IH[OF s(3-5)] s(1,2) show ?case by (auto simp: reader_run_append)
qed simp

text \<open>
  A client that is stopped and started again before the next message hears everything
  twice: the old worker finds the reader active and goes on beside the new one, so that every
  message of the server is called back with by both, as long as both streams last. When the
  old stream ends it makes the reader inactive, and the new worker ends after one more
  message, although nobody stopped it.
\<close>

theorem restarted_reader_doubles:
  assumes "phase_of i r = Waiting" and "j = length (rd_phases r)"
  shows "\<exists>r'. reader_run (Stop # Start # concat (map (both i j) ms)) r = Some r'
    \<and> rd_log r' = rd_log r @ concat (map (\<lambda>m. [(i, m), (j, m)]) ms)
    \<and> (\<exists>r''. reader_run [StreamEnd i, Next False j m, Check j] r' = Some r'' \<and> phase_of j r'' = Ended)"
proof -
  have i: "i < length (rd_phases r)" using assms(1) by (auto simp: phase_of_def split: if_splits)
  let ?s = "reader_start (fst (reader_stop r))"
  have s: "reader_active ?s" "phase_of i ?s = Waiting" "phase_of j ?s = Waiting" "rd_log ?s = rd_log r" "i \<noteq> j"
    using assms i by (auto simp: reader_start_def reader_stop_def reader_active_def phase_of_def nth_append)
  from both_run[OF s(1-3,5), of ms] obtain r' where
    r': "reader_run (concat (map (both i j) ms)) ?s = Some r'" "rd_log r' = rd_log r @ concat (map (\<lambda>m. [(i, m), (j, m)]) ms)"
      "phase_of i r' = Waiting" "phase_of j r' = Waiting" using s(4) by auto
  let ?e = "worker_finally i r'"
  have e: "phase_of j ?e = Waiting" "\<not> reader_active ?e" using r'(4) s(5) by (simp_all add: reader_active_def)
  then have "\<exists>r''. reader_run [StreamEnd i, Next False j m, Check j] r' = Some r'' \<and> phase_of j r'' = Ended"
    using r'(3) by (simp add: worker_end_def worker_next_def worker_check_def reader_active_def Let_def)
  with r' show ?thesis by simp
qed

theorem restarted_reader_doubles_witness:
  "\<exists>r'. reader_run ([Stop, Start, Next False 0 5, Check 0, Next False 1 5, Check 1]) (reader_start new_reader) = Some r'
    \<and> rd_log r' = [(0, 5 :: nat), (1, 5)]"
proof -
  have "phase_of 0 (reader_start (new_reader :: nat reader)) = Waiting" "1 = length (rd_phases (reader_start (new_reader :: nat reader)))"
    "rd_log (reader_start new_reader) = ([] :: (nat \<times> nat) list)"
    by (simp_all add: new_reader_def reader_start_def reader_active_def phase_of_def)
  from restarted_reader_doubles[OF this(1,2), of "[5]" 6] this(3) show ?thesis by (auto simp: both_def)
qed

theorem stopped_reader_silent_witness:
  "\<exists>r. reader_run [Next False 0 8, Check 0] (fst (reader_stop (reader_start new_reader))) = Some r \<and> calls_of 0 r \<le> 1
    \<and> rd_log r = [(0, 8 :: nat)]"
proof -
  have "reader_run [Next False 0 8, Check 0] (fst (reader_stop (reader_start new_reader)))
      = Some \<lparr>rd_thread = None, rd_phases = [Ended], rd_cancelled = [0], rd_log = [(0, 8 :: nat)]\<rparr>" (is "?run = Some ?r")
    by code_simp
  moreover have "calls_of 0 (reader_start (new_reader :: nat reader)) = 0"
    by (simp add: calls_of_def reader_start_def reader_active_def new_reader_def)
  ultimately show ?thesis using stopped_reader_silent[of "[Next False 0 8, Check 0]" "reader_start new_reader" ?r 0]
    by (auto split: if_splits)
qed

end
