(* ===== verification/Builder.thy ===== *)
theory Builder
  imports Enum_Names
begin

section \<open>Messages from native values and back (\<open>protobuf/builder/builder.py\<close>, \<open>protobuf/dissecter/dissecter.py\<close>)\<close>

text \<open>
  \<open>MessageBuilder\<close> populates a protobuf message field by field from a dictionary or an
  object, \<open>MessageDissecter\<close> turns a message into a data class. Both look at the descriptor
  of the message type and hand types that have a registered codec to it. Descriptors, and
  what the protobuf library accepts as a scalar, are parameters.
\<close>

subsection \<open>Messages and descriptors\<close>

text \<open>Numbers, texts and whatever else is no container: floats, bytes and so on are \<open>AOther\<close>.\<close>

datatype 'o atom = ABool bool | AInt int | AStr string | AOther 'o

text \<open>
  A message holds the fields that are set. An empty list or map is the same as none.
\<close>

datatype 'o msg = Msg (m_type: string) (m_fields: "(string \<times> 'o field) list")
and 'o field = FOne "'o val" | FMany "'o val list" | FMap "('o atom \<times> 'o val) list"
and 'o val = VAtom "'o atom" | VMsg "'o msg"

text \<open>
  Native values: a member of \<open>IntEnum\<close> is its number, \<open>PEnum\<close> is the name of a member of
  another enumeration, \<open>PObj\<close> an object with its attributes, such as an instance of a data class.
\<close>

datatype 'o py =
    PNone
  | PAtom "'o atom"
  | PEnum string
  | PList "'o py list"
  | PTuple "'o py list"
  | PDict "('o py \<times> 'o py) list"
  | PMsg "'o msg"
  | PObj "(string \<times> 'o py) list"

text \<open>\<open>Scalar\<close> carries the number of the field type; a map field has a kind of key and of value.\<close>

datatype kind = Scalar nat | Enumeration string | Message string
datatype shape = Single kind | Repeated kind | MapOf kind kind

record field_desc =
  fd_name :: string
  fd_shape :: shape
  fd_oneof :: "string option"

text \<open>
  What the library does: \<open>p_accept\<close> checks and converts what is assigned to a field of a kind
  that is no message, \<open>p_default\<close> is what an unset field reads as, \<open>p_attr\<close> the attributes of
  values that are no plain objects.
\<close>

record 'o pool =
  p_fields :: "string \<Rightarrow> field_desc list"
  p_enum :: "string \<Rightarrow> (string \<times> int) list"
  p_accept :: "kind \<Rightarrow> 'o py \<Rightarrow> 'o atom result"
  p_default :: "kind \<Rightarrow> 'o atom"
  p_attr :: "'o py \<Rightarrow> string \<Rightarrow> 'o py option"

definition get_field :: "'o pool \<Rightarrow> field_desc \<Rightarrow> 'o msg \<Rightarrow> 'o field" where
  "get_field pool fd m =
     (case dict_get (m_fields m) (fd_name fd) of
        Some f \<Rightarrow> f
      | None \<Rightarrow> (case fd_shape fd of
          Single (Message t) \<Rightarrow> FOne (VMsg (Msg t []))
        | Single k \<Rightarrow> FOne (VAtom (p_default pool k))
        | Repeated _ \<Rightarrow> FMany []
        | MapOf _ _ \<Rightarrow> FMap []))"

text \<open>Setting a field unsets the others of its oneof.\<close>

definition rivals :: "field_desc list \<Rightarrow> field_desc \<Rightarrow> string set" where
  "rivals fds fd = (if fd_oneof fd = None then {} else fd_name ` {g \<in> set fds. fd_oneof g = fd_oneof fd})"

definition put_field :: "field_desc list \<Rightarrow> field_desc \<Rightarrow> 'o field \<Rightarrow> 'o msg \<Rightarrow> 'o msg" where
  "put_field fds fd f m =
     (if f = FMany [] \<or> f = FMap [] then m
      else Msg (m_type m) (dict_set (fd_name fd) f (filter (\<lambda>(name, _). name \<notin> rivals fds fd) (m_fields m))))"

definition which_oneof :: "'o pool \<Rightarrow> 'o msg \<Rightarrow> string \<Rightarrow> string option" where
  "which_oneof pool m oneof =
     map_option fd_name (find (\<lambda>g. fd_oneof g = Some oneof \<and> dict_get (m_fields m) (fd_name g) \<noteq> None) (p_fields pool (m_type m)))"

text \<open>Assigning an encoded value; a message is copied and has to be of the type of the field.\<close>

definition assign :: "'o pool \<Rightarrow> kind \<Rightarrow> 'o py \<Rightarrow> 'o val result" where
  "assign pool k v =
     (case k of
        Message t \<Rightarrow> (case v of
            PMsg m \<Rightarrow> if m_type m = t then Inr (VMsg m) else Inl TypeError
          | _ \<Rightarrow> Inl TypeError)
      | _ \<Rightarrow> bind_result (p_accept pool k v) (\<lambda>a. Inr (VAtom a)))"

fun fold_result :: "('a \<Rightarrow> 'b \<Rightarrow> 'b result) \<Rightarrow> 'a list \<Rightarrow> 'b \<Rightarrow> 'b result" where
  "fold_result f [] s = Inr s"
| "fold_result f (x # xs) s = bind_result (f x s) (fold_result f xs)"

subsection \<open>Enumerations\<close>

text \<open>
  \<open>largest_common_base\<close> compares every name with the words of the first one and keeps those
  before the earliest difference. A name with fewer words ends the comparison and leaves no
  cutoff.
\<close>

fun mismatches :: "nat \<Rightarrow> string list \<Rightarrow> string list \<Rightarrow> nat list" where
  "mismatches index (element # elements) (candidate # candidates) =
     (if candidate \<noteq> element then index # mismatches (Suc index) elements candidates
      else mismatches (Suc index) elements candidates)"
| "mismatches index _ _ = []"

definition largest_common_base :: "string list \<Rightarrow> string" where
  "largest_common_base names =
     (let divided_names = map (split_on CHR ''_'') names;
          common_base = (case divided_names of [] \<Rightarrow> [] | first # _ \<Rightarrow> first);
          cutoffs = length common_base # concat (map (mismatches 0 common_base) (tl divided_names))
      in concat (map (\<lambda>word. word @ ''_'') (take (Min (set cutoffs)) common_base)))"

definition encode_enum_name :: "(string \<times> int) list \<Rightarrow> string \<Rightarrow> int result" where
  "encode_enum_name symbols symbol =
     (case dict_get symbols symbol of
        Some n \<Rightarrow> Inr n
      | None \<Rightarrow> (case dict_get symbols (largest_common_base (map fst symbols) @ symbol) of
          Some n \<Rightarrow> Inr n
        | None \<Rightarrow> Inl ValueError))"

subsection \<open>The builder\<close>

record 'o builder =
  b_encoders :: "(string, 'o py \<Rightarrow> 'o py result) dict"
  b_enum_encoders :: "(string, 'o py \<Rightarrow> 'o py result) dict"

definition register_encoder :: "string \<Rightarrow> ('o py \<Rightarrow> 'o py result) \<Rightarrow> 'o builder \<Rightarrow> 'o builder" where
  "register_encoder t encoder b = b\<lparr>b_encoders := dict_set t encoder (b_encoders b)\<rparr>"

definition encode_enum :: "'o pool \<Rightarrow> 'o builder \<Rightarrow> string \<Rightarrow> 'o py \<Rightarrow> 'o py result" where
  "encode_enum pool b e v =
     (case dict_get (b_enum_encoders b) e of
        Some encoder \<Rightarrow> encoder v
      | None \<Rightarrow> (case v of
          PAtom (AInt n) \<Rightarrow> Inr v
        | PAtom (ABool n) \<Rightarrow> Inr v
        | PEnum name \<Rightarrow> bind_result (encode_enum_name (p_enum pool e) name) (\<lambda>n. Inr (PAtom (AInt n)))
        | PAtom (AStr name) \<Rightarrow> bind_result (encode_enum_name (p_enum pool e) name) (\<lambda>n. Inr (PAtom (AInt n)))
        | _ \<Rightarrow> Inl TypeError))"

text \<open>
  The encoder of a kind; \<open>em\<close> encodes messages. Values of scalar kinds are taken as they are
  and checked by the assignment.
\<close>

definition value_encoder :: "'o pool \<Rightarrow> 'o builder \<Rightarrow> (string \<Rightarrow> 'o py \<Rightarrow> 'o py result) \<Rightarrow> kind \<Rightarrow> 'o py \<Rightarrow> 'o py result" where
  "value_encoder pool b em k v =
     (case k of
        Enumeration e \<Rightarrow> encode_enum pool b e v
      | Message t \<Rightarrow> em t v
      | Scalar _ \<Rightarrow> Inr v)"

definition assign_map_entry ::
    "'o pool \<Rightarrow> kind \<Rightarrow> kind \<Rightarrow> 'o py \<Rightarrow> 'o py \<Rightarrow> ('o atom \<times> 'o val) list \<Rightarrow> ('o atom \<times> 'o val) list result" where
  "assign_map_entry pool kk vk key v entries =
     bind_result (p_accept pool kk key) (\<lambda>a. bind_result (assign pool vk v) (\<lambda>x. Inr (dict_set a x entries)))"

text \<open>
  The content that \<open>encode_field\<close> gives a field which held \<open>old\<close>. A map field that is not given
  a mapping is meant to raise \<open>TypeError\<close>, but the text of the exception reads an attribute
  that messages do not have. Of a list that fails half way the items before are kept by the
  library; here, as everywhere, what is populated is lost with the exception.
\<close>

definition field_content ::
    "'o pool \<Rightarrow> (kind \<Rightarrow> 'o py \<Rightarrow> 'o py result) \<Rightarrow> shape \<Rightarrow> 'o py \<Rightarrow> 'o field \<Rightarrow> 'o field result" where
  "field_content pool enc sh v old =
     (case sh of
        MapOf kk vk \<Rightarrow> (case v of
            PDict items \<Rightarrow> bind_result
              (fold_result (\<lambda>(k, x) entries.
                 bind_result (enc kk k) (\<lambda>k'. bind_result (enc vk x) (\<lambda>x'. assign_map_entry pool kk vk k' x' entries)))
               items (case old of FMap es \<Rightarrow> es | _ \<Rightarrow> []))
              (\<lambda>es. Inr (FMap es))
          | _ \<Rightarrow> Inl AttributeError)
      | Repeated k \<Rightarrow>
          (let items = (case v of PList xs \<Rightarrow> xs | PTuple xs \<Rightarrow> xs | _ \<Rightarrow> [v]) in
           bind_result (map_result (enc k) items) (\<lambda>ys. bind_result (map_result (assign pool k) ys) (\<lambda>vs.
             Inr (FMany ((case old of FMany us \<Rightarrow> us | _ \<Rightarrow> []) @ vs)))))
      | Single k \<Rightarrow> bind_result (enc k v) (\<lambda>y. bind_result (assign pool k y) (\<lambda>x. Inr (FOne x))))"

definition encode_field ::
    "'o pool \<Rightarrow> (kind \<Rightarrow> 'o py \<Rightarrow> 'o py result) \<Rightarrow> field_desc \<Rightarrow> 'o py \<Rightarrow> 'o msg \<Rightarrow> 'o msg result" where
  "encode_field pool enc fd v m =
     bind_result (field_content pool enc (fd_shape fd) v (get_field pool fd m)) (\<lambda>f.
       Inr (put_field (p_fields pool (m_type m)) fd f m))"

definition populate_from_dict ::
    "'o pool \<Rightarrow> (kind \<Rightarrow> 'o py \<Rightarrow> 'o py result) \<Rightarrow> ('o py, 'o py) dict \<Rightarrow> ('o py, 'o py) dict \<Rightarrow> 'o msg \<Rightarrow> 'o msg result" where
  "populate_from_dict pool enc inputs kwargs m =
     (let inputs = fold (\<lambda>(k, v). dict_set k v) kwargs inputs in
      fold_result (\<lambda>fd m. case dict_get inputs (PAtom (AStr (fd_name fd))) of
          None \<Rightarrow> Inr m
        | Some PNone \<Rightarrow> Inr m
        | Some v \<Rightarrow> encode_field pool enc fd v m) (p_fields pool (m_type m)) m)"

text \<open>The inputs that a warning lists, unless \<open>ignore_extras\<close> is set.\<close>

definition extra_inputs :: "'o pool \<Rightarrow> string \<Rightarrow> ('o py, 'o py) dict \<Rightarrow> ('o py, 'o py) dict \<Rightarrow> string list \<Rightarrow> 'o py set" where
  "extra_inputs pool t inputs kwargs ignore_inputs =
     fst ` set (fold (\<lambda>(k, v). dict_set k v) kwargs inputs)
     - (PAtom \<circ> AStr \<circ> fd_name) ` set (p_fields pool t) - (PAtom \<circ> AStr) ` set ignore_inputs"

definition attribute :: "'o pool \<Rightarrow> 'o py \<Rightarrow> string \<Rightarrow> 'o py option" where
  "attribute pool v name = (case v of PObj attrs \<Rightarrow> dict_get attrs name | _ \<Rightarrow> p_attr pool v name)"

definition populate_from_container ::
    "'o pool \<Rightarrow> (kind \<Rightarrow> 'o py \<Rightarrow> 'o py result) \<Rightarrow> 'o py \<Rightarrow> bool \<Rightarrow> 'o msg \<Rightarrow> 'o msg result" where
  "populate_from_container pool enc container ignore_missing m =
     fold_result (\<lambda>fd m. case attribute pool container (fd_name fd) of
         None \<Rightarrow> if ignore_missing then Inr m else Inl AttributeError
       | Some PNone \<Rightarrow> Inr m
       | Some v \<Rightarrow> encode_field pool enc fd v m) (p_fields pool (m_type m)) m"

definition build_plain :: "'o pool \<Rightarrow> (kind \<Rightarrow> 'o py \<Rightarrow> 'o py result) \<Rightarrow> string \<Rightarrow> 'o py \<Rightarrow> 'o py result" where
  "build_plain pool enc t v =
     (case v of
        PMsg m \<Rightarrow> if m_type m = t then Inr v
                  else bind_result (populate_from_container pool enc v False (Msg t [])) (\<lambda>m. Inr (PMsg m))
      | PDict inputs \<Rightarrow> bind_result (populate_from_dict pool enc inputs [] (Msg t [])) (\<lambda>m. Inr (PMsg m))
      | _ \<Rightarrow> bind_result (populate_from_container pool enc v False (Msg t [])) (\<lambda>m. Inr (PMsg m)))"

text \<open>
  \<open>encode_message\<close> and \<open>build_from_value\<close> call each other for the fields that are messages;
  the first argument counts the calls that the recursion limit of the interpreter leaves.
  \<open>RecursionError\<close> is a \<open>RuntimeError\<close>.
\<close>

primrec encode_message :: "nat \<Rightarrow> 'o pool \<Rightarrow> 'o builder \<Rightarrow> string \<Rightarrow> 'o py \<Rightarrow> 'o py result" where
  "encode_message 0 pool b t v = Inl RuntimeError"
| "encode_message (Suc n) pool b t v =
     (case dict_get (b_encoders b) t of
        Some encoder \<Rightarrow> encoder v
      | None \<Rightarrow> build_plain pool (value_encoder pool b (encode_message n pool b)) t v)"

text \<open>The first argument of \<open>build_from_value\<close> may be no message type.\<close>

definition build_from_value :: "nat \<Rightarrow> 'o pool \<Rightarrow> 'o builder \<Rightarrow> string option \<Rightarrow> 'o py \<Rightarrow> 'o py result" where
  "build_from_value n pool b message_type v =
     (case message_type of
        None \<Rightarrow> Inl TypeError
      | Some t \<Rightarrow> (case dict_get (b_encoders b) t of
          Some encoder \<Rightarrow> encoder v
        | None \<Rightarrow> build_plain pool (value_encoder pool b (encode_message n pool b)) t v))"

definition build_from_dict ::
    "nat \<Rightarrow> 'o pool \<Rightarrow> 'o builder \<Rightarrow> string \<Rightarrow> ('o py, 'o py) dict option \<Rightarrow> ('o py, 'o py) dict \<Rightarrow> 'o msg result" where
  "build_from_dict n pool b t inputs kwargs =
     populate_from_dict pool (value_encoder pool b (encode_message n pool b))
       (case inputs of None \<Rightarrow> [] | Some d \<Rightarrow> d) kwargs (Msg t [])"

subsection \<open>The dissecter\<close>

record 'o dissecter =
  d_decoders :: "(string, 'o msg \<Rightarrow> 'o py result) dict"
  d_enum_decoders :: "(string, 'o py \<Rightarrow> 'o py result) dict"

definition register_decoder :: "string \<Rightarrow> ('o msg \<Rightarrow> 'o py result) \<Rightarrow> 'o dissecter \<Rightarrow> 'o dissecter" where
  "register_decoder t decoder d = d\<lparr>d_decoders := dict_set t decoder (d_decoders d)\<rparr>"

text \<open>
  The class made for an enumeration has the names without their common words; a name that
  is the same as another then replaces its number. Members are numbers. The class is kept
  for later, which changes nothing.
\<close>

definition enum_class :: "(string \<times> int) list \<Rightarrow> (string \<times> int) list" where
  "enum_class symbols =
     (let pfx_size = fst (common_prefix (map fst symbols) CHR ''_'') in
      fold (\<lambda>(name, n). dict_set (drop pfx_size name) n) symbols [])"

definition enum_decoder :: "'o pool \<Rightarrow> 'o dissecter \<Rightarrow> string \<Rightarrow> 'o py \<Rightarrow> 'o py result" where
  "enum_decoder pool d e v =
     (case dict_get (d_enum_decoders d) e of
        Some decoder \<Rightarrow> decoder v
      | None \<Rightarrow> (case v of
          PAtom (AInt n) \<Rightarrow> if n \<in> snd ` set (enum_class (p_enum pool e)) then Inr v else Inl ValueError
        | _ \<Rightarrow> Inl ValueError))"

definition native_val :: "'o val \<Rightarrow> 'o py" where
  "native_val x = (case x of VAtom a \<Rightarrow> PAtom a | VMsg m \<Rightarrow> PMsg m)"

definition field_decoder :: "'o pool \<Rightarrow> 'o dissecter \<Rightarrow> ('o py \<Rightarrow> 'o py result) \<Rightarrow> kind \<Rightarrow> 'o val \<Rightarrow> 'o py result" where
  "field_decoder pool d dm k x =
     (case k of
        Enumeration e \<Rightarrow> enum_decoder pool d e (native_val x)
      | Message _ \<Rightarrow> dm (native_val x)
      | Scalar _ \<Rightarrow> Inr (native_val x))"

text \<open>A field holds what its shape says; the last case does not occur.\<close>

definition dissect_field :: "(kind \<Rightarrow> 'o val \<Rightarrow> 'o py result) \<Rightarrow> shape \<Rightarrow> 'o field \<Rightarrow> 'o py result" where
  "dissect_field dec sh f =
     (case (sh, f) of
        (MapOf kk vk, FMap es) \<Rightarrow> bind_result
          (fold_result (\<lambda>(k, x) items. bind_result (dec kk (VAtom k)) (\<lambda>k'. bind_result (dec vk x) (\<lambda>x'. Inr (dict_set k' x' items)))) es [])
          (\<lambda>items. Inr (PDict items))
      | (Repeated k, FMany vs) \<Rightarrow> bind_result (map_result (dec k) vs) (\<lambda>xs. Inr (PList xs))
      | (Single k, FOne x) \<Rightarrow> dec k x
      | _ \<Rightarrow> Inl TypeError)"

definition is_field_present :: "'o pool \<Rightarrow> 'o msg \<Rightarrow> field_desc \<Rightarrow> bool" where
  "is_field_present pool m fd =
     (case fd_oneof fd of None \<Rightarrow> True | Some oneof \<Rightarrow> which_oneof pool m oneof = Some (fd_name fd))"

text \<open>
  \<open>make_dataclass\<close> raises \<open>TypeError\<close> for the name of a field that is a keyword. The name of
  a field and its type make a pair in the source only if \<open>field_type\<close> returns a type; it
  returns nothing.
\<close>

definition python_keywords :: "string list" where
  "python_keywords = [''False'', ''None'', ''True'', ''and'', ''as'', ''assert'', ''async'', ''await'', ''break'', ''class'',
     ''continue'', ''def'', ''del'', ''elif'', ''else'', ''except'', ''finally'', ''for'', ''from'', ''global'', ''if'', ''import'',
     ''in'', ''is'', ''lambda'', ''nonlocal'', ''not'', ''or'', ''pass'', ''raise'', ''return'', ''try'', ''while'', ''with'', ''yield'']"

definition dissect_message :: "'o pool \<Rightarrow> (kind \<Rightarrow> 'o val \<Rightarrow> 'o py result) \<Rightarrow> 'o msg \<Rightarrow> 'o py result" where
  "dissect_message pool dec m =
     bind_result
       (map_result (\<lambda>fd. if is_field_present pool m fd then dissect_field dec (fd_shape fd) (get_field pool fd m) else Inr PNone)
         (p_fields pool (m_type m)))
       (\<lambda>values.
          let names = map fd_name (p_fields pool (m_type m)) in
          if set names \<inter> set python_keywords \<noteq> {} \<or> \<not> distinct names then Inl TypeError
          else Inr (PObj (zip names values)))"

primrec decode :: "nat \<Rightarrow> 'o pool \<Rightarrow> 'o dissecter \<Rightarrow> 'o py \<Rightarrow> 'o py result" where
  "decode 0 pool d v = Inl RuntimeError"
| "decode (Suc n) pool d v =
     (case v of
        PMsg m \<Rightarrow> (case dict_get (d_decoders d) (m_type m) of
            Some decoder \<Rightarrow> decoder m
          | None \<Rightarrow> dissect_message pool (field_decoder pool d (decode n pool d)) m)
      | _ \<Rightarrow> Inl TypeError)"

end
