(* ===== verification/Builder_Props.thy ===== *)
theory Builder_Props
  imports Builder
begin

section \<open>What is built is dissected again\<close>

text \<open>
  The interface between the levels of a message: an encoder and a decoder of the messages
  that occur in a field, and the values they exchange. One level up, the fields of a message
  are again exchanged, so that the codec of the next level has the interface too.
\<close>

subsection \<open>Storing fields\<close>

definition blank :: "shape \<Rightarrow> 'o field" where
  "blank sh = (case sh of MapOf _ _ \<Rightarrow> FMap [] | _ \<Rightarrow> FMany [])"

lemma field_content_unset:
  "dict_get (m_fields m) (fd_name fd) = None \<Longrightarrow>
    field_content pool enc (fd_shape fd) v (get_field pool fd m) = field_content pool enc (fd_shape fd) v (blank (fd_shape fd))"
  by (simp add: get_field_def field_content_def blank_def split: shape.split)

lemma put_field_type [simp]: "m_type (put_field fds fd f m) = m_type m"
  by (simp add: put_field_def)

lemma dict_get_filter: "dict_get (filter (\<lambda>(n, _). n \<notin> A) d) name = (if name \<in> A then None else dict_get d name)"
  by (induction d) auto

lemma put_field_get:
  "dict_get (m_fields (put_field fds fd f m)) name =
     (if f = FMany [] \<or> f = FMap [] then dict_get (m_fields m) name
      else if name = fd_name fd then Some f
      else if name \<in> rivals fds fd then None else dict_get (m_fields m) name)"
  by (simp add: put_field_def dict_get_filter)

text \<open>What the message holds of a field whose content is given.\<close>

definition stored :: "'o field option \<Rightarrow> 'o field option" where
  "stored f = (if f = Some (FMany []) \<or> f = Some (FMap []) then None else f)"

text \<open>No two fields of a oneof are used.\<close>

definition exclusive :: "field_desc list \<Rightarrow> (field_desc \<Rightarrow> bool) \<Rightarrow> bool" where
  "exclusive fds used \<longleftrightarrow> (\<forall>fd \<in> set fds. \<forall>g \<in> set fds.
     fd_oneof fd \<noteq> None \<and> fd_oneof fd = fd_oneof g \<and> used fd \<and> used g \<longrightarrow> fd = g)"

text \<open>The loop over the fields; \<open>body\<close> leaves the message alone or encodes the field.\<close>

lemma populated:
  assumes "distinct (map fd_name fds)" "exclusive fds (\<lambda>fd. cont fd \<noteq> None)" "set todo \<subseteq> set fds" "distinct todo"
    and body: "\<And>fd m. fd \<in> set todo \<Longrightarrow> dict_get (m_fields m) (fd_name fd) = None \<Longrightarrow> m_type m = t \<Longrightarrow>
      body fd m = Inr (case cont fd of None \<Rightarrow> m | Some f \<Rightarrow> put_field fds fd f m)"
    and "m_type m = t" "\<And>fd. fd \<in> set fds \<Longrightarrow> dict_get (m_fields m) (fd_name fd) = (if fd \<in> set todo then None else stored (cont fd))"
  shows "\<exists>m'. fold_result body todo m = Inr m' \<and> m_type m' = t \<and> (\<forall>fd \<in> set fds. dict_get (m_fields m') (fd_name fd) = stored (cont fd))"
  using assms(3-)
proof (induction todo arbitrary: m)
  case (Cons fd todo)
  have fd: "fd \<in> set fds" using Cons.prems(1) by simp
  have same: "g = h" if "g \<in> set fds" "h \<in> set fds" "fd_name g = fd_name h" for g h
    using assms(1) that by (metis distinct_map inj_onD)
  let ?m = "case cont fd of None \<Rightarrow> m | Some f \<Rightarrow> put_field fds fd f m"
  have step: "body fd m = Inr ?m" using Cons.prems(3)[of fd m] Cons.prems(4) Cons.prems(5)[OF fd] by simp
  have get: "dict_get (m_fields ?m) (fd_name g) = (if g \<in> set todo then None else stored (cont g))" if g: "g \<in> set fds" for g
  proof (cases "g = fd")
    case True
    with Cons.prems(2) Cons.prems(5)[OF fd] show ?thesis
      by (auto simp: put_field_get stored_def split: option.split)
  next
    case False
    then have name: "fd_name g \<noteq> fd_name fd" using same g fd by blast
    have rival: "cont g = None" if "fd_name g \<in> rivals fds fd" "cont fd \<noteq> None"
    proof -
      from that(1) obtain h where h: "h \<in> set fds" "fd_oneof h = fd_oneof fd" "fd_oneof fd \<noteq> None" "fd_name g = fd_name h"
        by (auto simp: rivals_def split: if_splits)
      then have "h = g" using same g by metis
      with h(2,3) have "fd_oneof fd \<noteq> None \<and> fd_oneof fd = fd_oneof g" by simp
      with assms(2)[unfolded exclusive_def, rule_format, OF fd g] that(2) False show ?thesis by blast
    qed
    have old: "dict_get (m_fields m) (fd_name g) = (if g \<in> set todo then None else stored (cont g))"
      using Cons.prems(5)[OF g] False by simp
    show ?thesis
    proof (cases "cont fd")
      case (Some f)
      with rival old name show ?thesis by (auto simp: put_field_get stored_def)
    qed (simp add: old)
  qed
  have type: "m_type ?m = t" using Cons.prems(4) by (simp split: option.split)
  from Cons.IH[OF _ _ _ type get] Cons.prems(1,2,3) obtain m' where
    "fold_result body todo ?m = Inr m'" "m_type m' = t" "\<forall>fd \<in> set fds. dict_get (m_fields m') (fd_name fd) = stored (cont fd)"
    by auto
  with step show ?case by simp
qed simp

subsection \<open>Native values\<close>

text \<open>
  What can be exchanged, given what can be in the fields that are messages: a scalar that the
  library takes as it is, a value of an enumeration that its codec gives back, lists and
  dictionaries of those, and objects with an attribute for every field. Only a member of a
  oneof may be \<open>None\<close>, and only one of them is anything else.
\<close>

definition native_item ::
    "'o pool \<Rightarrow> 'o builder \<Rightarrow> 'o dissecter \<Rightarrow> (string \<Rightarrow> 'o py \<Rightarrow> bool) \<Rightarrow> kind \<Rightarrow> 'o py \<Rightarrow> bool" where
  "native_item pool b d sub k v =
     (case k of
        Scalar _ \<Rightarrow> (case v of PAtom a \<Rightarrow> p_accept pool k v = Inr a | _ \<Rightarrow> False)
      | Enumeration e \<Rightarrow> (case bind_result (encode_enum pool b e v) (p_accept pool k) of
            Inl _ \<Rightarrow> False
          | Inr a \<Rightarrow> enum_decoder pool d e (PAtom a) = Inr v)
      | Message t \<Rightarrow> sub t v)"

fun native_field :: "(kind \<Rightarrow> 'o py \<Rightarrow> bool) \<Rightarrow> shape \<Rightarrow> 'o py \<Rightarrow> bool" where
  "native_field item (Single k) v = item k v"
| "native_field item (Repeated k) (PList xs) = list_all (item k) xs"
| "native_field item (MapOf (Scalar n) vk) (PDict items) =
     (distinct (map fst items) \<and> list_all (\<lambda>(k, x). item (Scalar n) k \<and> item vk x) items)"
| "native_field item _ _ = False"

definition proper_fields :: "field_desc list \<Rightarrow> bool" where
  "proper_fields fds \<longleftrightarrow> distinct (map fd_name fds) \<and> set (map fd_name fds) \<inter> set python_keywords = {}
     \<and> (\<forall>fd \<in> set fds. fd_oneof fd \<noteq> None \<longrightarrow> (case fd_shape fd of Single _ \<Rightarrow> True | _ \<Rightarrow> False))"

definition native_object :: "'o pool \<Rightarrow> (kind \<Rightarrow> 'o py \<Rightarrow> bool) \<Rightarrow> string \<Rightarrow> 'o py \<Rightarrow> bool" where
  "native_object pool item t v =
     (let fds = p_fields pool t in
      case v of
        PObj attrs \<Rightarrow> proper_fields fds \<and> map fst attrs = map fd_name fds
          \<and> list_all2 (\<lambda>fd (_, x). if x = PNone then fd_oneof fd \<noteq> None else native_field item (fd_shape fd) x) fds attrs
          \<and> exclusive fds (\<lambda>fd. dict_get attrs (fd_name fd) \<noteq> Some PNone)
      | _ \<Rightarrow> False)"

primrec native :: "nat \<Rightarrow> 'o pool \<Rightarrow> 'o builder \<Rightarrow> 'o dissecter \<Rightarrow> string \<Rightarrow> 'o py \<Rightarrow> bool" where
  "native 0 pool b d t v = False"
| "native (Suc n) pool b d t v =
     (case dict_get (b_encoders b) t of
        Some encoder \<Rightarrow> (case encoder v of
            Inr (PMsg m) \<Rightarrow> m_type m = t \<and> (case dict_get (d_decoders d) t of Some decoder \<Rightarrow> decoder m = Inr v | None \<Rightarrow> False)
          | _ \<Rightarrow> False)
      | None \<Rightarrow> dict_get (d_decoders d) t = None \<and> native_object pool (native_item pool b d (native n pool b d)) t v)"

subsection \<open>From one level to the next\<close>

locale message_codec =
  fixes em :: "string \<Rightarrow> 'o py \<Rightarrow> 'o py result"
    and dm :: "'o py \<Rightarrow> 'o py result"
    and sub :: "string \<Rightarrow> 'o py \<Rightarrow> bool"
  assumes exchanged: "sub t v \<Longrightarrow> \<exists>m. em t v = Inr (PMsg m) \<and> m_type m = t \<and> dm (PMsg m) = Inr v"

lemma fold_entries:
  assumes "distinct (map fst items)"
    and "\<And>k x. (k, x) \<in> set items \<Longrightarrow> \<exists>a y. k = PAtom a \<and> (\<forall>es. put k x es = Inr (dict_set a y es)) \<and> got a = Inr k \<and> back y = Inr x"
    and "set (map fst items) \<inter> PAtom ` fst ` set es = {}"
  shows "\<exists>es'. fold_result (\<lambda>(k, x). put k x) items es = Inr (es @ es')
    \<and> map (\<lambda>(a, y). (got a, back y)) es' = map (\<lambda>(k, x). (Inr k, Inr x)) items"
  using assms
proof (induction items arbitrary: es)
  case (Cons i items)
  obtain k x where i: "i = (k, x)" by fastforce
  with Cons.prems(2)[of k x] obtain a y where
    ay: "k = PAtom a" "\<And>es. put k x es = Inr (dict_set a y es)" "got a = Inr k" "back y = Inr x" by auto
  have fresh: "a \<notin> fst ` set es" using Cons.prems(3) i ay(1) by auto
  have set: "dict_set a y es = es @ [(a, y)]" using fresh by (induction es) auto
  have "\<exists>es'. fold_result (\<lambda>(k, x). put k x) items (es @ [(a, y)]) = Inr ((es @ [(a, y)]) @ es')
    \<and> map (\<lambda>(a, y). (got a, back y)) es' = map (\<lambda>(k, x). (Inr k, Inr x)) items"
  proof (rule Cons.IH)
    show "set (map fst items) \<inter> PAtom ` fst ` set (es @ [(a, y)]) = {}"
      using Cons.prems(1,3) i ay(1) by auto
  qed (use Cons.prems(1,2) in \<open>auto simp: i\<close>)
  then show ?case using i ay set by auto
qed simp

lemma fold_items:
  assumes "map (\<lambda>(a, y). (got a, back y)) es = map (\<lambda>(k, x). (Inr k, Inr x)) items"
    and "distinct (map fst (acc @ items))"
  shows "fold_result (\<lambda>(a, y) items. bind_result (got a) (\<lambda>k. bind_result (back y) (\<lambda>x. Inr (dict_set k x items)))) es acc
    = Inr (acc @ items)"
  using assms
proof (induction items arbitrary: acc es)
  case (Cons i items)
  obtain k x where i: "i = (k, x)" by fastforce
  from Cons.prems(1) obtain a y es' where es: "es = (a, y) # es'" "got a = Inr k" "back y = Inr x"
    "map (\<lambda>(a, y). (got a, back y)) es' = map (\<lambda>(k, x). (Inr k, Inr x)) items" by (auto simp: i map_eq_Cons_conv)
  have "k \<notin> fst ` set acc" using Cons.prems(2) i by auto
  then have "dict_set k x acc = acc @ [(k, x)]" by (induction acc) auto
  moreover have "fold_result (\<lambda>(a, y) items. bind_result (got a) (\<lambda>k. bind_result (back y) (\<lambda>x. Inr (dict_set k x items)))) es' (acc @ [(k, x)])
    = Inr ((acc @ [(k, x)]) @ items)"
    using Cons.prems(2) i by (intro Cons.IH[OF es(4)]) simp
  ultimately show ?case by (simp add: es i)
qed simp

lemma map_result_exchange:
  "list_all (\<lambda>x. \<exists>y z. f x = Inr y \<and> g y = Inr z \<and> h z = Inr x) xs \<Longrightarrow>
    \<exists>ys zs. map_result f xs = Inr ys \<and> map_result g ys = Inr zs \<and> map_result h zs = Inr xs"
  by (induction xs) fastforce+

definition of_shape :: "shape \<Rightarrow> 'o field \<Rightarrow> bool" where
  "of_shape sh f = (case (sh, f) of (Single _, FOne _) \<Rightarrow> True | (Repeated _, FMany _) \<Rightarrow> True | (MapOf _ _, FMap _) \<Rightarrow> True | _ \<Rightarrow> False)"

lemma get_field_stored:
  "of_shape (fd_shape fd) f \<Longrightarrow> dict_get (m_fields m) (fd_name fd) = stored (Some f) \<Longrightarrow> get_field pool fd m = f"
  by (auto simp: get_field_def of_shape_def stored_def split: shape.splits field.splits if_splits)

text \<open>A oneof is told by the field that is used.\<close>

lemma present_iff:
  assumes "proper_fields (p_fields pool (m_type m))" "exclusive (p_fields pool (m_type m)) used"
    and "fd \<in> set (p_fields pool (m_type m))" "fd_oneof fd = Some oneof"
    and "\<And>g. g \<in> set (p_fields pool (m_type m)) \<Longrightarrow> fd_oneof g = Some oneof \<Longrightarrow> dict_get (m_fields m) (fd_name g) \<noteq> None \<longleftrightarrow> used g"
  shows "is_field_present pool m fd \<longleftrightarrow> used fd"
proof -
  let ?P = "\<lambda>g. fd_oneof g = Some oneof \<and> dict_get (m_fields m) (fd_name g) \<noteq> None"
  have name: "g = fd" if "g \<in> set (p_fields pool (m_type m))" "fd_name g = fd_name fd" for g
    using assms(1,3) that unfolding proper_fields_def by (metis distinct_map inj_onD)
  have sole: "g = fd" if "g \<in> set (p_fields pool (m_type m))" "?P g" "used fd" for g
    using assms(2)[unfolded exclusive_def, rule_format, OF that(1) assms(3)] that(2,3) assms(4) assms(5)[OF that(1)] by simp
  show ?thesis
  proof (cases "find ?P (p_fields pool (m_type m))")
    case None
    then have "which_oneof pool m oneof = None" by (simp only: which_oneof_def option.map)
    moreover have "\<not> used fd" using None assms(3,4) assms(5)[OF assms(3,4)] unfolding find_None_iff by blast
    ultimately show ?thesis using assms(4) by (simp add: is_field_present_def)
  next
    case (Some g)
    then have g: "g \<in> set (p_fields pool (m_type m))" "?P g" by (auto simp: find_Some_iff)
    have "fd_name g = fd_name fd \<longleftrightarrow> used fd" using name[OF g(1)] sole[OF g] assms(5)[OF g(1)] g(2) by blast
    with Some assms(4) show ?thesis by (simp add: is_field_present_def which_oneof_def)
  qed
qed

lemma attrs_at:
  assumes "map fst attrs = map fd_name fds" "distinct (map fd_name fds)"
  shows "fd \<in> set fds \<Longrightarrow> dict_get attrs (fd_name fd) \<noteq> None"
    and "attrs = zip (map fd_name fds) (map (\<lambda>fd. the (dict_get attrs (fd_name fd))) fds)"
    and "list_all2 (\<lambda>fd (_, x). P fd x) fds attrs \<Longrightarrow> fd \<in> set fds \<Longrightarrow> P fd (the (dict_get attrs (fd_name fd)))"
proof -
  have d: "distinct (map fst attrs)" and len: "length attrs = length fds" using assms by (simp, metis length_map)
  have at: "fst (attrs ! i) = fd_name (fds ! i)" "dict_get attrs (fd_name (fds ! i)) = Some (snd (attrs ! i))" if "i < length fds" for i
  proof -
    show n: "fst (attrs ! i) = fd_name (fds ! i)" using assms(1) that len by (metis nth_map)
    show "dict_get attrs (fd_name (fds ! i)) = Some (snd (attrs ! i))"
      using d that len by (simp add: n[symmetric] map_of_eq_Some_iff prod.collapse)
  qed
  show "fd \<in> set fds \<Longrightarrow> dict_get attrs (fd_name fd) \<noteq> None" using at(2) by (auto simp: in_set_conv_nth)
  show "attrs = zip (map fd_name fds) (map (\<lambda>fd. the (dict_get attrs (fd_name fd))) fds)"
    by (rule nth_equalityI) (use len at in \<open>auto simp: prod_eq_iff\<close>)
  show "P fd (the (dict_get attrs (fd_name fd)))" if "list_all2 (\<lambda>fd (_, x). P fd x) fds attrs" "fd \<in> set fds"
  proof -
    from that(2) obtain i where i: "i < length fds" "fds ! i = fd" by (auto simp: in_set_conv_nth)
    from list_all2_nthD[OF that(1) i(1)] at(2)[OF i(1)] i(2) show ?thesis by (simp add: case_prod_beta)
  qed
qed

context message_codec
begin

lemma item_exchanged:
  assumes "native_item pool b d sub k v"
  shows "\<exists>y x. value_encoder pool b em k v = Inr y \<and> assign pool k y = Inr x \<and> field_decoder pool d dm k x = Inr v"
proof (cases k)
  case (Scalar n)
  with assms show ?thesis
    by (auto simp: native_item_def value_encoder_def assign_def field_decoder_def native_val_def split: py.splits)
next
  case (Enumeration e)
  with assms obtain y a where "encode_enum pool b e v = Inr y" "p_accept pool k y = Inr a" "enum_decoder pool d e (PAtom a) = Inr v"
    by (auto simp: native_item_def result_simps split: sum.splits)
  with Enumeration show ?thesis by (simp add: value_encoder_def assign_def field_decoder_def native_val_def)
next
  case (Message t)
  with assms exchanged[of t v] show ?thesis
    by (auto simp: native_item_def value_encoder_def assign_def field_decoder_def native_val_def)
qed

lemma field_exchanged:
  assumes "native_field (native_item pool b d sub) sh v"
  shows "\<exists>f. field_content pool (value_encoder pool b em) sh v (blank sh) = Inr f \<and> of_shape sh f
    \<and> dissect_field (field_decoder pool d dm) sh f = Inr v"
  using assms
proof (cases "(native_item pool b d sub, sh, v)" rule: native_field.cases)
  case (1 item k v')
  with assms item_exchanged[of pool b d k v] show ?thesis by (auto simp: field_content_def of_shape_def dissect_field_def)
next
  case (2 item k xs)
  with assms have "list_all (\<lambda>x. \<exists>y z. value_encoder pool b em k x = Inr y \<and> assign pool k y = Inr z
      \<and> field_decoder pool d dm k z = Inr x) xs"
    using item_exchanged[of pool b d k] by (auto elim!: list.pred_mono_strong)
  from map_result_exchange[OF this] 2 show ?thesis
    by (auto simp: field_content_def of_shape_def dissect_field_def blank_def)
next
  case (3 item n vk items)
  let ?enc = "value_encoder pool b em" and ?dec = "field_decoder pool d dm"
  let ?put = "\<lambda>k x es. bind_result (?enc (Scalar n) k) (\<lambda>k'. bind_result (?enc vk x) (\<lambda>x'. assign_map_entry pool (Scalar n) vk k' x' es))"
  have ok: "distinct (map fst items)" "\<And>k x. (k, x) \<in> set items \<Longrightarrow>
      native_item pool b d sub (Scalar n) k \<and> native_item pool b d sub vk x"
    using assms 3 by (auto simp: list_all_iff)
  have "\<exists>a y. k = PAtom a \<and> (\<forall>es. ?put k x es = Inr (dict_set a y es)) \<and> ?dec (Scalar n) (VAtom a) = Inr k \<and> ?dec vk y = Inr x"
    if kx: "(k, x) \<in> set items" for k x
  proof -
    obtain a where a: "k = PAtom a" "p_accept pool (Scalar n) k = Inr a"
      using ok(2)[OF kx] by (auto simp: native_item_def split: py.splits)
    obtain y z where "?enc vk x = Inr y" "assign pool vk y = Inr z" "?dec vk z = Inr x"
      using item_exchanged ok(2)[OF kx] by blast
    with a show ?thesis
      by (intro exI[of _ a] exI[of _ z]) (simp add: value_encoder_def assign_map_entry_def field_decoder_def native_val_def)
  qed
  from fold_entries[OF ok(1), of ?put "\<lambda>a. ?dec (Scalar n) (VAtom a)" "?dec vk" "[]", OF this] obtain es where
    es: "fold_result (\<lambda>(k, x). ?put k x) items [] = Inr es"
      "map (\<lambda>(a, y). (?dec (Scalar n) (VAtom a), ?dec vk y)) es = map (\<lambda>(k, x). (Inr k, Inr x)) items" by auto
  from fold_items[OF es(2), of "[]"] ok(1) es(1) 3 show ?thesis
    by (simp add: field_content_def of_shape_def dissect_field_def blank_def)
qed simp_all

lemma object_exchanged:
  assumes "native_object pool (native_item pool b d sub) t v"
  shows "\<exists>m. build_plain pool (value_encoder pool b em) t v = Inr (PMsg m) \<and> m_type m = t
    \<and> dissect_message pool (field_decoder pool d dm) m = Inr v"
proof -
  let ?fds = "p_fields pool t" and ?enc = "value_encoder pool b em" and ?dec = "field_decoder pool d dm"
  obtain attrs where v: "v = PObj attrs" and proper: "proper_fields ?fds" and names: "map fst attrs = map fd_name ?fds"
    and each: "list_all2 (\<lambda>fd (_, x). if x = PNone then fd_oneof fd \<noteq> None else native_field (native_item pool b d sub) (fd_shape fd) x) ?fds attrs"
    and one: "exclusive ?fds (\<lambda>fd. dict_get attrs (fd_name fd) \<noteq> Some PNone)"
    using assms by (auto simp: native_object_def Let_def split: py.splits)
  have distinct: "distinct (map fd_name ?fds)" using proper by (simp add: proper_fields_def)
  define val where "val = (\<lambda>fd :: field_desc. the (dict_get attrs (fd_name fd)))"
  have got: "dict_get attrs (fd_name fd) = Some (val fd)" if "fd \<in> set ?fds" for fd
    using attrs_at(1)[OF names distinct that] by (auto simp: val_def)
  have all: "if val fd = PNone then fd_oneof fd \<noteq> None else native_field (native_item pool b d sub) (fd_shape fd) (val fd)"
    if "fd \<in> set ?fds" for fd
    using attrs_at(3)[OF names distinct each that] by (simp add: val_def)
  have "\<forall>fd \<in> set ?fds. \<exists>f. val fd \<noteq> PNone \<longrightarrow> field_content pool ?enc (fd_shape fd) (val fd) (blank (fd_shape fd)) = Inr f
      \<and> of_shape (fd_shape fd) f \<and> dissect_field ?dec (fd_shape fd) f = Inr (val fd)"
    using all field_exchanged by (metis (full_types))
  then obtain cf where cf: "\<And>fd. fd \<in> set ?fds \<Longrightarrow> val fd \<noteq> PNone \<Longrightarrow>
      field_content pool ?enc (fd_shape fd) (val fd) (blank (fd_shape fd)) = Inr (cf fd)
      \<and> of_shape (fd_shape fd) (cf fd) \<and> dissect_field ?dec (fd_shape fd) (cf fd) = Inr (val fd)"
    by (metis bchoice)
  define cont where "cont = (\<lambda>fd. if val fd = PNone then None else Some (cf fd))"
  let ?body = "\<lambda>fd m. case attribute pool v (fd_name fd) of None \<Rightarrow> if False then Inr m else Inl AttributeError
    | Some PNone \<Rightarrow> Inr m | Some x \<Rightarrow> encode_field pool ?enc fd x m"
  have "exclusive ?fds (\<lambda>fd. cont fd \<noteq> None)" using one got by (auto simp: exclusive_def cont_def)
  moreover have "?body fd m = Inr (case cont fd of None \<Rightarrow> m | Some f \<Rightarrow> put_field ?fds fd f m)"
    if "fd \<in> set ?fds" "dict_get (m_fields m) (fd_name fd) = None" "m_type m = t" for fd m
  proof (cases "val fd = PNone")
    case False
    then have "?body fd m = encode_field pool ?enc fd (val fd) m"
      using got[OF that(1)] by (simp add: v attribute_def split: py.split)
    also have "\<dots> = Inr (put_field ?fds fd (cf fd) m)"
      using cf[OF that(1) False] field_content_unset[OF that(2)] that(3) by (simp add: encode_field_def)
    finally show ?thesis using False by (simp add: cont_def)
  qed (use got[OF that(1)] in \<open>simp add: v attribute_def cont_def\<close>)
  ultimately obtain m where m: "fold_result ?body ?fds (Msg t []) = Inr m" "m_type m = t"
    "\<And>fd. fd \<in> set ?fds \<Longrightarrow> dict_get (m_fields m) (fd_name fd) = stored (cont fd)"
    using populated[OF distinct _ subset_refl _ , of cont t ?body "Msg t []"] distinct by (auto simp: distinct_map)
  have field: "(if is_field_present pool m fd then dissect_field ?dec (fd_shape fd) (get_field pool fd m) else Inr PNone) = Inr (val fd)"
    if fd: "fd \<in> set ?fds" for fd
  proof -
    have present: "is_field_present pool m fd \<longleftrightarrow> val fd \<noteq> PNone \<or> fd_oneof fd = None"
    proof (cases "fd_oneof fd")
      case (Some oneof)
      have "dict_get (m_fields m) (fd_name g) \<noteq> None \<longleftrightarrow> val g \<noteq> PNone" if g: "g \<in> set ?fds" "fd_oneof g = Some oneof" for g
      proof -
        have "\<exists>k. fd_shape g = Single k" using proper g by (cases "fd_shape g") (auto simp: proper_fields_def)
        with cf[OF g(1)] show ?thesis by (auto simp: m(3)[OF g(1)] cont_def stored_def of_shape_def split: field.splits)
      qed
      then have "is_field_present pool m fd \<longleftrightarrow> val fd \<noteq> PNone"
        using present_iff[of pool m "\<lambda>fd. val fd \<noteq> PNone" fd oneof] proper one got fd Some m(2)
        by (auto simp: exclusive_def)
      with Some show ?thesis by simp
    qed (simp add: is_field_present_def)
    show ?thesis
    proof (cases "val fd = PNone")
      case False
      have "get_field pool fd m = cf fd"
        using cf[OF fd False] m(3)[OF fd] False by (intro get_field_stored) (simp_all add: cont_def)
      with present cf[OF fd False] False show ?thesis by simp
    qed (use all[OF fd] present in auto)
  qed
  have "dissect_message pool ?dec m = Inr v"
  proof -
    have "map_result (\<lambda>fd. if is_field_present pool m fd then dissect_field ?dec (fd_shape fd) (get_field pool fd m) else Inr PNone) ?fds
        = Inr (map val ?fds)" by (rule map_result_Inr) (rule field)
    moreover have "zip (map fd_name ?fds) (map val ?fds) = attrs" using attrs_at(2)[OF names distinct] by (simp add: val_def)
    moreover have "set (map fd_name ?fds) \<inter> set python_keywords = {}" using proper by (simp only: proper_fields_def)
    ultimately show ?thesis using distinct by (simp add: dissect_message_def m(2) v Let_def)
  qed
  moreover have "build_plain pool ?enc t v = Inr (PMsg m)"
    using m(1) by (simp add: build_plain_def v populate_from_container_def)
  ultimately show ?thesis using m(2) by blast
qed

end

lemma codec_level: "message_codec (encode_message n pool b) (decode n pool d) (native n pool b d)"
proof (induction n)
  case 0
  show ?case by unfold_locales simp
next
  case (Suc n)
  show ?case
  proof
    fix t v
    assume "native (Suc n) pool b d t v"
    then show "\<exists>m. encode_message (Suc n) pool b t v = Inr (PMsg m) \<and> m_type m = t \<and> decode (Suc n) pool d (PMsg m) = Inr v"
      using message_codec.object_exchanged[OF Suc, of pool b d t v]
      by (auto split: option.splits sum.splits py.splits)
  qed
qed

interpretation level: message_codec "encode_message n pool b" "decode n pool d" "native n pool b d" for n pool b d
  by (rule codec_level)

text \<open>
  C21. What is built is dissected again: every native value of a message type, objects within
  objects, lists and dictionaries included, is built into a message of the type, and
  dissecting that message gives the value back. The recursion takes as many calls as objects
  are nested, and types with codecs of their own take part if theirs are inverse.
\<close>

theorem built_is_dissected:
  assumes "native n pool b d t v"
  shows "\<exists>m. encode_message n pool b t v = Inr (PMsg m) \<and> m_type m = t \<and> decode n pool d (PMsg m) = Inr v"
  using assms by (rule level.exchanged)

subsection \<open>How deep the recursion goes\<close>

text \<open>
  Reading a message field that is not set gives an empty message, so the dissecter descends
  as deep as the types are nested, whatever the message holds.
\<close>

definition field_vals :: "shape \<Rightarrow> 'o field \<Rightarrow> (kind \<times> 'o val) set" where
  "field_vals sh f =
     (case (sh, f) of
        (Single k, FOne x) \<Rightarrow> {(k, x)}
      | (Repeated k, FMany vs) \<Rightarrow> {k} \<times> set vs
      | (MapOf kk vk, FMap es) \<Rightarrow> (\<lambda>e. (kk, VAtom (fst e))) ` set es \<union> (\<lambda>e. (vk, snd e)) ` set es
      | _ \<Rightarrow> {})"

coinductive well_typed :: "'o pool \<Rightarrow> 'o msg \<Rightarrow> bool" for pool where
  "(\<forall>fd \<in> set (p_fields pool (m_type m)). \<forall>k x. (k, x) \<in> field_vals (fd_shape fd) (get_field pool fd m) \<longrightarrow>
     (\<exists>t m'. k = Message t \<and> x = VMsg m' \<and> m_type m' = t \<and> well_typed pool m') \<or> (\<forall>t. k \<noteq> Message t)) \<Longrightarrow>
   (\<forall>fd \<in> set (p_fields pool (m_type m)). of_shape (fd_shape fd) (get_field pool fd m)) \<Longrightarrow> well_typed pool m"

lemma well_typed_field:
  assumes "well_typed pool m" "fd \<in> set (p_fields pool (m_type m))"
  shows "of_shape (fd_shape fd) (get_field pool fd m)"
    and "(Message t, x) \<in> field_vals (fd_shape fd) (get_field pool fd m) \<Longrightarrow> \<exists>m'. x = VMsg m' \<and> m_type m' = t \<and> well_typed pool m'"
  using well_typed.cases[OF assms(1)] assms(2) by (metis kind.inject(3))+

text \<open>The types that the fields of a type can hold.\<close>

definition part_types :: "'o pool \<Rightarrow> string \<Rightarrow> string set" where
  "part_types pool t = {u. \<exists>fd \<in> set (p_fields pool t). case fd_shape fd of
     Single k \<Rightarrow> k = Message u | Repeated k \<Rightarrow> k = Message u | MapOf kk vk \<Rightarrow> kk = Message u \<or> vk = Message u}"

lemma part_typesI:
  "fd \<in> set (p_fields pool t) \<Longrightarrow> (Message u, x) \<in> field_vals (fd_shape fd) f \<Longrightarrow> u \<in> part_types pool t"
  unfolding part_types_def by (rule CollectI, rule bexI[of _ fd]) (auto simp: field_vals_def split: shape.splits field.splits)

lemma fold_result_cong:
  "(\<And>x s. x \<in> set xs \<Longrightarrow> f x s = g x s) \<Longrightarrow> fold_result f xs s = fold_result g xs s"
proof (induction xs arbitrary: s)
  case (Cons x xs)
  then have "fold_result f xs = fold_result g xs" by (intro ext) simp
  with Cons.prems show ?case by simp
qed simp

lemma dissect_field_cong:
  assumes "\<And>k x. (k, x) \<in> field_vals sh f \<Longrightarrow> dec k x = dec' k x"
  shows "dissect_field dec sh f = dissect_field dec' sh f"
proof (cases sh)
  case (Single k)
  with assms show ?thesis by (cases f) (auto simp: dissect_field_def field_vals_def)
next
  case (Repeated k)
  show ?thesis
  proof (cases f)
    case (FMany vs)
    with Repeated assms have "map_result (dec k) vs = map_result (dec' k) vs"
      by (intro map_result_cong) (auto simp: field_vals_def)
    with Repeated FMany show ?thesis by (simp add: dissect_field_def)
  qed (simp_all add: dissect_field_def Repeated)
next
  case (MapOf kk vk)
  show ?thesis
  proof (cases f)
    case (FMap es)
    have "dec kk (VAtom (fst e)) = dec' kk (VAtom (fst e))" "dec vk (snd e) = dec' vk (snd e)" if "e \<in> set es" for e
      using that MapOf FMap by (auto intro!: assms simp: field_vals_def)
    then have "fold_result (\<lambda>(k, x) items. bind_result (dec kk (VAtom k)) (\<lambda>k'. bind_result (dec vk x) (\<lambda>x'. Inr (dict_set k' x' items)))) es []
      = fold_result (\<lambda>(k, x) items. bind_result (dec' kk (VAtom k)) (\<lambda>k'. bind_result (dec' vk x) (\<lambda>x'. Inr (dict_set k' x' items)))) es []"
      by (intro fold_result_cong) (simp add: case_prod_beta)
    with MapOf FMap show ?thesis by (simp add: dissect_field_def)
  qed (simp_all add: dissect_field_def MapOf)
qed

lemma dissect_message_cong:
  assumes "\<And>fd k x. fd \<in> set (p_fields pool (m_type m)) \<Longrightarrow> (k, x) \<in> field_vals (fd_shape fd) (get_field pool fd m) \<Longrightarrow> dec k x = dec' k x"
  shows "dissect_message pool dec m = dissect_message pool dec' m"
proof -
  have "dissect_field dec (fd_shape fd) (get_field pool fd m) = dissect_field dec' (fd_shape fd) (get_field pool fd m)"
    if "fd \<in> set (p_fields pool (m_type m))" for fd by (rule dissect_field_cong) (rule assms[OF that])
  then have "map_result (\<lambda>fd. if is_field_present pool m fd then dissect_field dec (fd_shape fd) (get_field pool fd m) else Inr PNone)
      (p_fields pool (m_type m))
    = map_result (\<lambda>fd. if is_field_present pool m fd then dissect_field dec' (fd_shape fd) (get_field pool fd m) else Inr PNone)
      (p_fields pool (m_type m))"
    by (intro map_result_cong) simp_all
  then show ?thesis by (simp add: dissect_message_def)
qed

definition ranked :: "'o pool \<Rightarrow> 'o dissecter \<Rightarrow> (string \<Rightarrow> nat) \<Rightarrow> bool" where
  "ranked pool d rank \<longleftrightarrow> (\<forall>t. dict_get (d_decoders d) t = None \<longrightarrow> (\<forall>u \<in> part_types pool t. rank u < rank t))"

text \<open>
  C22. The dissecter needs no more calls than the types are nested: if every type without a
  decoder has a rank above those of the types its fields can hold, then for every message of
  such a type a number of calls above the rank gives the same result as any greater number;
  so the recursion limit is not met.
\<close>

theorem dissecting_ends:
  assumes "ranked pool d rank" and "well_typed pool m" and "rank (m_type m) < n" "n \<le> n'"
  shows "decode n' pool d (PMsg m) = decode n pool d (PMsg m)"
  using assms(2-)
proof (induction n arbitrary: n' m)
  case (Suc n)
  from Suc.prems(3) obtain k where k: "n' = Suc k" "n \<le> k" by (cases n') auto
  show ?case
  proof (cases "dict_get (d_decoders d) (m_type m)")
    case None
    have "field_decoder pool d (decode k pool d) kd x = field_decoder pool d (decode n pool d) kd x"
      if fd: "fd \<in> set (p_fields pool (m_type m))" and x: "(kd, x) \<in> field_vals (fd_shape fd) (get_field pool fd m)" for fd kd x
    proof (cases kd)
      case (Message u)
      obtain m' where m': "x = VMsg m'" "m_type m' = u" "well_typed pool m'"
        using well_typed_field(2)[OF Suc.prems(1) fd] x Message by blast
      have "rank u < rank (m_type m)"
        using assms(1) None part_typesI[OF fd x[unfolded Message]] by (simp add: ranked_def)
      with Suc.prems(2) m' have "decode k pool d (PMsg m') = decode n pool d (PMsg m')"
        by (intro Suc.IH[OF m'(3) _ k(2)]) simp
      with Message m'(1) show ?thesis by (simp add: field_decoder_def native_val_def)
    qed (simp_all add: field_decoder_def)
    from dissect_message_cong[OF this] None k(1) show ?thesis by simp
  qed (simp add: k(1))
qed simp

text \<open>
  A message whose type has a field of the type itself, outside any oneof, cannot be
  dissected, whatever it holds and however many calls the interpreter allows: the field that
  is not set reads as one more message.
\<close>

theorem recursive_type_not_dissected:
  assumes "well_typed pool m" "m_type m = t" and "dict_get (d_decoders d) t = None"
    and "fd \<in> set (p_fields pool t)" "fd_shape fd = Single (Message t)" "fd_oneof fd = None"
  shows "\<exists>e. decode n pool d (PMsg m) = Inl e"
  using assms(1,2)
proof (induction n arbitrary: m)
  case (Suc n)
  have fd: "fd \<in> set (p_fields pool (m_type m))" using assms(4) Suc.prems(2) by simp
  from well_typed_field(1)[OF Suc.prems(1) fd] assms(5) obtain x where x: "get_field pool fd m = FOne x"
    by (auto simp: of_shape_def split: field.splits)
  then have "(Message t, x) \<in> field_vals (fd_shape fd) (get_field pool fd m)" by (simp add: field_vals_def assms(5))
  from well_typed_field(2)[OF Suc.prems(1) fd this] obtain m' where m': "x = VMsg m'" "m_type m' = t" "well_typed pool m'" by blast
  let ?f = "\<lambda>fd. if is_field_present pool m fd
    then dissect_field (field_decoder pool d (decode n pool d)) (fd_shape fd) (get_field pool fd m) else Inr PNone"
  obtain e where "decode n pool d (PMsg m') = Inl e" using Suc.IH[OF m'(3,2)] by blast
  then have fails: "?f fd = Inl e"
    by (simp add: is_field_present_def assms(5,6) dissect_field_def x field_decoder_def native_val_def m'(1))
  have "map_result ?f (p_fields pool (m_type m)) \<noteq> Inr ys" for ys
  proof
    assume ys: "map_result ?f (p_fields pool (m_type m)) = Inr ys"
    from fd obtain i where i: "i < length (p_fields pool (m_type m))" "p_fields pool (m_type m) ! i = fd" by (auto simp: in_set_conv_nth)
    from map_result_Inr_nth[OF ys i(1), unfolded i(2)] have "Inl e = Inr (ys ! i)" by (rule trans[OF fails[symmetric]])
    then show False by simp
  qed
  then obtain e' where "map_result ?f (p_fields pool (m_type m)) = Inl e'" by (cases "map_result ?f (p_fields pool (m_type m))") auto
  then show ?case using assms(3) Suc.prems(2) by (simp add: dissect_message_def)
qed simp

subsection \<open>An address book\<close>

definition contact_fields :: "string \<Rightarrow> field_desc list" where
  "contact_fields t =
     (if t = ''Contact'' then
        [\<lparr>fd_name = ''name'', fd_shape = Single (Scalar 9), fd_oneof = None\<rparr>,
         \<lparr>fd_name = ''group'', fd_shape = Single (Enumeration ''Group''), fd_oneof = None\<rparr>,
         \<lparr>fd_name = ''mail'', fd_shape = Single (Scalar 9), fd_oneof = Some ''address''\<rparr>,
         \<lparr>fd_name = ''phone'', fd_shape = Single (Message ''Phone''), fd_oneof = Some ''address''\<rparr>,
         \<lparr>fd_name = ''others'', fd_shape = Repeated (Message ''Phone''), fd_oneof = None\<rparr>,
         \<lparr>fd_name = ''labels'', fd_shape = MapOf (Scalar 9) (Scalar 9), fd_oneof = None\<rparr>]
      else if t = ''Phone'' then [\<lparr>fd_name = ''number'', fd_shape = Single (Scalar 5), fd_oneof = None\<rparr>]
      else if t = ''Node'' then [\<lparr>fd_name = ''next'', fd_shape = Single (Message ''Node''), fd_oneof = None\<rparr>]
      else [])"

definition contact_accept :: "kind \<Rightarrow> unit py \<Rightarrow> unit atom result" where
  "contact_accept k v =
     (case v of
        PAtom (AStr s) \<Rightarrow> if k = Scalar 9 then Inr (AStr s) else Inl TypeError
      | PAtom (AInt n) \<Rightarrow> if k = Scalar 9 then Inl TypeError else Inr (AInt n)
      | _ \<Rightarrow> Inl TypeError)"

definition contact_pool :: "unit pool" where
  "contact_pool = \<lparr>p_fields = contact_fields, p_enum = (\<lambda>_. [(''GROUP_NONE'', 0), (''GROUP_WORK'', 1)]),
     p_accept = contact_accept, p_default = (\<lambda>k. if k = Scalar 9 then AStr [] else AInt 0), p_attr = (\<lambda>_ _. None)\<rparr>"

definition plain_builder :: "unit builder" where
  "plain_builder = \<lparr>b_encoders = [], b_enum_encoders = []\<rparr>"

definition plain_dissecter :: "unit dissecter" where
  "plain_dissecter = \<lparr>d_decoders = [], d_enum_decoders = []\<rparr>"

definition phone :: "int \<Rightarrow> unit py" where
  "phone n = PObj [(''number'', PAtom (AInt n))]"

definition contact :: "unit py" where
  "contact = PObj [(''name'', PAtom (AStr ''Ada'')), (''group'', PAtom (AInt 1)), (''mail'', PNone), (''phone'', phone 7),
     (''others'', PList [phone 8, phone 9]), (''labels'', PDict [(PAtom (AStr ''a''), PAtom (AStr ''b''))])]"

theorem built_is_dissected_witness:
  "\<exists>m. encode_message 3 contact_pool plain_builder ''Contact'' contact = Inr (PMsg m)
    \<and> decode 3 contact_pool plain_dissecter (PMsg m) = Inr contact"
proof -
  have "native 3 contact_pool plain_builder plain_dissecter ''Contact'' contact" by code_simp
  from built_is_dissected[OF this] show ?thesis by blast
qed

lemma phone_typed: "well_typed contact_pool (Msg ''Phone'' [])"
  by (rule well_typed.intros) (simp_all add: contact_pool_def contact_fields_def get_field_def field_vals_def of_shape_def)

lemma contact_typed: "well_typed contact_pool (Msg ''Contact'' [])"
  by (rule well_typed.intros)
    (use phone_typed in \<open>simp_all add: contact_pool_def contact_fields_def get_field_def field_vals_def of_shape_def\<close>)

definition address_book :: "unit dissecter" where
  "address_book = \<lparr>d_decoders = [(''Node'', \<lambda>_. Inr PNone)], d_enum_decoders = []\<rparr>"

theorem dissecting_ends_witness:
  "decode 1000 contact_pool address_book (PMsg (Msg ''Contact'' [])) = decode 2 contact_pool address_book (PMsg (Msg ''Contact'' []))"
proof -
  have "ranked contact_pool address_book (\<lambda>t. if t = ''Contact'' then 1 else 0)"
    by (auto simp: ranked_def part_types_def contact_pool_def contact_fields_def address_book_def split: if_splits)
  from dissecting_ends[OF this contact_typed, of 2 1000] show ?thesis by simp
qed

theorem recursive_type_not_dissected_witness:
  "\<exists>e. decode 900 contact_pool plain_dissecter (PMsg (Msg ''Node'' [])) = Inl e"
proof -
  have "well_typed contact_pool (Msg ''Node'' [])"
    by (coinduction rule: well_typed.coinduct)
      (simp add: contact_pool_def contact_fields_def get_field_def field_vals_def of_shape_def)
  from recursive_type_not_dissected[OF this, of "''Node''" plain_dissecter
      "\<lparr>fd_name = ''next'', fd_shape = Single (Message ''Node''), fd_oneof = None\<rparr>" 900]
  show ?thesis by (simp add: contact_pool_def contact_fields_def plain_dissecter_def)
qed

end
