(* ===== verification/Builder_Names.thy ===== *)
theory Builder_Names
  imports Builder
begin

section \<open>Names of enumerations, stripped and found again\<close>

text \<open>
  \<open>native_enum_from_proto\<close> and the dissecter strip the words that all symbols of an
  enumeration share; \<open>encode_enum_name\<close> of the builder puts them back. The two are computed by
  different functions, \<open>common_prefix\<close> and \<open>largest_common_base\<close>.
\<close>

lemma agree_append: "agree (qs @ xs) (qs @ ys) = qs @ agree xs ys"
  by (induction qs) (simp_all add: agree_def)

lemma agree_prefix: "is_prefix qs xs \<Longrightarrow> is_prefix qs ys \<Longrightarrow> is_prefix qs (agree xs ys)"
  by (auto simp: is_prefix_append agree_append)

lemma foldl_agree_prefix:
  "is_prefix qs xs \<Longrightarrow> (\<And>ys. ys \<in> set yss \<Longrightarrow> is_prefix qs ys) \<Longrightarrow> is_prefix qs (foldl agree xs yss)"
  by (induction yss arbitrary: xs) (auto intro: agree_prefix)

lemma mismatches_common:
  "mismatches i (ps @ xs) (ps @ ys) = mismatches (i + length ps) xs ys"
  by (induction ps arbitrary: i) auto

lemma mismatches_bound: "j \<in> set (mismatches i xs ys) \<Longrightarrow> i \<le> j"
  by (induction i xs ys rule: mismatches.induct) (auto split: if_splits dest: Suc_leD)

text \<open>The words that \<open>largest_common_base\<close> keeps of such symbols.\<close>

lemma largest_common_base_prefixed:
  assumes "symbols \<noteq> []" "prefixed_by CHR ''_'' ps symbols"
  shows "largest_common_base symbols = concat (map (\<lambda>word. word @ ''_'') ps)"
proof -
  let ?d = "split_on CHR ''_''"
  obtain s rest where sym: "symbols = s # rest" using assms(1) by (cases symbols) auto
  have folded: "foldl agree (?d s) (map ?d rest) = ps" and each: "\<forall>x \<in> set symbols. is_prefix ps (?d x) \<and> length ps < length (?d x)"
    using assms(2) by (auto simp: prefixed_by_def sym)
  have split: "\<exists>w ws. ?d x = ps @ w # ws" if "x \<in> set symbols" for x
    using each that by (auto simp: is_prefix_append) (metis append_Nil2 less_irrefl list.exhaust)
  then obtain w ws where w: "?d s = ps @ w # ws" using sym by fastforce
  have at: "mismatches 0 (?d s) (?d x) = (case ?d x of ys \<Rightarrow> mismatches (length ps) (w # ws) (drop (length ps) ys))" if "x \<in> set rest" for x
    using split[of x] that sym by (auto simp: w mismatches_common[where i = 0, simplified])
  have "\<exists>x \<in> set rest. length ps \<in> set (mismatches 0 (?d s) (?d x))"
  proof (rule ccontr)
    assume no: "\<not> (\<exists>x \<in> set rest. length ps \<in> set (mismatches 0 (?d s) (?d x)))"
    have "is_prefix (ps @ [w]) (?d x)" if x: "x \<in> set rest" for x
    proof -
      obtain v vs where v: "?d x = ps @ v # vs" using split[of x] x sym by auto
      with no x at[OF x] have "v = w" by (auto split: if_splits)
      with v show ?thesis by (simp add: is_prefix_append)
    qed
    then have "is_prefix (ps @ [w]) (foldl agree (?d s) (map ?d rest))"
      by (intro foldl_agree_prefix) (auto simp: w is_prefix_append)
    then show False by (simp add: folded is_prefix_append)
  qed
  moreover have "length ps \<le> j" if "x \<in> set rest" "j \<in> set (mismatches 0 (?d s) (?d x))" for x j
    using that at[OF that(1)] mismatches_bound by auto
  ultimately have "Min (set (length (?d s) # concat (map (mismatches 0 (?d s)) (map ?d rest)))) = length ps"
    by (intro Min_eqI) (auto simp: w)
  then show ?thesis by (simp add: largest_common_base_def sym Let_def w)
qed

lemma concat_words: "concat (map (\<lambda>word. word @ ''_'') ps) = (if ps = [] then [] else join_with ''_'' ps @ ''_'')"
proof (induction ps)
  case (Cons p ps)
  then show ?case by (cases ps) auto
qed simp

text \<open>
  The names of a native enumeration are understood by the builder: when the symbols of
  a protobuf enumeration share their leading words and nothing after them, the builder
  encodes every symbol as its number, and so it does the name that is left when the shared
  words are stripped, unless that name is another symbol in full.
\<close>

theorem native_names_encoded:
  assumes "prefixed_by CHR ''_'' ps (map fst symbols)" and "distinct (map fst symbols)" and "(name, n) \<in> set symbols"
  shows "encode_enum_name symbols name = Inr n
    \<and> (let short = drop (fst (common_prefix (map fst symbols) CHR ''_'')) name in
       short \<notin> fst ` set symbols \<longrightarrow> encode_enum_name symbols short = Inr n)"
proof -
  have ne: "map fst symbols \<noteq> []" and mem: "name \<in> set (map fst symbols)" using assms(3) by force+
  have get: "dict_get symbols name = Some n" using assms(2,3) by simp
  let ?size = "fst (common_prefix (map fst symbols) CHR ''_'')"
  have "largest_common_base (map fst symbols) = take ?size name"
    using largest_common_base_prefixed[OF ne assms(1)] prefixed_symbol[OF ne assms(1) mem] by (simp add: concat_words)
  then have "largest_common_base (map fst symbols) @ drop ?size name = name" by simp
  with get show ?thesis by (simp add: encode_enum_name_def Let_def map_of_eq_None_iff[THEN iffD2])
qed

theorem native_names_encoded_witness:
  "encode_enum_name [(''GROUP_NONE'', 0), (''GROUP_WORK'', 1)] ''WORK'' = Inr 1"
proof -
  have "prefixed_by CHR ''_'' [''GROUP''] (map fst [(''GROUP_NONE'', 0), (''GROUP_WORK'', 1 :: int)])" by code_simp
  moreover have "drop (fst (common_prefix (map fst [(''GROUP_NONE'', 0), (''GROUP_WORK'', 1 :: int)]) CHR ''_'')) ''GROUP_WORK'' = ''WORK''"
    by code_simp
  ultimately show ?thesis
    using native_names_encoded[of "[''GROUP'']" "[(''GROUP_NONE'', 0), (''GROUP_WORK'', 1)]" "''GROUP_WORK''" 1] by (simp add: Let_def)
qed

text \<open>A symbol that has fewer words than the first is no limit to what is taken as common.\<close>

lemma largest_common_base_overreach: "largest_common_base [''MODE_FAST_X'', ''MODE_FAST''] = ''MODE_FAST_X_''"
  by code_simp

end
