(* ===== verification/Submitter.thy ===== *)
theory Submitter
  imports Complex_Main Paths Round_Robin "HOL-Library.Sublist"
begin

section \<open>Submitting log messages (\<open>protobuf/status/status.py\<close>, \<open>multilogger/python/base\<close>, \<open>multilogger/python/zmq/writer.py\<close>)\<close>

text \<open>
  \<open>Submitter\<close> makes a message of what is logged, \<open>ThreadedSubmitter\<close> puts it into a bounded
  queue, and a worker thread of \<open>Writer\<close> takes it out and publishes it.
\<close>

subsection \<open>Log levels\<close>

text \<open>The members of the generated enumeration; their numbers are a parameter.\<close>

datatype level = LNone | Trace | Debug | Info | Notice | Warning | Error | Critical | Fatal

text \<open>
  The levels of \<open>logging\<close> are multiples of ten. The key of the last entry is a sum, and so a
  number ten above that of \<open>Level.FATAL\<close>; \<open>logging.FATAL\<close> is \<open>logging.CRITICAL\<close>.
\<close>

definition level_map :: "(level \<Rightarrow> int) \<Rightarrow> (int, int) dict" where
  "level_map num =
     fold (\<lambda>(k, v). dict_set k v)
       [(num LNone, 0), (num Trace, 5), (num Debug, 10), (num Info, 20), (num Notice, 25), (num Warning, 30),
        (num Error, 40), (num Critical, 50), (num Fatal + 10, 50)] []"

definition decodeLogLevel :: "(level \<Rightarrow> int) \<Rightarrow> int \<Rightarrow> int" where
  "decodeLogLevel num status_level = dict_get_default (level_map num) status_level 0"

text \<open>The argument is a level of \<open>logging\<close>, or a member of \<open>Level\<close> already.\<close>

definition encodeLogLevel :: "(level \<Rightarrow> int) \<Rightarrow> level + int \<Rightarrow> int" where
  "encodeLogLevel num log_level =
     (case log_level of
        Inl l \<Rightarrow> num l
      | Inr n \<Rightarrow> fold (\<lambda>(candidate, bound) current. if bound \<le> n \<and> current < candidate then candidate else current)
                   (level_map num) (num LNone))"

subsection \<open>Messages\<close>

text \<open>
  \<open>pathbases\<close> holds the root of the package as a path; what \<open>add_path_base\<close> appends is a string,
  which is not equal to any path.
\<close>

datatype path_base = PathBase fpath | StrBase string

record submitter_base =
  sb_identity :: string
  sb_bases :: "path_base list"
  sb_capture :: bool

definition new_submitter_base :: "env \<Rightarrow> string option \<Rightarrow> bool \<Rightarrow> submitter_base" where
  "new_submitter_base e identity capture =
     \<lparr>sb_identity = (case identity of Some (c # cs) \<Rightarrow> c # cs | _ \<Rightarrow> program_name e),
      sb_bases = [PathBase (python_root e)], sb_capture = capture\<rparr>"

definition add_path_base :: "string \<Rightarrow> submitter_base \<Rightarrow> submitter_base" where
  "add_path_base path s = s\<lparr>sb_bases := sb_bases s @ [StrBase path]\<rparr>"

text \<open>\<open>pathlib.Path(p).parents\<close> are the proper prefixes of its parts.\<close>

definition path_parents :: "fpath \<Rightarrow> fpath list" where
  "path_parents p = map (\<lambda>n. FPath (is_absolute p) (take n (path_parts p))) (rev [0..<length (path_parts p)])"

definition in_parents :: "path_base \<Rightarrow> fpath \<Rightarrow> bool" where
  "in_parents b p = (case b of PathBase q \<Rightarrow> q \<in> set (path_parents p) | StrBase _ \<Rightarrow> False)"

text \<open>\<open>os.path.relpath\<close> below a parent drops the parts of the parent.\<close>

definition path_text :: "fpath \<Rightarrow> string" where
  "path_text p = (if is_absolute p then ''/'' else []) @ join_with ''/'' (path_parts p)"

definition relative_source :: "path_base list \<Rightarrow> string \<Rightarrow> string" where
  "relative_source bases source_path =
     (if source_path = [] then []
      else let p = parse_path source_path in
        case find (\<lambda>b. in_parents b p) bases of
          Some (PathBase q) \<Rightarrow> path_text (FPath False (drop (length (path_parts q)) (path_parts p)))
        | _ \<Rightarrow> source_path)"

text \<open>
  What is passed on unchanged: the texts and numbers that describe the place of the call.
\<close>

record log_place =
  lp_scope :: "string option"
  lp_thread_id :: "int option"
  lp_thread_name :: "string option"
  lp_task_name :: "string option"
  lp_line :: "int option"
  lp_function :: "string option"

record 'a log_message =
  lm_text :: "string option"
  lm_time :: rat
  lm_level :: int
  lm_host :: string
  lm_application :: string
  lm_place :: log_place
  lm_source :: "string option"
  lm_attributes :: "(string, 'a) dict"

record 'a log_data =
  ld_contract :: string
  ld_time :: rat
  ld_attributes :: "(string, 'a) dict"

definition given_or :: "'a \<Rightarrow> ('a \<Rightarrow> bool) \<Rightarrow> 'a option \<Rightarrow> 'a" where
  "given_or d truthy x = (case x of Some v \<Rightarrow> if truthy v then v else d | None \<Rightarrow> d)"

definition merged_attributes :: "(string, 'a) dict option \<Rightarrow> (string, 'a) dict \<Rightarrow> (string, 'a) dict" where
  "merged_attributes attributes kwargs =
     (case attributes of Some (a # as) \<Rightarrow> fold (\<lambda>(k, v). dict_set k v) kwargs (a # as) | _ \<Rightarrow> kwargs)"

text \<open>
  The clock and the name of the host are those of the moment. An argument that is false
  counts as missing. Times and attributes are then encoded by \<open>encodeTimestamp\<close> and
  \<open>encodeKeyValueMap\<close>.
\<close>

definition create_message ::
    "(level \<Rightarrow> int) \<Rightarrow> rat \<Rightarrow> string \<Rightarrow> submitter_base \<Rightarrow> string option \<Rightarrow> rat option \<Rightarrow> level + int \<Rightarrow> string option \<Rightarrow>
     string option \<Rightarrow> log_place \<Rightarrow> string option \<Rightarrow> (string, 'a) dict option \<Rightarrow> (string, 'a) dict \<Rightarrow> 'a log_message" where
  "create_message num now hostname s txt timestamp level host application place source_path attributes kwargs =
     \<lparr>lm_text = txt,
      lm_time = given_or now (\<lambda>t. t \<noteq> 0) timestamp,
      lm_level = encodeLogLevel num level,
      lm_host = given_or hostname (\<lambda>h. h \<noteq> []) host,
      lm_application = given_or (sb_identity s) (\<lambda>a. a \<noteq> []) application,
      lm_place = place,
      lm_source = map_option (relative_source (sb_bases s)) source_path,
      lm_attributes = merged_attributes attributes kwargs\<rparr>"

definition create_data :: "rat \<Rightarrow> string \<Rightarrow> (string, 'a) dict option \<Rightarrow> rat option \<Rightarrow> (string, 'a) dict \<Rightarrow> 'a log_data" where
  "create_data now contract attributes timestamp kwargs =
     \<lparr>ld_contract = contract, ld_time = given_or now (\<lambda>t. t \<noteq> 0) timestamp, ld_attributes = merged_attributes attributes kwargs\<rparr>"

text \<open>What the logging handler makes of a record, and what the methods make of a call.\<close>

definition captured_message ::
    "(level \<Rightarrow> int) \<Rightarrow> rat \<Rightarrow> string \<Rightarrow> submitter_base \<Rightarrow> string \<Rightarrow> rat \<Rightarrow> int \<Rightarrow> log_place \<Rightarrow> string \<Rightarrow> 'a log_message" where
  "captured_message num now hostname s txt created levelno place pathname =
     create_message num now hostname s (Some txt) (Some created) (Inr levelno) None None place (Some pathname) None []"

definition logged_message ::
    "(level \<Rightarrow> int) \<Rightarrow> rat \<Rightarrow> string \<Rightarrow> submitter_base \<Rightarrow> level + int \<Rightarrow> string \<Rightarrow> string \<Rightarrow> int \<Rightarrow> string \<Rightarrow> int \<Rightarrow>
     (string, 'a) dict \<Rightarrow> 'a log_message" where
  "logged_message num now hostname s level txt filename lineno function_name native_id kwargs =
     create_message num now hostname s (Some txt) None level None None
       \<lparr>lp_scope = None, lp_thread_id = Some native_id, lp_thread_name = None, lp_task_name = None,
        lp_line = Some lineno, lp_function = Some function_name\<rparr> (Some filename) None kwargs"

subsection \<open>The queue and its workers\<close>

text \<open>
  A worker is before the outer loop, in the inner loop of a queue, holding an item that it
  got from a queue, or gone. \<open>None\<close> in a queue is what closing puts there. \<open>su_pending\<close> are
  the queues that a call of \<open>close_writer\<close> waits to put it into; \<open>su_lost\<close> counts what was
  discarded from a full queue, \<open>su_failed\<close> what could not be written.
\<close>

datatype 'm worker = AtTop | Reading nat | Holding nat 'm | Gone

record 'm submitter =
  su_size :: int
  su_queues :: "'m option py_queue list"
  su_queue :: "nat option"
  su_thread :: "nat option"
  su_workers :: "'m worker list"
  su_pending :: "nat list"
  su_written :: "(nat \<times> 'm) list"
  su_lost :: nat
  su_failed :: nat

definition new_submitter :: "int \<Rightarrow> 'm submitter" where
  "new_submitter queue_size =
     \<lparr>su_size = queue_size, su_queues = [], su_queue = None, su_thread = None, su_workers = [], su_pending = [],
      su_written = [], su_lost = 0, su_failed = 0\<rparr>"

definition is_writer_open :: "'m submitter \<Rightarrow> bool" where
  "is_writer_open y = (case su_thread y of None \<Rightarrow> False | Some t \<Rightarrow> su_workers y ! t \<noteq> Gone)"

definition open_writer :: "'m submitter \<Rightarrow> 'm submitter" where
  "open_writer y =
     (if is_writer_open y then y
      else y\<lparr>su_queues := su_queues y @ [\<lparr>q_items = [], q_maxsize = su_size y\<rparr>], su_queue := Some (length (su_queues y)),
             su_thread := Some (length (su_workers y)), su_workers := su_workers y @ [AtTop]\<rparr>)"

text \<open>Closing clears the attributes first; \<open>put\<close> then waits until the queue has room.\<close>

definition close_writer :: "'m submitter \<Rightarrow> 'm submitter" where
  "close_writer y =
     y\<lparr>su_queue := None, su_thread := None,
       su_pending := su_pending y @ (case su_queue y of None \<Rightarrow> [] | Some q \<Rightarrow> [q])\<rparr>"

definition put_sentinel :: "nat \<Rightarrow> 'm submitter \<Rightarrow> 'm submitter option" where
  "put_sentinel q y =
     (if q \<notin> set (su_pending y) then None
      else case q_put_nowait (su_queues y ! q) None of
        None \<Rightarrow> None
      | Some queue \<Rightarrow> Some (y\<lparr>su_queues := (su_queues y)[q := queue], su_pending := remove1 q (su_pending y)\<rparr>))"

text \<open>A message that is submitted while the writer is closed is dropped.\<close>

definition submit :: "'m \<Rightarrow> 'm submitter \<Rightarrow> 'm submitter option" where
  "submit m y =
     (case su_queue y of
        None \<Rightarrow> Some y
      | Some q \<Rightarrow> (case queue_put_roundrobin (su_queues y ! q) (Some m) of
          None \<Rightarrow> None
        | Some queue \<Rightarrow> Some (y\<lparr>su_queues := (su_queues y)[q := queue],
            su_lost := su_lost y + (length (q_items (su_queues y ! q)) + 1 - length (q_items queue))\<rparr>)))"

definition worker_at :: "nat \<Rightarrow> 'm submitter \<Rightarrow> 'm worker" where
  "worker_at i y = (if i < length (su_workers y) then su_workers y ! i else Gone)"

definition set_worker :: "nat \<Rightarrow> 'm worker \<Rightarrow> 'm submitter \<Rightarrow> 'm submitter" where
  "set_worker i w y = y\<lparr>su_workers := (su_workers y)[i := w]\<rparr>"

text \<open>The steps of \<open>stream_worker\<close>: the condition of the outer loop, \<open>get\<close>, and \<open>write_proto\<close>.\<close>

definition worker_top :: "nat \<Rightarrow> 'm submitter \<Rightarrow> 'm submitter option" where
  "worker_top i y =
     (case worker_at i y of
        AtTop \<Rightarrow> Some (set_worker i (case su_queue y of None \<Rightarrow> Gone | Some q \<Rightarrow> Reading q) y)
      | _ \<Rightarrow> None)"

definition worker_get :: "nat \<Rightarrow> 'm submitter \<Rightarrow> 'm submitter option" where
  "worker_get i y =
     (case worker_at i y of
        Reading q \<Rightarrow> (case q_get_nowait (su_queues y ! q) of
            None \<Rightarrow> None
          | Some (item, queue) \<Rightarrow> Some (set_worker i (case item of None \<Rightarrow> AtTop | Some m \<Rightarrow> Holding q m)
              (y\<lparr>su_queues := (su_queues y)[q := queue]\<rparr>)))
      | _ \<Rightarrow> None)"

text \<open>
  If writing raises, the item is lost. While the writer is open the handler logs the failure
  with \<open>self.host\<close>, which \<open>Writer\<close> does not define: unless a subclass does, the thread ends
  with the exception.
\<close>

definition worker_write :: "bool \<Rightarrow> bool \<Rightarrow> nat \<Rightarrow> 'm submitter \<Rightarrow> 'm submitter option" where
  "worker_write has_host ok i y =
     (case worker_at i y of
        Holding q m \<Rightarrow>
          Some (if ok then set_worker i (Reading q) (y\<lparr>su_written := su_written y @ [(i, m)]\<rparr>)
                else set_worker i (if su_queue y \<noteq> None \<and> \<not> has_host then Gone else AtTop) (y\<lparr>su_failed := su_failed y + 1\<rparr>))
      | _ \<Rightarrow> None)"

datatype 'm submit_event = OpenWriter | CloseWriter | Sentinel nat | Submit 'm | Top nat | Get nat | Written bool nat

fun submit_step :: "bool \<Rightarrow> 'm submit_event \<Rightarrow> 'm submitter \<Rightarrow> 'm submitter option" where
  "submit_step has_host OpenWriter y = Some (open_writer y)"
| "submit_step has_host CloseWriter y = Some (close_writer y)"
| "submit_step has_host (Sentinel q) y = put_sentinel q y"
| "submit_step has_host (Submit m) y = submit m y"
| "submit_step has_host (Top i) y = worker_top i y"
| "submit_step has_host (Get i) y = worker_get i y"
| "submit_step has_host (Written ok i) y = worker_write has_host ok i y"

fun submit_run :: "bool \<Rightarrow> 'm submit_event list \<Rightarrow> 'm submitter \<Rightarrow> 'm submitter option" where
  "submit_run has_host [] y = Some y"
| "submit_run has_host (e # es) y = (case submit_step has_host e y of None \<Rightarrow> None | Some y' \<Rightarrow> submit_run has_host es y')"

end
