(* ===== verification/Submitter_Props.thy ===== *)
theory Submitter_Props
  imports Submitter
begin

section \<open>What reaches the log server\<close>

subsection \<open>Levels\<close>

definition ordered_levels :: "(level \<Rightarrow> int) \<Rightarrow> bool" where
  "ordered_levels num \<longleftrightarrow> num LNone < num Trace \<and> num Trace < num Debug \<and> num Debug < num Info \<and> num Info < num Notice
     \<and> num Notice < num Warning \<and> num Warning < num Error \<and> num Error < num Critical \<and> num Critical < num Fatal"

lemma level_map_ordered:
  "ordered_levels num \<Longrightarrow> level_map num =
     [(num LNone, 0), (num Trace, 5), (num Debug, 10), (num Info, 20), (num Notice, 25), (num Warning, 30),
      (num Error, 40), (num Critical, 50), (num Fatal + 10, 50)]"
  by (simp add: level_map_def ordered_levels_def)

lemma decode_level:
  assumes "ordered_levels num"
  shows "decodeLogLevel num (num l) = (case l of LNone \<Rightarrow> 0 | Trace \<Rightarrow> 5 | Debug \<Rightarrow> 10 | Info \<Rightarrow> 20 | Notice \<Rightarrow> 25
      | Warning \<Rightarrow> 30 | Error \<Rightarrow> 40 | Critical \<Rightarrow> 50 | Fatal \<Rightarrow> 0)"
  using assms unfolding ordered_levels_def
  by (cases l) (simp_all add: decodeLogLevel_def dict_get_default_def level_map_ordered[OF assms])

lemma encode_level:
  assumes "ordered_levels num"
  shows "encodeLogLevel num (Inr n) = (if n < 5 then num LNone else if n < 10 then num Trace else if n < 20 then num Debug
      else if n < 25 then num Info else if n < 30 then num Notice else if n < 40 then num Warning else if n < 50 then num Error
      else num Fatal + 10)"
  using assms unfolding ordered_levels_def by (simp add: encodeLogLevel_def level_map_ordered[OF assms])

text \<open>
  Below the critical levels the two conversions of levels are adjoint, if the members of
  the enumeration are numbered in their order: a member is at most what a level of \<open>logging\<close>
  is encoded as just when it is decoded to at most that level, and encoding undoes decoding.
  Every critical record is given a number that is no member, ten above \<open>FATAL\<close>, and \<open>FATAL\<close>
  itself is decoded as no level at all.
\<close>

theorem levels_converted:
  assumes "ordered_levels num"
  shows "(l \<notin> {Critical, Fatal} \<longrightarrow> encodeLogLevel num (Inr (decodeLogLevel num (num l))) = num l
      \<and> (\<forall>n. 0 \<le> n \<and> n < 50 \<longrightarrow> (decodeLogLevel num (num l) \<le> n \<longleftrightarrow> num l \<le> encodeLogLevel num (Inr n))))
    \<and> (\<forall>n \<ge> 50. encodeLogLevel num (Inr n) = num Fatal + 10 \<and> num l \<noteq> num Fatal + 10)
    \<and> decodeLogLevel num (num Fatal) = 0"
proof -
  note conv = decode_level[OF assms] encode_level[OF assms]
  have o: "num LNone < num Trace" "num Trace < num Debug" "num Debug < num Info" "num Info < num Notice"
    "num Notice < num Warning" "num Warning < num Error" "num Error < num Critical" "num Critical < num Fatal"
    using assms by (simp_all add: ordered_levels_def)
  have "decodeLogLevel num (num l) \<le> n \<longleftrightarrow> num l \<le> encodeLogLevel num (Inr n)" if "l \<notin> {Critical, Fatal}" "0 \<le> n" "n < 50" for n
    using that o by (cases l) (simp_all add: conv)
  moreover have "encodeLogLevel num (Inr (decodeLogLevel num (num l))) = num l" if "l \<notin> {Critical, Fatal}"
    using that by (cases l) (simp_all add: conv)
  moreover have "num l < num Fatal + 10" using o by (cases l) simp_all
  ultimately show ?thesis by (simp add: conv)
qed

definition demo_level :: "level \<Rightarrow> int" where
  "demo_level l = (case l of LNone \<Rightarrow> 0 | Trace \<Rightarrow> 1 | Debug \<Rightarrow> 2 | Info \<Rightarrow> 3 | Notice \<Rightarrow> 4 | Warning \<Rightarrow> 5 | Error \<Rightarrow> 6 | Critical \<Rightarrow> 7 | Fatal \<Rightarrow> 8)"

theorem levels_converted_witness:
  "encodeLogLevel demo_level (Inr 50) = 18 \<and> decodeLogLevel demo_level (demo_level Fatal) = 0
    \<and> encodeLogLevel demo_level (Inr (decodeLogLevel demo_level (demo_level Notice))) = 4"
proof -
  have "ordered_levels demo_level" by code_simp
  from levels_converted[OF this, of Notice] show ?thesis by (simp add: demo_level_def)
qed

subsection \<open>While the writer is open\<close>

lemma queue_put:
  assumes "pyqueue.in_bounds q"
  shows "queue_put_roundrobin q x = Some (q\<lparr>q_items :=
    (if 0 < q_maxsize q \<and> int (length (q_items q)) = q_maxsize q then tl (q_items q) else q_items q) @ [x]\<rparr>)"
  using pyqueue.put_roundrobin_alone[OF assms, of x] unfolding queue_put_roundrobin_def by auto

definition in_hand :: "'m submitter \<Rightarrow> 'm list" where
  "in_hand y = (case su_workers y of [Holding q m] \<Rightarrow> [m] | _ \<Rightarrow> [])"

definition in_queue :: "'m submitter \<Rightarrow> 'm option list" where
  "in_queue y = q_items (su_queues y ! 0)"

definition submitted :: "'m submit_event list \<Rightarrow> 'm list" where
  "submitted es = concat (map (\<lambda>e. case e of Submit m \<Rightarrow> [m] | _ \<Rightarrow> []) es)"

definition steady :: "'m submit_event \<Rightarrow> bool" where
  "steady e \<longleftrightarrow> (case e of OpenWriter \<Rightarrow> False | CloseWriter \<Rightarrow> False | _ \<Rightarrow> True)"

definition flow :: "'m submitter \<Rightarrow> 'm option list" where
  "flow y = map (Some \<circ> snd) (su_written y) @ map Some (in_hand y) @ in_queue y"

definition flow_inv :: "'m list \<Rightarrow> 'm submitter \<Rightarrow> bool" where
  "flow_inv ms y \<longleftrightarrow> length (su_queues y) = 1 \<and> su_queue y = Some 0 \<and> su_pending y = []
     \<and> (\<exists>w. su_workers y = [w] \<and> (\<forall>q. w = Reading q \<longrightarrow> q = 0) \<and> (\<forall>q m. w = Holding q m \<longrightarrow> q = 0))
     \<and> pyqueue.in_bounds (su_queues y ! 0)
     \<and> subseq (flow y) (map Some ms) \<and> length ms = length (flow y) + su_lost y + su_failed y"

lemma subseq_none: "subseq xs (map Some ms) \<Longrightarrow> None \<notin> set xs"
proof
  assume "subseq xs (map Some ms)" "None \<in> set xs"
  then show False using list_emb_set[of "(=)" xs "map Some ms" None] by auto
qed

lemma subseq_skip: "subseq (xs @ y @ zs) us \<Longrightarrow> subseq (xs @ zs) us"
proof (erule subseq_order.trans[rotated])
  show "subseq (xs @ zs) (xs @ y @ zs)" by (subst subseq_append') (rule subseq_drop_many, simp)
qed

lemma in_hand_simps [simp]:
  "in_hand (y\<lparr>su_queues := qs\<rparr>) = in_hand y" "in_hand (y\<lparr>su_lost := n\<rparr>) = in_hand y"
  "in_hand (y\<lparr>su_queues := qs, su_lost := n\<rparr>) = in_hand y"
  by (simp_all add: in_hand_def)

lemma flow_invI:
  assumes "su_queues y = [q]" "su_queue y = Some 0" "su_pending y = []" "su_workers y = [w]"
    and "\<And>k. w = Reading k \<Longrightarrow> k = 0" "\<And>k m. w = Holding k m \<Longrightarrow> k = 0"
    and "pyqueue.in_bounds q" "subseq (flow y) (map Some ms)" "length ms = length (flow y) + su_lost y + su_failed y"
  shows "flow_inv ms y"
  using assms by (auto simp: flow_inv_def)

lemma flow_put:
  assumes "flow_inv ms y" "submit m y = Some y'"
  shows "flow_inv (ms @ [m]) y'"
proof -
  let ?q = "su_queues y ! 0" and ?pre = "map (Some \<circ> snd) (su_written y) @ map Some (in_hand y)"
  have inv: "length (su_queues y) = 1" "su_queue y = Some 0" "pyqueue.in_bounds ?q" "subseq (?pre @ q_items ?q) (map Some ms)"
    "length ms = length (?pre @ q_items ?q) + su_lost y + su_failed y"
    using assms(1) by (auto simp: flow_inv_def flow_def in_queue_def)
  let ?full = "0 < q_maxsize ?q \<and> int (length (q_items ?q)) = q_maxsize ?q"
  let ?items = "(if ?full then tl (q_items ?q) else q_items ?q) @ [Some m]"
  have y': "y' = y\<lparr>su_queues := [?q\<lparr>q_items := ?items\<rparr>],
      su_lost := su_lost y + (length (q_items ?q) + 1 - length ?items)\<rparr>"
    using assms(2) inv(1) queue_put[OF inv(3), of "Some m"]
    by (cases "su_queues y") (simp_all add: submit_def inv(2))
  have hand: "in_hand y' = in_hand y" by (simp add: y')
  have flow: "flow y' = ?pre @ ?items" by (simp add: flow_def hand in_queue_def y')
  have "subseq (?pre @ (if ?full then tl (q_items ?q) else q_items ?q)) (map Some ms)"
  proof (cases "?full")
    case True
    then obtain x xs where x: "q_items ?q = [x] @ xs" by (cases "q_items ?q") auto
    from inv(4)[unfolded x] have "subseq (?pre @ xs) (map Some ms)" using subseq_skip by blast
    with x show ?thesis using True by (simp only: list.sel append_Cons append_Nil if_True simp_thms)
  next
    case False
    then show ?thesis using inv(4) by (simp only: if_False)
  qed
  then have "subseq ((?pre @ (if ?full then tl (q_items ?q) else q_items ?q)) @ [Some m]) (map Some ms @ [Some m])"
    by (simp only: subseq_append)
  then have "subseq (flow y') (map Some (ms @ [m]))" by (simp only: flow append.assoc map_append list.map)
  moreover have "length (ms @ [m]) = length (flow y') + su_lost y' + su_failed y'"
  proof -
    have "su_lost y' = su_lost y + (length (q_items ?q) + 1 - length ?items)" "su_failed y' = su_failed y" by (simp_all add: y')
    with inv(5) show ?thesis by (auto simp: flow)
  qed
  moreover have "pyqueue.in_bounds (su_queues y' ! 0)" using inv(3) by (auto simp: y' pyqueue.in_bounds_def)
  ultimately show ?thesis using assms(1) by (simp add: flow_inv_def y')
qed

lemma flow_step:
  assumes "flow_inv ms y" "submit_step h e y = Some y'" "steady e"
  shows "flow_inv (ms @ submitted [e]) y'"
proof -
  obtain w where w: "su_workers y = [w]" "\<And>q. w = Reading q \<Longrightarrow> q = 0" "\<And>q m. w = Holding q m \<Longrightarrow> q = 0"
    using assms(1) by (auto simp: flow_inv_def)
  have inv: "length (su_queues y) = 1" "su_queue y = Some 0" "su_pending y = []" "pyqueue.in_bounds (su_queues y ! 0)"
    "subseq (flow y) (map Some ms)" "length ms = length (flow y) + su_lost y + su_failed y"
    using assms(1) by (auto simp: flow_inv_def)
  obtain queue where queue: "su_queues y = [queue]" using inv(1) by (cases "su_queues y") auto
  show ?thesis
  proof (cases e)
    case (Submit m)
    with assms flow_put show ?thesis by (simp add: submitted_def)
  next
    case (Top i)
    with assms(2) w inv show ?thesis
      by (auto simp: submitted_def worker_top_def worker_at_def set_worker_def flow_inv_def flow_def in_hand_def in_queue_def
          split: worker.splits if_splits)
  next
    case (Get i)
    then have i: "i = 0" "w = Reading 0" using assms(2) w by (auto simp: worker_get_def worker_at_def split: worker.splits if_splits)
    obtain x xs where x: "q_items queue = x # xs"
      using assms(2) Get i w(1) by (auto simp: worker_get_def worker_at_def queue q_get_nowait_def split: list.splits)
    have "flow y = map (Some \<circ> snd) (su_written y) @ x # xs" by (simp add: flow_def in_hand_def w(1) i in_queue_def queue x)
    then obtain m where m: "x = Some m" using subseq_none[OF inv(5)] by (cases x) auto
    with Get assms(2) i w(1) x queue have y': "y' = y\<lparr>su_queues := [queue\<lparr>q_items := xs\<rparr>], su_workers := [Holding 0 m]\<rparr>"
      by (simp add: worker_get_def worker_at_def q_get_nowait_def set_worker_def)
    have "flow y' = flow y" by (simp add: flow_def in_hand_def in_queue_def y' w(1) i queue x m)
    with inv Get show ?thesis by (auto simp: flow_inv_def y' submitted_def queue pyqueue.in_bounds_def x)
  next
    case (Written ok i)
    then obtain m where i: "i = 0" "w = Holding 0 m" using assms(2) w by (auto simp: worker_write_def worker_at_def split: worker.splits if_splits)
    have flow: "flow y = map (Some \<circ> snd) (su_written y) @ [Some m] @ q_items queue"
      by (simp add: flow_def in_hand_def in_queue_def w(1) i queue)
    show ?thesis
    proof (cases ok)
      case True
      with Written assms(2) i w(1) have y': "y' = y\<lparr>su_written := su_written y @ [(0, m)], su_workers := [Reading 0]\<rparr>"
        by (simp add: worker_write_def worker_at_def set_worker_def)
      have "flow y' = flow y" unfolding flow by (simp add: flow_def in_hand_def in_queue_def y' queue)
      with inv Written show ?thesis by (auto simp: flow_inv_def y' submitted_def queue)
    next
      case False
      define v :: "'a worker" where "v = (if su_queue y \<noteq> None \<and> \<not> h then Gone else AtTop)"
      have v: "v = Gone \<or> v = AtTop" by (simp add: v_def)
      have y': "y' = y\<lparr>su_failed := su_failed y + 1, su_workers := [v]\<rparr>"
        using False Written assms(2) i w(1) by (simp add: worker_write_def worker_at_def set_worker_def v_def)
      have f': "flow y' = map (Some \<circ> snd) (su_written y) @ q_items queue"
        using v by (auto simp: flow_def in_hand_def in_queue_def y' queue)
      have "subseq (flow y') (map Some ms)" using inv(5) unfolding flow f' by (rule subseq_skip)
      moreover have "length ms = length (flow y') + su_lost y' + su_failed y'"
        using inv(6) unfolding flow f' by (simp add: y')
      ultimately have "flow_inv ms y'"
        by (intro flow_invI[of _ queue v]) (use inv v in \<open>auto simp: y' queue\<close>)
      with Written show ?thesis by (simp add: submitted_def)
    qed
  qed (use assms inv in \<open>auto simp: steady_def put_sentinel_def\<close>)
qed

lemma flow_run:
  "flow_inv ms y \<Longrightarrow> submit_run h es y = Some y' \<Longrightarrow> list_all steady es \<Longrightarrow> flow_inv (ms @ submitted es) y'"
proof (induction es arbitrary: ms y)
  case (Cons e es)
  then obtain z where z: "submit_step h e y = Some z" "submit_run h es z = Some y'" by (auto split: option.splits)
  have "submitted (e # es) = submitted [e] @ submitted es" by (simp add: submitted_def)
  with Cons.IH[OF flow_step[OF Cons.prems(1) z(1)] z(2)] Cons.prems(3) show ?case by simp
qed (simp add: submitted_def)

lemma submitted_flow:
  assumes "submit_run h es (open_writer (new_submitter n)) = Some y" and "list_all steady es"
  shows "subseq (flow y) (map Some (submitted es)) \<and> length (submitted es) = length (flow y) + su_lost y + su_failed y
    \<and> (su_lost y = 0 \<and> su_failed y = 0 \<longrightarrow> flow y = map Some (submitted es))"
proof -
  have "flow_inv [] (open_writer (new_submitter n))"
    by (simp add: flow_inv_def open_writer_def new_submitter_def is_writer_open_def flow_def in_hand_def in_queue_def
        pyqueue.in_bounds_def)
  from flow_run[OF this assms] have "flow_inv (submitted es) y" by simp
  then show ?thesis by (auto simp: flow_inv_def intro: subseq_same_length)
qed

text \<open>
  C23. While the writer is open nothing is reordered or made up: what has been written, what
  the worker holds and what is queued is, in this order, what was submitted, less the messages
  that a full queue discarded and those whose writing failed; and if there were none of
  these, it is all of it.
\<close>

theorem submitted_in_order:
  assumes "submit_run h es (open_writer (new_submitter n)) = Some y" and "list_all steady es"
  shows "subseq (flow y) (map Some (submitted es)) \<and> length (submitted es) = length (flow y) + su_lost y + su_failed y
    \<and> (su_lost y = 0 \<and> su_failed y = 0 \<longrightarrow> flow y = map Some (submitted es))"
  using assms by (rule submitted_flow)

definition submit_demo :: "nat submit_event list" where
  "submit_demo = [Submit 1, Top 0, Submit 2, Get 0, Submit 3, Submit 4, Written True 0, Get 0]"

text \<open>With room for two, one of four messages is discarded.\<close>

theorem submitted_in_order_witness:
  "\<exists>y. submit_run False submit_demo (open_writer (new_submitter 2)) = Some y \<and> flow y = [Some 1, Some 3, Some 4]
    \<and> subseq (flow y) (map Some [1, 2, 3, 4]) \<and> su_lost y = 1"
proof -
  have "map_option (\<lambda>y. (flow y, su_lost y)) (submit_run False submit_demo (open_writer (new_submitter 2))) = Some ([Some 1, Some 3, Some 4], 1)"
    by code_simp
  then obtain y where y: "submit_run False submit_demo (open_writer (new_submitter 2)) = Some y"
    "flow y = [Some 1, Some 3, Some 4]" "su_lost y = 1" by auto
  have "list_all steady submit_demo" "submitted submit_demo = [1, 2, 3, 4]" by code_simp+
  with submitted_in_order[OF y(1)] y show ?thesis by metis
qed

subsection \<open>Closing\<close>

lemma submit_run_append:
  "submit_run h (es @ fs) y = (case submit_run h es y of None \<Rightarrow> None | Some y' \<Rightarrow> submit_run h fs y')"
  by (induction es arbitrary: y) (simp_all split: option.split)

definition taking :: "nat \<Rightarrow> nat \<Rightarrow> 'm list \<Rightarrow> 'm submit_event list" where
  "taking i q ms = concat (map (\<lambda>_. [Get i, Written True i]) ms)"

lemma taking_run:
  assumes "worker_at i y = Reading q" "q < length (su_queues y)" "q_items (su_queues y ! q) = map Some ms @ rest"
  shows "\<exists>y'. submit_run h (taking i q ms) y = Some y' \<and> su_written y' = su_written y @ map (Pair i) ms \<and> worker_at i y' = Reading q
    \<and> q_items (su_queues y' ! q) = rest \<and> length (su_queues y') = length (su_queues y) \<and> su_queue y' = su_queue y"
  using assms
proof (induction ms arbitrary: y)
  case (Cons m ms)
  have i: "i < length (su_workers y)" using Cons.prems(1) by (auto simp: worker_at_def split: if_splits)
  define z where "z = y\<lparr>su_queues := (su_queues y)[q := (su_queues y ! q)\<lparr>q_items := map Some ms @ rest\<rparr>],
    su_workers := (su_workers y)[i := Reading q], su_written := su_written y @ [(i, m)]\<rparr>"
  have step: "submit_run h [Get i, Written True i] y = Some z"
    using Cons.prems i by (simp add: worker_get_def worker_write_def q_get_nowait_def set_worker_def worker_at_def z_def)
  have "worker_at i z = Reading q" "q < length (su_queues z)" "q_items (su_queues z ! q) = map Some ms @ rest"
    using Cons.prems(2) i by (simp_all add: z_def worker_at_def)
  from Cons.IH[OF this] obtain y' where "submit_run h (taking i q ms) z = Some y'" "su_written y' = su_written z @ map (Pair i) ms"
    "worker_at i y' = Reading q" "q_items (su_queues y' ! q) = rest" "length (su_queues y') = length (su_queues z)" "su_queue y' = su_queue z"
    by blast
  moreover have "taking i q (m # ms) = [Get i, Written True i] @ taking i q ms" by (simp add: taking_def)
  then have "submit_run h (taking i q (m # ms)) y = submit_run h (taking i q ms) z"
    by (simp only: submit_run_append step option.case)
  ultimately show ?case by (simp add: z_def)
qed (simp add: taking_def)

text \<open>
  C24. Closing drains: when a writer is closed whose queue has room, the worker writes all
  that is queued, in order, and then ends, and the queue is empty.
\<close>

theorem closing_drains:
  assumes "su_queue y = Some q" "su_pending y = []" "q < length (su_queues y)" "worker_at i y = Reading q"
    and "q_items (su_queues y ! q) = map Some ms"
    and "\<not> (0 < q_maxsize (su_queues y ! q) \<and> q_maxsize (su_queues y ! q) \<le> int (length ms))"
  shows "\<exists>y'. submit_run h ([CloseWriter, Sentinel q] @ taking i q ms @ [Get i, Top i]) y = Some y'
    \<and> su_written y' = su_written y @ map (Pair i) ms \<and> worker_at i y' = Gone \<and> q_items (su_queues y' ! q) = []"
proof -
  define z where "z = y\<lparr>su_queue := None, su_thread := None, su_pending := [],
    su_queues := (su_queues y)[q := (su_queues y ! q)\<lparr>q_items := map Some ms @ [None]\<rparr>]\<rparr>"
  have start: "submit_run h [CloseWriter, Sentinel q] y = Some z"
    using assms by (simp add: close_writer_def put_sentinel_def q_put_nowait_def z_def)
  have "worker_at i z = Reading q" "q < length (su_queues z)" "q_items (su_queues z ! q) = map Some ms @ [None]"
    using assms(3,4) by (auto simp: z_def worker_at_def split: if_splits)
  from taking_run[OF this] obtain y1 where y1: "submit_run h (taking i q ms) z = Some y1" "su_written y1 = su_written y @ map (Pair i) ms"
    "worker_at i y1 = Reading q" "q_items (su_queues y1 ! q) = [None]" "length (su_queues y1) = length (su_queues y)" "su_queue y1 = None"
    by (auto simp: z_def)
  have i: "i < length (su_workers y1)" using y1(3) by (auto simp: worker_at_def split: if_splits)
  have "\<exists>y'. submit_run h [Get i, Top i] y1 = Some y' \<and> su_written y' = su_written y1 \<and> worker_at i y' = Gone \<and> q_items (su_queues y' ! q) = []"
    using y1(3-6) i assms(3) by (simp add: worker_get_def worker_top_def q_get_nowait_def set_worker_def worker_at_def)
  moreover have "submit_run h ([CloseWriter, Sentinel q] @ taking i q ms @ [Get i, Top i]) y = submit_run h [Get i, Top i] y1"
    by (simp only: submit_run_append start y1(1) option.case)
  ultimately show ?thesis using y1(2) by simp
qed

definition two_queued :: "nat submitter" where
  "two_queued = the (submit_run False [Top 0, Submit 5, Submit 6] (open_writer (new_submitter 9)))"

theorem closing_drains_witness:
  "\<exists>y. submit_run False [CloseWriter, Sentinel 0, Get 0, Written True 0, Get 0, Written True 0, Get 0, Top 0] two_queued = Some y
    \<and> su_written y = [(0, 5), (0, 6)] \<and> worker_at 0 y = Gone"
proof -
  have "su_queue two_queued = Some 0" "su_pending two_queued = []" "0 < length (su_queues two_queued)" "worker_at 0 two_queued = Reading 0"
    "q_items (su_queues two_queued ! 0) = map Some [5, 6]" "q_maxsize (su_queues two_queued ! 0) = 9" "su_written two_queued = []"
    by code_simp+
  from closing_drains[OF this(1-5), of False] this(6,7) show ?thesis by (simp add: taking_def) blast
qed

text \<open>A worker at an empty queue that nothing is put into any more.\<close>

definition stranded :: "nat \<Rightarrow> nat \<Rightarrow> 'm submitter \<Rightarrow> bool" where
  "stranded j q y \<longleftrightarrow> worker_at j y = Reading q \<and> q < length (su_queues y) \<and> q_items (su_queues y ! q) = []
     \<and> su_queue y \<noteq> Some q \<and> q \<notin> set (su_pending y)"

lemma worker_at_cong: "su_workers y' = su_workers y \<Longrightarrow> worker_at i y' = worker_at i y"
  by (simp add: worker_at_def)

lemma worker_at_queues [simp]: "worker_at i (y\<lparr>su_queues := qs\<rparr>) = worker_at i y" "worker_at i (y\<lparr>su_queues := qs, su_lost := n\<rparr>) = worker_at i y"
  by (simp_all add: worker_at_def)

lemma worker_at_set: "worker_at j (set_worker i w y) = (if i = j \<and> i < length (su_workers y) then w else worker_at j y)"
  by (auto simp: worker_at_def set_worker_def)

lemma stranded_step:
  assumes "stranded j q y" "submit_step h e y = Some y'"
  shows "stranded j q y'"
proof -
  have st: "worker_at j y = Reading q" "q < length (su_queues y)" "q_items (su_queues y ! q) = []" "su_queue y \<noteq> Some q" "q \<notin> set (su_pending y)"
    using assms(1) by (auto simp: stranded_def)
  have j: "j < length (su_workers y)" using st(1) by (auto simp: worker_at_def split: if_splits)
  show ?thesis
  proof (cases e)
    case OpenWriter
    with assms(2) st j show ?thesis
      by (cases "is_writer_open y") (auto simp: stranded_def open_writer_def worker_at_def nth_append)
  next
    case CloseWriter
    with assms(2) st j show ?thesis by (auto simp: stranded_def close_writer_def worker_at_def split: option.splits)
  next
    case (Sentinel k)
    then have "k \<noteq> q" using assms(2) st(5) by (auto simp: put_sentinel_def split: if_splits)
    with Sentinel assms(2) st show ?thesis
      by (auto simp: stranded_def put_sentinel_def worker_at_def nth_list_update dest: set_remove1_subset[THEN subsetD]
          split: option.splits if_splits)
  next
    case (Submit m)
    with assms(2) st j show ?thesis by (auto simp: stranded_def submit_def worker_at_def nth_list_update split: option.splits)
  next
    case (Top i)
    then have "i \<noteq> j" using assms(2) st(1) by (auto simp: worker_top_def)
    with Top assms(2) st show ?thesis
      by (auto simp: stranded_def worker_top_def worker_at_set split: worker.splits) (auto simp: set_worker_def)
  next
    case (Get i)
    then obtain k where k: "worker_at i y = Reading k" using assms(2) by (auto simp: worker_get_def split: worker.splits)
    with Get assms(2) obtain item queue where got: "q_get_nowait (su_queues y ! k) = Some (item, queue)"
      and y': "y' = set_worker i (case item of None \<Rightarrow> AtTop | Some m \<Rightarrow> Holding k m) (y\<lparr>su_queues := (su_queues y)[k := queue]\<rparr>)"
      by (auto simp: worker_get_def split: option.splits)
    have "k \<noteq> q" using got st(3) by (auto simp: q_get_nowait_def)
    then have "i \<noteq> j" using k st(1) by auto
    with st have "worker_at j y' = Reading q" by (simp add: y' worker_at_set)
    with st \<open>k \<noteq> q\<close> show ?thesis by (simp add: stranded_def y' set_worker_def)
  next
    case (Written ok i)
    then have "i \<noteq> j" using assms(2) st(1) by (auto simp: worker_write_def)
    with Written assms(2) st show ?thesis
      by (auto simp: stranded_def worker_write_def set_worker_def worker_at_def nth_list_update split: worker.splits if_splits)
  qed
qed

lemma stranded_run: "stranded j q y \<Longrightarrow> submit_run h es y = Some y' \<Longrightarrow> stranded j q y'"
  by (induction es arbitrary: y) (auto split: option.splits dest: stranded_step)

definition reopening :: "nat \<Rightarrow> nat \<Rightarrow> nat \<Rightarrow> nat \<Rightarrow> 'm \<Rightarrow> 'm \<Rightarrow> 'm submit_event list" where
  "reopening i j q q' m m' = [CloseWriter, Sentinel q, OpenWriter, Get i, Top i, Top j, Submit m, Submit m', Get i, Get j,
     Written True j, Written True i]"

text \<open>
  A writer that is closed and opened again before its worker has noticed gets a second
  worker on the new queue: two messages may then be written in the wrong order. When it is
  closed once more, one worker ends, and the other waits at the old queue for ever, whatever
  happens.
\<close>

theorem reopened_writer_races:
  assumes "su_queue y = Some q" "su_pending y = []" "q < length (su_queues y)" "worker_at i y = Reading q"
    and "q_items (su_queues y ! q) = []" "su_size y > 1"
    and "j = length (su_workers y)" "q' = length (su_queues y)"
  shows "\<exists>y'. submit_run h (reopening i j q q' m m') y = Some y' \<and> su_written y' = su_written y @ [(j, m'), (i, m)]
    \<and> (\<exists>z. submit_run h [CloseWriter, Sentinel q', Get i, Top i] y' = Some z \<and> worker_at i z = Gone
        \<and> (\<forall>es z'. submit_run h es z = Some z' \<longrightarrow> worker_at j z' = Reading q'))"
proof -
  have i: "i < length (su_workers y)" "su_workers y ! i = Reading q" using assms(4) by (auto simp: worker_at_def split: if_splits)
  let ?e = "\<lparr>q_items = [], q_maxsize = su_size y\<rparr> :: 'a option py_queue"
  have same: "(su_queues y)[q := (su_queues y ! q)\<lparr>q_items := []\<rparr>] = su_queues y"
    using assms(5) by (metis list_update_id py_queue.surjective py_queue.update_convs(1))
  define y1 where "y1 = y\<lparr>su_pending := [], su_queue := Some q', su_thread := Some j, su_queues := su_queues y @ [?e],
    su_workers := (su_workers y)[i := Reading q'] @ [Reading q']\<rparr>"
  have first: "submit_run h [CloseWriter, Sentinel q, OpenWriter, Get i, Top i, Top j] y = Some y1"
    using assms i
    by (simp add: close_writer_def put_sentinel_def q_put_nowait_def open_writer_def is_writer_open_def worker_get_def worker_top_def
        worker_at_def set_worker_def nth_append q_get_nowait_def list_update_append y1_def same)
  have put: "queue_put_roundrobin ?e (Some m) = Some (?e\<lparr>q_items := [Some m]\<rparr>)"
    "queue_put_roundrobin (?e\<lparr>q_items := [Some m]\<rparr>) (Some m') = Some (?e\<lparr>q_items := [Some m, Some m']\<rparr>)"
    using assms(6) by (simp_all add: queue_put pyqueue.in_bounds_def)
  define y2 where "y2 = y1\<lparr>su_written := su_written y @ [(j, m'), (i, m)]\<rparr>"
  have second: "submit_run h [Submit m, Submit m', Get i, Get j, Written True j, Written True i] y1 = Some y2"
    using assms(7,8) i put
    by (simp add: submit_def worker_get_def worker_write_def worker_at_def set_worker_def nth_append q_get_nowait_def
        list_update_append y1_def y2_def)
  define z where "z = y2\<lparr>su_queue := None, su_thread := None, su_workers := (su_workers y)[i := Gone] @ [Reading q']\<rparr>"
  have third: "submit_run h [CloseWriter, Sentinel q', Get i, Top i] y2 = Some z"
    using assms(6,7,8) i
    by (simp add: close_writer_def put_sentinel_def q_put_nowait_def worker_get_def worker_top_def worker_at_def set_worker_def
        nth_append q_get_nowait_def list_update_append y1_def y2_def z_def)
  have "stranded j q' z" using assms(7,8) i by (simp add: stranded_def worker_at_def nth_append z_def y2_def y1_def)
  then have "\<forall>es z'. submit_run h es z = Some z' \<longrightarrow> worker_at j z' = Reading q'"
    using stranded_run[of j q' z] by (simp add: stranded_def)
  moreover have "submit_run h (reopening i j q q' m m') y = Some y2"
  proof -
    have "reopening i j q q' m m' = [CloseWriter, Sentinel q, OpenWriter, Get i, Top i, Top j]
        @ [Submit m, Submit m', Get i, Get j, Written True j, Written True i]" by (simp add: reopening_def)
    then show ?thesis by (simp only: submit_run_append first second option.case)
  qed
  moreover have "worker_at i z = Gone" "su_written y2 = su_written y @ [(j, m'), (i, m)]"
    using i by (simp_all add: worker_at_def nth_append z_def y2_def)
  ultimately show ?thesis using third by blast
qed

definition idle_writer :: "nat submitter" where
  "idle_writer = the (submit_run False [Top 0] (open_writer (new_submitter 9)))"

theorem reopened_writer_races_witness:
  "\<exists>y. submit_run False (reopening 0 1 0 1 5 6) idle_writer = Some y \<and> su_written y = [(1, 6), (0, 5)]"
proof -
  have "su_queue idle_writer = Some 0" "su_pending idle_writer = []" "0 < length (su_queues idle_writer)" "worker_at 0 idle_writer = Reading 0"
    "q_items (su_queues idle_writer ! 0) = []" "su_size idle_writer > 1" "1 = length (su_workers idle_writer)" "1 = length (su_queues idle_writer)"
    "su_written idle_writer = []"
    by code_simp+
  from reopened_writer_races[OF this(1-8), of False 5 6] this(9) show ?thesis by auto
qed

text \<open>
  Closing waits for ever once the worker has died: when every worker has ended and the
  queue is full, the call puts nothing into the queue and does not return, whatever else
  happens.
\<close>

definition jammed :: "nat \<Rightarrow> 'm submitter \<Rightarrow> bool" where
  "jammed q y \<longleftrightarrow> q < length (su_queues y) \<and> su_queue y \<noteq> Some q \<and> q \<in> set (su_pending y)
     \<and> 0 < q_maxsize (su_queues y ! q) \<and> q_maxsize (su_queues y ! q) \<le> int (length (q_items (su_queues y ! q)))
     \<and> (\<forall>i m. worker_at i y \<noteq> Reading q \<and> worker_at i y \<noteq> Holding q m)"

lemma jammed_step:
  assumes "jammed q y" "submit_step h e y = Some y'"
  shows "jammed q y'"
proof -
  have ja: "q < length (su_queues y)" "su_queue y \<noteq> Some q" "q \<in> set (su_pending y)" "0 < q_maxsize (su_queues y ! q)"
    "q_maxsize (su_queues y ! q) \<le> int (length (q_items (su_queues y ! q)))"
    and idle: "\<And>i m. worker_at i y \<noteq> Reading q \<and> worker_at i y \<noteq> Holding q m"
    using assms(1) by (auto simp: jammed_def)
  show ?thesis
  proof (cases e)
    case OpenWriter
    show ?thesis
    proof (cases "is_writer_open y")
      case False
      have "worker_at i (open_writer y) = (if i = length (su_workers y) then AtTop else worker_at i y)" for i
        using False by (auto simp: open_writer_def worker_at_def nth_append)
      with OpenWriter False assms(2) ja idle show ?thesis by (auto simp: jammed_def open_writer_def nth_append)
    qed (use OpenWriter assms in \<open>simp add: open_writer_def\<close>)
  next
    case CloseWriter
    then have "worker_at i y' = worker_at i y" for i using assms(2) by (intro worker_at_cong) (auto simp: close_writer_def)
    with CloseWriter assms(2) ja idle show ?thesis by (auto simp: jammed_def close_writer_def)
  next
    case (Sentinel k)
    then have "k \<noteq> q" using assms(2) ja(4,5) by (auto simp: put_sentinel_def q_put_nowait_def split: if_splits)
    moreover have "worker_at i y' = worker_at i y" for i
      using Sentinel assms(2) by (intro worker_at_cong) (auto simp: put_sentinel_def split: option.splits if_splits)
    ultimately show ?thesis
      using Sentinel assms(2) ja idle by (auto simp: jammed_def put_sentinel_def in_set_remove1 split: option.splits if_splits)
  next
    case (Submit m)
    show ?thesis
    proof (cases "su_queue y")
      case (Some k)
      with Submit assms(2) obtain queue n where y': "y' = y\<lparr>su_queues := (su_queues y)[k := queue], su_lost := n\<rparr>"
        by (auto simp: submit_def split: option.splits)
      have "k \<noteq> q" using ja(2) Some by simp
      with ja idle Some show ?thesis by (simp add: jammed_def y')
    qed (use Submit assms in \<open>simp add: submit_def\<close>)
  next
    case (Top i)
    then have "y' = set_worker i (case su_queue y of None \<Rightarrow> Gone | Some k \<Rightarrow> Reading k) y"
      using assms(2) by (auto simp: worker_top_def split: worker.splits)
    with ja idle show ?thesis by (auto simp: jammed_def worker_at_set split: option.splits) (auto simp: set_worker_def)
  next
    case (Get i)
    then obtain k where k: "worker_at i y = Reading k" "k \<noteq> q" using assms(2) idle by (auto simp: worker_get_def split: worker.splits)
    with Get assms(2) obtain item queue where y': "y' = set_worker i (case item of None \<Rightarrow> AtTop | Some m \<Rightarrow> Holding k m)
        (y\<lparr>su_queues := (su_queues y)[k := queue]\<rparr>)" by (auto simp: worker_get_def split: option.splits)
    have "worker_at j y' \<noteq> Reading q \<and> worker_at j y' \<noteq> Holding q m" for j m
      using idle[of j m] k(2) by (auto simp: y' worker_at_set split: option.splits)
    with ja k(2) show ?thesis by (simp add: jammed_def y' set_worker_def)
  next
    case (Written ok i)
    then obtain k m where k: "worker_at i y = Holding k m" "k \<noteq> q" using assms(2) idle by (auto simp: worker_write_def split: worker.splits)
    define z where "z = (if ok then y\<lparr>su_written := su_written y @ [(i, m)]\<rparr> else y\<lparr>su_failed := su_failed y + 1\<rparr>)"
    have z: "su_queues z = su_queues y" "su_queue z = su_queue y" "su_pending z = su_pending y" "su_workers z = su_workers y"
      by (simp_all add: z_def)
    obtain w where w: "y' = set_worker i w z" "w \<in> {Reading k, Gone, AtTop}"
      using Written assms(2) k by (auto simp: worker_write_def z_def split: if_splits)
    have "worker_at j y' \<noteq> Reading q \<and> worker_at j y' \<noteq> Holding q m'" for j m'
      using idle[of j m'] worker_at_cong[OF z(4), of j] w(2) k(2) by (auto simp: w(1) worker_at_set)
    with ja show ?thesis by (simp add: jammed_def w(1) set_worker_def z)
  qed
qed

lemma jammed_run: "jammed q y \<Longrightarrow> submit_run h es y = Some y' \<Longrightarrow> jammed q y'"
  by (induction es arbitrary: y) (auto split: option.splits dest: jammed_step)

theorem closing_waits_for_ever:
  assumes "su_queue y = Some q" "q < length (su_queues y)" "\<And>i. worker_at i y = Gone"
    and "0 < q_maxsize (su_queues y ! q)" "q_maxsize (su_queues y ! q) \<le> int (length (q_items (su_queues y ! q)))"
    and "submit_run h es (close_writer y) = Some y'"
  shows "q \<in> set (su_pending y') \<and> put_sentinel q y' = None"
proof -
  have "worker_at i (close_writer y) = Gone" for i using assms(3)[of i] by (simp add: close_writer_def worker_at_def split: if_splits)
  then have "jammed q (close_writer y)" using assms(1,2,4,5) by (simp add: jammed_def) (simp add: close_writer_def)
  from jammed_run[OF this assms(6)] show ?thesis by (auto simp: jammed_def put_sentinel_def q_put_nowait_def)
qed

text \<open>One failed write ends the thread of a plain writer, and the queue of size two fills up.\<close>

definition dead_writer :: "nat submitter" where
  "dead_writer = the (submit_run False [Top 0, Submit 5, Get 0, Written False 0, Submit 6, Submit 7] (open_writer (new_submitter 2)))"

theorem closing_waits_for_ever_witness:
  "\<exists>y. submit_run False [OpenWriter, Submit 8, Top 1] (close_writer dead_writer) = Some y \<and> 0 \<in> set (su_pending y)"
proof -
  have run: "submit_run False [OpenWriter, Submit 8, Top 1] (close_writer dead_writer) \<noteq> None"
    and dead: "su_queue dead_writer = Some 0" "0 < length (su_queues dead_writer)" "su_workers dead_writer = [Gone]"
    "0 < q_maxsize (su_queues dead_writer ! 0)"
    "q_maxsize (su_queues dead_writer ! 0) \<le> int (length (q_items (su_queues dead_writer ! 0)))"
    by code_simp+
  have "worker_at i dead_writer = Gone" for i by (simp add: worker_at_def dead)
  with closing_waits_for_ever[OF dead(1,2) _ dead(4,5)] run show ?thesis by blast
qed

end
