(* ===== verification/Relay_Client.thy ===== *)
theory Relay_Client
  imports Submitter_Props
begin

section \<open>The client of the publish and subscribe relay (\<open>mantle/pubsub/python/grpc/client.py\<close>)\<close>

text \<open>
  Publications are queued and sent by a thread that is started when there is none. The state
  is that of a submitter of log messages: \<open>su_thread\<close> is \<open>_publish_thread\<close>, \<open>su_queue\<close> is
  \<open>_publish_queue\<close> and \<open>su_written\<close> what the stub was called with. A value that cannot be
  encoded raises before anything else happens.
\<close>

definition start_publisher :: "'m submitter \<Rightarrow> 'm submitter" where
  "start_publisher y =
     (if is_writer_open y then y
      else y\<lparr>su_queues := su_queues y @ [\<lparr>q_items = [], q_maxsize = su_size y\<rparr>], su_queue := Some (length (su_queues y)),
             su_thread := Some (length (su_workers y)), su_workers := su_workers y @ [AtTop]\<rparr>)"

definition relay_enqueue :: "'m result \<Rightarrow> 'm submitter \<Rightarrow> 'm submitter option" where
  "relay_enqueue encoded y =
     (case encoded of
        Inl e \<Rightarrow> Some y
      | Inr m \<Rightarrow>
          (let y' = start_publisher y in
           case su_queue y' of
             None \<Rightarrow> None
           | Some q \<Rightarrow> (case queue_put_roundrobin (su_queues y' ! q) (Some m) of
               None \<Rightarrow> None
             | Some queue \<Rightarrow> Some (y'\<lparr>su_queues := (su_queues y')[q := queue],
                 su_lost := su_lost y' + (length (q_items (su_queues y' ! q)) + 1 - length (q_items queue))\<rparr>))))"

text \<open>
  \<open>_stop_publisher\<close> forgets the thread and then puts a mark into the queue; waiting for room
  and for the thread are not steps of its own.
\<close>

definition stop_publisher :: "'m submitter \<Rightarrow> 'm submitter" where
  "stop_publisher y =
     (case su_thread y of
        None \<Rightarrow> y
      | Some t \<Rightarrow> y\<lparr>su_thread := None, su_pending := su_pending y @ (case su_queue y of None \<Rightarrow> [] | Some q \<Rightarrow> [q])\<rparr>)"

text \<open>
  The worker reads the attribute for the queue each time that it gets a publication. An
  exception of the stub ends the thread.
\<close>

definition next_queue :: "'m submitter \<Rightarrow> 'm worker" where
  "next_queue y = (case su_queue y of None \<Rightarrow> Gone | Some q \<Rightarrow> Reading q)"

definition publisher_top :: "nat \<Rightarrow> 'm submitter \<Rightarrow> 'm submitter option" where
  "publisher_top i y =
     (case worker_at i y of
        AtTop \<Rightarrow> Some (set_worker i (if su_thread y = None then Gone else next_queue y) y)
      | _ \<Rightarrow> None)"

definition publisher_get :: "nat \<Rightarrow> 'm submitter \<Rightarrow> 'm submitter option" where
  "publisher_get i y =
     (case worker_at i y of
        Reading q \<Rightarrow> (case q_get_nowait (su_queues y ! q) of
            None \<Rightarrow> None
          | Some (item, queue) \<Rightarrow> Some (set_worker i (case item of None \<Rightarrow> AtTop | Some m \<Rightarrow> Holding q m)
              (y\<lparr>su_queues := (su_queues y)[q := queue]\<rparr>)))
      | _ \<Rightarrow> None)"

definition publisher_publish :: "bool \<Rightarrow> nat \<Rightarrow> 'm submitter \<Rightarrow> 'm submitter option" where
  "publisher_publish ok i y =
     (case worker_at i y of
        Holding q m \<Rightarrow>
          Some (if ok then set_worker i (next_queue y) (y\<lparr>su_written := su_written y @ [(i, m)]\<rparr>)
                else set_worker i Gone (y\<lparr>su_failed := su_failed y + 1\<rparr>))
      | _ \<Rightarrow> None)"

datatype 'm relay_event = Enqueue "'m result" | StopPublisher | PublisherTop nat | PublisherGet nat | Published bool nat

fun relay_step :: "'m relay_event \<Rightarrow> 'm submitter \<Rightarrow> 'm submitter option" where
  "relay_step (Enqueue encoded) y = relay_enqueue encoded y"
| "relay_step StopPublisher y = Some (stop_publisher y)"
| "relay_step (PublisherTop i) y = publisher_top i y"
| "relay_step (PublisherGet i) y = publisher_get i y"
| "relay_step (Published ok i) y = publisher_publish ok i y"

fun relay_run :: "'m relay_event list \<Rightarrow> 'm submitter \<Rightarrow> 'm submitter option" where
  "relay_run [] y = Some y"
| "relay_run (e # es) y = (case relay_step e y of None \<Rightarrow> None | Some y' \<Rightarrow> relay_run es y')"

text \<open>\<open>listen\<close>: one topic is made into a sequence; what is received is decoded one by one.\<close>

fun listen_topics :: "string + string list \<Rightarrow> string list" where
  "listen_topics (Inl topic) = [topic]"
| "listen_topics (Inr topics) = topics"

subsection \<open>Refinement of the submitter\<close>

text \<open>
  As long as it is not stopped and nothing fails, the client behaves like a submitter of log
  messages that is open: each of its steps is a step of that one.
\<close>

lemma start_publisher_open: "start_publisher y = open_writer y"
  by (simp add: start_publisher_def open_writer_def)

fun smooth :: "'m relay_event \<Rightarrow> bool" where
  "smooth StopPublisher = False"
| "smooth (Published ok i) = ok"
| "smooth e = True"

fun submitter_events :: "'m relay_event \<Rightarrow> 'm submit_event list" where
  "submitter_events (Enqueue encoded) = (case encoded of Inl e \<Rightarrow> [] | Inr m \<Rightarrow> [Submit m])"
| "submitter_events StopPublisher = []"
| "submitter_events (PublisherTop i) = [Top i]"
| "submitter_events (PublisherGet i) = [Get i]"
| "submitter_events (Published ok i) = [Written ok i]"

definition one_worker :: "'m submitter \<Rightarrow> bool" where
  "one_worker y \<longleftrightarrow> su_queue y = Some 0 \<and> su_thread y = Some 0
     \<and> (\<exists>w. su_workers y = [w] \<and> w \<noteq> Gone \<and> (\<forall>q. w = Reading q \<longrightarrow> q = 0) \<and> (\<forall>q m. w = Holding q m \<longrightarrow> q = 0))"

lemma one_worker_open: "one_worker y \<Longrightarrow> open_writer y = y"
  by (auto simp: one_worker_def open_writer_def is_writer_open_def)

lemma smooth_step:
  assumes "one_worker y" "smooth e" "relay_step e y = Some y'"
  shows "submit_run False (submitter_events e) y = Some y' \<and> one_worker y'"
proof -
  obtain w where w: "su_queue y = Some 0" "su_thread y = Some 0" "su_workers y = [w]" "w \<noteq> Gone"
      "\<And>q. w = Reading q \<Longrightarrow> q = 0" "\<And>q m. w = Holding q m \<Longrightarrow> q = 0"
    using assms(1) unfolding one_worker_def by auto
  show ?thesis
  proof (cases e)
    case (Enqueue encoded)
    then show ?thesis using assms(1,3) one_worker_open[OF assms(1)] w
      by (cases encoded) (auto simp: relay_enqueue_def start_publisher_open submit_def one_worker_def split: option.splits)
  next
    case (PublisherTop i)
    then show ?thesis using assms(3) w
      by (auto simp: publisher_top_def worker_top_def next_queue_def worker_at_def set_worker_def one_worker_def
          split: worker.splits if_splits)
  next
    case (PublisherGet i)
    then show ?thesis using assms(3) w
      by (auto simp: publisher_get_def worker_get_def worker_at_def set_worker_def one_worker_def
          split: worker.splits if_splits option.splits)
  next
    case (Published ok i)
    then show ?thesis using assms(2,3) w
      by (auto simp: publisher_publish_def worker_write_def next_queue_def worker_at_def set_worker_def one_worker_def
          split: worker.splits if_splits)
  qed (use assms(2) in simp)
qed

lemma smooth_run:
  "one_worker y \<Longrightarrow> list_all smooth es \<Longrightarrow> relay_run es y = Some y' \<Longrightarrow>
    submit_run False (concat (map submitter_events es)) y = Some y'"
proof (induction es arbitrary: y)
  case (Cons e es)
  then obtain z where z: "relay_step e y = Some z" "relay_run es z = Some y'" by (auto split: option.splits)
  have "submit_run False (submitter_events e) y = Some z \<and> one_worker z" using Cons.prems z by (intro smooth_step) auto
  with Cons z show ?case by (simp add: submit_run_append)
qed simp

definition enqueued :: "'m relay_event list \<Rightarrow> 'm list" where
  "enqueued es = concat (map (\<lambda>e. case e of Enqueue (Inr m) \<Rightarrow> [m] | _ \<Rightarrow> []) es)"

lemma enqueued_submitted: "submitted (concat (map submitter_events es)) = enqueued es"
proof (induction es)
  case (Cons e es)
  have "submitted (submitter_events e) = (case e of Enqueue (Inr m) \<Rightarrow> [m] | _ \<Rightarrow> [])"
    by (cases e) (auto simp: submitted_def split: sum.split)
  with Cons show ?case by (simp add: submitted_def enqueued_def)
qed (simp add: submitted_def enqueued_def)

lemma steady_events: "list_all smooth es \<Longrightarrow> list_all steady (concat (map submitter_events es))"
proof (induction es)
  case (Cons e es)
  moreover have "list_all steady (submitter_events e)" by (cases e) (auto simp: steady_def split: sum.split)
  ultimately show ?case by simp
qed simp

lemma run_from_open:
  "relay_run (Enqueue (Inr m) # es) (new_submitter n) = relay_run (Enqueue (Inr m) # es) (open_writer (new_submitter n))"
proof -
  have "one_worker (open_writer (new_submitter n :: 'a submitter))"
    by (simp add: one_worker_def open_writer_def new_submitter_def is_writer_open_def)
  from one_worker_open[OF this] show ?thesis by (simp add: relay_enqueue_def start_publisher_open)
qed

text \<open>
  C38. Publications that are enqueued are sent in the order in which they were enqueued: what
  the stub was called with, what the thread holds and what is queued is, in this order, what
  was enqueued less what a full queue discarded. This holds while no call of the stub fails.
\<close>

theorem publications_sent_in_order:
  assumes "relay_run (Enqueue (Inr m) # es) (new_submitter n) = Some y" and "list_all smooth es"
  shows "subseq (flow y) (map Some (m # enqueued es)) \<and> Suc (length (enqueued es)) = length (flow y) + su_lost y + su_failed y
    \<and> (su_lost y = 0 \<and> su_failed y = 0 \<longrightarrow> flow y = map Some (m # enqueued es))"
proof -
  let ?es = "Enqueue (Inr m) # es"
  have "one_worker (open_writer (new_submitter n :: 'a submitter))"
    by (simp add: one_worker_def open_writer_def new_submitter_def is_writer_open_def)
  then have "submit_run False (concat (map submitter_events ?es)) (open_writer (new_submitter n)) = Some y"
    using assms by (intro smooth_run) (simp_all add: run_from_open[symmetric] del: relay_run.simps)
  moreover have "list_all steady (concat (map submitter_events ?es))" using assms(2) by (intro steady_events) simp
  moreover have "submitted (concat (map submitter_events ?es)) = m # enqueued es"
    unfolding enqueued_submitted by (simp add: enqueued_def)
  ultimately show ?thesis
    using submitted_flow[of False "concat (map submitter_events ?es)" n y] by (simp del: submit_run.simps)
qed

definition relay_demo :: "nat relay_event list" where
  "relay_demo = [PublisherTop 0, Enqueue (Inr 2), PublisherGet 0, Enqueue (Inl TypeError), Published True 0, Enqueue (Inr 3)]"

theorem publications_sent_in_order_witness:
  "\<exists>y. relay_run (Enqueue (Inr 1) # relay_demo) (new_submitter 4096) = Some y \<and> flow y = [Some 1, Some 2, Some 3]
    \<and> su_written y = [(0, 1)]"
proof -
  have "map_option (\<lambda>y. (su_written y, su_lost y, su_failed y)) (relay_run (Enqueue (Inr 1) # relay_demo) (new_submitter 4096))
      = Some ([(0, 1)], 0, 0)" by code_simp
  then obtain y where y: "relay_run (Enqueue (Inr 1) # relay_demo) (new_submitter 4096) = Some y"
    "su_written y = [(0, 1)]" "su_lost y = 0" "su_failed y = 0" by auto
  have "list_all smooth relay_demo" "enqueued relay_demo = [2, 3]" by code_simp+
  with publications_sent_in_order[OF y(1)] y show ?thesis by auto
qed

text \<open>
  A call of the stub that fails costs more than its publication: the next one that is
  enqueued starts a thread with a new queue, and what the old queue held is read by no one.
\<close>

theorem failed_publication_abandons_queue:
  assumes "one_worker y" and "su_workers y = [Holding 0 lost]" and "length (su_queues y) = 1"
    and "relay_run [Published False 0, Enqueue (Inr m)] y = Some y'"
  shows "su_queues y' ! 0 = su_queues y ! 0 \<and> su_queue y' = Some 1 \<and> q_items (su_queues y' ! 1) = [Some m]
    \<and> su_workers y' = [Gone, AtTop] \<and> su_written y' = su_written y"
proof -
  have open_: "su_queue y = Some 0" "su_thread y = Some 0" using assms(1) by (simp_all add: one_worker_def)
  obtain q where q: "su_queues y = [q]" using assms(3) by (cases "su_queues y") auto
  define z where "z = y\<lparr>su_failed := su_failed y + 1, su_workers := [Gone]\<rparr>"
  have step: "relay_step (Published False 0) y = Some z"
    by (simp add: publisher_publish_def worker_at_def set_worker_def assms(2) z_def)
  have "start_publisher z = z\<lparr>su_queues := [q, \<lparr>q_items = [], q_maxsize = su_size y\<rparr>], su_queue := Some 1,
      su_thread := Some 1, su_workers := [Gone, AtTop]\<rparr>"
    by (simp add: start_publisher_def is_writer_open_def z_def open_ q)
  moreover have "queue_put_roundrobin \<lparr>q_items = [], q_maxsize = su_size y\<rparr> (Some m)
      = Some \<lparr>q_items = [Some m], q_maxsize = su_size y\<rparr>"
    by (subst queue_put) (simp_all add: pyqueue.in_bounds_def)
  ultimately have "relay_step (Enqueue (Inr m)) z = Some (z\<lparr>su_queues := [q, \<lparr>q_items = [Some m], q_maxsize = su_size y\<rparr>],
      su_queue := Some 1, su_thread := Some 1, su_workers := [Gone, AtTop]\<rparr>)"
    by (simp add: relay_enqueue_def z_def)
  with assms(4) step show ?thesis by (auto simp: q z_def)
qed

definition failing_state :: "nat submitter" where
  "failing_state = the (relay_run [Enqueue (Inr 1), Enqueue (Inr 2), PublisherTop 0, PublisherGet 0] (new_submitter 4096))"

theorem failed_publication_abandons_queue_witness:
  "\<exists>y'. relay_run [Published False 0, Enqueue (Inr 3)] failing_state = Some y' \<and> q_items (su_queues y' ! 0) = [Some 2]
    \<and> q_items (su_queues y' ! 1) = [Some 3] \<and> su_queue y' = Some 1"
proof -
  have one: "one_worker failing_state"
  proof -
    have "su_queue failing_state = Some 0" "su_thread failing_state = Some 0" "su_workers failing_state = [Holding 0 1]"
      by code_simp+
    then show ?thesis by (simp add: one_worker_def)
  qed
  have held: "su_workers failing_state = [Holding 0 1]" "length (su_queues failing_state) = 1"
    and rest: "q_items (su_queues failing_state ! 0) = [Some 2]"
    and runs: "relay_run [Published False 0, Enqueue (Inr 3)] failing_state \<noteq> None" by code_simp+
  from runs obtain y' where "relay_run [Published False 0, Enqueue (Inr 3)] failing_state = Some y'" by blast
  from failed_publication_abandons_queue[OF one held this] this rest show ?thesis by auto
qed

end
