(* ===== verification/Vfs.thy ===== *)
theory Vfs
  imports Py_Regex
begin

section \<open>Virtual file system paths (\<open>vfs/protobuf/__init__.py\<close>) and package sources (\<open>upgrade/protobuf/__init__.py\<close>)\<close>

text \<open>
  A path of the virtual file system names a context and a path relative to it. Clients accept
  either the message or a text \<open>CONTEXT:RELPATH\<close>; anything else is refused. The messages are
  records with the fields that the sources use; an unset text field is empty.
\<close>

record vfs_path =
  vp_context :: string
  vp_relpath :: string

datatype vfs_arg = VPath vfs_path | VStr string | VOther bool

text \<open>The argument of \<open>VOther\<close> says whether the object counts as true.\<close>

fun arg_true :: "vfs_arg \<Rightarrow> bool" where
  "arg_true (VPath p) = True"
| "arg_true (VStr s) = (s \<noteq> [])"
| "arg_true (VOther b) = b"

text \<open>\<open>split(":", 1)\<close> gives one or two parts; \<open>lstrip("/")\<close> takes every leading slash.\<close>

definition split_first :: "char \<Rightarrow> string \<Rightarrow> string \<times> string option" where
  "split_first d s = (takeWhile (\<lambda>c. c \<noteq> d) s,
     (case dropWhile (\<lambda>c. c \<noteq> d) s of [] \<Rightarrow> None | _ # rest \<Rightarrow> Some rest))"

definition lstrip_char :: "char \<Rightarrow> string \<Rightarrow> string" where
  "lstrip_char d s = dropWhile (\<lambda>c. c = d) s"

fun encode_path :: "vfs_arg \<Rightarrow> vfs_path result" where
  "encode_path (VPath p) = Inr p"
| "encode_path (VStr s) =
     (case split_first CHR '':'' s of
        (context, Some relpath) \<Rightarrow> Inr \<lparr>vp_context = context, vp_relpath = lstrip_char CHR ''/'' relpath\<rparr>
      | (_, None) \<Rightarrow> Inr \<lparr>vp_context = s, vp_relpath = lstrip_char CHR ''/'' []\<rparr>)"
| "encode_path (VOther b) = Inl TypeError"

definition decode_path :: "vfs_path \<Rightarrow> string" where
  "decode_path p = join_with '':'' [vp_context p, vp_relpath p]"

text \<open>
  One path, or a list or tuple of them. Only a text is made into a sequence; a message, or an
  object that is neither, cannot be iterated over.
\<close>

datatype vfs_paths = SinglePath vfs_arg | SeveralPaths "vfs_arg list"

fun paths_true :: "vfs_paths \<Rightarrow> bool" where
  "paths_true (SinglePath a) = arg_true a"
| "paths_true (SeveralPaths as) = (as \<noteq> [])"

fun encode_paths :: "vfs_paths \<Rightarrow> vfs_path list result" where
  "encode_paths (SinglePath (VStr s)) = map_result encode_path [VStr s]"
| "encode_paths (SinglePath (VPath p)) = Inl TypeError"
| "encode_paths (SinglePath (VOther b)) = Inl TypeError"
| "encode_paths (SeveralPaths as) = map_result encode_path as"

subsection \<open>Requests\<close>

record op_flags =
  pf_force :: bool
  pf_dereference :: bool
  pf_merge :: bool
  pf_update :: bool
  pf_with_attributes :: bool
  pf_inside_target :: bool

record path_request =
  pr_path :: "vfs_path option"
  pr_sources :: "vfs_path list"
  pr_flags :: op_flags

definition request_flags :: op_flags where
  "request_flags = \<lparr>pf_force = False, pf_dereference = True, pf_merge = False, pf_update = False,
     pf_with_attributes = True, pf_inside_target = False\<rparr>"

definition path_request :: "vfs_arg option \<Rightarrow> vfs_paths option \<Rightarrow> op_flags \<Rightarrow> path_request result" where
  "path_request path sources flags =
     bind_result
       (case sources of
          None \<Rightarrow> Inr []
        | Some srcs \<Rightarrow> if paths_true srcs then encode_paths srcs else Inr [])
       (\<lambda>encoded.
     bind_result
       (case path of
          None \<Rightarrow> Inr None
        | Some a \<Rightarrow> if arg_true a then map_sum id Some (encode_path a) else Inr None)
       (\<lambda>p. Inr \<lparr>pr_path = p, pr_sources = encoded,
          pr_flags = (case sources of Some (SeveralPaths as) \<Rightarrow> flags\<lparr>pf_inside_target := True\<rparr> | _ \<Rightarrow> flags)\<rparr>))"

record locate_request =
  lr_root :: vfs_path
  lr_masks :: "string list"
  lr_with_attributes :: bool
  lr_include_hidden :: bool
  lr_ignore_case :: bool

text \<open>The name \<open>encodeValue\<close> is not bound in the module: no attribute can be encoded.\<close>

definition encode_attribute :: "string \<times> 'v \<Rightarrow> unit result" where
  "encode_attribute tv = Inl NameError"

definition locate_request ::
    "vfs_arg \<Rightarrow> string + string list \<Rightarrow> (string, 'v) dict \<Rightarrow> bool \<Rightarrow> bool \<Rightarrow> bool \<Rightarrow> locate_request result" where
  "locate_request root masks filters with_attributes include_hidden ignore_case =
     bind_result (encode_path root) (\<lambda>p.
     bind_result (map_result encode_attribute filters) (\<lambda>_.
     Inr \<lparr>lr_root = p, lr_masks = (case masks of Inl one \<Rightarrow> [one] | Inr several \<Rightarrow> several),
          lr_with_attributes = with_attributes, lr_include_hidden = include_hidden, lr_ignore_case = ignore_case\<rparr>))"

text \<open>The request carries the path; its attributes are never any.\<close>

definition attribute_request :: "vfs_arg \<Rightarrow> (string, 'v) dict \<Rightarrow> vfs_path result" where
  "attribute_request a attributes =
     bind_result (encode_path a) (\<lambda>p. bind_result (map_result encode_attribute attributes) (\<lambda>_. Inr p))"

subsection \<open>Package sources\<close>

datatype source_of = SourceUnset | SourcePath vfs_path | SourceUrl string

record package_source =
  ps_source :: source_of
  ps_filename :: string

datatype source_arg = SrcMessage package_source | SrcArg vfs_arg

definition url_prefix :: regex where
  "url_prefix = sequence [Many is_word 1, only CHR '':'', only CHR ''/'', only CHR ''/'']"

fun encode_source :: "source_arg \<Rightarrow> package_source result" where
  "encode_source (SrcMessage m) = Inr m"
| "encode_source (SrcArg (VPath p)) = Inr \<lparr>ps_source = SourcePath p, ps_filename = []\<rparr>"
| "encode_source (SrcArg (VStr s)) =
     (if s = [] then Inr \<lparr>ps_source = SourceUnset, ps_filename = []\<rparr>
      else if regex_match url_prefix s \<noteq> None then Inr \<lparr>ps_source = SourceUrl s, ps_filename = []\<rparr>
      else map_sum id (\<lambda>p. \<lparr>ps_source = SourcePath p, ps_filename = []\<rparr>) (encode_path (VStr s)))"
| "encode_source (SrcArg (VOther b)) =
     (if b then Inl TypeError else Inr \<lparr>ps_source = SourceUnset, ps_filename = []\<rparr>)"

text \<open>
  For a URL the variable holds the message and not its text; a file name refers to a variable
  that is not bound.
\<close>

definition decode_source :: "package_source \<Rightarrow> (package_source + string) result" where
  "decode_source m =
     (if ps_filename m \<noteq> [] then Inl NameError
      else Inr (case ps_source m of
                  SourcePath p \<Rightarrow> Inr (decode_path p)
                | SourceUrl u \<Rightarrow> Inl m
                | SourceUnset \<Rightarrow> Inr []))"

section \<open>The client (\<open>vfs/grpc/client.py\<close>)\<close>

text \<open>
  Every method sends one request. The generated stub, the transport and the local files are
  not part of the sources: a method is modelled by the call that it makes, or by the exception
  that it raises before.
\<close>

record file_chunk =
  fc_path :: "vfs_path option"
  fc_data :: "nat list"

datatype vfs_call =
    GetContexts
  | GetOpenContexts
  | GetContextSpec vfs_path
  | OpenContext vfs_path
  | CloseContext vfs_path
  | GetVolumeInfo path_request
  | GetFileInfo path_request
  | GetDirectory path_request
  | Locate locate_request
  | Copy path_request
  | Move path_request
  | CreateFolder path_request
  | Remove path_request
  | ReadFile vfs_path
  | WriteFile "file_chunk list"
  | GetAttributes vfs_path
  | SetAttributes vfs_path

definition context_path :: "string \<Rightarrow> vfs_path" where
  "context_path name = \<lparr>vp_context = name, vp_relpath = []\<rparr>"

definition get_context :: "string \<Rightarrow> vfs_call" where
  "get_context name = GetContextSpec (context_path name)"

definition open_context :: "string \<Rightarrow> vfs_call" where
  "open_context name = OpenContext (context_path name)"

definition close_context :: "string \<Rightarrow> vfs_call" where
  "close_context name = CloseContext (context_path name)"

text \<open>The method that \<open>open_only\<close> selects does not exist.\<close>

definition get_contexts :: "('c \<Rightarrow> bool) \<Rightarrow> bool \<Rightarrow> bool \<Rightarrow> (string, 'c) dict \<Rightarrow> (string, 'c) dict result" where
  "get_contexts is_removable removable_only open_only reply =
     (if open_only then Inl AttributeError
      else Inr (if removable_only then filter (\<lambda>(name, cxt). is_removable cxt) reply else reply))"

definition get_removable_contexts :: "('c \<Rightarrow> bool) \<Rightarrow> bool \<Rightarrow> (string, 'c) dict \<Rightarrow> (string, 'c) dict result" where
  "get_removable_contexts is_removable open_only reply = get_contexts is_removable True open_only reply"

definition send :: "('r \<Rightarrow> vfs_call) \<Rightarrow> 'r result \<Rightarrow> vfs_call result" where
  "send call request = map_sum id call request"

definition get_volume_info :: "vfs_arg \<Rightarrow> bool \<Rightarrow> vfs_call result" where
  "get_volume_info a deref = send GetVolumeInfo (path_request (Some a) None (request_flags\<lparr>pf_dereference := deref\<rparr>))"

definition get_file_info :: "vfs_arg \<Rightarrow> bool \<Rightarrow> bool \<Rightarrow> vfs_call result" where
  "get_file_info a deref attrs = send GetFileInfo
     (path_request (Some a) None (request_flags\<lparr>pf_dereference := deref, pf_with_attributes := attrs\<rparr>))"

definition get_directory :: "vfs_arg \<Rightarrow> bool \<Rightarrow> bool \<Rightarrow> vfs_call result" where
  "get_directory a deref attrs = send GetDirectory
     (path_request (Some a) None (request_flags\<lparr>pf_dereference := deref, pf_with_attributes := attrs\<rparr>))"

definition list_directory :: "vfs_arg \<Rightarrow> bool \<Rightarrow> vfs_call result" where
  "list_directory a deref = send GetDirectory (path_request (Some a) None (request_flags\<lparr>pf_dereference := deref\<rparr>))"

text \<open>
  \<open>decodeStats\<close> asks the enumeration class \<open>PathType\<close> for its attribute \<open>get\<close>, which it does
  not have; the replies that hold a file status cannot be decoded.
\<close>

definition decode_stats :: "'i \<Rightarrow> 'i result" where
  "decode_stats stats = Inl AttributeError"

definition directory_entries :: "(string, 'i) dict \<Rightarrow> (string, 'i) dict result" where
  "directory_entries reply = map_result (\<lambda>(key, stats). map_sum id (Pair key) (decode_stats stats)) reply"

definition locate_files ::
    "vfs_arg \<Rightarrow> string + string list \<Rightarrow> (string, 'v) dict \<Rightarrow> bool \<Rightarrow> bool \<Rightarrow> bool \<Rightarrow> vfs_call result" where
  "locate_files a masks filters attrs hidden nocase = send Locate (locate_request a masks filters attrs hidden nocase)"

definition copy_paths :: "vfs_paths \<Rightarrow> vfs_arg \<Rightarrow> op_flags \<Rightarrow> vfs_call result" where
  "copy_paths sources target flags = send Copy (path_request (Some target) (Some sources) flags)"

text \<open>The argument is spelled \<open>source\<close>, which is not bound.\<close>

definition move_paths :: "vfs_paths \<Rightarrow> vfs_arg \<Rightarrow> op_flags \<Rightarrow> vfs_call result" where
  "move_paths sources target flags = Inl NameError"

definition create_folder :: "vfs_arg \<Rightarrow> bool \<Rightarrow> bool \<Rightarrow> vfs_call result" where
  "create_folder a force deref = send CreateFolder
     (path_request (Some a) None (request_flags\<lparr>pf_force := force, pf_dereference := deref\<rparr>))"

definition remove_paths :: "vfs_paths \<Rightarrow> bool \<Rightarrow> bool \<Rightarrow> bool \<Rightarrow> vfs_call result" where
  "remove_paths paths force deref attrs = send Remove
     (path_request None (Some paths)
        (request_flags\<lparr>pf_force := force, pf_dereference := deref, pf_with_attributes := attrs\<rparr>))"

definition read_file :: "vfs_arg \<Rightarrow> vfs_call result" where
  "read_file a = send ReadFile (encode_path a)"

definition get_attributes :: "vfs_arg \<Rightarrow> vfs_call result" where
  "get_attributes a = send GetAttributes (encode_path a)"

definition vfs_set_attributes :: "vfs_arg \<Rightarrow> (string, 'v) dict \<Rightarrow> vfs_call result" where
  "vfs_set_attributes a attributes = send SetAttributes (attribute_request a attributes)"

text \<open>\<open>self.self\<close> does not exist.\<close>

definition clear_attributes :: "vfs_arg \<Rightarrow> vfs_call result" where
  "clear_attributes a = Inl AttributeError"

subsection \<open>Transfers\<close>

text \<open>
  A stream of chunks ends normally or with an error. \<open>read\<close> returns the data of the first
  chunk. \<open>download\<close> appends what it receives to the local file, which is empty if it was just
  opened by its path.
\<close>

type_synonym chunk_stream = "file_chunk list \<times> py_error option"

definition read_contents :: "chunk_stream \<Rightarrow> nat list option result" where
  "read_contents stream =
     (case stream of
        (chunk # _, _) \<Rightarrow> Inr (Some (fc_data chunk))
      | ([], Some e) \<Rightarrow> Inl e
      | ([], None) \<Rightarrow> Inr None)"

fun download_loop :: "file_chunk list \<Rightarrow> nat list \<Rightarrow> nat list" where
  "download_loop [] dest = dest"
| "download_loop (chunk # chunks) dest = download_loop chunks (dest @ fc_data chunk)"

definition download :: "chunk_stream \<Rightarrow> nat list \<Rightarrow> nat list \<times> py_error option" where
  "download stream dest = (download_loop (fst stream) dest, snd stream)"

text \<open>\<open>_uploadIterator\<close>: the results of \<open>read1\<close>, up to the first that is empty; a file that is at its end gives no more.\<close>

fun upload_iterator :: "vfs_path option \<Rightarrow> nat list list \<Rightarrow> file_chunk list" where
  "upload_iterator path [] = []"
| "upload_iterator path (data # reads) =
     (if data = [] then [] else \<lparr>fc_path = path, fc_data = data\<rparr> # upload_iterator None reads)"

text \<open>The local file is opened, if it is given by its path, after the remote path was encoded.\<close>

definition upload :: "nat list list result \<Rightarrow> vfs_arg \<Rightarrow> vfs_call result" where
  "upload localfile a =
     bind_result (encode_path a) (\<lambda>_.
     bind_result localfile (\<lambda>reads.
     bind_result (encode_path a) (\<lambda>path. Inr (WriteFile (upload_iterator (Some path) reads)))))"

subsection \<open>The server's end of a transfer (\<open>vfs-grpc-requesthandler.c++\<close>)\<close>

text \<open>
  \<open>ReadFile\<close> and \<open>WriteFile\<close> of the request handler. Which file a path stands for, and
  whether it may be read or changed, is decided by the provider: \<open>locate modify path\<close>. A file
  that cannot be opened for reading has no chunks; a chunk holds what the buffer of the
  stream, of \<open>n\<close> bytes, was filled with. Opening for writing truncates; the path is that of
  the first chunk.
\<close>

type_synonym 'f files = "'f \<Rightarrow> nat list option"
type_synonym 'f locator = "bool \<Rightarrow> vfs_path \<Rightarrow> 'f result"

fun buffers :: "nat \<Rightarrow> nat list \<Rightarrow> nat list list" where
  "buffers n xs = (if n = 0 \<or> xs = [] then [] else take n xs # buffers n (drop n xs))"

definition serve_read :: "'f locator \<Rightarrow> nat \<Rightarrow> 'f files \<Rightarrow> vfs_path \<Rightarrow> chunk_stream" where
  "serve_read locate n files p =
     (case locate False p of
        Inl e \<Rightarrow> ([], Some RpcError)
      | Inr f \<Rightarrow>
          (map (\<lambda>data. \<lparr>fc_path = Some p, fc_data = data\<rparr>)
             (buffers n (case files f of None \<Rightarrow> [] | Some content \<Rightarrow> content)), None))"

definition chunk_path :: "file_chunk \<Rightarrow> vfs_path" where
  "chunk_path chunk = (case fc_path chunk of Some p \<Rightarrow> p | None \<Rightarrow> \<lparr>vp_context = [], vp_relpath = []\<rparr>)"

fun write_chunks :: "'f \<Rightarrow> 'f files \<Rightarrow> file_chunk list \<Rightarrow> 'f files" where
  "write_chunks f files [] = files"
| "write_chunks f files (chunk # chunks) =
     write_chunks f (files(f \<mapsto> (case files f of None \<Rightarrow> [] | Some content \<Rightarrow> content) @ fc_data chunk)) chunks"

definition serve_write :: "'f locator \<Rightarrow> 'f files \<Rightarrow> file_chunk list \<Rightarrow> 'f files \<times> py_error option" where
  "serve_write locate files chunks =
     (case chunks of
        [] \<Rightarrow> (files, None)
      | first # _ \<Rightarrow>
          (case locate True (chunk_path first) of
             Inl e \<Rightarrow> (files, Some RpcError)
           | Inr f \<Rightarrow> (write_chunks f (files(f \<mapsto> [])) chunks, None)))"

text \<open>An upload and a download, from end to end.\<close>

definition upload_to :: "'f locator \<Rightarrow> 'f files \<Rightarrow> nat list list result \<Rightarrow> vfs_arg \<Rightarrow> 'f files \<times> py_error option" where
  "upload_to locate files localfile a =
     (case upload localfile a of
        Inl e \<Rightarrow> (files, Some e)
      | Inr (WriteFile chunks) \<Rightarrow> serve_write locate files chunks
      | Inr _ \<Rightarrow> (files, None))"

definition download_from :: "'f locator \<Rightarrow> nat \<Rightarrow> 'f files \<Rightarrow> vfs_arg \<Rightarrow> nat list \<Rightarrow> nat list \<times> py_error option" where
  "download_from locate n files a dest =
     (case read_file a of
        Inr (ReadFile p) \<Rightarrow> download (serve_read locate n files p) dest
      | Inr _ \<Rightarrow> (dest, None)
      | Inl e \<Rightarrow> (dest, Some e))"

end
