(* ===== verification/Vfs_Props.thy ===== *)
theory Vfs_Props
  imports Vfs
begin

section \<open>Properties of the virtual file system client\<close>

text \<open>
  What a path denotes as a message and as a text, what becomes of package sources, which
  requests are sent, and what a transfer leaves behind at the other end.
\<close>

declare encode_path.simps(2) [simp del]
declare buffers.simps [simp del]

lemma takeWhile_sep [simp]: "d \<notin> set xs \<Longrightarrow> takeWhile (\<lambda>c. c \<noteq> d) (xs @ d # ys) = xs"
  by (induction xs) auto

lemma dropWhile_sep [simp]: "d \<notin> set xs \<Longrightarrow> dropWhile (\<lambda>c. c \<noteq> d) (xs @ d # ys) = d # ys"
  by (induction xs) auto

lemma takeWhile_free: "d \<notin> set (takeWhile (\<lambda>c. c \<noteq> d) xs)"
  by (auto dest: set_takeWhileD)

lemma dropWhile_hd: "dropWhile P xs = y # ys \<Longrightarrow> \<not> P y"
  by (metis hd_dropWhile list.distinct(1) list.sel(1))

lemma lstrip_char_id: "(case r of [] \<Rightarrow> True | c # _ \<Rightarrow> c \<noteq> d) \<Longrightarrow> lstrip_char d r = r"
  by (cases r) (auto simp: lstrip_char_def)

text \<open>The paths that a text can denote.\<close>

definition plain_path :: "vfs_path \<Rightarrow> bool" where
  "plain_path p \<longleftrightarrow> CHR '':'' \<notin> set (vp_context p) \<and> (case vp_relpath p of [] \<Rightarrow> True | c # _ \<Rightarrow> c \<noteq> CHR ''/'')"

lemma lstrip_char_head: "case lstrip_char d r of [] \<Rightarrow> True | c # _ \<Rightarrow> c \<noteq> d"
proof (cases "lstrip_char d r")
  case (Cons c cs)
  then show ?thesis using dropWhile_hd[of "\<lambda>c. c = d" r c cs] by (simp add: lstrip_char_def)
qed simp

lemma takeWhile_whole: "dropWhile P s = [] \<Longrightarrow> takeWhile P s = s"
  by (metis append_Nil2 takeWhile_dropWhile_id)

lemma encode_text:
  "encode_path (VStr s) = Inr \<lparr>vp_context = takeWhile (\<lambda>c. c \<noteq> CHR '':'') s,
     vp_relpath = lstrip_char CHR ''/'' (tl (dropWhile (\<lambda>c. c \<noteq> CHR '':'') s))\<rparr>"
  by (cases "dropWhile (\<lambda>c. c \<noteq> CHR '':'') s")
    (simp_all only: encode_path.simps(2) split_first_def takeWhile_whole prod.case option.case list.case list.sel)

lemma encode_decode: "plain_path p \<Longrightarrow> encode_path (VStr (decode_path p)) = Inr p"
  unfolding encode_text by (cases p) (simp add: decode_path_def plain_path_def lstrip_char_id)

lemma encode_text_plain: "encode_path (VStr s) = Inr p \<Longrightarrow> plain_path p"
  using lstrip_char_head[of "CHR ''/''" "tl (dropWhile (\<lambda>c. c \<noteq> CHR '':'') s)"]
    takeWhile_free[of "CHR '':''" s]
  unfolding encode_text plain_path_def by auto

text \<open>
  A path becomes a text and is read back unchanged exactly when its context holds no colon
  and its relative part does not begin with a slash.
\<close>

theorem vfs_path_roundtrip: "encode_path (VStr (decode_path p)) = Inr p \<longleftrightarrow> plain_path p"
  using encode_decode encode_text_plain by blast


subsection \<open>Requests\<close>

text \<open>
  A list or tuple of sources always asks for the target to be taken as a folder, whatever
  the caller asked for, and every other request keeps the flags it was given. What was encoded
  are the sources in order.
\<close>

theorem several_sources_go_inside:
  "copy_paths sources target flags = Inr (Copy r) \<Longrightarrow>
     pf_inside_target (pr_flags r) = (pf_inside_target flags \<or> (\<exists>as. sources = SeveralPaths as))
     \<and> (\<forall>as. sources = SeveralPaths as \<longrightarrow> map_result encode_path as = Inr (pr_sources r))"
  by (cases sources)
    (auto simp: copy_paths_def send_def path_request_def map_sum_def result_simps split: sum.splits if_splits)

definition several_demo :: path_request where
  "several_demo = \<lparr>pr_path = Some \<lparr>vp_context = ''usb'', vp_relpath = ''x''\<rparr>,
     pr_sources = [\<lparr>vp_context = ''home'', vp_relpath = ''a''\<rparr>, \<lparr>vp_context = ''home'', vp_relpath = []\<rparr>],
     pr_flags = request_flags\<lparr>pf_inside_target := True\<rparr>\<rparr>"

theorem several_sources_go_inside_witness:
  "pf_inside_target (pr_flags several_demo) \<and> map_result encode_path [VStr ''home:/a'', VStr ''home''] = Inr (pr_sources several_demo)"
proof -
  have "copy_paths (SeveralPaths [VStr ''home:/a'', VStr ''home'']) (VStr ''usb:x'') request_flags = Inr (Copy several_demo)"
    by code_simp
  from several_sources_go_inside[OF this] show ?thesis by simp
qed

subsection \<open>Package sources\<close>

lemma url_prefix_word: "is_word c \<Longrightarrow> list_all is_word cs \<Longrightarrow> regex_match url_prefix ((c # cs) @ ''://'' @ rest) \<noteq> None"
proof -
  assume w: "is_word c" "list_all is_word cs"
  have nw: "\<not> is_word CHR '':''" by (simp add: is_word_def is_alpha_def is_digit_def)
  have take: "takeWhile is_word ((c # cs) @ ''://'' @ rest) = c # cs"
    using w nw by (induction cs) (auto simp: list_all_iff)
  have drop: "dropWhile is_word ((c # cs) @ ''://'' @ rest) = ''://'' @ rest"
    using w nw by (induction cs) (auto simp: list_all_iff)
  have "leads url_prefix ((c # cs) @ ''://'' @ rest, []) (rest, [])"
    unfolding url_prefix_def
    by (rule leads_sequence[OF leads_many]) (use take drop in \<open>auto intro!: leads_sequence leads_only leads_sequence_nil\<close>)
  then show ?thesis using leads_match by fastforce
qed

lemma url_prefix_only:
  assumes "regex_match url_prefix s \<noteq> None"
  shows "\<exists>w r. s = w @ ''://'' @ r \<and> list_all is_word w"
proof -
  have "attempts url_prefix (s, []) \<noteq> []"
    using assms by (simp add: regex_match_def split: list.splits)
  then have "\<exists>v \<in> set (attempts (Many is_word 1) (s, [])). attempts (sequence [only CHR '':'', only CHR ''/'', only CHR ''/'']) v \<noteq> []"
    unfolding url_prefix_def attempts_sequence(2)[of "Many is_word 1"] concat_eq_Nil_conv set_map ball_simps(9)
    by (simp del: attempts.simps attempts_sequence)
  then obtain v where v: "v \<in> set (attempts (Many is_word 1) (s, []))"
      and after: "attempts (sequence [only CHR '':'', only CHR ''/'', only CHR ''/'']) v \<noteq> []" by blast
  from v obtain w where w: "s = w @ fst v" "list_all is_word w" using runs_suffix by fastforce
  from after obtain r where "fst v = ''://'' @ r"
    by (cases v) (auto simp: only_def split: list.splits if_splits)
  with w show ?thesis by auto
qed

lemma plain_path_no_url:
  assumes "plain_path p"
  shows "regex_match url_prefix (decode_path p) = None"
proof (rule ccontr)
  assume "regex_match url_prefix (decode_path p) \<noteq> None"
  then obtain w r where wr: "vp_context p @ '':'' @ vp_relpath p = w @ '':'' @ ''//'' @ r" "list_all is_word w"
    using url_prefix_only unfolding decode_path_def by fastforce
  have "\<not> is_word CHR '':''" by (simp add: is_word_def is_alpha_def is_digit_def)
  with wr(2) have "CHR '':'' \<notin> set w" by (auto simp: list_all_iff)
  moreover have "CHR '':'' \<notin> set (vp_context p)" using assms by (simp add: plain_path_def)
  ultimately have "vp_relpath p = ''//'' @ r"
    using arg_cong[OF wr(1), of "dropWhile (\<lambda>c. c \<noteq> CHR '':'')"] by simp
  with assms show False by (simp add: plain_path_def)
qed

text \<open>
  The text of a package source, if it has one, gives the same source again: a source given
  by a text decodes to a text that encodes to it, unless it is a URL, which decodes to the
  message itself.
\<close>

theorem package_source_roundtrip:
  assumes "encode_source (SrcArg (VStr s)) = Inr m"
  shows "decode_source m = (case ps_source m of SourceUrl u \<Rightarrow> Inr (Inl m) | _ \<Rightarrow>
      Inr (Inr (case ps_source m of SourcePath p \<Rightarrow> decode_path p | _ \<Rightarrow> [])))
    \<and> (\<forall>t. decode_source m = Inr (Inr t) \<longrightarrow> encode_source (SrcArg (VStr t)) = Inr m)
    \<and> (\<forall>u. ps_source m = SourceUrl u \<longrightarrow> u = s)"
proof -
  have name: "ps_filename m = []"
    using assms by (auto simp: encode_text split: if_splits)
  have path: "plain_path p" if "ps_source m = SourcePath p" for p
    using assms that encode_text_plain[OF encode_text] by (auto simp: encode_text split: if_splits)
  have again: "encode_source (SrcArg (VStr (decode_path p))) = Inr m" if "ps_source m = SourcePath p" for p
  proof -
    have "decode_path p \<noteq> []" by (simp add: decode_path_def)
    then show ?thesis using plain_path_no_url[OF path[OF that]] encode_decode[OF path[OF that]] name that
      by (cases m) simp
  qed
  have url: "u = s" if "ps_source m = SourceUrl u" for u
    using assms that by (auto simp: encode_text split: if_splits)
  show ?thesis using name again url by (cases m) (auto simp: decode_source_def split: source_of.splits)
qed

theorem package_source_roundtrip_witness:
  "decode_source \<lparr>ps_source = SourcePath \<lparr>vp_context = ''usb'', vp_relpath = ''r.zip''\<rparr>, ps_filename = []\<rparr>
    = Inr (Inr ''usb:r.zip'')"
proof -
  have "encode_source (SrcArg (VStr ''usb:/r.zip''))
      = Inr \<lparr>ps_source = SourcePath \<lparr>vp_context = ''usb'', vp_relpath = ''r.zip''\<rparr>, ps_filename = []\<rparr>"
    by code_simp
  from package_source_roundtrip[OF this] show ?thesis by (simp add: decode_path_def)
qed

subsection \<open>Transfers\<close>

text \<open>What an upload sends of a file: the data up to the first read that is empty.\<close>

definition sent :: "nat list list \<Rightarrow> nat list" where
  "sent reads = concat (takeWhile (\<lambda>data. data \<noteq> []) reads)"

lemma upload_iterator_data: "concat (map fc_data (upload_iterator path reads)) = sent reads"
  unfolding sent_def by (induction path reads rule: upload_iterator.induct) auto

lemma upload_iterator_first:
  "upload_iterator path reads = chunk # chunks \<Longrightarrow> fc_path chunk = path \<and> fc_data chunk \<noteq> []"
  by (cases reads) (auto split: if_splits)

lemma write_chunks_content:
  "files f = Some content \<Longrightarrow> write_chunks f files chunks = files(f \<mapsto> content @ concat (map fc_data chunks))"
  by (induction chunks arbitrary: files content) (simp_all add: fun_upd_idem)

lemma download_loop_content: "download_loop chunks dest = dest @ concat (map fc_data chunks)"
  by (induction chunks arbitrary: dest) simp_all

lemma concat_buffers: "0 < n \<Longrightarrow> concat (buffers n xs) = xs"
  by (induction n xs rule: buffers.induct) (subst buffers.simps, simp)

lemma upload_effect:
  "upload_to locate files (Inr reads) a =
     (case encode_path a of
        Inl e \<Rightarrow> (files, Some e)
      | Inr p \<Rightarrow>
          if sent reads = [] then (files, None)
          else (case locate True p of
                  Inl e \<Rightarrow> (files, Some RpcError)
                | Inr f \<Rightarrow> (files(f \<mapsto> sent reads), None)))"
proof (cases "encode_path a")
  case (Inr p)
  show ?thesis
  proof (cases "upload_iterator (Some p) reads")
    case Nil
    then show ?thesis using Inr upload_iterator_data[of "Some p" reads]
      by (simp add: upload_to_def upload_def serve_write_def)
  next
    case (Cons chunk chunks)
    note first = upload_iterator_first[OF this]
    have data: "sent reads = concat (map fc_data (chunk # chunks))"
      using upload_iterator_data[of "Some p" reads] unfolding Cons by simp
    with first have some: "sent reads \<noteq> []" by simp
    have "chunk_path chunk = p" using first by (simp add: chunk_path_def)
    then have "upload_to locate files (Inr reads) a = (case locate True p of Inl e \<Rightarrow> (files, Some RpcError)
        | Inr f \<Rightarrow> (write_chunks f (files(f \<mapsto> [])) (chunk # chunks), None))"
      using Inr Cons by (simp add: upload_to_def upload_def serve_write_def del: write_chunks.simps)
    moreover have "write_chunks f (files(f \<mapsto> [])) (chunk # chunks) = files(f \<mapsto> sent reads)" for f
      unfolding data using write_chunks_content[of "files(f \<mapsto> [])" f "[]" "chunk # chunks"] by simp
    ultimately show ?thesis by (simp only: Inr some if_False sum.case)
  qed
qed (simp add: upload_to_def upload_def)

text \<open>
  What an upload does at the server: the file is replaced by the data sent, if there are
  any and the file may be written; otherwise nothing changes. An empty file in particular
  leaves the old content in place, and the caller is told of no error.
\<close>

theorem upload_outcome:
  "upload_to locate files (Inr reads) a =
     (case encode_path a of
        Inl e \<Rightarrow> (files, Some e)
      | Inr p \<Rightarrow>
          if sent reads = [] then (files, None)
          else (case locate True p of
                  Inl e \<Rightarrow> (files, Some RpcError)
                | Inr f \<Rightarrow> (files(f \<mapsto> sent reads), None)))"
  by (rule upload_effect)

lemma download_outcome:
  "0 < n \<Longrightarrow> download_from locate n files a dest =
     (case encode_path a of
        Inl e \<Rightarrow> (dest, Some e)
      | Inr p \<Rightarrow>
          (case locate False p of
             Inl e \<Rightarrow> (dest, Some RpcError)
           | Inr f \<Rightarrow> (dest @ (case files f of None \<Rightarrow> [] | Some content \<Rightarrow> content), None)))"
  by (simp add: download_from_def read_file_def send_def download_def serve_read_def download_loop_content comp_def
      concat_buffers split: sum.split)

text \<open>
  C40. A file that was uploaded is downloaded with the same content, whatever the sizes of the
  reads and of the chunks, provided that it is not empty and that its path stands for one file
  that may be written and read.
\<close>

theorem transfer_roundtrip:
  assumes "encode_path a = Inr p" and "locate True p = Inr f" and "locate False p = Inr f"
    and "0 < n" and "sent reads \<noteq> []"
  shows "download_from locate n (fst (upload_to locate files (Inr reads) a)) a [] = (sent reads, None)"
  using assms by (simp add: upload_effect download_outcome)

theorem transfer_roundtrip_witness:
  "download_from (\<lambda>modify p. Inr (vp_relpath p)) 2
     (fst (upload_to (\<lambda>modify p. Inr (vp_relpath p)) (\<lambda>_. None) (Inr [[1, 2, 3], [4]]) (VStr ''usb:/f''))) (VStr ''usb:/f'') []
    = ([1, 2, 3, 4], None)"
proof -
  have "encode_path (VStr ''usb:/f'') = Inr \<lparr>vp_context = ''usb'', vp_relpath = ''f''\<rparr>" "sent [[1, 2, 3], [4]] = [1, 2, 3, 4]"
    by code_simp+
  with transfer_roundtrip[OF this(1), of "\<lambda>modify p. Inr (vp_relpath p)" "''f''" 2 "[[1, 2, 3], [4]]" "\<lambda>_. None"]
  show ?thesis by simp
qed

end
