(* ===== verification/Platform.thy ===== *)
theory Platform
  imports Signal_Store
begin

section \<open>Network configuration (\<open>netconfig/grpc/client.py\<close>)\<close>

text \<open>
  The clients of the platform services. The message classes are generated from files that are
  not part of the repository: the records have the fields that the clients use. Requests are
  the arguments of the calls of the generated stub; replies are parameters.
\<close>

record access_point =
  ap_bssid :: string
  ap_ssid :: "nat list"
  ap_strength :: int

text \<open>\<open>get_aps_by_ssid\<close>, over the values of the map of access points.\<close>

fun strongest_loop :: "access_point list \<Rightarrow> (nat list, access_point) dict \<Rightarrow> (nat list, access_point) dict" where
  "strongest_loop [] aps = aps"
| "strongest_loop (ap # rest) aps =
     strongest_loop rest
       (if ap_strength ap \<ge> ap_strength (dict_get_default aps (ap_ssid ap) ap)
        then dict_set (ap_ssid ap) ap aps else aps)"

definition get_aps_by_ssid :: "('k, access_point) dict \<Rightarrow> (nat list, access_point) dict" where
  "get_aps_by_ssid aps = strongest_loop (map snd aps) []"

subsection \<open>Connections\<close>

datatype authentication = WEP string | WPA string | EAP string

record wireless_data =
  wl_ssid :: "nat list"
  wl_mode :: int
  wl_hidden :: bool
  wl_key_mgmt :: int
  wl_auth :: "authentication option"

datatype medium = NoMedium | Wired string | Wireless wireless_data

record 'ip connection_data =
  cd_id :: string
  cd_interface :: "string option"
  cd_medium :: medium
  cd_ip4config :: 'ip
  cd_ip6config :: 'ip

definition no_wireless :: wireless_data where
  "no_wireless = \<lparr>wl_ssid = [], wl_mode = 0, wl_hidden = False, wl_key_mgmt = 0, wl_auth = None\<rparr>"

text \<open>The argument \<open>data\<close>: nothing, a message of either kind, or an object that counts as true.\<close>

datatype data_arg = NoData | WiredData string | WirelessData wireless_data | OtherData

definition define_connection :: "string \<Rightarrow> data_arg \<Rightarrow> string option \<Rightarrow> 'ip \<Rightarrow> 'ip \<Rightarrow> 'ip connection_data result" where
  "define_connection ident data interface ip4 ip6 =
     (if (interface = None \<or> interface = Some []) \<and> data = NoData then Inl TypeError
      else Inr \<lparr>cd_id = ident, cd_interface = None,
        cd_medium = (case data of WiredData w \<Rightarrow> Wired w | WirelessData w \<Rightarrow> Wireless w | _ \<Rightarrow> NoMedium),
        cd_ip4config = ip4, cd_ip6config = ip6\<rparr>)"

text \<open>
  \<open>connect_ap\<close> takes a BSSID or an SSID. An SSID is put into the connection, which belongs to
  the caller, unless it has one; assigning it makes the connection a wireless one. The request
  is then built from the class \<open>WirelessConnectionData\<close> with the fields \<open>ssid\<close>, \<open>bssid\<close> and
  \<open>connection\<close>; a field that the class does not have raises. Which fields it has is a
  parameter. The second component is the connection afterwards.
\<close>

datatype ap_arg = Bssid string | Ssid "nat list" | OtherAp

record 'ip ap_request =
  ar_ssid :: "nat list option"
  ar_bssid :: "string option"
  ar_connection :: "'ip connection_data"

definition wireless_part :: "'ip connection_data \<Rightarrow> wireless_data" where
  "wireless_part c = (case cd_medium c of Wireless w \<Rightarrow> w | _ \<Rightarrow> no_wireless)"

definition connect_ap ::
    "(string \<Rightarrow> bool) \<Rightarrow> ap_arg \<Rightarrow> 'ip connection_data \<Rightarrow> 'ip ap_request result \<times> 'ip connection_data" where
  "connect_ap has_field ap c =
     (case ap of
        OtherAp \<Rightarrow> (Inl TypeError, c)
      | Bssid bssid \<Rightarrow>
          (if has_field ''ssid'' \<and> has_field ''bssid'' \<and> has_field ''connection''
           then Inr \<lparr>ar_ssid = None, ar_bssid = Some bssid, ar_connection = c\<rparr> else Inl ValueError, c)
      | Ssid ssid \<Rightarrow>
          (let c' = (if wl_ssid (wireless_part c) = []
                     then c\<lparr>cd_medium := Wireless (wireless_part c\<lparr>wl_ssid := ssid\<rparr>)\<rparr> else c) in
           (if has_field ''ssid'' \<and> has_field ''bssid'' \<and> has_field ''connection''
            then Inr \<lparr>ar_ssid = Some ssid, ar_bssid = None, ar_connection = c'\<rparr> else Inl ValueError, c')))"

text \<open>\<open>encode()\<close>, for Latin-1 texts: a character above 127 takes two bytes.\<close>

definition utf8_encode :: "string \<Rightarrow> nat list" where
  "utf8_encode s = concat (map (\<lambda>c. let n = of_char c in if n < 128 then [n] else [192 + n div 64, 128 + n mod 64]) s)"

text \<open>\<open>connect\<close>; without an access point the identifier is taken for its SSID.\<close>

definition connect_wireless ::
    "(string \<Rightarrow> bool) \<Rightarrow> string \<Rightarrow> ap_arg option \<Rightarrow> authentication option \<Rightarrow> int \<Rightarrow> bool \<Rightarrow> int \<Rightarrow> string option
     \<Rightarrow> 'ip \<Rightarrow> 'ip \<Rightarrow> 'ip ap_request result" where
  "connect_wireless has_field ident ap auth key_mgmt hidden mode interface ip4 ip6 =
     fst (connect_ap has_field
       (case ap of None \<Rightarrow> Ssid (utf8_encode ident) | Some given \<Rightarrow> given)
       \<lparr>cd_id = ident, cd_interface = interface,
        cd_medium = Wireless \<lparr>wl_ssid = [], wl_mode = mode, wl_hidden = hidden, wl_key_mgmt = key_mgmt, wl_auth = auth\<rparr>,
        cd_ip4config = ip4, cd_ip6config = ip6\<rparr>)"

subsection \<open>The state of an active connection\<close>

record active_connection =
  ac_id :: string
  ac_state :: int
  ac_state_flags :: int
  ac_state_reason :: int

text \<open>
  A connection is found by its key, else as the first that has the key for its identifier. The
  enumeration classes refuse numbers that they do not have.
\<close>

definition find_active :: "string \<Rightarrow> (string, active_connection) dict \<Rightarrow> active_connection option" where
  "find_active key acs =
     (case dict_get acs key of
        Some ac \<Rightarrow> Some ac
      | None \<Rightarrow> find (\<lambda>ac. ac_id ac = key) (map snd acs))"

definition get_active_connection_state ::
    "int list \<Rightarrow> int list \<Rightarrow> int \<times> int \<Rightarrow> string \<Rightarrow> bool \<Rightarrow> (string, active_connection) dict \<Rightarrow> (int \<times> int \<times> int) result" where
  "get_active_connection_state states reasons unknown key ignoreMissing acs =
     (case find_active key acs of
        Some ac \<Rightarrow>
          (if ac_state ac \<notin> set states \<or> ac_state_reason ac \<notin> set reasons then Inl ValueError
           else Inr (ac_state ac, ac_state_flags ac, ac_state_reason ac))
      | None \<Rightarrow> if ignoreMissing then Inr (fst unknown, 0, snd unknown) else Inl KeyError)"

record global_data =
  gd_wireless_enabled :: bool
  gd_wireless_hardware_enabled :: bool
  gd_wireless_allowed :: bool

definition get_wireless_enabled :: "global_data \<Rightarrow> bool" where
  "get_wireless_enabled reply = gd_wireless_enabled reply"

definition get_wireless_hardware_enabled :: "global_data \<Rightarrow> bool" where
  "get_wireless_hardware_enabled reply = gd_wireless_hardware_enabled reply"

definition get_wireless_allowed :: "global_data \<Rightarrow> bool" where
  "get_wireless_allowed reply = gd_wireless_allowed reply"

text \<open>The name \<open>google\<close> is not bound.\<close>

definition set_wireless_allowed :: "bool \<Rightarrow> bool result" where
  "set_wireless_allowed allowed = Inl NameError"

section \<open>System configuration (\<open>sysconfig/grpc/client.py\<close>, \<open>sysconfig/protobuf/__init__.py\<close>)\<close>

record version =
  ver_printable :: string
  ver_major :: nat
  ver_minor :: nat
  ver_patch :: nat

text \<open>The argument is the release version of the product, or nothing: then the reply is used. A message counts as true.\<close>

definition get_printable_version :: "version option \<Rightarrow> version \<Rightarrow> string" where
  "get_printable_version given reply =
     (let info = (case given of None \<Rightarrow> reply | Some v \<Rightarrow> v) in
      if ver_printable info \<noteq> [] then ver_printable info
      else digits_of_nat (ver_major info) @ ''.'' @ digits_of_nat (ver_minor info) @ ''.'' @ digits_of_nat (ver_patch info))"

record country =
  co_code :: string
  co_name :: string

datatype country_arg = CountryText string | CountryMessage country | CountryNone | CountryOther bool

text \<open>\<open>isupper\<close>, for Latin-1 letters.\<close>

definition is_upper :: "char \<Rightarrow> bool" where
  "is_upper c \<longleftrightarrow> (let n = of_char c :: nat in
     65 \<le> n \<and> n \<le> 90 \<or> 192 \<le> n \<and> n \<le> 222 \<and> n \<noteq> 215)"

definition is_lower :: "char \<Rightarrow> bool" where
  "is_lower c \<longleftrightarrow> (let n = of_char c :: nat in
     97 \<le> n \<and> n \<le> 122 \<or> 223 \<le> n \<and> n \<le> 255 \<and> n \<noteq> 247 \<or> n \<in> {170, 181, 186})"

definition text_isupper :: "string \<Rightarrow> bool" where
  "text_isupper s \<longleftrightarrow> list_ex is_upper s \<and> list_all (\<lambda>c. \<not> is_lower c) s"

fun encode_country :: "country_arg \<Rightarrow> bool \<Rightarrow> country result" where
  "encode_country (CountryText s) required =
     Inr (if length s = 2 \<and> text_isupper s then \<lparr>co_code = s, co_name = []\<rparr> else \<lparr>co_code = [], co_name = s\<rparr>)"
| "encode_country (CountryMessage c) required = Inr c"
| "encode_country CountryNone required = (if required then Inl TypeError else Inr \<lparr>co_code = [], co_name = []\<rparr>)"
| "encode_country (CountryOther b) required =
     (if \<not> b \<and> \<not> required then Inr \<lparr>co_code = [], co_name = []\<rparr> else Inl TypeError)"

record location_filter =
  lf_area :: "string option"
  lf_country :: country

definition list_timezone_regions :: "country_arg \<Rightarrow> string option \<Rightarrow> location_filter result" where
  "list_timezone_regions c area =
     bind_result (encode_country c False) (\<lambda>co. Inr \<lparr>lf_area = area, lf_country = co\<rparr>)"

definition list_timezone_specs :: "string option \<Rightarrow> country_arg \<Rightarrow> location_filter result" where
  "list_timezone_specs area c =
     bind_result (encode_country c False) (\<lambda>co. Inr \<lparr>lf_area = area, lf_country = co\<rparr>)"

record timezone_location =
  tl_country :: country
  tl_region :: "string option"

datatype timezone_config = ByName string | ByLocation timezone_location

definition set_timezone_by_name :: "string \<Rightarrow> timezone_config" where
  "set_timezone_by_name zonename = ByName zonename"

definition set_timezone_by_location :: "country_arg \<Rightarrow> string option \<Rightarrow> timezone_config result" where
  "set_timezone_by_location c region =
     bind_result (encode_country c False) (\<lambda>co. Inr (ByLocation \<lparr>tl_country = co, tl_region = region\<rparr>))"

record time_config =
  tc_synchronization :: bool
  tc_servers :: "string list"

definition set_time_config :: "bool \<Rightarrow> string list option \<Rightarrow> time_config" where
  "set_time_config synchronization servers =
     \<lparr>tc_synchronization = synchronization, tc_servers = (case servers of None \<Rightarrow> [] | Some ss \<Rightarrow> ss)\<rparr>"

section \<open>Clients that keep what the server signals\<close>

text \<open>
  The clients derived from \<open>SignalClient\<close> answer queries from their store of signals. A query
  for a message that was not received gives an empty one, \<open>rt_default\<close>.
\<close>

type_synonym 'p map_query = "'p runtime \<Rightarrow> 'p store \<Rightarrow> 'p store \<times> (string option, 'p) dict result option"
type_synonym 'p query = "'p runtime \<Rightarrow> 'p store \<Rightarrow> 'p store \<times> 'p option result option"

definition cached_devices :: "'p map_query" where
  "cached_devices rt s = get_cached_map rt ''device'' True s"

definition cached_connections :: "'p map_query" where
  "cached_connections rt s = get_cached_map rt ''connection'' True s"

definition cached_active_connections :: "'p map_query" where
  "cached_active_connections rt s = get_cached_map rt ''active_connection'' True s"

definition cached_aps :: "'p map_query" where
  "cached_aps rt s = get_cached_map rt ''accesspoint'' True s"

definition cached_all_contexts :: "'p map_query" where
  "cached_all_contexts rt s = get_cached_map rt ''context'' True s"

definition cached_open_contexts :: "'p map_query" where
  "cached_open_contexts rt s = get_cached_map rt ''context_in_use'' True s"

definition cached_or_empty :: "string \<Rightarrow> 'p query" where
  "cached_or_empty name rt s = get_cached_signal rt name None True (Some (rt_default rt name)) s"

definition cached_global_data :: "'p query" where
  "cached_global_data rt s = cached_or_empty ''global'' rt s"

definition cached_product_info :: "'p query" where
  "cached_product_info rt s = cached_or_empty ''product_info'' rt s"

definition cached_host_info :: "'p query" where
  "cached_host_info rt s = cached_or_empty ''host_info'' rt s"

definition cached_timestamp :: "'p query" where
  "cached_timestamp rt s = cached_or_empty ''time'' rt s"

definition cached_time_config :: "'p query" where
  "cached_time_config rt s = cached_or_empty ''time_config'' rt s"

text \<open>With an argument the request goes to the server, whose reply is a parameter.\<close>

definition cached_timezone_info :: "'p result \<Rightarrow> string option \<Rightarrow> 't option \<Rightarrow> 'p query" where
  "cached_timezone_info reply zone time rt s =
     (if zone = None \<and> time = None then cached_or_empty ''tz_info'' rt s
      else (s, Some (map_sum id Some reply)))"

definition cached_timezone_spec :: "'p result \<Rightarrow> string option \<Rightarrow> 'p query" where
  "cached_timezone_spec reply zone rt s =
     (if zone = None then cached_or_empty ''tz_spec'' rt s else (s, Some (map_sum id Some reply)))"

end
