(* ===== verification/Platform_Props.thy ===== *)
theory Platform_Props
  imports Platform Grpc_Watch_Props
begin

section \<open>Properties of the platform clients\<close>

text \<open>
  The access point that stands for a network, and the answers of the clients that keep what
  the server signals.
\<close>

subsection \<open>Access points\<close>

definition keep_strongest :: "access_point \<Rightarrow> (nat list, access_point) dict \<Rightarrow> (nat list, access_point) dict" where
  "keep_strongest ap aps =
     (if ap_strength ap \<ge> ap_strength (dict_get_default aps (ap_ssid ap) ap) then dict_set (ap_ssid ap) ap aps else aps)"

lemma strongest_loop_fold: "strongest_loop xs aps = fold keep_strongest xs aps"
  by (induction xs aps rule: strongest_loop.induct) (simp_all add: keep_strongest_def)

text \<open>The last of the strongest among those that have the SSID.\<close>

definition last_strongest :: "nat list \<Rightarrow> access_point list \<Rightarrow> access_point \<Rightarrow> bool" where
  "last_strongest ssid xs best \<longleftrightarrow> (\<exists>before after. xs = before @ best # after \<and> ap_ssid best = ssid
     \<and> (\<forall>ap \<in> set before. ap_ssid ap = ssid \<longrightarrow> ap_strength ap \<le> ap_strength best)
     \<and> (\<forall>ap \<in> set after. ap_ssid ap = ssid \<longrightarrow> ap_strength ap < ap_strength best))"

lemma last_strongest_all: "last_strongest ssid xs best \<Longrightarrow> ap \<in> set xs \<Longrightarrow> ap_ssid ap = ssid \<Longrightarrow> ap_strength ap \<le> ap_strength best"
  by (fastforce simp: last_strongest_def)

lemma last_strongest_other:
  "last_strongest ssid xs best \<Longrightarrow> ap_ssid ap = ssid \<longrightarrow> ap_strength ap < ap_strength best \<Longrightarrow> last_strongest ssid (xs @ [ap]) best"
proof -
  assume l: "last_strongest ssid xs best" and ap: "ap_ssid ap = ssid \<longrightarrow> ap_strength ap < ap_strength best"
  from l obtain before after where parts: "xs = before @ best # after" "ap_ssid best = ssid"
      "\<forall>ap \<in> set before. ap_ssid ap = ssid \<longrightarrow> ap_strength ap \<le> ap_strength best"
      "\<forall>ap \<in> set after. ap_ssid ap = ssid \<longrightarrow> ap_strength ap < ap_strength best"
    unfolding last_strongest_def by blast
  show ?thesis unfolding last_strongest_def
    by (intro exI[of _ before] exI[of _ "after @ [ap]"]) (use parts ap in auto)
qed

lemma last_strongest_new:
  "\<forall>x \<in> set xs. ap_ssid x = ap_ssid ap \<longrightarrow> ap_strength x \<le> ap_strength ap \<Longrightarrow> last_strongest (ap_ssid ap) (xs @ [ap]) ap"
  unfolding last_strongest_def by (intro exI[of _ xs] exI[of _ "[]"]) simp

lemma keep_strongest_get:
  "dict_get (keep_strongest ap aps) ssid =
     (if ap_ssid ap \<noteq> ssid then dict_get aps ssid
      else case dict_get aps ssid of None \<Rightarrow> Some ap
           | Some best \<Rightarrow> if ap_strength best \<le> ap_strength ap then Some ap else Some best)"
  by (auto simp: keep_strongest_def dict_get_default_def split: option.splits)

lemma strongest_kept:
  "case dict_get (fold keep_strongest xs []) ssid of
     None \<Rightarrow> \<forall>ap \<in> set xs. ap_ssid ap \<noteq> ssid
   | Some best \<Rightarrow> last_strongest ssid xs best"
proof (induction xs arbitrary: ssid rule: rev_induct)
  case (snoc ap xs)
  let ?d = "fold keep_strongest xs []"
  note before = snoc[of ssid]
  show ?case
  proof (cases "ap_ssid ap = ssid")
    case False
    then have "dict_get (fold keep_strongest (xs @ [ap]) []) ssid = dict_get ?d ssid" by (simp add: keep_strongest_get)
    with before False show ?thesis by (auto simp: last_strongest_other split: option.splits)
  next
    case same: True
    show ?thesis
    proof (cases "dict_get ?d ssid")
      case None
      with before same have "last_strongest ssid (xs @ [ap]) ap" using last_strongest_new[of xs ap] by simp
      with None same show ?thesis by (simp add: keep_strongest_get)
    next
      case (Some best)
      with before have best: "last_strongest ssid xs best" by simp
      show ?thesis
      proof (cases "ap_strength best \<le> ap_strength ap")
        case True
        then have "last_strongest ssid (xs @ [ap]) ap"
          using last_strongest_new[of xs ap] last_strongest_all[OF best] same by fastforce
        with True Some same show ?thesis by (simp add: keep_strongest_get)
      next
        case False
        then have "last_strongest ssid (xs @ [ap]) best" using last_strongest_other[OF best] by simp
        with False Some same show ?thesis by (simp add: keep_strongest_get)
      qed
    qed
  qed
qed simp

text \<open>
  The access point that stands for a network is the strongest of those with its SSID, and
  the last one listed among equally strong ones; a network has none only if there is none.
\<close>

theorem strongest_access_point:
  "case dict_get (get_aps_by_ssid aps) ssid of
     None \<Rightarrow> \<forall>ap \<in> set (map snd aps). ap_ssid ap \<noteq> ssid
   | Some best \<Rightarrow> last_strongest ssid (map snd aps) best"
  unfolding get_aps_by_ssid_def strongest_loop_fold by (rule strongest_kept)

definition demo_aps :: "(string, access_point) dict" where
  "demo_aps = [(''a'', \<lparr>ap_bssid = ''a'', ap_ssid = [1], ap_strength = 70\<rparr>),
               (''b'', \<lparr>ap_bssid = ''b'', ap_ssid = [1], ap_strength = 70\<rparr>),
               (''c'', \<lparr>ap_bssid = ''c'', ap_ssid = [1], ap_strength = 40\<rparr>)]"

theorem strongest_access_point_witness:
  "map_option ap_bssid (dict_get (get_aps_by_ssid demo_aps) [1]) = Some ''b''
    \<and> last_strongest [1] (map snd demo_aps) \<lparr>ap_bssid = ''b'', ap_ssid = [1], ap_strength = 70\<rparr>
    \<and> list_all (\<lambda>ap. ap_ssid ap \<noteq> [2]) (map snd demo_aps)"
proof -
  have "dict_get (get_aps_by_ssid demo_aps) [1] = Some \<lparr>ap_bssid = ''b'', ap_ssid = [1], ap_strength = 70\<rparr>"
      "dict_get (get_aps_by_ssid demo_aps) [2] = None"
    by code_simp+
  with strongest_access_point[of demo_aps "[1]"] strongest_access_point[of demo_aps "[2]"] show ?thesis by (simp add: list_all_iff)
qed

subsection \<open>Cached answers\<close>

lemma payload_selected: "signal_name msg = name \<Longrightarrow> name \<noteq> [] \<Longrightarrow> payload_of rt name msg = payload_of rt' name msg"
  by (auto simp: payload_of_def signal_name_def split: option.splits)

lemma view_payload: "dict_get (map (\<lambda>(k, m). (k, f m)) ms) key = map_option f (dict_get ms key)"
  by (induction ms) (auto split: if_splits)

lemma cached_query_view:
  assumes "dict_get (s_cache s) name \<noteq> None \<or> s_complete s \<and> dict_get (fields_by_name (s_type s)) name \<noteq> None"
  shows "\<exists>ms. get_cached_map rt name True s = (s, Some (Inr ms))
    \<and> (\<forall>key. dict_get ms key = map_option (payload_of rt name) (cache_view s name key))"
proof (cases "dict_get (s_cache s) name")
  case None
  with assms show ?thesis
    by (auto simp: get_cached_map_def get_cached_signal_messages_def wait_complete_def cache_view_def dict_get_default_def)
next
  case (Some m)
  then show ?thesis
    by (auto simp: get_cached_map_def get_cached_signal_messages_def cache_view_def view_payload)
qed


text \<open>The demonstration of the streamed signals, after everything was yielded and received.\<close>

lemma undisturbed_transfers:
  "undisturbed rt crt d y \<Longrightarrow> \<forall>e \<in> set es. e = Yield i \<or> e = Receive i \<Longrightarrow> watch_run rt crt es y = Some y' \<Longrightarrow>
    undisturbed rt crt d y'"
proof (induction es arbitrary: y)
  case (Cons e es)
  then obtain z where z: "watch_step rt crt e y = Some z" "watch_run rt crt es z = Some y'" by (auto split: option.splits)
  have "dom (sy_calls y) \<subseteq> dom (sy_calls z)" using Cons.prems(2) by (intro calls_kept[OF z(1)]) auto
  then have "undisturbed rt crt d z" using Cons.prems(2) by (intro step_watch[OF Cons.prems(1) z(1)]) auto
  with Cons z(2) show ?case by simp
qed simp

definition caught_up_events :: "nat watch_event list" where
  "caught_up_events = [Yield 0, Yield 0, Yield 0, Receive 0, Receive 0, Receive 0]"

definition caught_up_state :: "nat watch_system" where
  "caught_up_state = the (watch_run watch_demo_runtime watch_demo_runtime caught_up_events (watch_demo_state 11))"

lemma caught_up_run:
  "watch_run watch_demo_runtime watch_demo_runtime caught_up_events (watch_demo_state 11) = Some caught_up_state"
proof -
  have "watch_run watch_demo_runtime watch_demo_runtime caught_up_events (watch_demo_state 11) \<noteq> None" by code_simp
  then show ?thesis by (auto simp: caught_up_state_def)
qed


end
