(* ===== verification/Platform_Calls.thy ===== *)
theory Platform_Calls
  imports Platform Wellknown
begin

section \<open>The requests of the platform clients\<close>

text \<open>
  The methods of the network and system configuration clients that send one request, and
  those that read a part of a reply. A method is modelled by the call that it makes of the
  stub; an unset text field is empty.
\<close>

definition text_field :: "string option \<Rightarrow> string" where
  "text_field s = (case s of None \<Rightarrow> [] | Some x \<Rightarrow> x)"

subsection \<open>Network configuration\<close>

datatype 'ip net_call =
    GetHostname | SetHostname string | GetGlobalData | GetConnections | DefineConnection "'ip connection_data"
  | RemoveConnection string | ActivateConnection string | DeactivateConnection string | GetActiveConnections
  | RequestScan | GetAccessPoints | ConnectAccessPoint "'ip ap_request" | GetDevices | SetWirelessEnabled bool

definition net_get_hostname :: "'ip net_call" where "net_get_hostname = GetHostname"

definition net_set_hostname :: "string \<Rightarrow> 'ip net_call" where "net_set_hostname hostname = SetHostname hostname"

definition net_get_global_data :: "'ip net_call" where "net_get_global_data = GetGlobalData"

definition net_get_connections :: "'ip net_call" where "net_get_connections = GetConnections"

definition net_remove_connection :: "string \<Rightarrow> 'ip net_call" where "net_remove_connection key = RemoveConnection key"

definition net_activate_connection :: "string \<Rightarrow> 'ip net_call" where "net_activate_connection key = ActivateConnection key"

definition net_deactivate_connection :: "string \<Rightarrow> 'ip net_call" where
  "net_deactivate_connection key = DeactivateConnection key"

definition net_get_active_connections :: "'ip net_call" where "net_get_active_connections = GetActiveConnections"

definition net_request_scan :: "'ip net_call" where "net_request_scan = RequestScan"

definition net_get_aps :: "'ip net_call" where "net_get_aps = GetAccessPoints"

definition net_get_devices :: "'ip net_call" where "net_get_devices = GetDevices"

definition net_set_wireless_enabled :: "bool \<Rightarrow> 'ip net_call" where
  "net_set_wireless_enabled enabled = SetWirelessEnabled enabled"

subsection \<open>System configuration\<close>

record info_request =
  ir_canonical_zone :: string
  ir_time :: "(int \<times> int) option"

record invocation =
  iv_argv :: "string list"
  iv_working_directory :: string
  iv_stdin :: string

record continuation =
  cn_pid :: int
  cn_stdin :: string

datatype sys_call =
    GetProductInfo | SetSerialNumber string | SetModelName string | GetHostInfo | SetHostName string
  | SetCurrentTime "int \<times> int" | GetCurrentTime | SetTimeConfig time_config | GetTimeConfig
  | ListTimezoneAreas | ListTimezoneCountries string | ListTimezoneRegions location_filter
  | ListTimezoneSpecs location_filter | GetTimezoneSpec string | GetTimezoneInfo info_request
  | SetTimezone timezone_config | InvokeSync invocation | InvokeAsync invocation | InvokeFinish continuation

definition sys_get_product_info :: sys_call where "sys_get_product_info = GetProductInfo"

text \<open>A serial number is a text or an integer.\<close>

definition sys_set_serial_number :: "string + int \<Rightarrow> sys_call" where
  "sys_set_serial_number serial = SetSerialNumber (case serial of Inl s \<Rightarrow> s | Inr n \<Rightarrow> string_of_int n)"

definition sys_set_model_name :: "string \<Rightarrow> sys_call" where "sys_set_model_name model = SetModelName model"

definition sys_get_host_info :: sys_call where "sys_get_host_info = GetHostInfo"

definition sys_set_host_name :: "string \<Rightarrow> sys_call" where "sys_set_host_name name = SetHostName name"

text \<open>The conversion may not end, as it scales an infinite number.\<close>

definition sys_set_current_time :: "('s, 'd) clock \<Rightarrow> ('s, 'd) time_input \<Rightarrow> sys_call result option" where
  "sys_set_current_time c timestamp = map_option (map_sum id SetCurrentTime) (encodeTimestamp c timestamp)"

definition sys_get_current_timestamp :: sys_call where "sys_get_current_timestamp = GetCurrentTime"

definition sys_get_current_time :: "int \<times> int \<Rightarrow> py_float result" where
  "sys_get_current_time reply = decodeTimestamp reply"

definition sys_get_time_config :: sys_call where "sys_get_time_config = GetTimeConfig"

definition sys_list_timezone_areas :: sys_call where "sys_list_timezone_areas = ListTimezoneAreas"

definition sys_list_timezone_countries :: "string option \<Rightarrow> sys_call" where
  "sys_list_timezone_countries area = ListTimezoneCountries (text_field area)"

definition sys_get_timezone_spec :: "string option \<Rightarrow> sys_call" where
  "sys_get_timezone_spec canonical_zone = GetTimezoneSpec (text_field canonical_zone)"

record timezone_spec =
  ts_name :: string

definition sys_get_configured_timezone :: "timezone_spec \<Rightarrow> string" where
  "sys_get_configured_timezone reply = ts_name reply"

record timezone_info =
  ti_shortname :: string

definition sys_get_current_timezone :: "timezone_info \<Rightarrow> string" where
  "sys_get_current_timezone reply = ti_shortname reply"

text \<open>
  The time is put into the request as it is, without \<open>encodeTimestamp\<close>: a field of the type of
  a message takes a message, given here by its fields, or nothing.
\<close>

datatype info_time = NoTime | TimeMessage "int \<times> int" | OtherTime

definition sys_get_timezone_info :: "string option \<Rightarrow> info_time \<Rightarrow> sys_call result" where
  "sys_get_timezone_info canonical_zone time =
     (case time of
        OtherTime \<Rightarrow> Inl TypeError
      | NoTime \<Rightarrow> Inr (GetTimezoneInfo \<lparr>ir_canonical_zone = text_field canonical_zone, ir_time = None\<rparr>)
      | TimeMessage t \<Rightarrow> Inr (GetTimezoneInfo \<lparr>ir_canonical_zone = text_field canonical_zone, ir_time = Some t\<rparr>))"

definition sys_invoke_sync :: "string list \<Rightarrow> string option \<Rightarrow> string option \<Rightarrow> sys_call" where
  "sys_invoke_sync argv working_directory stdin =
     InvokeSync \<lparr>iv_argv = argv, iv_working_directory = text_field working_directory, iv_stdin = text_field stdin\<rparr>"

definition sys_invoke_async :: "string list \<Rightarrow> string option \<Rightarrow> string option \<Rightarrow> sys_call" where
  "sys_invoke_async argv working_directory stdin =
     InvokeAsync \<lparr>iv_argv = argv, iv_working_directory = text_field working_directory, iv_stdin = text_field stdin\<rparr>"

definition sys_invoke_finish :: "int \<Rightarrow> string option \<Rightarrow> sys_call" where
  "sys_invoke_finish pid stdin = InvokeFinish \<lparr>cn_pid = pid, cn_stdin = text_field stdin\<rparr>"

subsection \<open>Times that are set and read\<close>

text \<open>Setting the time and reading it back, when the server returns what it was given.\<close>

definition set_and_get_time :: "('s, 'd) clock \<Rightarrow> ('s, 'd) time_input \<Rightarrow> py_float result option" where
  "set_and_get_time c timestamp =
     map_option (\<lambda>r. bind_result r (\<lambda>call. case call of SetCurrentTime t \<Rightarrow> sys_get_current_time t | _ \<Rightarrow> Inl RuntimeError))
       (sys_set_current_time c timestamp)"

text \<open>
  A time of whole seconds, from the epoch to the limit of automatic scaling, is read back as it
  was set.
\<close>

theorem time_read_back:
  assumes "0 \<le> n" and "n < 31536000000"
  shows "set_and_get_time c (InPoint (Fin (of_int n))) = Some (Inr (Fin (of_int n)))"
proof -
  have n: "\<bar>n\<bar> \<le> 2 ^ 53" using assms by simp
  have whole: "rnd (of_int n) = of_int n" "rnd (0 :: rat) = 0" using rnd_exact[OF is_f64_int[OF n]] rnd_exact[OF is_f64_int[of 0]] by simp_all
  have zero: "py_trunc 0 = 0" using py_trunc_of_int[of 0] by simp
  have "encodeTimestamp c (InPoint (Fin (of_int n))) = Some (Inr (n, 0))"
    using assms n whole
    by (simp add: encodeTimestamp_def point_from_value_def point_sub_int[OF n] fsub_def fmul_def proto_fields_def py_trunc_of_int zero)
  moreover have "decodeTimestamp (n, 0) = Inr (Fin (of_int n))"
    using whole by (simp add: decodeTimestamp_def point_from_protobuf_def from_epoch_def epoch_part_def fadd_def fdiv_def float_of_int_def)
  ultimately show ?thesis by (simp add: set_and_get_time_def sys_set_current_time_def sys_get_current_time_def)
qed

theorem time_read_back_witness:
  "\<forall>c :: (nat, nat) clock. set_and_get_time c (InPoint (Fin 1700000000)) = Some (Inr (Fin 1700000000))"
proof
  fix c :: "(nat, nat) clock"
  show "set_and_get_time c (InPoint (Fin 1700000000)) = Some (Inr (Fin 1700000000))"
    using time_read_back[of 1700000000 c] by simp
qed

end
