(* ===== verification/Grpc_Base.thy ===== *)
theory Grpc_Base
  imports Zmq_Endpoint Py_Regex
begin

section \<open>gRPC endpoints (\<open>messaging/grpc/base.py\<close>, \<open>client\<close>, \<open>request_handler\<close>, \<open>server\<close>, \<open>status.py\<close>)\<close>

text \<open>
  The addresses and names of gRPC endpoints, what the interceptors of a client do to a call
  and to its outcome, and how request handlers are added to a server. The grpc package is not
  part of the sources: channels, stubs and servers are known by what they are given.
\<close>

subsection \<open>Addresses\<close>

definition address_regex :: regex where
  "address_regex = sequence
     [Group 1 (Alt (sequence [only CHR ''['', Many bracket_char 0, only CHR '']'']) (Many host_char 0)),
      Opt (sequence [only CHR '':'', Group 2 (Many is_digit 1)]),
      EndOfText]"

text \<open>A text that does not match is treated like an empty one.\<close>

definition grpc_splitAddress :: "string \<Rightarrow> string \<times> nat option" where
  "grpc_splitAddress target =
     (case regex_match address_regex target of
        None \<Rightarrow> ([], None)
      | Some (rest, groups) \<Rightarrow>
          (dict_get_default groups 1 [], map_option (nat_of_digits 0) (dict_get groups 2)))"

definition grpc_joinAddress :: "(variant \<Rightarrow> string) \<Rightarrow> variant \<times> variant \<Rightarrow> string option" where
  "grpc_joinAddress repr pair =
     (if snd pair \<noteq> VNull then Some (py_str repr (fst pair) @ '':'' @ py_str repr (snd pair)) else None)"

definition grpc_realaddress ::
    "vmap \<Rightarrow> string \<Rightarrow> string option \<Rightarrow> string \<Rightarrow> string \<Rightarrow> string \<Rightarrow> nat \<Rightarrow> (variant \<times> variant) result" where
  "grpc_realaddress settings service provided hostOption portOption defaultHost defaultPort =
     (let (host, port) = grpc_splitAddress (case provided of None \<Rightarrow> [] | Some text \<Rightarrow> text) in
      bind_result (if hostOption \<noteq> [] \<and> host = [] then setting settings service hostOption (VStr defaultHost)
                   else Inr (VStr host))
        (\<lambda>host.
      bind_result (if portOption \<noteq> [] \<and> port = None then setting settings service portOption (VInt (int defaultPort))
                   else Inr (case port of None \<Rightarrow> VNull | Some p \<Rightarrow> VInt (int p)))
        (\<lambda>port. Inr (host, port))))"

definition client_address :: "vmap \<Rightarrow> string \<Rightarrow> string option \<Rightarrow> (variant \<times> variant) result" where
  "client_address settings service host = grpc_realaddress settings service host ''host'' ''port'' ''localhost'' 8080"

definition handler_address :: "vmap \<Rightarrow> string \<Rightarrow> string \<Rightarrow> (variant \<times> variant) result" where
  "handler_address settings service bind_address =
     grpc_realaddress settings service (Some bind_address) ''interface'' ''port'' ''[::]'' 8080"

subsection \<open>Names of services\<close>

text \<open>\<open>rsplit(sep)\<close>, without a limit, for a separator that does not overlap itself.\<close>

fun split_text :: "string \<Rightarrow> string \<Rightarrow> string \<Rightarrow> string list" where
  "split_text sep acc [] = [acc]"
| "split_text sep acc (c # cs) =
     (if take (length sep) (c # cs) = sep then acc # split_text sep [] (drop (length sep - 1) cs)
      else split_text sep (acc @ [c]) cs)"

text \<open>The unpacking into two variables raises unless there are two parts.\<close>

definition strip_suffix :: "string \<Rightarrow> string \<Rightarrow> string result" where
  "strip_suffix sep name =
     (case split_text sep [] name of [service, _] \<Rightarrow> Inr service | _ \<Rightarrow> Inl ValueError)"

definition default_service_name :: "string \<Rightarrow> string result" where
  "default_service_name stub_name = strip_suffix ''Stub'' stub_name"

definition endswith :: "string \<Rightarrow> string \<Rightarrow> bool" where
  "endswith name suffix \<longleftrightarrow> length suffix \<le> length name \<and> drop (length name - length suffix) name = suffix"

text \<open>The classes of the method resolution order are given by their names.\<close>

definition servicer_name :: "string list \<Rightarrow> string result" where
  "servicer_name mro =
     (case find (\<lambda>name. endswith name ''Servicer'') mro of None \<Rightarrow> Inl TypeError | Some name \<Rightarrow> Inr name)"

definition handler_service_name :: "string list \<Rightarrow> string result" where
  "handler_service_name mro = bind_result (servicer_name mro) (strip_suffix ''Servicer'')"

subsection \<open>Intercepted calls\<close>

record call_details =
  call_method :: string
  call_timeout :: "rat option"
  call_metadata :: "(string \<times> string) list option"
  call_wait_for_ready :: "bool option"

definition call_details_with :: "bool \<Rightarrow> call_details \<Rightarrow> call_details" where
  "call_details_with wait_for_ready details =
     (case call_wait_for_ready details of
        None \<Rightarrow> details\<lparr>call_wait_for_ready := Some wait_for_ready\<rparr>
      | Some w \<Rightarrow> details)"

text \<open>
  How a call fails: with the exception of the package, or with a \<open>DetailedError\<close> made from it.
  Other exceptions pass.
\<close>

datatype 'e call_error = Plain 'e | Detailed 'e | OtherError py_error

fun detail :: "'e call_error \<Rightarrow> 'e call_error" where
  "detail (Plain e) = Detailed e"
| "detail e = e"

text \<open>A stream yields its messages, then ends or fails.\<close>

definition intercept_stream ::
    "bool \<Rightarrow> bool \<Rightarrow> (call_details \<Rightarrow> 'r \<Rightarrow> 'm list \<times> 'e call_error option) \<Rightarrow> call_details \<Rightarrow> 'r
     \<Rightarrow> 'm list \<times> 'e call_error option" where
  "intercept_stream wait_for_ready intercept_errors continuation details request =
     (case continuation (call_details_with wait_for_ready details) request of
        (ms, None) \<Rightarrow> (ms, None)
      | (ms, Some e) \<Rightarrow> (ms, Some (if intercept_errors then detail e else e)))"

text \<open>The future of a response; \<open>result\<close> does not ask whether errors are to be intercepted.\<close>

definition future_result :: "('e call_error + 'm) \<Rightarrow> rat option \<Rightarrow> ('e call_error + 'm)" where
  "future_result response timeout = map_sum detail id response"

definition intercept_response ::
    "bool \<Rightarrow> bool \<Rightarrow> (call_details \<Rightarrow> 'r \<Rightarrow> 'e call_error + 'm) \<Rightarrow> call_details \<Rightarrow> 'r \<Rightarrow> rat option \<Rightarrow> 'e call_error + 'm" where
  "intercept_response wait_for_ready intercept_errors continuation details request timeout =
     future_result (continuation (call_details_with wait_for_ready details) request) timeout"

definition future_exception :: "('e call_error + 'm) \<Rightarrow> 'e option result" where
  "future_exception response = Inl AttributeError"

definition async_intercept_response ::
    "bool \<Rightarrow> bool \<Rightarrow> (call_details \<Rightarrow> 'r \<Rightarrow> 'e call_error + 'm) \<Rightarrow> call_details \<Rightarrow> 'r \<Rightarrow> 'e call_error + 'm" where
  "async_intercept_response wait_for_ready intercept_errors continuation details request =
     map_sum detail id (continuation (call_details_with wait_for_ready details) request)"

text \<open>\<open>custom_details\<close>: the first value under the key, parsed, or an empty text.\<close>

definition custom_details :: "('b \<Rightarrow> 'd result) \<Rightarrow> (string \<times> 'b) list \<Rightarrow> 'd option result" where
  "custom_details parse metadata =
     (case find (\<lambda>(key, blob). key = ''grpc-status-details-bin'') metadata of
        None \<Rightarrow> Inr None
      | Some (_, blob) \<Rightarrow> map_sum id Some (parse blob))"

subsection \<open>Request handlers and servers\<close>

text \<open>
  A handler has a name for the service that its class stands for, and an address. The server
  of the package records what was added.
\<close>

record handler =
  hd_servicer :: "string list"
  hd_address :: "variant \<times> variant"

record grpc_server =
  gs_services :: "string list"
  gs_ports :: "string option list"

record server_wrapper =
  sw_server :: grpc_server
  sw_handlers :: "handler list"

definition bind_address :: "(variant \<Rightarrow> string) \<Rightarrow> handler \<Rightarrow> string option" where
  "bind_address repr h = grpc_joinAddress repr (hd_address h)"

definition add_to_server :: "(variant \<Rightarrow> string) \<Rightarrow> handler \<Rightarrow> bool \<Rightarrow> grpc_server \<Rightarrow> grpc_server result" where
  "add_to_server repr h add_listener server =
     bind_result (servicer_name (hd_servicer h)) (\<lambda>name.
       let server' = server\<lparr>gs_services := gs_services server @ [name]\<rparr> in
       Inr (if add_listener then server'\<lparr>gs_ports := gs_ports server' @ [bind_address repr h]\<rparr> else server'))"

text \<open>The handler is in the wrapper's list before it is added, and stays there if that fails.\<close>

definition add_request_handler ::
    "(variant \<Rightarrow> string) \<Rightarrow> handler \<Rightarrow> bool \<Rightarrow> server_wrapper \<Rightarrow> server_wrapper \<times> py_error option" where
  "add_request_handler repr h add_listener w =
     (let w' = w\<lparr>sw_handlers := sw_handlers w @ [h]\<rparr> in
      case add_to_server repr h add_listener (sw_server w') of
        Inl e \<Rightarrow> (w', Some e)
      | Inr server \<Rightarrow> (w'\<lparr>sw_server := server\<rparr>, None))"

datatype handlers_arg = SeveralHandlers "handler list" | OneHandler handler | NoHandlers | OtherHandlers bool

fun add_handlers :: "(variant \<Rightarrow> string) \<Rightarrow> handler list \<Rightarrow> server_wrapper \<Rightarrow> server_wrapper result" where
  "add_handlers repr [] w = Inr w"
| "add_handlers repr (h # hs) w =
     (case add_request_handler repr h True w of
        (w', None) \<Rightarrow> add_handlers repr hs w'
      | (w', Some e) \<Rightarrow> Inl e)"

definition new_wrapper :: "server_wrapper" where
  "new_wrapper = \<lparr>sw_server = \<lparr>gs_services = [], gs_ports = []\<rparr>, sw_handlers = []\<rparr>"

definition init_wrapper :: "(variant \<Rightarrow> string) \<Rightarrow> handlers_arg \<Rightarrow> server_wrapper result" where
  "init_wrapper repr handlers =
     (case handlers of
        SeveralHandlers hs \<Rightarrow> add_handlers repr hs new_wrapper
      | OneHandler h \<Rightarrow> add_handlers repr [h] new_wrapper
      | NoHandlers \<Rightarrow> Inr new_wrapper
      | OtherHandlers b \<Rightarrow> if b then Inl TypeError else Inr new_wrapper)"

text \<open>\<open>add_listener\<close> refers to a variable that is not bound.\<close>

definition add_listener :: "string \<Rightarrow> server_wrapper \<Rightarrow> server_wrapper result" where
  "add_listener address w = Inl NameError"

definition wrapper_addresses :: "server_wrapper \<Rightarrow> (variant \<times> variant) list" where
  "wrapper_addresses w = map hd_address (sw_handlers w)"

text \<open>\<open>_wrap\<close>: a method that returns nothing answers with an empty message.\<close>

definition wrap_response :: "'m \<Rightarrow> 'm option \<Rightarrow> 'm" where
  "wrap_response blank response = (case response of Some m \<Rightarrow> m | None \<Rightarrow> blank)"

end
