(* ===== verification/Grpc_Base_Props.thy ===== *)
theory Grpc_Base_Props
  imports Grpc_Base
begin

section \<open>Properties of gRPC endpoints\<close>

text \<open>
  Which addresses are understood, which names the two ends of a service compute for it, and
  what the interceptors preserve.
\<close>

subsection \<open>Addresses\<close>

text \<open>A host as the pattern has it: a bracketed address or a run of host characters.\<close>

definition host_text :: "string \<Rightarrow> bool" where
  "host_text h \<longleftrightarrow> list_all host_char h \<or> (\<exists>a. h = ''['' @ a @ '']'' \<and> list_all bracket_char a)"

lemma host_char_facts: "\<not> host_char CHR '':''" "\<not> host_char CHR ''[''" "\<not> bracket_char CHR '']''" "\<not> is_digit CHR '':''"
  by (simp_all add: host_char_def bracket_char_def is_word_def is_alpha_def is_digit_def)

lemma leads_host:
  assumes "host_text h" and "case ys of [] \<Rightarrow> True | y # _ \<Rightarrow> y = CHR '':''"
  shows "leads (Alt (sequence [only CHR ''['', Many bracket_char 0, only CHR '']'']) (Many host_char 0)) (h @ ys, g) (ys, g)"
proof (cases "list_all host_char h")
  case True
  have "attempts (sequence [only CHR ''['', Many bracket_char 0, only CHR '']'']) (h @ ys, g) = []"
    using True assms(2) host_char_facts by (cases h; cases ys) (auto simp: only_def)
  moreover have "dropWhile host_char (h @ ys) = ys"
    using takeWhile_stop[OF True, of ys] assms(2) host_char_facts by (cases ys) auto
  then have "leads (Many host_char 0) (h @ ys, g) (ys, g)" using leads_many[of 0 host_char "h @ ys" g] by simp
  ultimately show ?thesis by (rule leads_alt_right)
next
  case False
  with assms(1) obtain a where a: "h = ''['' @ a @ '']''" "list_all bracket_char a" unfolding host_text_def by blast
  have many: "leads (Many bracket_char 0) (a @ CHR '']'' # ys, g) (CHR '']'' # ys, g)"
    using leads_many[of 0 bracket_char "a @ CHR '']'' # ys" g] takeWhile_stop[OF a(2), of "CHR '']'' # ys"] host_char_facts by simp
  have "leads (sequence [only CHR ''['', Many bracket_char 0, only CHR '']'']) (CHR ''['' # a @ CHR '']'' # ys, g) (ys, g)"
    by (rule leads_sequence[OF leads_only], rule leads_sequence[OF many leads_sequence[OF leads_only leads_sequence_nil]])
  then show ?thesis unfolding a(1) by (intro leads_alt_left) simp
qed

lemma split_host_port:
  assumes "host_text h" and "ds \<noteq> []" and "list_all is_digit ds"
  shows "grpc_splitAddress (h @ '':'' @ ds) = (h, Some (nat_of_digits 0 ds))"
proof -
  have port: "leads (sequence [only CHR '':'', Group 2 (Many is_digit 1)]) ('':'' @ ds, g) ([], dict_set 2 ds g)" for g
    using leads_digits[OF assms(2,3), of "[]" 2 g]
    by (auto intro!: leads_sequence leads_only leads_sequence_nil)
  have "leads address_regex (h @ '':'' @ ds, []) ([], dict_set 2 ds (dict_set 1 h []))"
    unfolding address_regex_def
    by (rule leads_sequence[OF leads_group_prefix[OF leads_host[OF assms(1)]]], simp,
        rule leads_sequence[OF leads_opt[OF port]], rule leads_sequence[OF leads_end leads_sequence_nil])
      (simp add: at_end_def)
  from leads_match[OF this] show ?thesis by (simp add: grpc_splitAddress_def dict_get_default_def)
qed

text \<open>
  An address with a host and a port survives: what a client computes from it, whatever the
  settings, is joined to the same text again, up to leading zeros of the port.
\<close>

theorem grpc_address_roundtrip:
  assumes "host_text h" and "h \<noteq> []"
  shows "map_sum id (grpc_joinAddress repr) (grpc_realaddress settings service (Some (h @ '':'' @ digits_of_nat n))
      hostOption portOption defaultHost defaultPort) = Inr (Some (h @ '':'' @ digits_of_nat n))"
proof -
  have "list_all is_digit (digits_of_nat n)" using digits_of_nat_digits by (simp add: list_all_iff)
  then have "grpc_splitAddress (h @ '':'' @ digits_of_nat n) = (h, Some n)"
    using split_host_port[OF assms(1)] by (simp add: nat_of_digits_of_nat)
  with assms(2) show ?thesis
    by (simp add: grpc_realaddress_def grpc_joinAddress_def string_of_int_def)
qed

theorem grpc_address_roundtrip_witness:
  "map_sum id (grpc_joinAddress (\<lambda>_. [])) (grpc_realaddress [] ''X'' (Some ''[::1]:80'') ''host'' ''port'' ''localhost'' 8080)
    = Inr (Some ''[::1]:80'')"
proof -
  have "''[::1]'' = ''['' @ ''::1'' @ '']'' \<and> list_all bracket_char ''::1''"
    by (simp add: bracket_char_def is_word_def is_digit_def)
  then have "host_text ''[::1]''" unfolding host_text_def by blast
  moreover have "digits_of_nat 80 = ''80''" by code_simp
  ultimately show ?thesis using grpc_address_roundtrip[of "''[::1]''" _ _ _ 80] by simp
qed

subsection \<open>Names\<close>

fun contains :: "string \<Rightarrow> string \<Rightarrow> bool" where
  "contains sep [] = (sep = [])"
| "contains sep (c # cs) = (take (length sep) (c # cs) = sep \<or> contains sep cs)"

lemma split_text_at_end:
  assumes "x \<notin> set xs"
  shows "\<not> contains (x # xs) name \<Longrightarrow> split_text (x # xs) acc (name @ x # xs) = [acc @ name, []]"
proof (induction name arbitrary: acc)
  case (Cons c cs)
  have "take (length xs) (cs @ x # xs) \<noteq> xs" if c: "c = x"
  proof
    assume t: "take (length xs) (cs @ x # xs) = xs"
    show False
    proof (cases "length xs \<le> length cs")
      case True
      with t Cons.prems c show False by simp
    next
      case False
      then have "x \<in> set (take (length xs) (cs @ x # xs))" by (cases "length xs - length cs") auto
      with t assms show False by simp
    qed
  qed
  with Cons show ?case by simp
qed simp

text \<open>
  The client of a service and its request handler look up the same name in the settings:
  what the client makes of the name of its stub and what the handler makes of the name of the
  servicer it derives from, if the name of the service contains neither suffix itself.
\<close>

theorem service_names_agree:
  assumes "\<not> contains ''Stub'' service" and "\<not> contains ''Servicer'' service"
    and "list_all (\<lambda>c. \<not> endswith c ''Servicer'') derived"
  shows "default_service_name (service @ ''Stub'') = Inr service
    \<and> handler_service_name (derived @ (service @ ''Servicer'') # bases) = Inr service"
proof -
  have "endswith (service @ ''Servicer'') ''Servicer''" by (simp add: endswith_def)
  then have found: "servicer_name (derived @ (service @ ''Servicer'') # bases) = Inr (service @ ''Servicer'')"
    using assms(3) unfolding servicer_name_def by (induction derived) auto
  show ?thesis
    using split_text_at_end[of "CHR ''S''" "''tub''" service "[]"] split_text_at_end[of "CHR ''S''" "''ervicer''" service "[]"] assms
    by (simp add: default_service_name_def handler_service_name_def strip_suffix_def found)
qed

theorem service_names_agree_witness:
  "default_service_name ''SwitchboardStub'' = Inr ''Switchboard''
    \<and> handler_service_name [''RequestHandler'', ''SwitchboardServicer'', ''object''] = Inr ''Switchboard''"
  using service_names_agree[of "''Switchboard''" "[''RequestHandler'']" "[''object'']"] by (simp add: endswith_def)

subsection \<open>Servers\<close>

lemma add_handlers_all:
  "add_handlers repr hs w =
     bind_result (map_result (\<lambda>h. servicer_name (hd_servicer h)) hs) (\<lambda>names.
       Inr \<lparr>sw_server = \<lparr>gs_services = gs_services (sw_server w) @ names,
                         gs_ports = gs_ports (sw_server w) @ map (bind_address repr) hs\<rparr>,
            sw_handlers = sw_handlers w @ hs\<rparr>)"
proof (induction hs arbitrary: w)
  case (Cons h hs)
  show ?case
  proof (cases "servicer_name (hd_servicer h)")
    case (Inr name)
    then show ?thesis
      by (cases "map_result (\<lambda>h. servicer_name (hd_servicer h)) hs")
        (simp_all add: add_request_handler_def add_to_server_def Cons.IH)
  qed (simp add: add_request_handler_def add_to_server_def)
qed simp

text \<open>
  A server offers the service of each of its request handlers and listens at the address of
  each, in the order given; if one of them derives from no generated class there is no server.
\<close>

theorem handlers_served:
  "init_wrapper repr (SeveralHandlers hs) =
     (case map_result (\<lambda>h. servicer_name (hd_servicer h)) hs of
        Inl e \<Rightarrow> Inl e
      | Inr names \<Rightarrow> Inr \<lparr>sw_server = \<lparr>gs_services = names, gs_ports = map (bind_address repr) hs\<rparr>, sw_handlers = hs\<rparr>)"
  by (simp add: init_wrapper_def add_handlers_all new_wrapper_def
      split: sum.split)

end
