(* ===== verification/Proto_Utils.thy ===== *)
theory Proto_Utils
  imports Py_Regex Complex_Main
begin

section \<open>Protobuf helpers (\<open>protobuf/version\<close>, \<open>protobuf/datetime\<close>, \<open>protobuf/utils/import_proto.py\<close>)\<close>

text \<open>
  Versions, time intervals and broken-down times as messages, and the import of generated
  modules into namespaces. The generated classes are records and datatypes with the members
  that the sources use.
\<close>

subsection \<open>Versions\<close>

record version_message =
  vm_major :: nat
  vm_minor :: nat
  vm_patch :: nat
  vm_build :: nat
  vm_printable :: string

definition new_version :: "nat \<Rightarrow> nat \<Rightarrow> nat \<Rightarrow> string option \<Rightarrow> version_message" where
  "new_version major minor patch printable =
     \<lparr>vm_major = major, vm_minor = minor, vm_patch = patch, vm_build = 0,
      vm_printable = (case printable of None \<Rightarrow> [] | Some s \<Rightarrow> s)\<rparr>"

text \<open>The field is called \<open>printable_version\<close>, and not \<open>printed_version\<close> as in \<open>to_string\<close>.\<close>

definition version_to_string :: "version_message \<Rightarrow> string result" where
  "version_to_string v = Inl AttributeError"

definition number_after :: "char \<Rightarrow> nat \<Rightarrow> regex" where
  "number_after c i = Opt (sequence [only c, Group i (Many is_digit 1)])"

definition version_regex :: regex where
  "version_regex = sequence
     [Group 1 (Many is_digit 1), number_after CHR ''.'' 2, number_after CHR ''.'' 3, number_after CHR ''-'' 4]"

text \<open>A number that the field cannot hold, \<open>limit\<close> or more, is refused.\<close>

definition version_from_string :: "nat \<Rightarrow> string \<Rightarrow> version_message result" where
  "version_from_string limit s =
     (case regex_match version_regex s of
        None \<Rightarrow> Inr (new_version 0 0 0 (Some s))
      | Some (rest, groups) \<Rightarrow>
          (let number = \<lambda>i. nat_of_digits 0 (dict_get_default groups i []) in
           if list_all (\<lambda>i. number i < limit) [1, 2, 3, 4]
           then Inr \<lparr>vm_major = number 1, vm_minor = number 2, vm_patch = number 3, vm_build = number 4, vm_printable = s\<rparr>
           else Inl ValueError))"

definition is_compatible :: "version_message \<Rightarrow> version_message \<Rightarrow> bool \<Rightarrow> bool" where
  "is_compatible client server strict \<longleftrightarrow>
     vm_major client = vm_major server \<and> (vm_minor client \<le> vm_minor server \<or> \<not> strict)"

subsection \<open>Intervals\<close>

datatype time_unit =
    ZeroTime | Nanosecond | Microsecond | Millisecond | Second | Minute | Hour | Day | Week | Month | Year | Eternity

record interval_message =
  im_count :: int
  im_unit :: time_unit

text \<open>A \<open>timedelta\<close> is a number of microseconds within its range; days, seconds and microseconds are its normal form.\<close>

definition us_per_day :: int where "us_per_day = 86400000000"

definition max_timedelta :: int where "max_timedelta = 1000000000 * us_per_day - 1"

definition td_days :: "int \<Rightarrow> int" where "td_days t = t div us_per_day"

definition td_seconds :: "int \<Rightarrow> int" where "td_seconds t = (t mod us_per_day) div 1000000"

definition td_microseconds :: "int \<Rightarrow> int" where "td_microseconds t = t mod 1000000"

definition timedelta :: "int \<Rightarrow> int result" where
  "timedelta t = (if - 999999999 * us_per_day \<le> t \<and> t \<le> max_timedelta then Inr t else Inl OverflowError)"

datatype interval_arg =
    NoInterval | IntervalMessage interval_message | UnitArg time_unit | PairArg int time_unit | DeltaArg int | OtherInterval

text \<open>
  The branches for a unit and for a pair read the name \<open>interval\<close>, which is not bound, and
  those for parts of a second read units that the enumeration does not have. The number of
  whole seconds is a \<open>float\<close>, which is exact here; what the message does with a \<open>float\<close> count
  is the parameter \<open>store\<close>.
\<close>

definition encode_interval ::
    "(rat \<Rightarrow> int result) \<Rightarrow> interval_arg \<Rightarrow> interval_message option \<Rightarrow> interval_message result" where
  "encode_interval store input given =
     (let out = (case given of None \<Rightarrow> \<lparr>im_count = 0, im_unit = ZeroTime\<rparr> | Some m \<Rightarrow> m) in
      case input of
        NoInterval \<Rightarrow> Inr (out\<lparr>im_count := 0, im_unit := ZeroTime\<rparr>)
      | IntervalMessage m \<Rightarrow> Inr m
      | UnitArg u \<Rightarrow> Inl NameError
      | PairArg n u \<Rightarrow> Inl NameError
      | OtherInterval \<Rightarrow> Inl TypeError
      | DeltaArg t \<Rightarrow>
          (if t = max_timedelta then Inr (out\<lparr>im_unit := Eternity\<rparr>)
           else if td_microseconds t \<noteq> 0 then Inl AttributeError
           else if td_seconds t \<noteq> 0 then
             (let seconds = t div 1000000;
                  (unit, count) = (if seconds mod 60 \<noteq> 0 then (Second, seconds)
                                   else if seconds mod 3600 \<noteq> 0 then (Minute, seconds div 60)
                                   else (Hour, seconds div 3600)) in
              bind_result (store (of_int count)) (\<lambda>n. Inr (out\<lparr>im_unit := unit, im_count := n\<rparr>)))
           else if td_days t \<noteq> 0 then Inr (out\<lparr>im_unit := Day, im_count := td_days t\<rparr>)
           else Inr (out\<lparr>im_unit := ZeroTime\<rparr>)))"

text \<open>
  \<open>nanos\<close> and \<open>years\<close> are what the constructor makes of counts that are not whole
  microseconds; the other units are exact.
\<close>

definition decode_interval :: "(int \<Rightarrow> int) \<Rightarrow> (int \<Rightarrow> int) \<Rightarrow> interval_message \<Rightarrow> int result" where
  "decode_interval nanos years m =
     (case im_unit m of
        ZeroTime \<Rightarrow> timedelta 0
      | Nanosecond \<Rightarrow> timedelta (nanos (im_count m))
      | Microsecond \<Rightarrow> timedelta (im_count m)
      | Millisecond \<Rightarrow> timedelta (1000 * im_count m)
      | Second \<Rightarrow> timedelta (1000000 * im_count m)
      | Minute \<Rightarrow> timedelta (60000000 * im_count m)
      | Hour \<Rightarrow> timedelta (3600000000 * im_count m)
      | Day \<Rightarrow> timedelta (us_per_day * im_count m)
      | Week \<Rightarrow> timedelta (7 * us_per_day * im_count m)
      | Month \<Rightarrow> timedelta (30 * us_per_day * im_count m)
      | Year \<Rightarrow> timedelta (years (im_count m))
      | Eternity \<Rightarrow> Inr max_timedelta)"

subsection \<open>Broken-down times\<close>

record time_struct =
  tm_year :: int
  tm_mon :: int
  tm_mday :: int
  tm_hour :: int
  tm_min :: int
  tm_sec :: int
  tm_wday :: int
  tm_yday :: int
  tm_isdst :: int

text \<open>The message counts the days of the week from Sunday. There is no class \<open>time.time_struct\<close>.\<close>

definition encode_time_struct :: "time_struct \<Rightarrow> time_struct" where
  "encode_time_struct t = t\<lparr>tm_wday := (tm_wday t + 1) mod 7\<rparr>"

definition decode_time_struct :: "time_struct \<Rightarrow> time_struct result" where
  "decode_time_struct t = Inl AttributeError"

subsection \<open>Namespaces\<close>

text \<open>
  A scope is a dictionary or an object with attributes; anything else is a leaf, to which no
  attribute can be added. Containers that are missing are created as objects.
\<close>

datatype 'v scope = Leaf 'v | Scope bool "(string \<times> 'v scope) list"

fun contents :: "'v scope \<Rightarrow> (string, 'v scope) dict" where
  "contents (Leaf v) = []"
| "contents (Scope b kvs) = kvs"

definition add_container :: "'v scope \<Rightarrow> string \<Rightarrow> ('v scope \<times> 'v scope) result" where
  "add_container sc name =
     (case sc of
        Leaf v \<Rightarrow> Inl AttributeError
      | Scope b kvs \<Rightarrow>
          (case dict_get kvs name of
             Some container \<Rightarrow> Inr (container, sc)
           | None \<Rightarrow> Inr (Scope False [], Scope b (dict_set name (Scope False []) kvs))))"

definition public_items :: "(string, 'v) dict \<Rightarrow> (string, 'v) dict" where
  "public_items symbols = filter (\<lambda>(name, v). case name of [] \<Rightarrow> True | c # _ \<Rightarrow> c \<noteq> CHR ''_'') symbols"

definition populate_container :: "'v scope \<Rightarrow> (string, 'v) dict \<Rightarrow> 'v scope result" where
  "populate_container sc symbols =
     (case sc of
        Leaf v \<Rightarrow> if public_items symbols = [] then Inr sc else Inl AttributeError
      | Scope b kvs \<Rightarrow> Inr (Scope b (fold (\<lambda>(name, v). dict_set name (Leaf v)) (public_items symbols) kvs)))"

text \<open>\<open>import_into\<close> is the loop of \<open>import_proto\<close>; the container updated stays in its scope.\<close>

fun import_into :: "string list \<Rightarrow> (string, 'v) dict \<Rightarrow> 'v scope \<Rightarrow> 'v scope result" where
  "import_into [] symbols sc = populate_container sc symbols"
| "import_into (name # names) symbols sc =
     bind_result (add_container sc name) (\<lambda>(container, sc').
     bind_result (import_into names symbols container) (\<lambda>container'.
       Inr (case sc' of Leaf v \<Rightarrow> sc' | Scope b kvs \<Rightarrow> Scope b (dict_set name container' kvs))))"

record 'v module =
  mod_package :: string
  mod_symbols :: "(string, 'v) dict"

text \<open>What can be imported is a parameter. The suffix of generated modules is added if it is missing.\<close>

definition module_name_of :: "string \<Rightarrow> string" where
  "module_name_of name = (if 4 \<le> length name \<and> drop (length name - 4) name = ''_pb2'' then name else name @ ''_pb2'')"

definition import_proto :: "(string \<Rightarrow> 'v module result) \<Rightarrow> string \<Rightarrow> string option \<Rightarrow> 'v scope \<Rightarrow> 'v scope result" where
  "import_proto find_module name namespace sc =
     bind_result (find_module (module_name_of name)) (\<lambda>m.
       let package = (case namespace of None \<Rightarrow> mod_package m | Some given \<Rightarrow> given) in
       import_into (if package = [] then [] else split_on CHR ''.'' package) (mod_symbols m) sc)"

fun import_all :: "(string \<Rightarrow> 'v module result) \<Rightarrow> string list \<Rightarrow> string option \<Rightarrow> 'v scope \<Rightarrow> 'v scope result" where
  "import_all find_module [] namespace sc = Inr sc"
| "import_all find_module (name # names) namespace sc =
     bind_result (import_proto find_module name namespace sc) (import_all find_module names namespace)"

definition import_wellknown_protos :: "(string \<Rightarrow> 'v module result) \<Rightarrow> string option \<Rightarrow> 'v scope \<Rightarrow> 'v scope result" where
  "import_wellknown_protos find_module =
     import_all find_module (map (\<lambda>base. ''google.protobuf.'' @ base)
       [''empty'', ''wrappers'', ''duration'', ''timestamp'', ''struct''])"

definition import_core_protos :: "(string \<Rightarrow> 'v module result) \<Rightarrow> string option \<Rightarrow> 'v scope \<Rightarrow> 'v scope result" where
  "import_core_protos find_module =
     import_all find_module (map (\<lambda>base. ''cc.protobuf.'' @ base @ ''.'' @ base)
       [''datetime'', ''quantities'', ''request_reply'', ''signal'', ''status'', ''variant'', ''version''])"

definition import_common_protos :: "(string \<Rightarrow> 'v module result) \<Rightarrow> string option \<Rightarrow> 'v scope \<Rightarrow> 'v scope result" where
  "import_common_protos find_module namespace sc =
     bind_result (import_wellknown_protos find_module namespace sc) (import_core_protos find_module namespace)"

end
