(* ===== verification/Proto_Utils_Props.thy ===== *)
theory Proto_Utils_Props
  imports Proto_Utils Platform
begin

section \<open>Properties of the protobuf helpers\<close>

text \<open>
  Versions and intervals come back from their messages, and an import adds the names of a
  module to one namespace and to nothing else.
\<close>

subsection \<open>Versions\<close>

lemma leads_number_after:
  assumes "ds \<noteq> []" "list_all is_digit ds" "case ys of [] \<Rightarrow> True | y # _ \<Rightarrow> \<not> is_digit y"
  shows "leads (number_after c i) (c # ds @ ys, g) (ys, dict_set i ds g)"
  unfolding number_after_def
  by (rule leads_opt, rule leads_sequence[OF leads_only], rule leads_sequence[OF leads_digits[OF assms] leads_sequence_nil])

lemma leads_no_number: "case ys of [] \<Rightarrow> True | y # _ \<Rightarrow> y \<noteq> c \<Longrightarrow> leads (number_after c i) (ys, g) (ys, g)"
  unfolding number_after_def by (rule leads_opt_skip) (auto simp: only_def split: list.splits)

lemma digits_text: "digits_of_nat n \<noteq> []" "list_all is_digit (digits_of_nat n)"
  using digits_of_nat_digits by (auto simp: list_all_iff)

lemma separators: "\<not> is_digit CHR ''.''" "\<not> is_digit CHR ''-''"
  by (simp_all add: is_digit_def)

lemma version_text_match:
  "regex_match version_regex (digits_of_nat a @ ''.'' @ digits_of_nat b @ ''.'' @ digits_of_nat c)
    = Some ([], dict_set 3 (digits_of_nat c) (dict_set 2 (digits_of_nat b) (dict_set 1 (digits_of_nat a) [])))"
proof -
  let ?a = "digits_of_nat a" and ?b = "digits_of_nat b" and ?c = "digits_of_nat c"
  have "leads version_regex (?a @ CHR ''.'' # ?b @ CHR ''.'' # ?c @ [], [])
      ([], dict_set 3 ?c (dict_set 2 ?b (dict_set 1 ?a [])))"
    unfolding version_regex_def
    by (rule leads_sequence[OF leads_digits[OF digits_text]], simp add: separators,
        rule leads_sequence[OF leads_number_after[OF digits_text]], simp add: separators,
        rule leads_sequence[OF leads_number_after[OF digits_text]], simp,
        rule leads_sequence[OF leads_no_number leads_sequence_nil], simp)
  from leads_match[OF this] show ?thesis by simp
qed

text \<open>
  The version that the system service prints for a product without a printable version is
  read back with the same numbers.
\<close>

theorem printed_version_read_back:
  assumes "ver_printable v = []" and "ver_major v < limit" and "ver_minor v < limit" and "ver_patch v < limit"
  shows "version_from_string limit (get_printable_version None v) =
    Inr \<lparr>vm_major = ver_major v, vm_minor = ver_minor v, vm_patch = ver_patch v, vm_build = 0,
         vm_printable = get_printable_version None v\<rparr>"
proof -
  have "get_printable_version None v
      = digits_of_nat (ver_major v) @ ''.'' @ digits_of_nat (ver_minor v) @ ''.'' @ digits_of_nat (ver_patch v)"
    using assms(1) by (simp add: get_printable_version_def)
  then show ?thesis
    using assms version_text_match[of "ver_major v" "ver_minor v" "ver_patch v"]
    by (simp add: version_from_string_def dict_get_default_def nat_of_digits_of_nat)
qed

theorem printed_version_read_back_witness:
  "version_from_string 4294967296 ''1.20.3'' = Inr \<lparr>vm_major = 1, vm_minor = 20, vm_patch = 3, vm_build = 0, vm_printable = ''1.20.3''\<rparr>"
proof -
  have "get_printable_version None \<lparr>ver_printable = [], ver_major = 1, ver_minor = 20, ver_patch = 3\<rparr> = ''1.20.3''"
    by code_simp
  then show ?thesis
    using printed_version_read_back[of "\<lparr>ver_printable = [], ver_major = 1, ver_minor = 20, ver_patch = 3\<rparr>" 4294967296]
    by simp
qed

subsection \<open>Intervals\<close>

lemma multiple_div: "(s :: int) mod n = 0 \<Longrightarrow> n * (s div n) = s"
  by (metis add.right_neutral mult_div_mod_eq)

lemma whole_seconds:
  assumes "t mod 1000000 = 0"
  shows "td_seconds t = (t div 1000000) mod 86400" and "td_days t = (t div 1000000) div 86400"
proof -
  obtain s where t: "t = 1000000 * s" using multiple_div[OF assms] by metis
  have day: "us_per_day = 1000000 * 86400" by (simp add: us_per_day_def)
  show "td_seconds t = (t div 1000000) mod 86400" "td_days t = (t div 1000000) div 86400"
    unfolding td_seconds_def td_days_def day t by (simp_all only: mult_mod_right[symmetric] div_mult_mult1_if) simp_all
qed

text \<open>
  An interval of whole seconds, or the longest one, becomes a message and comes back
  unchanged, in the largest unit that divides it; any other raises. This needs a message that
  takes a whole number given as a float.
\<close>

theorem interval_roundtrip:
  assumes "timedelta t = Inr t" and "\<forall>n. store (of_int n) = Inr n"
  shows "bind_result (encode_interval store (DeltaArg t) None) (decode_interval nanos years) =
    (if t = max_timedelta \<or> t mod 1000000 = 0 then Inr t else Inl AttributeError)"
proof (cases "t = max_timedelta \<or> t mod 1000000 \<noteq> 0")
  case True
  then show ?thesis by (auto simp: encode_interval_def decode_interval_def td_microseconds_def)
next
  case False
  note w = whole_seconds[of t]
  let ?s = "t div 1000000"
  have s: "1000000 * ?s = t" using False multiple_div by auto
  have units: "60000000 * (?s div 60) = t" if "?s mod 60 = 0" using multiple_div[OF that] s by simp
  have hours: "3600000000 * (?s div 3600) = t" if "?s mod 3600 = 0" using multiple_div[OF that] s by simp
  have days: "us_per_day * td_days t = t" if "td_seconds t = 0"
    using multiple_div[of ?s 86400] that False s w by (simp add: us_per_day_def)
  have zero: "t = 0" if "td_seconds t = 0" "td_days t = 0" using days that by simp
  have "timedelta 0 = Inr 0" by (simp add: timedelta_def us_per_day_def max_timedelta_def)
  then show ?thesis using False assms s units hours days zero
    by (auto simp: encode_interval_def decode_interval_def td_microseconds_def Let_def)
qed

theorem interval_roundtrip_witness:
  "bind_result (encode_interval (\<lambda>q. Inr \<lfloor>q\<rfloor>) (DeltaArg 5400000000) None) (decode_interval id id) = Inr 5400000000"
  using interval_roundtrip[of 5400000000 "\<lambda>q. Inr \<lfloor>q\<rfloor>" id id]
  by (simp add: timedelta_def us_per_day_def max_timedelta_def)

subsection \<open>Namespaces\<close>

fun find_name :: "string list \<Rightarrow> 'v scope \<Rightarrow> 'v scope option" where
  "find_name [] sc = Some sc"
| "find_name (name # names) sc = (case dict_get (contents sc) name of None \<Rightarrow> None | Some c \<Rightarrow> find_name names c)"

lemma dict_get_public:
  "dict_get (fold (\<lambda>(name, v). dict_set name (Leaf v)) items kvs) k =
     (case dict_get (rev items) k of Some v \<Rightarrow> Some (Leaf v) | None \<Rightarrow> dict_get kvs k)"
  by (induction items arbitrary: kvs) (auto simp: map_add_def split: option.splits)

lemma dict_get_rev: "dict_wf items \<Longrightarrow> dict_get (rev items) = dict_get items"
  unfolding dict_wf_def dict_keys_def by (rule iffD2[OF map_of_inject_set]) (simp_all add: rev_map[symmetric])

lemma public_wf: "dict_wf symbols \<Longrightarrow> dict_wf (public_items symbols)"
  unfolding dict_wf_def dict_keys_def public_items_def by (rule distinct_map_filter)

lemma populate_found:
  assumes "populate_container sc symbols = Inr sc'" "dict_wf symbols"
  shows "dict_get (contents sc') k = (case dict_get (public_items symbols) k of Some v \<Rightarrow> Some (Leaf v) | None \<Rightarrow> dict_get (contents sc) k)"
  using assms(1) dict_get_rev[OF public_wf[OF assms(2)]]
  by (cases sc) (auto simp: populate_container_def dict_get_public split: if_splits option.splits)

text \<open>One name of the path: its container is replaced, and everything else in the scope is kept.\<close>

lemma import_step:
  assumes "import_into (name # names) symbols sc = Inr sc'"
  obtains container container' where "import_into names symbols container = Inr container'"
    and "container = (case dict_get (contents sc) name of Some c \<Rightarrow> c | None \<Rightarrow> Scope False [])"
    and "\<And>k. dict_get (contents sc') k = (if k = name then Some container' else dict_get (contents sc) k)"
  using assms that
  by (cases sc) (auto simp: add_container_def result_simps split: option.splits)

text \<open>The paths that the import gives a meaning to.\<close>

definition imported :: "string list \<Rightarrow> (string, 'v) dict \<Rightarrow> string list \<Rightarrow> bool" where
  "imported names symbols path \<longleftrightarrow>
     (\<exists>j rest. path = names @ j # rest \<and> dict_get (public_items symbols) j \<noteq> None)"

lemma imported_Cons: "imported (name # names) symbols path \<longleftrightarrow> (\<exists>js. path = name # js \<and> imported names symbols js)"
  by (auto simp: imported_def)

lemma import_leaf: "import_into names symbols (Leaf v) = Inr c' \<Longrightarrow> c' = Leaf v"
  by (cases names) (auto simp: populate_container_def add_container_def split: if_splits)

text \<open>
  An import puts the public names of the module into the namespace, and nothing else
  changes: every value that was found by another path is found there still.
\<close>

theorem import_adds_names:
  assumes "import_into names symbols sc = Inr sc'" and "dict_wf symbols"
  shows "(\<forall>k v. dict_get (public_items symbols) k = Some v \<longrightarrow> find_name (names @ [k]) sc' = Some (Leaf v))
    \<and> (\<forall>path v. path \<noteq> [] \<and> \<not> imported names symbols path \<and> find_name path sc = Some (Leaf v)
        \<longrightarrow> find_name path sc' = Some (Leaf v))"
  using assms(1)
proof (induction names arbitrary: sc sc')
  case Nil
  then have found: "dict_get (contents sc') j = (case dict_get (public_items symbols) j of
      Some v \<Rightarrow> Some (Leaf v) | None \<Rightarrow> dict_get (contents sc) j)" for j
    using populate_found[OF _ assms(2)] by simp
  have "find_name path sc' = Some (Leaf v)"
    if p: "path \<noteq> []" "\<not> imported [] symbols path" "find_name path sc = Some (Leaf v)" for path v
    using p by (cases path) (auto simp: found imported_def)
  then show ?case by (simp add: found)
next
  case (Cons name names)
  from Cons.prems obtain c c' where c: "import_into names symbols c = Inr c'"
      "c = (case dict_get (contents sc) name of Some d \<Rightarrow> d | None \<Rightarrow> Scope False [])"
      "\<And>k. dict_get (contents sc') k = (if k = name then Some c' else dict_get (contents sc) k)"
    by (rule import_step) blast
  note IH = Cons.IH[OF c(1)]
  have "find_name path sc' = Some (Leaf v)"
    if p: "path \<noteq> []" "\<not> imported (name # names) symbols path" "find_name path sc = Some (Leaf v)" for path v
  proof -
    obtain j js where path: "path = j # js" using p(1) by (cases path) auto
    show ?thesis
    proof (cases "j = name")
      case True
      then have "find_name js c = Some (Leaf v)" using p(3) c(2) by (auto simp: path split: option.splits)
      moreover have "\<not> imported names symbols js" using p(2) True by (auto simp: path imported_Cons)
      ultimately have "find_name js c' = Some (Leaf v)"
      proof (cases "js = []")
        case True
        with \<open>find_name js c = Some (Leaf v)\<close> c(1) import_leaf[of names symbols v c'] show ?thesis by simp
      qed (use IH in blast)
      with True show ?thesis by (simp add: path c(3))
    next
      case False
      with p(3) show ?thesis by (simp add: path c(3))
    qed
  qed
  then show ?case using IH c(3) by simp
qed

definition demo_scope :: "nat scope" where
  "demo_scope = Scope True [(''x'', Leaf 1), (''cc'', Scope False [(''y'', Leaf 2)])]"

theorem import_adds_names_witness:
  "\<exists>sc'. import_into [''cc'', ''variant''] [(''Value'', 7), (''_hidden'', 8)] demo_scope = Inr sc'
    \<and> find_name [''cc'', ''variant'', ''Value''] sc' = Some (Leaf 7) \<and> find_name [''cc'', ''y''] sc' = Some (Leaf 2)"
proof -
  obtain sc' where sc': "import_into [''cc'', ''variant''] [(''Value'', 7), (''_hidden'', 8)] demo_scope = Inr sc'"
    by (simp add: demo_scope_def add_container_def populate_container_def)
  have "\<not> imported [''cc'', ''variant''] [(''Value'', 7 :: nat), (''_hidden'', 8)] [''cc'', ''y'']" by (simp add: imported_def)
  moreover have "dict_get (public_items [(''Value'', 7 :: nat), (''_hidden'', 8)]) ''Value'' = Some 7" by code_simp
  moreover have "find_name [''cc'', ''y''] demo_scope = Some (Leaf 2)" by (simp add: demo_scope_def)
  moreover have "dict_wf [(''Value'', 7 :: nat), (''_hidden'', 8)]" by simp
  ultimately have "find_name [''cc'', ''variant'', ''Value''] sc' = Some (Leaf 7)" "find_name [''cc'', ''y''] sc' = Some (Leaf 2)"
    using import_adds_names[OF sc'] by (auto simp del: find_name.simps)
  with sc' show ?thesis by blast
qed

end
