(* ===== verification/Log_Api.thy ===== *)
theory Log_Api
  imports Zmq_Rpc Builder_Props
begin

section \<open>The interface of the log service (\<open>multilogger/python/base/api.py\<close>, \<open>protobuf/__init__.py\<close>, \<open>zmq/client.py\<close>)\<close>

text \<open>
  The client builds a message of each call and passes it to a stub: the generated one over
  gRPC, or the class \<open>RPCStub\<close> that makes calls over ZeroMQ. Message types are the keys of the
  pool of descriptors; the members of the generated enumerations are parameters.
\<close>

subsection \<open>Columns of tables\<close>

datatype coltype = ColumnMember int | PyType string | NoType | OtherType

text \<open>
  The second class that is asked for is the wrapper of the generated enumeration, which is an
  object and no class: \<open>isinstance\<close> raises unless the first class has answered.
\<close>

definition is_column_type :: "coltype \<Rightarrow> bool result" where
  "is_column_type c = (case c of ColumnMember n \<Rightarrow> Inr True | _ \<Rightarrow> Inl TypeError)"

definition column_type_map :: "(string \<Rightarrow> int) \<Rightarrow> (coltype, int) dict" where
  "column_type_map members =
     [(NoType, members ''COLTYPE_NONE''), (PyType ''bool'', members ''COLTYPE_BOOL''), (PyType ''int'', members ''COLTYPE_INT''),
      (PyType ''float'', members ''COLTYPE_REAL''), (PyType ''str'', members ''COLTYPE_TEXT''), (PyType ''bytes'', members ''COLTYPE_BLOB'')]"

definition encodeColumnType :: "(string \<Rightarrow> int) \<Rightarrow> coltype \<Rightarrow> int result" where
  "encodeColumnType members c =
     bind_result (is_column_type c) (\<lambda>yes.
       case c of
         ColumnMember n \<Rightarrow> Inr n
       | _ \<Rightarrow> (case dict_get (column_type_map members) c of None \<Rightarrow> Inl KeyError | Some n \<Rightarrow> Inr n))"

record column_spec =
  cs_field_name :: string
  cs_column_name :: string
  cs_column_type :: int

datatype column_item = ItemStr string | ItemType coltype

datatype column_arg = ColumnMessage column_spec | ColumnTuple "column_item list" | NoColumn

text \<open>A field of type text takes nothing else.\<close>

definition item_text :: "column_item \<Rightarrow> string result" where
  "item_text i = (case i of ItemStr s \<Rightarrow> Inr s | ItemType c \<Rightarrow> Inl TypeError)"

definition item_type :: "column_item \<Rightarrow> coltype" where
  "item_type i = (case i of ItemStr s \<Rightarrow> OtherType | ItemType c \<Rightarrow> c)"

definition encodeColumnSpec :: "(string \<Rightarrow> int) \<Rightarrow> column_arg \<Rightarrow> column_spec result" where
  "encodeColumnSpec members colspec =
     (case colspec of
        ColumnMessage m \<Rightarrow> Inr m
      | ColumnTuple items \<Rightarrow>
          (let sp = \<lparr>cs_field_name = [], cs_column_name = [], cs_column_type = 0\<rparr> in
           bind_result (if 1 \<le> length items then bind_result (item_text (items ! 0)) (\<lambda>s. Inr (sp\<lparr>cs_field_name := s\<rparr>)) else Inr sp) (\<lambda>sp.
           bind_result (if 2 \<le> length items then bind_result (item_text (items ! 1)) (\<lambda>s. Inr (sp\<lparr>cs_column_name := s\<rparr>)) else Inr sp) (\<lambda>sp.
           if 3 \<le> length items
           then bind_result (encodeColumnType members (item_type (items ! 2))) (\<lambda>n. Inr (sp\<lparr>cs_column_type := n\<rparr>))
           else Inr sp)))
      | NoColumn \<Rightarrow> Inl TypeError)"

subsection \<open>The interface\<close>

text \<open>
  A stub is an object that may have an attribute of a given name, which takes one message and
  answers with one, or never; the server and the transport are in \<open>'w\<close>. \<open>la_self\<close> is the
  client itself, which \<open>locals()\<close> contains, and \<open>la_calls\<close> the calls left before the recursion
  limit.
\<close>

type_synonym ('w, 'o) log_stub = "string \<Rightarrow> ('o msg \<Rightarrow> 'w \<Rightarrow> 'w \<times> 'o msg call_end option) option"

record 'o log_api =
  la_pool :: "'o pool"
  la_calls :: nat
  la_builder :: "'o builder"
  la_identity :: string
  la_self :: "'o py"

definition new_log_api :: "'o pool \<Rightarrow> nat \<Rightarrow> 'o builder \<Rightarrow> string \<Rightarrow> 'o py \<Rightarrow> 'o log_api" where
  "new_log_api pool calls message_encoders identity this =
     \<lparr>la_pool = pool, la_calls = calls, la_builder = message_encoders, la_identity = identity, la_self = this\<rparr>"

definition local_variables :: "'o log_api \<Rightarrow> (string \<times> 'o py) list \<Rightarrow> ('o py, 'o py) dict" where
  "local_variables api args =
     (py.PAtom (AStr ''self''), la_self api) # map (\<lambda>(name, v). (py.PAtom (AStr name), v)) args"

definition invoke_stub :: "('w, 'o) log_stub \<Rightarrow> string \<Rightarrow> 'o msg result \<Rightarrow> 'w \<Rightarrow> 'w \<times> 'o msg call_end option" where
  "invoke_stub rpc name request w =
     (case request of
        Inl e \<Rightarrow> (w, Some (CallRaised e))
      | Inr q \<Rightarrow> (case rpc name of None \<Rightarrow> (w, Some (CallRaised AttributeError)) | Some f \<Rightarrow> f q w))"

definition response_field :: "'o pool \<Rightarrow> string \<Rightarrow> 'o msg call_end \<Rightarrow> 'o field call_end" where
  "response_field pool name r =
     (case r of
        CallOk m \<Rightarrow> (case find (\<lambda>fd. fd_name fd = name) (p_fields pool (m_type m)) of
            None \<Rightarrow> CallRaised AttributeError
          | Some fd \<Rightarrow> CallOk (get_field pool fd m))
      | CallError code details \<Rightarrow> CallError code details
      | CallRaised e \<Rightarrow> CallRaised e)"

definition listen_request :: "'o log_api \<Rightarrow> 'o py \<Rightarrow> 'o py \<Rightarrow> 'o msg result" where
  "listen_request api min_level contract_id =
     build_from_dict (la_calls api) (la_pool api) (la_builder api) ''ListenerSpec''
       (Some (local_variables api [(''min_level'', min_level), (''contract_id'', contract_id)]))
       [(py.PAtom (AStr ''sink_id''), py.PAtom (AStr (la_identity api)))]"

definition api_listen :: "('w, 'o) log_stub \<Rightarrow> 'o log_api \<Rightarrow> 'o py \<Rightarrow> 'o py \<Rightarrow> 'w \<Rightarrow> 'w \<times> 'o msg call_end option" where
  "api_listen rpc api min_level contract_id = invoke_stub rpc ''Listen'' (listen_request api min_level contract_id)"

record 'o sink_args =
  sa_sink_id :: "'o py"
  sa_sink_type :: "'o py"
  sa_contract_id :: "'o py"
  sa_min_level :: "'o py"
  sa_filename_template :: "'o py"
  sa_rotation_interval :: "'o py"
  sa_use_local_time :: "'o py"
  sa_compress_after_use :: "'o py"
  sa_expiration_interval :: "'o py"
  sa_columns :: "'o py"

definition sink_inputs :: "'o sink_args \<Rightarrow> (string \<times> 'o py) list" where
  "sink_inputs a =
     [(''sink_id'', sa_sink_id a), (''sink_type'', sa_sink_type a), (''contract_id'', sa_contract_id a),
      (''min_level'', sa_min_level a), (''filename_template'', sa_filename_template a),
      (''rotation_interval'', sa_rotation_interval a), (''use_local_time'', sa_use_local_time a),
      (''compress_after_use'', sa_compress_after_use a), (''expiration_interval'', sa_expiration_interval a),
      (''columns'', sa_columns a)]"

definition sink_request :: "'o log_api \<Rightarrow> 'o sink_args \<Rightarrow> 'o msg result" where
  "sink_request api a =
     build_from_dict (la_calls api) (la_pool api) (la_builder api) ''SinkSpec'' (Some (local_variables api (sink_inputs a))) []"

definition add_sink :: "('w, 'o) log_stub \<Rightarrow> 'o log_api \<Rightarrow> 'o sink_args \<Rightarrow> 'w \<Rightarrow> 'w \<times> 'o field call_end option" where
  "add_sink rpc api a w =
     map_prod id (map_option (response_field (la_pool api) ''added'')) (invoke_stub rpc ''AddSink'' (sink_request api a) w)"

text \<open>\<open>SinkID\<close> is not imported.\<close>

definition remove_sink :: "('w, 'o) log_stub \<Rightarrow> 'o log_api \<Rightarrow> string \<Rightarrow> 'w \<Rightarrow> 'w \<times> 'o field call_end option" where
  "remove_sink rpc api sink_id w = (w, Some (CallRaised NameError))"

definition get_sink :: "('w, 'o) log_stub \<Rightarrow> 'o log_api \<Rightarrow> string \<Rightarrow> 'w \<Rightarrow> 'w \<times> 'o msg call_end option" where
  "get_sink rpc api sink_id w = (w, Some (CallRaised NameError))"

text \<open>The queries: the method of the stub, and the attribute of its answer that is returned.\<close>

definition log_query :: "string \<Rightarrow> string \<Rightarrow> ('w, 'o) log_stub \<Rightarrow> 'o log_api \<Rightarrow> 'w \<Rightarrow> 'w \<times> 'o field call_end option" where
  "log_query name attr rpc api w =
     map_prod id (map_option (response_field (la_pool api) attr)) (invoke_stub rpc name (Inr (Msg ''Empty'' [])) w)"

definition get_all_sinks :: "('w, 'o) log_stub \<Rightarrow> 'o log_api \<Rightarrow> 'w \<Rightarrow> 'w \<times> 'o field call_end option" where
  "get_all_sinks = log_query ''GetAllSinks'' ''specs''"

definition list_sinks :: "('w, 'o) log_stub \<Rightarrow> 'o log_api \<Rightarrow> 'w \<Rightarrow> 'w \<times> 'o field call_end option" where
  "list_sinks = log_query ''ListSinks'' ''sink_names''"

definition list_sink_types :: "('w, 'o) log_stub \<Rightarrow> 'o log_api \<Rightarrow> 'w \<Rightarrow> 'w \<times> 'o field call_end option" where
  "list_sink_types = log_query ''ListSinkTypes'' ''sink_types''"

definition list_static_fields :: "('w, 'o) log_stub \<Rightarrow> 'o log_api \<Rightarrow> 'w \<Rightarrow> 'w \<times> 'o field call_end option" where
  "list_static_fields = log_query ''ListStaticFields'' ''field_names''"

subsection \<open>The stub over ZeroMQ\<close>

text \<open>The methods of \<open>RPCStub\<close>: the name on the wire and the type of the answer.\<close>

definition zmq_methods :: "(string, string \<times> string) dict" where
  "zmq_methods =
     [(''AddSink'', ''add_sink'', ''AddSinkResult''), (''RemoveSink'', ''remove_sink'', ''RemoveSinkResult''),
      (''GetSink'', ''get_sink'', ''SinkSpec''), (''GetAllSinks'', ''get_all_sinks'', ''SinkSpecs''),
      (''ListSinks'', ''list_sinks'', ''SinkNames''), (''ListSinkTypes'', ''list_sink_types'', ''SinkTypes''),
      (''ListMessageFields'', ''list_message_fields'', ''FieldNames''), (''ListErrorFields'', ''list_error_fields'', ''FieldNames'')]"

text \<open>How messages are serialized, and parsed as a given type, is a parameter.\<close>

definition zmq_stub ::
    "('x, 's, 'd) rpc \<Rightarrow> ('o msg \<Rightarrow> string) \<Rightarrow> (string \<Rightarrow> string \<Rightarrow> 'o msg result) \<Rightarrow> ('x \<Rightarrow> 'a \<Rightarrow> 'a \<times> 'x option)
     \<Rightarrow> (client \<times> 'a, 'o) log_stub" where
  "zmq_stub rp ser prs peer name =
     (case dict_get zmq_methods name of
        None \<Rightarrow> None
      | Some (wire, response) \<Rightarrow> Some (\<lambda>q (c, a).
          case call rp wire (Some (ser q)) (prs response) peer c a of (c', a', r) \<Rightarrow> ((c', a'), r)))"

end
