(* ===== verification/Log_Api_Props.thy ===== *)
theory Log_Api_Props
  imports Log_Api Zmq_Rpc_Props
begin

section \<open>Properties of the interface of the log service\<close>

subsection \<open>Columns\<close>

text \<open>A column type is encoded exactly when it is a member of the enumeration already.\<close>

lemma encode_column_type:
  "encodeColumnType members c = (case c of ColumnMember n \<Rightarrow> Inr n | _ \<Rightarrow> Inl TypeError)"
  by (cases c) (simp_all add: encodeColumnType_def is_column_type_def)

lemma encode_column_tuple:
  "encodeColumnSpec members (ColumnTuple [ItemStr f, ItemStr c, ItemType t]) =
     (case t of ColumnMember n \<Rightarrow> Inr \<lparr>cs_field_name = f, cs_column_name = c, cs_column_type = n\<rparr> | _ \<Rightarrow> Inl TypeError)"
  by (cases t) (simp_all add: encodeColumnSpec_def encode_column_type item_text_def item_type_def Let_def)

subsection \<open>Requests\<close>

text \<open>What an argument of a given name was; \<open>None\<close> counts as not given.\<close>

definition given_value :: "'o log_api \<Rightarrow> (string \<times> 'o py) list \<Rightarrow> string \<Rightarrow> 'o py option" where
  "given_value api args name =
     (case dict_get (local_variables api args) (py.PAtom (AStr name)) of Some py.PNone \<Rightarrow> None | v \<Rightarrow> v)"

definition api_encoder :: "'o log_api \<Rightarrow> kind \<Rightarrow> 'o py \<Rightarrow> 'o py result" where
  "api_encoder api = value_encoder (la_pool api) (la_builder api) (encode_message (la_calls api) (la_pool api) (la_builder api))"

definition encoded_argument :: "'o log_api \<Rightarrow> (string \<times> 'o py) list \<Rightarrow> field_desc \<Rightarrow> 'o field option" where
  "encoded_argument api args fd =
     (case given_value api args (fd_name fd) of
        None \<Rightarrow> None
      | Some v \<Rightarrow> (case field_content (la_pool api) (api_encoder api) (fd_shape fd) v (blank (fd_shape fd)) of
          Inl e \<Rightarrow> None | Inr f \<Rightarrow> Some f))"

definition encodable :: "'o log_api \<Rightarrow> string \<Rightarrow> (string \<times> 'o py) list \<Rightarrow> bool" where
  "encodable api t args \<longleftrightarrow>
     distinct (map fd_name (p_fields (la_pool api) t))
     \<and> exclusive (p_fields (la_pool api) t) (\<lambda>fd. encoded_argument api args fd \<noteq> None)
     \<and> list_all (\<lambda>fd. given_value api args (fd_name fd) = None \<or> encoded_argument api args fd \<noteq> None) (p_fields (la_pool api) t)"

definition request_body :: "'o log_api \<Rightarrow> (string \<times> 'o py) list \<Rightarrow> field_desc \<Rightarrow> 'o msg \<Rightarrow> 'o msg result" where
  "request_body api args fd m =
     (case given_value api args (fd_name fd) of
        None \<Rightarrow> Inr m
      | Some v \<Rightarrow> encode_field (la_pool api) (api_encoder api) fd v m)"

lemma sink_request_fold:
  "sink_request api a = fold_result (request_body api (sink_inputs a)) (p_fields (la_pool api) ''SinkSpec'') (Msg ''SinkSpec'' [])"
  unfolding sink_request_def build_from_dict_def populate_from_dict_def
  by (simp, intro arg_cong[where f = "\<lambda>b. fold_result b _ _"] ext)
    (auto simp: request_body_def given_value_def api_encoder_def split: option.splits py.splits)

lemma sink_request_built:
  assumes "encodable api ''SinkSpec'' (sink_inputs a)"
  shows "\<exists>q. sink_request api a = Inr q \<and> m_type q = ''SinkSpec''
    \<and> list_all (\<lambda>fd. dict_get (m_fields q) (fd_name fd) = stored (encoded_argument api (sink_inputs a) fd)) (p_fields (la_pool api) ''SinkSpec'')"
proof -
  let ?fds = "p_fields (la_pool api) ''SinkSpec''" and ?args = "sink_inputs a"
  have body: "request_body api ?args fd m =
      Inr (case encoded_argument api ?args fd of None \<Rightarrow> m | Some f \<Rightarrow> put_field ?fds fd f m)"
    if "fd \<in> set ?fds" "dict_get (m_fields m) (fd_name fd) = None" "m_type m = ''SinkSpec''" for fd m
    using assms that
    by (auto simp: request_body_def encoded_argument_def encodable_def encode_field_def field_content_unset list_all_iff
        split: option.splits sum.splits)
  have "\<exists>q. fold_result (request_body api ?args) ?fds (Msg ''SinkSpec'' []) = Inr q \<and> m_type q = ''SinkSpec''
      \<and> (\<forall>fd \<in> set ?fds. dict_get (m_fields q) (fd_name fd) = stored (encoded_argument api ?args fd))"
  proof (rule populated[of ?fds])
    show "distinct (map fd_name ?fds)" "exclusive ?fds (\<lambda>fd. encoded_argument api ?args fd \<noteq> None)"
      using assms by (simp_all add: encodable_def)
    then show "distinct ?fds" by (simp add: distinct_map)
  qed (use body in \<open>simp_all\<close>)
  then show ?thesis by (auto simp: sink_request_fold list_all_iff)
qed

text \<open>
  C27. A sink is added over ZeroMQ as it was asked for. If the arguments can be encoded, the
  server's method is called once with a specification that holds exactly the given arguments,
  those that are \<open>None\<close> left out, and the client returns the field \<open>added\<close> of its answer.
\<close>

theorem sink_added_as_asked:
  assumes "encodable api ''SinkSpec'' (sink_inputs a)" and "faithful rp"
    and "\<And>q. sink_request api a = Inr q \<Longrightarrow> finds hs (cl_interface c) ''add_sink'' (ser q) m q"
    and "\<And>q. sink_request api a = Inr q \<Longrightarrow> md_call m (Some q) s = (effect q, Returned (ser answer))"
    and "prs ''AddSinkResult'' (ser answer) = Inr answer"
    and "find (\<lambda>fd. fd_name fd = ''added'') (p_fields (la_pool api) (m_type answer)) = Some added"
  shows "\<exists>q. m_type q = ''SinkSpec''
    \<and> list_all (\<lambda>fd. dict_get (m_fields q) (fd_name fd) = stored (encoded_argument api (sink_inputs a) fd)) (p_fields (la_pool api) ''SinkSpec'')
    \<and> add_sink (zmq_stub rp ser prs (server_peer rp hs)) api a (c, s) =
        ((c\<lparr>cl_request_id := cl_request_id c + 1\<rparr>, effect q), Some (CallOk (get_field (la_pool api) added answer)))"
proof -
  obtain q where q: "sink_request api a = Inr q" "m_type q = ''SinkSpec''"
    "list_all (\<lambda>fd. dict_get (m_fields q) (fd_name fd) = stored (encoded_argument api (sink_inputs a) fd)) (p_fields (la_pool api) ''SinkSpec'')"
    using sink_request_built[OF assms(1)] by blast
  have "call rp ''add_sink'' (Some (ser q)) (prs ''AddSinkResult'') (server_peer rp hs) c s =
      (c\<lparr>cl_request_id := cl_request_id c + 1\<rparr>, effect q, Some (CallOk answer))"
    using call_found[OF assms(2) assms(3)[OF q(1)], where a = s and a' = "effect q" and dec = "prs ''AddSinkResult''"] assms(2,5) assms(4)[OF q(1)]
    by (simp add: invoke_handler_def receive_protobuf_result_def faithful_def)
  then have "add_sink (zmq_stub rp ser prs (server_peer rp hs)) api a (c, s) =
      ((c\<lparr>cl_request_id := cl_request_id c + 1\<rparr>, effect q), Some (CallOk (get_field (la_pool api) added answer)))"
    using assms(6) by (simp add: add_sink_def q(1) invoke_stub_def zmq_stub_def zmq_methods_def response_field_def)
  with q show ?thesis by blast
qed

text \<open>An example: a sink with a name and two columns, and a server that counts its sinks.\<close>

definition text_field :: "string \<Rightarrow> field_desc" where
  "text_field name = \<lparr>fd_name = name, fd_shape = Single (Scalar 9), fd_oneof = None\<rparr>"

definition log_pool :: "unit pool" where
  "log_pool = \<lparr>p_fields = (\<lambda>t. if t = ''SinkSpec'' then [text_field ''sink_id'', text_field ''contract_id'',
         \<lparr>fd_name = ''columns'', fd_shape = Repeated (Message ''ColumnSpec''), fd_oneof = None\<rparr>]
       else if t = ''ColumnSpec'' then [text_field ''field_name'']
       else if t = ''AddSinkResult'' then [\<lparr>fd_name = ''added'', fd_shape = Single (Scalar 8), fd_oneof = None\<rparr>] else []),
     p_enum = (\<lambda>_. []), p_accept = (\<lambda>_ v. case v of py.PAtom a \<Rightarrow> Inr a | _ \<Rightarrow> Inl TypeError),
     p_default = (\<lambda>_. ABool False), p_attr = (\<lambda>_ _. None)\<rparr>"

definition log_demo :: "unit log_api" where
  "log_demo = new_log_api log_pool 5 \<lparr>b_encoders = [], b_enum_encoders = []\<rparr> ''demo'' py.PNone"

definition no_sink :: "unit sink_args" where
  "no_sink = \<lparr>sa_sink_id = py.PAtom (AStr ''s''), sa_sink_type = py.PNone, sa_contract_id = py.PNone, sa_min_level = py.PNone,
     sa_filename_template = py.PNone, sa_rotation_interval = py.PNone, sa_use_local_time = py.PNone,
     sa_compress_after_use = py.PNone, sa_expiration_interval = py.PNone, sa_columns = py.PNone\<rparr>"

definition column_message :: "string \<Rightarrow> unit msg" where
  "column_message name = Msg ''ColumnSpec'' [(''field_name'', FOne (VAtom (AStr name)))]"

definition table_sink :: "unit sink_args" where
  "table_sink = no_sink\<lparr>sa_columns := py.PList [PMsg (column_message ''a''), PMsg (column_message ''b'')]\<rparr>"

definition table_request :: "unit msg" where
  "table_request = Msg ''SinkSpec'' [(''sink_id'', FOne (VAtom (AStr ''s''))),
     (''columns'', FMany [VMsg (column_message ''a''), VMsg (column_message ''b'')])]"

definition sink_method :: "(unit msg, nat, nat, nat) rpc_method" where
  "sink_method = \<lparr>md_name = ''add_sink'', md_args = [''self'', ''spec''],
     md_annotations = (\<lambda>p. if p = ''spec'' then Some (Some (\<lambda>data. Inr table_request)) else None),
     md_call = (\<lambda>arg sinks. (sinks + 1, Returned []))\<rparr>"

definition sink_handlers :: "(unit msg, nat, nat, nat) handlers" where
  "sink_handlers = new_handlers
     [\<lparr>rh_interface = ''Multilogger'', rh_attributes = (\<lambda>name. if name = ''add_sink'' then Some (Callable sink_method) else None)\<rparr>]"

definition log_rpc_client :: client where
  "log_rpc_client = \<lparr>cl_client_id = 1, cl_request_id = 0, cl_interface = ''Multilogger''\<rparr>"

theorem sink_added_as_asked_witness:
  "add_sink (zmq_stub demo_rpc (\<lambda>_. []) (\<lambda>_ _. Inr (Msg ''AddSinkResult'' [(''added'', FOne (VAtom (ABool True)))]))
      (server_peer demo_rpc sink_handlers)) log_demo table_sink (log_rpc_client, 4)
    = ((log_rpc_client\<lparr>cl_request_id := 1\<rparr>, 5), Some (CallOk (FOne (VAtom (ABool True)))))"
proof -
  let ?answer = "Msg ''AddSinkResult'' [(''added'', FOne (VAtom (ABool True)))] :: unit msg"
  have built: "sink_request log_demo table_sink = Inr table_request" by code_simp
  have "encodable log_demo ''SinkSpec'' (sink_inputs table_sink)" by code_simp
  moreover have "finds sink_handlers (cl_interface log_rpc_client) ''add_sink'' [] sink_method table_request"
    by (simp add: finds_def sink_handlers_def new_handlers_def log_rpc_client_def sink_method_def)
  moreover have "find (\<lambda>fd. fd_name fd = ''added'') (p_fields (la_pool log_demo) (m_type ?answer))
      = Some \<lparr>fd_name = ''added'', fd_shape = Single (Scalar 8), fd_oneof = None\<rparr>" by code_simp
  moreover have "get_field (la_pool log_demo) \<lparr>fd_name = ''added'', fd_shape = Single (Scalar 8), fd_oneof = None\<rparr> ?answer
      = FOne (VAtom (ABool True))" by code_simp
  moreover have "md_call sink_method (Some table_request) 4 = (5, Returned [])" by (simp add: sink_method_def)
  moreover have "cl_request_id log_rpc_client + 1 = 1" by (simp add: log_rpc_client_def)
  ultimately show ?thesis
    using sink_added_as_asked[of log_demo table_sink demo_rpc sink_handlers log_rpc_client "\<lambda>_. []" sink_method 4 "\<lambda>_. 5" ?answer
        "\<lambda>_ _. Inr ?answer"] demo_faithful built
    by auto
qed

subsection \<open>What cannot be asked\<close>

lemma fold_result_fails:
  "x \<in> set xs \<Longrightarrow> (\<And>s. \<exists>e. f x s = Inl e) \<Longrightarrow> \<exists>e. fold_result f xs s = Inl e"
proof (induction xs arbitrary: s)
  case (Cons y ys)
  show ?case
  proof (cases "f y s")
    case (Inr s')
    have "y \<noteq> x" using Cons.prems(2)[of s] Inr by auto
    with Cons Inr show ?thesis by simp
  qed simp
qed simp

text \<open>
  A tuple is no message, and no encoder is registered for columns: \<open>encodeColumnSpec\<close> is called
  by no one.
\<close>

lemma tuple_not_encoded:
  assumes "dict_get (b_encoders b) t = None" "p_fields pool t = fd # fds" "p_attr pool (py.PTuple xs) (fd_name fd) = None"
  shows "\<exists>e. encode_message n pool b t (py.PTuple xs) = Inl e"
  using assms by (cases n) (simp_all add: build_plain_def populate_from_container_def attribute_def)

text \<open>
  What the documentation of \<open>add_sink\<close> asks for is refused: given columns as tuples, it
  raises an exception, whatever the stub, and the server is not called. Over ZeroMQ, listing
  the fields raises \<open>AttributeError\<close> and listening through the interface an exception, and removing or getting a
  sink \<open>NameError\<close>; these do not call the server either.
\<close>

theorem documented_requests_refused:
  assumes "fd \<in> set (p_fields (la_pool api) ''SinkSpec'')" and "fd_name fd = ''columns''" and "fd_shape fd = Repeated (Message t)"
    and "dict_get (b_encoders (la_builder api)) t = None" and "p_fields (la_pool api) t = gd # gds"
    and "sa_columns a = py.PList (py.PTuple xs # cols)" and "p_attr (la_pool api) (py.PTuple xs) (fd_name gd) = None"
  shows "(\<exists>e. add_sink rpc api a w = (w, Some (CallRaised e)))
    \<and> list_static_fields (zmq_stub rp ser prs peer) api w' = (w', Some (CallRaised AttributeError))
    \<and> api_listen (zmq_stub rp ser prs peer) api (py.PAtom (AInt n)) py.PNone w' \<in> {w'} \<times> range (Some \<circ> CallRaised)
    \<and> remove_sink rpc api sink_id w = (w, Some (CallRaised NameError)) \<and> get_sink rpc api sink_id w = (w, Some (CallRaised NameError))"
proof -
  have given: "given_value api (sink_inputs a) (fd_name fd) = Some (py.PList (py.PTuple xs # cols))"
    using assms(2,6) by (simp add: given_value_def local_variables_def sink_inputs_def)
  obtain e where "encode_message (la_calls api) (la_pool api) (la_builder api) t (py.PTuple xs) = Inl e"
    using tuple_not_encoded[OF assms(4,5,7)] by blast
  then have "request_body api (sink_inputs a) fd m = Inl e" for m
    by (simp add: request_body_def given encode_field_def field_content_def assms(3) api_encoder_def value_encoder_def)
  then obtain e' where "sink_request api a = Inl e'"
    unfolding sink_request_fold using fold_result_fails[OF assms(1)] by metis
  then have "add_sink rpc api a w = (w, Some (CallRaised e'))" by (simp add: add_sink_def invoke_stub_def response_field_def)
  moreover have "list_static_fields (zmq_stub rp ser prs peer) api w' = (w', Some (CallRaised AttributeError))"
    by (simp add: list_static_fields_def log_query_def invoke_stub_def zmq_stub_def zmq_methods_def response_field_def)
  moreover have "api_listen (zmq_stub rp ser prs peer) api (py.PAtom (AInt n)) py.PNone w' \<in> {w'} \<times> range (Some \<circ> CallRaised)"
    by (simp add: api_listen_def invoke_stub_def zmq_stub_def zmq_methods_def split: sum.split)
  ultimately show ?thesis by (auto simp: remove_sink_def get_sink_def)
qed

definition documented_sink :: "unit sink_args" where
  "documented_sink = no_sink\<lparr>sa_columns := py.PList [py.PTuple [py.PAtom (AStr ''timestamp''), py.PAtom (AStr ''EpochTime''), py.PNone]]\<rparr>"

theorem documented_requests_refused_witness:
  "\<exists>e. add_sink (\<lambda>_. Some (\<lambda>q n. (Suc n, None))) log_demo documented_sink 3 = (3, Some (CallRaised e))"
proof -
  let ?fd = "\<lparr>fd_name = ''columns'', fd_shape = Repeated (Message ''ColumnSpec''), fd_oneof = None\<rparr>"
  have fields: "?fd \<in> set (p_fields (la_pool log_demo) ''SinkSpec'')" "dict_get (b_encoders (la_builder log_demo)) ''ColumnSpec'' = None"
    "p_fields (la_pool log_demo) ''ColumnSpec'' = text_field ''field_name'' # []"
    by (simp_all add: log_demo_def new_log_api_def log_pool_def)
  have "sa_columns documented_sink = py.PList (py.PTuple [py.PAtom (AStr ''timestamp''), py.PAtom (AStr ''EpochTime''), py.PNone] # [])"
    "p_attr (la_pool log_demo) (py.PTuple [py.PAtom (AStr ''timestamp''), py.PAtom (AStr ''EpochTime''), py.PNone])
       (fd_name (text_field ''field_name'')) = None"
    by (simp_all add: documented_sink_def log_demo_def new_log_api_def log_pool_def)
  from documented_requests_refused[OF fields(1) _ _ fields(2,3) this, of "\<lambda>_. Some (\<lambda>q n. (Suc n, None))" 3, THEN conjunct1]
  show ?thesis by simp
qed

end
