(* ===== verification/Log_Clients.thy ===== *)
theory Log_Clients
  imports Zmq_Pubsub_Props Submitter_Props
begin

section \<open>Clients of the log service (\<open>multilogger/python/base\<close>, \<open>zmq/reader.py\<close>, \<open>zmq/client.py\<close>, \<open>grpc/client.py\<close>)\<close>

subsection \<open>Logging by name\<close>

text \<open>
  \<open>log_message\<close> looks up the frame of its caller, the number of frames given outward from its
  own, and passes its message on to \<open>submit\<close>. Each of the methods named after a level is one
  frame further away from the code that logs.
\<close>

record frame =
  fr_filename :: string
  fr_lineno :: int
  fr_function :: string

definition log_message_at ::
    "(level \<Rightarrow> int) \<Rightarrow> rat \<Rightarrow> string \<Rightarrow> int \<Rightarrow> submitter_base \<Rightarrow> level + int \<Rightarrow> string \<Rightarrow> int \<Rightarrow> frame list \<Rightarrow> (string, 'a) dict
     \<Rightarrow> 'a log_message result" where
  "log_message_at num now hostname native_id s level txt stacklevel stack kwargs =
     bind_result (list_index stack stacklevel) (\<lambda>f.
       Inr (logged_message num now hostname s level txt (fr_filename f) (fr_lineno f) (fr_function f) native_id kwargs))"

text \<open>\<open>own\<close> are the frames of \<open>log_message\<close> and of the method, \<open>stack\<close> that of its caller and those further out.\<close>

type_synonym 'a log_method =
  "(level \<Rightarrow> int) \<Rightarrow> rat \<Rightarrow> string \<Rightarrow> int \<Rightarrow> submitter_base \<Rightarrow> string \<Rightarrow> int \<Rightarrow> frame \<times> frame \<Rightarrow> frame list \<Rightarrow> (string, 'a) dict
   \<Rightarrow> 'a log_message result"

definition log_named :: "level \<Rightarrow> 'a log_method" where
  "log_named l num now hostname native_id s txt stacklevel own stack kwargs =
     log_message_at num now hostname native_id s (Inl l) txt stacklevel (fst own # snd own # stack) kwargs"

definition log_trace :: "'a log_method" where "log_trace = log_named Trace"
definition log_debug :: "'a log_method" where "log_debug = log_named Debug"
definition log_info :: "'a log_method" where "log_info = log_named Info"
definition log_notice :: "'a log_method" where "log_notice = log_named Notice"
definition log_warning :: "'a log_method" where "log_warning = log_named Warning"
definition log_error :: "'a log_method" where "log_error = log_named Error"
definition log_critical :: "'a log_method" where "log_critical = log_named Critical"
definition log_fatal :: "'a log_method" where "log_fatal = log_named Fatal"

lemmas log_methods = log_trace_def log_debug_def log_info_def log_notice_def log_warning_def log_error_def log_critical_def log_fatal_def

text \<open>Without a \<open>stacklevel\<close> of their own, it is 2, the place of the call is that of the caller.\<close>

lemma log_named_caller:
  "log_named l num now hostname native_id s txt 2 own (caller # outer) kwargs =
     Inr (logged_message num now hostname s (Inl l) txt (fr_filename caller) (fr_lineno caller) (fr_function caller) native_id kwargs)"
  by (simp add: log_named_def log_message_at_def list_index_def)

text \<open>Data is made into a message and submitted; the queue is a parameter of type \<open>'m submitter\<close>.\<close>

definition log_data_call ::
    "rat \<Rightarrow> string \<Rightarrow> (string, 'a) dict option \<Rightarrow> rat option \<Rightarrow> (string, 'a) dict \<Rightarrow> 'a log_data submitter \<Rightarrow> 'a log_data submitter option" where
  "log_data_call now contract attributes timestamp kwargs y = submit (create_data now contract attributes timestamp kwargs) y"

subsection \<open>Capturing the log of the process\<close>

text \<open>
  \<open>addHandler\<close> and \<open>removeHandler\<close> of the root logger, whose list of handlers is \<open>handlers\<close>;
  the handler is a number.
\<close>

definition handler_open :: "submitter_base \<Rightarrow> nat \<Rightarrow> nat list \<Rightarrow> nat list" where
  "handler_open s h handlers = (if sb_capture s \<and> h \<notin> set handlers then handlers @ [h] else handlers)"

definition handler_close :: "submitter_base \<Rightarrow> nat \<Rightarrow> nat list \<Rightarrow> nat list" where
  "handler_close s h handlers = (if sb_capture s then remove1 h handlers else handlers)"

definition submitter_open :: "submitter_base \<Rightarrow> nat \<Rightarrow> nat list \<times> 'm submitter \<Rightarrow> nat list \<times> 'm submitter" where
  "submitter_open s h st = (case st of (handlers, y) \<Rightarrow> (handler_open s h handlers, open_writer y))"

definition submitter_close :: "submitter_base \<Rightarrow> nat \<Rightarrow> nat list \<times> 'm submitter \<Rightarrow> nat list \<times> 'm submitter" where
  "submitter_close s h st = (case st of (handlers, y) \<Rightarrow> (handler_close s h handlers, close_writer y))"

text \<open>\<open>Writer.initialize\<close> and \<open>deinitialize\<close>: an exception of the publisher's endpoint leaves the rest undone, or comes last.\<close>

definition log_writer_initialize ::
    "socket \<Rightarrow> config \<Rightarrow> submitter_base \<Rightarrow> nat \<Rightarrow> endpoint \<times> nat list \<times> 'm submitter \<Rightarrow> (endpoint \<times> nat list \<times> 'm submitter) \<times> py_error option" where
  "log_writer_initialize sock cf s h st =
     (case st of (e, rest) \<Rightarrow> (case initialize sock cf e of
        (e', Some err) \<Rightarrow> ((e', rest), Some err)
      | (e', None) \<Rightarrow> ((e', submitter_open s h rest), None)))"

definition log_writer_deinitialize ::
    "socket \<Rightarrow> submitter_base \<Rightarrow> nat \<Rightarrow> endpoint \<times> nat list \<times> 'm submitter \<Rightarrow> (endpoint \<times> nat list \<times> 'm submitter) \<times> py_error option" where
  "log_writer_deinitialize sock s h st =
     (case st of (e, rest) \<Rightarrow> (case deinitialize sock e of (e', err) \<Rightarrow> ((e', submitter_close s h rest), err)))"

subsection \<open>Readers over ZeroMQ\<close>

text \<open>
  A reader is a handler that puts what it is given into a queue of its own. The state of a
  subscriber's handlers is the queue of each reader, by the key of the handler.
\<close>

type_synonym 'm readers = "nat \<Rightarrow> 'm py_queue"

definition reader_put :: "nat \<Rightarrow> 'm \<Rightarrow> 'm readers \<Rightarrow> 'm readers \<times> unit result" where
  "reader_put key m rs =
     (case queue_put_roundrobin (rs key) m of None \<Rightarrow> (rs, Inr ()) | Some q \<Rightarrow> (rs(key := q), Inr ()))"

definition reader_handler :: "nat \<Rightarrow> 'm message_type \<Rightarrow> 'm readers handler result" where
  "reader_handler key ty = proto_handler key ty TopicNone (reader_put key)"

text \<open>\<open>__next__\<close> waits for an item: \<open>None\<close>, as long as there is none. What is queued is a message, never \<open>None\<close>.\<close>

definition log_reader_next :: "nat \<Rightarrow> 'm readers \<Rightarrow> ('m \<times> 'm readers) option" where
  "log_reader_next key rs = map_option (\<lambda>(m, q). (m, rs(key := q))) (q_get_nowait (rs key))"

text \<open>
  The client: its subscriber, made when first needed, and the readers it has given out, each
  with a queue that holds \<open>queue_size\<close> messages. The request of \<open>listen\<close> is built and not used.
\<close>

record 'm log_listener =
  lc_subscriber :: "'m readers subscriber option"
  lc_readers :: "'m readers"
  lc_next :: nat

definition new_log_listener :: "'m log_listener" where
  "new_log_listener = \<lparr>lc_subscriber = None, lc_readers = (\<lambda>_. \<lparr>q_items = [], q_maxsize = 0\<rparr>), lc_next = 0\<rparr>"

definition log_reader_init :: "int \<Rightarrow> 'm message_type \<Rightarrow> 'm log_listener \<Rightarrow> 'm log_listener \<times> 'm readers handler result" where
  "log_reader_init queue_size ty c =
     (case reader_handler (lc_next c) ty of
        Inl e \<Rightarrow> (c, Inl e)
      | Inr h \<Rightarrow> (c\<lparr>lc_readers := (lc_readers c)(lc_next c := \<lparr>q_items = [], q_maxsize = queue_size\<rparr>), lc_next := lc_next c + 1\<rparr>, Inr h))"

definition log_listen ::
    "'q result \<Rightarrow> unit result \<Rightarrow> 'm message_type \<Rightarrow> 'm log_listener \<Rightarrow> 'm log_listener \<times> 'm readers handler result" where
  "log_listen request linked ty c =
     (case request of
        Inl e \<Rightarrow> (c, Inl e)
      | Inr _ \<Rightarrow>
          (if lc_subscriber c \<noteq> None then log_reader_init 4096 ty c
           else case linked of
             Inl e \<Rightarrow> (c\<lparr>lc_subscriber := Some new_subscriber\<rparr>, Inl e)
           | Inr _ \<Rightarrow> log_reader_init 4096 ty (c\<lparr>lc_subscriber := Some new_subscriber\<rparr>)))"

text \<open>\<open>MessageHandler.initialize\<close> is what adds a reader to its subscriber; \<open>listen\<close> does not call it.\<close>

definition log_reader_start :: "'m readers handler \<Rightarrow> 'm log_listener \<Rightarrow> 'm log_listener" where
  "log_reader_start h c = c\<lparr>lc_subscriber := map_option (\<lambda>s. fst (add_handler h s)) (lc_subscriber c)\<rparr>"

definition log_received :: "(string \<times> bool) list \<Rightarrow> 'm log_listener \<Rightarrow> 'm log_listener" where
  "log_received frames c =
     (case lc_subscriber c of None \<Rightarrow> c | Some s \<Rightarrow> c\<lparr>lc_readers := receive_all s frames (lc_readers c)\<rparr>)"

text \<open>What a writer of messages publishes.\<close>

definition written_frames :: "'m message_type \<Rightarrow> 'm list \<Rightarrow> (string \<times> bool) list" where
  "written_frames ty ms = concat (map (\<lambda>m.
     case bind_result (writer_topic ty TopicNone) (\<lambda>tpc. write_proto ty tpc m) of Inl e \<Rightarrow> [] | Inr frames \<Rightarrow> frames) ms)"

subsection \<open>Streaming over gRPC\<close>

text \<open>
  The worker of the gRPC client calls the stub's \<open>Writer\<close> with an iterator over the queue, again
  and again while the writer is open. The package asks the iterator for the next message when
  it sees fit, in a thread of its own, also after the call has ended. An iterator has not begun,
  reads a queue, or is exhausted; the state \<open>Reading k\<close> of a worker is a call with iterator
  \<open>k\<close>. \<open>ls_yielded\<close> are the messages that iterators have yielded, with the iterator.
\<close>

datatype iterator = Fresh | Draining nat | Exhausted

record 'm log_stream =
  ls_writer :: "'m submitter"
  ls_iterators :: "iterator list"
  ls_yielded :: "(nat \<times> 'm) list"

definition new_log_stream :: "int \<Rightarrow> 'm log_stream" where
  "new_log_stream queue_size = \<lparr>ls_writer = new_submitter queue_size, ls_iterators = [], ls_yielded = []\<rparr>"

definition stream_top :: "nat \<Rightarrow> 'm log_stream \<Rightarrow> 'm log_stream option" where
  "stream_top i s =
     (case worker_at i (ls_writer s) of
        AtTop \<Rightarrow> Some (if is_writer_open (ls_writer s)
           then s\<lparr>ls_writer := set_worker i (Reading (length (ls_iterators s))) (ls_writer s), ls_iterators := ls_iterators s @ [Fresh]\<rparr>
           else s\<lparr>ls_writer := set_worker i Gone (ls_writer s)\<rparr>)
      | _ \<Rightarrow> None)"

text \<open>The call returns or raises; either way the worker looks whether the writer is still open.\<close>

definition stream_end :: "nat \<Rightarrow> 'm log_stream \<Rightarrow> 'm log_stream option" where
  "stream_end i s =
     (case worker_at i (ls_writer s) of
        Reading k \<Rightarrow> Some (s\<lparr>ls_writer := set_worker i AtTop (ls_writer s)\<rparr>)
      | _ \<Rightarrow> None)"

definition queue_iterator :: "nat \<Rightarrow> 'm log_stream \<Rightarrow> 'm log_stream option" where
  "queue_iterator k s =
     (if length (ls_iterators s) \<le> k then None
      else case ls_iterators s ! k of
        Exhausted \<Rightarrow> None
      | Fresh \<Rightarrow> Some (s\<lparr>ls_iterators := (ls_iterators s)[k := case su_queue (ls_writer s) of None \<Rightarrow> Exhausted | Some q \<Rightarrow> Draining q]\<rparr>)
      | Draining q \<Rightarrow> (case q_get_nowait (su_queues (ls_writer s) ! q) of
            None \<Rightarrow> None
          | Some (item, queue) \<Rightarrow>
              (let s' = s\<lparr>ls_writer := (ls_writer s)\<lparr>su_queues := (su_queues (ls_writer s))[q := queue]\<rparr>\<rparr> in
               Some (case item of
                 None \<Rightarrow> s'\<lparr>ls_iterators := (ls_iterators s)[k := Exhausted]\<rparr>
               | Some m \<Rightarrow> s'\<lparr>ls_yielded := ls_yielded s @ [(k, m)]\<rparr>))))"

datatype 'm stream_event = StreamOpen | StreamClose | StreamSentinel nat | StreamSubmit 'm | StreamTop nat | StreamNext nat | StreamOver nat

fun stream_step :: "'m stream_event \<Rightarrow> 'm log_stream \<Rightarrow> 'm log_stream option" where
  "stream_step StreamOpen s = Some (s\<lparr>ls_writer := open_writer (ls_writer s)\<rparr>)"
| "stream_step StreamClose s = Some (s\<lparr>ls_writer := close_writer (ls_writer s)\<rparr>)"
| "stream_step (StreamSentinel q) s = map_option (\<lambda>y. s\<lparr>ls_writer := y\<rparr>) (put_sentinel q (ls_writer s))"
| "stream_step (StreamSubmit m) s = map_option (\<lambda>y. s\<lparr>ls_writer := y\<rparr>) (submit m (ls_writer s))"
| "stream_step (StreamTop i) s = stream_top i s"
| "stream_step (StreamNext k) s = queue_iterator k s"
| "stream_step (StreamOver i) s = stream_end i s"

fun stream_run :: "'m stream_event list \<Rightarrow> 'm log_stream \<Rightarrow> 'm log_stream option" where
  "stream_run [] s = Some s"
| "stream_run (e # es) s = (case stream_step e s of None \<Rightarrow> None | Some s' \<Rightarrow> stream_run es s')"

end
