(* ===== verification/Log_Clients_Props.thy ===== *)
theory Log_Clients_Props
  imports Log_Clients
begin

section \<open>What readers get, and what is streamed\<close>

subsection \<open>Readers\<close>

lemma put_in_bounds:
  assumes "pyqueue.in_bounds q"
  shows "\<exists>q'. queue_put_roundrobin q x = Some q' \<and> pyqueue.in_bounds q'"
  using pyqueue.put_roundrobin_alone[OF assms, of x] unfolding queue_put_roundrobin_def by blast

text \<open>One reader's queue over a sequence of messages, from empty.\<close>

definition put_all :: "'m py_queue \<Rightarrow> 'm list \<Rightarrow> 'm py_queue" where
  "put_all = foldl (\<lambda>q m. case queue_put_roundrobin q m of None \<Rightarrow> q | Some q' \<Rightarrow> q')"

lemma put_all_newest: "put_all \<lparr>q_items = [], q_maxsize = n\<rparr> ms = \<lparr>q_items = keep_last n ms, q_maxsize = n\<rparr>"
proof (induction ms rule: rev_induct)
  case (snoc m ms)
  have "pyqueue.in_bounds \<lparr>q_items = keep_last n ms, q_maxsize = n\<rparr>"
    by (auto simp: pyqueue.in_bounds_def keep_last_def)
  from queue_put[OF this, of m]
  have "queue_put_roundrobin \<lparr>q_items = keep_last n ms, q_maxsize = n\<rparr> m = Some \<lparr>q_items = keep_last n (ms @ [m]), q_maxsize = n\<rparr>"
    unfolding keep_last_snoc[symmetric] by simp
  with snoc show ?case by (simp add: put_all_def)
qed (simp add: put_all_def keep_last_def)

lemma reader_put_at: "fst (reader_put key m rs) = rs(key := put_all (rs key) [m])"
  by (auto simp: reader_put_def put_all_def split: option.split)

lemma reader_handler_is:
  "reader_handler key ty = Inr \<lparr>h_key = key, h_filter = Some (full_name ty),
     h_handle = (\<lambda>data s. case parse ty data of Inl e \<Rightarrow> (s, Inl e) | Inr m \<Rightarrow> reader_put key m s)\<rparr>"
  by (simp add: reader_handler_def proto_handler_def)

text \<open>A subscriber all of whose handlers are readers of one type of message.\<close>

definition readers_of :: "nat list \<Rightarrow> 'm message_type \<Rightarrow> 'm readers handler list" where
  "readers_of keys ty = map (\<lambda>k. \<lparr>h_key = k, h_filter = Some (full_name ty),
     h_handle = (\<lambda>data s. case parse ty data of Inl e \<Rightarrow> (s, Inl e) | Inr m \<Rightarrow> reader_put k m s)\<rparr>) keys"

lemma readers_step:
  assumes "parse ty (serialize ty m) = Inr m" "distinct keys" "subscriptions sub = readers_of keys ty"
  shows "fst (process_message sub [full_name ty, serialize ty m] rs) =
    (\<lambda>k. if k \<in> set keys then put_all (rs k) [m] else rs k)"
proof -
  have "filter (accepts [full_name ty, serialize ty m]) (readers_of keys ty) = readers_of keys ty"
    by (simp add: readers_of_def accepts_def filter_id_conv)
  then have "fst (process_message sub [full_name ty, serialize ty m] rs)
      = foldl (\<lambda>s h. fst (handle_parts h [full_name ty, serialize ty m] s)) rs (readers_of keys ty)"
    by (simp add: process_message_def assms(3) invoke_handlers_spec)
  also have "\<dots> = foldl (\<lambda>s k. s(k := put_all (s k) [m])) rs keys"
    by (simp add: readers_of_def foldl_map handle_parts_def combine_parts_def assms(1) reader_put_at)
  also have "\<dots> = (\<lambda>k. if k \<in> set keys then put_all (rs k) [m] else rs k)"
    using assms(2) by (induction keys arbitrary: rs) (auto simp: fun_eq_iff)
  finally show ?thesis .
qed

lemma written_frames_Cons: "written_frames ty (m # ms) = (full_name ty, True) # (serialize ty m, False) # written_frames ty ms"
  by (simp add: written_frames_def writer_topic_def write_proto_def write_bytes_def publish_def)

lemma readers_receive:
  assumes "\<forall>m \<in> set ms. parse ty (serialize ty m) = Inr m" "distinct keys" "subscriptions sub = readers_of keys ty"
  shows "receive_all sub (written_frames ty ms) rs = (\<lambda>k. if k \<in> set keys then put_all (rs k) ms else rs k)"
  using assms(1)
proof (induction ms arbitrary: rs)
  case Nil
  show ?case by (subst receive_all.simps) (simp add: written_frames_def put_all_def fun_eq_iff)
next
  case (Cons m ms)
  have "receive_all sub (written_frames ty (m # ms)) rs
      = receive_all sub (written_frames ty ms) (\<lambda>k. if k \<in> set keys then put_all (rs k) [m] else rs k)"
    using readers_step[OF _ assms(2,3), of m rs] Cons.prems
    by (subst receive_all.simps) (simp add: written_frames_Cons)
  also have "\<dots> = (\<lambda>k. if k \<in> set keys then put_all (rs k) (m # ms) else rs k)"
    using Cons by (simp add: fun_eq_iff put_all_def)
  finally show ?case .
qed

text \<open>Reading item after item.\<close>

fun read_items :: "nat \<Rightarrow> nat \<Rightarrow> 'm readers \<Rightarrow> 'm list" where
  "read_items 0 key rs = []"
| "read_items (Suc k) key rs = (case log_reader_next key rs of None \<Rightarrow> [] | Some (m, rs') \<Rightarrow> m # read_items k key rs')"

lemma read_items_all: "length (q_items (rs key)) \<le> k \<Longrightarrow> read_items k key rs = q_items (rs key)"
  by (induction k arbitrary: rs) (auto simp: log_reader_next_def q_get_nowait_def split: list.split)

text \<open>
  C26. A reader yields the newest messages, once it has been started: of the messages published
  afterwards, in order, the last 4096. A reader that is used as \<open>listen\<close> returns it yields
  nothing, whatever is published: no one adds it to the subscriber.
\<close>

theorem reader_yields_newest:
  assumes "log_listen (Inr request) (Inr ()) ty new_log_listener = (c, Inr h)"
    and "\<forall>m \<in> set ms. parse ty (serialize ty m) = Inr m" and "4096 \<le> k"
  shows "read_items k (h_key h) (lc_readers (log_received (written_frames ty ms) (log_reader_start h c))) = drop (length ms - 4096) ms
    \<and> read_items k (h_key h) (lc_readers (log_received (written_frames ty ms) c)) = []"
proof -
  have c: "h = \<lparr>h_key = 0, h_filter = Some (full_name ty),
      h_handle = (\<lambda>data s. case parse ty data of Inl e \<Rightarrow> (s, Inl e) | Inr m \<Rightarrow> reader_put 0 m s)\<rparr>"
    "lc_subscriber c = Some new_subscriber" "lc_readers c 0 = \<lparr>q_items = [], q_maxsize = 4096\<rparr>"
    using assms(1) by (auto simp: log_listen_def new_log_listener_def log_reader_init_def reader_handler_is)
  have started: "subscriptions (fst (add_handler h new_subscriber)) = readers_of [0] ty"
    and fresh: "subscriptions new_subscriber = readers_of [] ty"
    by (simp_all add: c(1) add_handler_def new_subscriber_def readers_of_def)
  have "lc_readers (log_received (written_frames ty ms) (log_reader_start h c)) 0 = put_all (lc_readers c 0) ms"
    using readers_receive[OF assms(2) _ started] by (simp add: log_received_def log_reader_start_def c(2))
  moreover have "lc_readers (log_received (written_frames ty ms) c) 0 = lc_readers c 0"
    using readers_receive[OF assms(2) _ fresh] by (simp add: log_received_def c(2))
  moreover have "length (keep_last 4096 ms) \<le> k" using assms(3) by (simp add: keep_last_def)
  ultimately show ?thesis
    by (simp add: c(1,3) put_all_newest read_items_all) (simp add: keep_last_def)
qed

definition text_type :: "string message_type" where
  "text_type = \<lparr>full_name = ''Loggable'', serialize = id, parse = Inr\<rparr>"

theorem reader_yields_newest_witness:
  "\<exists>c h. log_listen (Inr ()) (Inr ()) text_type new_log_listener = (c, Inr h)
    \<and> read_items 5000 (h_key h) (lc_readers (log_received (written_frames text_type [''a'', ''b'']) (log_reader_start h c))) = [''a'', ''b'']
    \<and> read_items 5000 (h_key h) (lc_readers (log_received (written_frames text_type [''a'', ''b'']) c)) = []"
proof -
  obtain c h where l: "log_listen (Inr ()) (Inr ()) text_type new_log_listener = (c, Inr h)"
    by (simp add: log_listen_def new_log_listener_def log_reader_init_def reader_handler_is)
  have "\<forall>m \<in> set [''a'', ''b'']. parse text_type (serialize text_type m) = Inr m" by (simp add: text_type_def)
  from reader_yields_newest[OF l this, of 5000] l show ?thesis by (simp del: read_items.simps)
qed

subsection \<open>Streaming\<close>

text \<open>
  The messages that iterators have yielded, and then the queue. The streaming client is seen as
  a writer without worker that has written what was yielded.
\<close>

definition stream_flow :: "'m log_stream \<Rightarrow> 'm option list" where
  "stream_flow s = map (Some \<circ> snd) (ls_yielded s) @ q_items (su_queues (ls_writer s) ! 0)"

definition as_writer :: "'m log_stream \<Rightarrow> 'm submitter" where
  "as_writer s = (ls_writer s)\<lparr>su_workers := [AtTop], su_written := ls_yielded s\<rparr>"

lemma as_writer_flow: "flow (as_writer s) = stream_flow s"
  by (simp add: flow_def in_hand_def in_queue_def as_writer_def stream_flow_def)

lemma submit_as_writer:
  "submit m (y\<lparr>su_workers := ws, su_written := zs\<rparr>) = map_option (\<lambda>y. y\<lparr>su_workers := ws, su_written := zs\<rparr>) (submit m y)"
  by (simp add: submit_def split: option.split)

definition stream_inv :: "'m list \<Rightarrow> 'm log_stream \<Rightarrow> bool" where
  "stream_inv ms s \<longleftrightarrow> flow_inv ms (as_writer s) \<and> su_failed (ls_writer s) = 0
     \<and> list_all (\<lambda>it. it \<in> {Fresh, Draining 0, Exhausted}) (ls_iterators s)"

definition stream_steady :: "'m stream_event \<Rightarrow> bool" where
  "stream_steady e \<longleftrightarrow> (case e of StreamOpen \<Rightarrow> False | StreamClose \<Rightarrow> False | _ \<Rightarrow> True)"

definition stream_submitted :: "'m stream_event list \<Rightarrow> 'm list" where
  "stream_submitted es = concat (map (\<lambda>e. case e of StreamSubmit m \<Rightarrow> [m] | _ \<Rightarrow> []) es)"

lemma flow_inv_queue: "flow_inv ms y \<Longrightarrow> su_queue y = Some 0 \<and> length (su_queues y) = 1 \<and> su_pending y = []"
  by (simp add: flow_inv_def)

lemma submit_failed: "submit m y = Some y' \<Longrightarrow> su_failed y' = su_failed y"
  by (auto simp: submit_def split: option.splits)

lemma iterator_step:
  assumes "stream_inv ms s" "queue_iterator k s = Some s'"
  shows "stream_inv ms s'"
proof -
  let ?y = "ls_writer s"
  have inv: "flow_inv ms (as_writer s)" "su_queue ?y = Some 0" "length (su_queues ?y) = 1"
    using assms(1) flow_inv_queue[of ms "as_writer s"] by (simp_all add: stream_inv_def as_writer_def)
  obtain q where q: "su_queues ?y = [q]" using inv(3) by (cases "su_queues ?y") auto
  have its: "list_all (\<lambda>it. it \<in> {Fresh, Draining 0, Exhausted}) ((ls_iterators s)[k := it])"
    if "it \<in> {Fresh, Draining 0, Exhausted}" for it
    using assms(1) that set_update_subset_insert[of "ls_iterators s" k it] by (auto simp: stream_inv_def list_all_iff)
  have k: "k < length (ls_iterators s)" using assms(2) by (auto simp: queue_iterator_def split: if_splits)
  consider "ls_iterators s ! k = Fresh" | "ls_iterators s ! k = Draining 0"
    using assms k by (cases "ls_iterators s ! k") (auto simp: stream_inv_def queue_iterator_def list_all_length)
  then show ?thesis
  proof cases
    case 1
    then have "s' = s\<lparr>ls_iterators := (ls_iterators s)[k := Draining 0]\<rparr>" using assms(2) k inv(2) by (simp add: queue_iterator_def)
    with assms(1) its show ?thesis by (simp add: stream_inv_def as_writer_def)
  next
    case 2
    then obtain x xs where x: "q_items q = x # xs"
      using assms(2) k by (auto simp: queue_iterator_def q q_get_nowait_def split: list.splits)
    have flow: "flow (as_writer s) = map (Some \<circ> snd) (ls_yielded s) @ x # xs" by (simp add: as_writer_flow stream_flow_def q x)
    have "None \<notin> set (flow (as_writer s))" using inv(1) by (intro subseq_none[of _ ms]) (simp add: flow_inv_def)
    then obtain m where m: "x = Some m" unfolding flow by (cases x) auto
    have s': "s' = s\<lparr>ls_writer := ?y\<lparr>su_queues := [q\<lparr>q_items := xs\<rparr>]\<rparr>, ls_yielded := ls_yielded s @ [(k, m)]\<rparr>"
      using assms(2) k 2 by (simp add: queue_iterator_def q q_get_nowait_def x m Let_def)
    have "flow (as_writer s') = flow (as_writer s)" unfolding flow by (simp add: as_writer_flow stream_flow_def s' m)
    moreover have "pyqueue.in_bounds (q\<lparr>q_items := xs\<rparr>)" using inv(1) by (auto simp: flow_inv_def as_writer_def q pyqueue.in_bounds_def x)
    ultimately have "flow_inv ms (as_writer s')" using inv(1) by (simp add: flow_inv_def as_writer_def s')
    with assms(1) show ?thesis by (simp add: stream_inv_def s')
  qed
qed

lemma stream_flow_step:
  assumes "stream_inv ms s" "stream_step e s = Some s'" "stream_steady e"
  shows "stream_inv (ms @ stream_submitted [e]) s'"
proof (cases e)
  case (StreamSubmit m)
  then obtain y where y: "submit m (ls_writer s) = Some y" "s' = s\<lparr>ls_writer := y\<rparr>" using assms(2) by auto
  have "submit m (as_writer s) = Some (as_writer s')" by (simp add: as_writer_def submit_as_writer y)
  with flow_put[of ms "as_writer s" m] assms(1) y StreamSubmit submit_failed[OF y(1)] show ?thesis
    by (simp add: stream_inv_def stream_submitted_def)
next
  case (StreamSentinel q)
  with assms flow_inv_queue[of ms "as_writer s"] show ?thesis
    by (auto simp: stream_inv_def put_sentinel_def as_writer_def)
next
  case (StreamTop i)
  with assms show ?thesis
    by (auto simp: stream_inv_def stream_submitted_def stream_top_def set_worker_def as_writer_def split: worker.splits if_splits)
next
  case (StreamOver i)
  with assms show ?thesis
    by (auto simp: stream_inv_def stream_submitted_def stream_end_def set_worker_def as_writer_def split: worker.splits)
next
  case (StreamNext k)
  with iterator_step[OF assms(1)] assms(2) show ?thesis by (simp add: stream_submitted_def)
qed (use assms in \<open>auto simp: stream_steady_def\<close>)

lemma stream_flow_run:
  "stream_inv ms s \<Longrightarrow> stream_run es s = Some s' \<Longrightarrow> list_all stream_steady es \<Longrightarrow> stream_inv (ms @ stream_submitted es) s'"
proof (induction es arbitrary: ms s)
  case (Cons e es)
  then obtain z where z: "stream_step e s = Some z" "stream_run es z = Some s'" by (auto split: option.splits)
  have "stream_submitted (e # es) = stream_submitted [e] @ stream_submitted es" by (simp add: stream_submitted_def)
  with Cons.IH[OF stream_flow_step[OF Cons.prems(1) z(1)] z(2)] Cons.prems(3) show ?case by simp
qed (simp add: stream_submitted_def)

text \<open>
  C25. Over gRPC nothing is reordered, repeated or made up while the writer is open, however many
  calls fail and whenever the package asks their iterators: what all iterators together have
  yielded, and then the queue, is in this order what was submitted, less what a full queue
  discarded. Each message is yielded by one iterator only.
\<close>

theorem log_streamed_in_order:
  assumes "stream_run (StreamOpen # es) (new_log_stream n) = Some s" and "list_all stream_steady es"
  shows "subseq (stream_flow s) (map Some (stream_submitted es))
    \<and> length (stream_submitted es) = length (ls_yielded s) + length (q_items (su_queues (ls_writer s) ! 0)) + su_lost (ls_writer s)
    \<and> (su_lost (ls_writer s) = 0 \<longrightarrow> stream_flow s = map Some (stream_submitted es))"
proof -
  let ?s = "(new_log_stream n)\<lparr>ls_writer := open_writer (new_submitter n)\<rparr>"
  have "stream_inv [] ?s"
    by (simp add: stream_inv_def flow_inv_def as_writer_def new_log_stream_def open_writer_def new_submitter_def is_writer_open_def
        flow_def in_hand_def in_queue_def pyqueue.in_bounds_def)
  moreover have "stream_run es ?s = Some s" using assms(1) by (simp add: new_log_stream_def)
  ultimately have "stream_inv (stream_submitted es) s" using stream_flow_run[of "[]" ?s es s] assms(2) by simp
  then have inv: "flow_inv (stream_submitted es) (as_writer s)" "su_failed (ls_writer s) = 0" by (simp_all add: stream_inv_def)
  then have "subseq (stream_flow s) (map Some (stream_submitted es))"
    "length (stream_submitted es) = length (stream_flow s) + su_lost (ls_writer s)"
    by (simp_all add: flow_inv_def as_writer_flow) (simp_all add: as_writer_def)
  then show ?thesis by (auto simp: stream_flow_def intro: subseq_same_length)
qed

text \<open>
  The first call fails after one message. Its iterator is asked once more, and the third message
  goes to no call; the new call goes on with the fourth.
\<close>

definition stream_demo :: "nat stream_event list" where
  "stream_demo = [StreamSubmit 1, StreamTop 0, StreamNext 0, StreamNext 0, StreamSubmit 2, StreamSubmit 3, StreamOver 0,
     StreamTop 0, StreamNext 1, StreamNext 1, StreamNext 0, StreamSubmit 4, StreamNext 1, StreamSubmit 5]"

theorem log_streamed_in_order_witness:
  "\<exists>s. stream_run (StreamOpen # stream_demo) (new_log_stream 9) = Some s \<and> ls_yielded s = [(0, 1), (1, 2), (0, 3), (1, 4)]
    \<and> su_workers (ls_writer s) = [Reading 1] \<and> stream_flow s = [Some 1, Some 2, Some 3, Some 4, Some 5]"
proof -
  have "map_option (\<lambda>s. (ls_yielded s, su_workers (ls_writer s), su_lost (ls_writer s))) (stream_run (StreamOpen # stream_demo) (new_log_stream 9))
      = Some ([(0, 1), (1, 2), (0, 3), (1, 4)], [Reading 1], 0)" by code_simp
  then obtain s where s: "stream_run (StreamOpen # stream_demo) (new_log_stream 9) = Some s"
    "ls_yielded s = [(0, 1), (1, 2), (0, 3), (1, 4)]" "su_workers (ls_writer s) = [Reading 1]" "su_lost (ls_writer s) = 0"
    by (auto simp del: stream_run.simps)
  have "list_all stream_steady stream_demo" "stream_submitted stream_demo = [1, 2, 3, 4, 5]" by code_simp+
  with log_streamed_in_order[OF s(1)] s show ?thesis by (auto simp del: stream_run.simps)
qed

subsection \<open>Closing a stream\<close>

lemma stream_run_append:
  "stream_run (es @ fs) s = (case stream_run es s of None \<Rightarrow> None | Some s' \<Rightarrow> stream_run fs s')"
  by (induction es arbitrary: s) (simp_all split: option.split)

lemma draining_run:
  assumes "k < length (ls_iterators s)" "ls_iterators s ! k = Draining q" "q < length (su_queues (ls_writer s))"
    and "q_items (su_queues (ls_writer s) ! q) = map Some ms @ [None]"
  shows "\<exists>s'. stream_run (replicate (Suc (length ms)) (StreamNext k)) s = Some s' \<and> ls_yielded s' = ls_yielded s @ map (Pair k) ms
    \<and> ls_iterators s' = (ls_iterators s)[k := Exhausted] \<and> q_items (su_queues (ls_writer s') ! q) = []
    \<and> su_workers (ls_writer s') = su_workers (ls_writer s) \<and> su_thread (ls_writer s') = su_thread (ls_writer s)"
  using assms
proof (induction ms arbitrary: s)
  case (Cons m ms)
  define z where "z = s\<lparr>ls_writer := (ls_writer s)\<lparr>su_queues := (su_queues (ls_writer s))[q := (su_queues (ls_writer s) ! q)\<lparr>q_items := map Some ms @ [None]\<rparr>]\<rparr>,
    ls_yielded := ls_yielded s @ [(k, m)]\<rparr>"
  have step: "stream_step (StreamNext k) s = Some z"
    using Cons.prems by (simp add: queue_iterator_def q_get_nowait_def z_def Let_def)
  have "k < length (ls_iterators z)" "ls_iterators z ! k = Draining q" "q < length (su_queues (ls_writer z))"
    "q_items (su_queues (ls_writer z) ! q) = map Some ms @ [None]"
    using Cons.prems by (simp_all add: z_def)
  from Cons.IH[OF this] show ?case
    by (simp only: length_Cons replicate_Suc stream_run.simps step option.case) (simp add: z_def)
qed (simp add: queue_iterator_def q_get_nowait_def Let_def)

text \<open>
  Closing lets a stream finish: when a writer is closed whose queue has room, the iterator of the
  current call yields all that is queued, in order, and is exhausted; and when the call is over,
  the worker ends.
\<close>

theorem stream_closing_drains:
  assumes "su_queue (ls_writer s) = Some q" "su_pending (ls_writer s) = []" "q < length (su_queues (ls_writer s))"
    and "worker_at i (ls_writer s) = Reading k" "k < length (ls_iterators s)" "ls_iterators s ! k = Draining q"
    and "q_items (su_queues (ls_writer s) ! q) = map Some ms"
    and "\<not> (0 < q_maxsize (su_queues (ls_writer s) ! q) \<and> q_maxsize (su_queues (ls_writer s) ! q) \<le> int (length ms))"
  shows "\<exists>s'. stream_run ([StreamClose, StreamSentinel q] @ replicate (Suc (length ms)) (StreamNext k) @ [StreamOver i, StreamTop i]) s = Some s'
    \<and> ls_yielded s' = ls_yielded s @ map (Pair k) ms \<and> ls_iterators s' ! k = Exhausted \<and> worker_at i (ls_writer s') = Gone"
proof -
  define z where "z = s\<lparr>ls_writer := (ls_writer s)\<lparr>su_queue := None, su_thread := None, su_pending := [],
    su_queues := (su_queues (ls_writer s))[q := (su_queues (ls_writer s) ! q)\<lparr>q_items := map Some ms @ [None]\<rparr>]\<rparr>\<rparr>"
  have start: "stream_run [StreamClose, StreamSentinel q] s = Some z"
    using assms by (simp add: close_writer_def put_sentinel_def q_put_nowait_def z_def)
  have "k < length (ls_iterators z)" "ls_iterators z ! k = Draining q" "q < length (su_queues (ls_writer z))"
    "q_items (su_queues (ls_writer z) ! q) = map Some ms @ [None]"
    using assms(3,5,6) by (simp_all add: z_def)
  from draining_run[OF this] obtain s1 where s1:
    "stream_run (replicate (Suc (length ms)) (StreamNext k)) z = Some s1" "ls_yielded s1 = ls_yielded s @ map (Pair k) ms"
    "ls_iterators s1 = (ls_iterators s)[k := Exhausted]" "su_workers (ls_writer s1) = su_workers (ls_writer s)" "su_thread (ls_writer s1) = None"
    by (auto simp: z_def)
  have i: "i < length (su_workers (ls_writer s))" "su_workers (ls_writer s) ! i = Reading k"
    using assms(4) by (auto simp: worker_at_def split: if_splits)
  have "\<exists>s'. stream_run [StreamOver i, StreamTop i] s1 = Some s' \<and> ls_yielded s' = ls_yielded s1 \<and> ls_iterators s' = ls_iterators s1
      \<and> worker_at i (ls_writer s') = Gone"
    using s1(4,5) i by (simp add: stream_end_def stream_top_def worker_at_def set_worker_def is_writer_open_def)
  moreover have "stream_run ([StreamClose, StreamSentinel q] @ replicate (Suc (length ms)) (StreamNext k) @ [StreamOver i, StreamTop i]) s
      = stream_run [StreamOver i, StreamTop i] s1"
    by (simp only: stream_run_append start s1(1) option.case)
  ultimately show ?thesis using s1(2,3) assms(5) by auto
qed

end
