(* ===== verification/Http_Client.thy ===== *)
theory Http_Client
  imports Zmq_Endpoint
begin

section \<open>Clients over HTTP (\<open>messaging/http\<close>, \<open>messaging/rest/client.py\<close>)\<close>

text \<open>
  Texts are ASCII. \<open>urlsplit\<close> and \<open>urlunsplit\<close> of the standard library are written out as in
  Python 3.12; whether a bracketed host is an address is a parameter, and so are the server
  and the parsers of JSON.
\<close>

subsection \<open>Parts of a URL\<close>

record url_parts =
  up_scheme :: string
  up_netloc :: string
  up_path :: string
  up_query :: string
  up_fragment :: string

definition scheme_char :: "char \<Rightarrow> bool" where
  "scheme_char c \<longleftrightarrow> is_alpha c \<or> is_digit c \<or> c \<in> set ''+-.''"

definition unsafe_char :: "char \<Rightarrow> bool" where
  "unsafe_char c \<longleftrightarrow> (of_char c :: nat) \<in> {9, 10, 13}"

definition control_or_space :: "char \<Rightarrow> bool" where
  "control_or_space c \<longleftrightarrow> (of_char c :: nat) \<le> 32"

definition cut_at :: "char \<Rightarrow> string \<Rightarrow> string \<times> string" where
  "cut_at d s = (takeWhile (\<lambda>c. c \<noteq> d) s, tl (dropWhile (\<lambda>c. c \<noteq> d) s))"

definition split_scheme :: "string \<Rightarrow> string \<times> string" where
  "split_scheme url =
     (let (before, after) = cut_at CHR '':'' url in
      if CHR '':'' \<in> set url \<and> before \<noteq> [] \<and> is_alpha (hd before) \<and> list_all scheme_char before
      then (lower before, after) else ([], url))"

definition netloc_char :: "char \<Rightarrow> bool" where
  "netloc_char c \<longleftrightarrow> c \<notin> set ''/?#''"

definition brackets_valid :: "(string \<Rightarrow> bool) \<Rightarrow> string \<Rightarrow> bool" where
  "brackets_valid bracket_ok netloc \<longleftrightarrow>
     (CHR ''['' \<in> set netloc \<longleftrightarrow> CHR '']'' \<in> set netloc) \<and> (CHR ''['' \<in> set netloc \<longrightarrow> bracket_ok netloc)"

definition urlsplit :: "(string \<Rightarrow> bool) \<Rightarrow> string \<Rightarrow> url_parts result" where
  "urlsplit bracket_ok url =
     (let url = filter (\<lambda>c. \<not> unsafe_char c) (dropWhile control_or_space url);
          (scheme, rest) = split_scheme url;
          (netloc, rest) = (if take 2 rest = ''//'' then (takeWhile netloc_char (drop 2 rest), dropWhile netloc_char (drop 2 rest))
                            else ([], rest));
          (rest, fragment) = cut_at CHR ''#'' rest;
          (path, query) = cut_at CHR ''?'' rest
      in if brackets_valid bracket_ok netloc
         then Inr \<lparr>up_scheme = scheme, up_netloc = netloc, up_path = path, up_query = query, up_fragment = fragment\<rparr>
         else Inl ValueError)"

text \<open>The schemes for which a missing host is written as an empty one.\<close>

definition uses_netloc :: "string list" where
  "uses_netloc = [[], ''ftp'', ''http'', ''gopher'', ''nntp'', ''telnet'', ''imap'', ''wais'', ''file'', ''mms'', ''https'', ''shttp'',
     ''snews'', ''prospero'', ''rtsp'', ''rtsps'', ''rtspu'', ''rsync'', ''svn'', ''svn+ssh'', ''sftp'', ''nfs'', ''git'', ''git+ssh'',
     ''ws'', ''wss'', ''itms-services'']"

definition urlunsplit :: "url_parts \<Rightarrow> string" where
  "urlunsplit p =
     (let url = (if up_netloc p \<noteq> [] \<or> up_scheme p \<noteq> [] \<and> up_scheme p \<in> set uses_netloc \<and> take 2 (up_path p) \<noteq> ''//''
                 then ''//'' @ up_netloc p @ (if up_path p \<noteq> [] \<and> hd (up_path p) \<noteq> CHR ''/'' then CHR ''/'' # up_path p else up_path p)
                 else up_path p);
          url = (if up_scheme p \<noteq> [] then up_scheme p @ '':'' @ url else url);
          url = (if up_query p \<noteq> [] then url @ ''?'' @ up_query p else url)
      in if up_fragment p \<noteq> [] then url @ ''#'' @ up_fragment p else url)"

subsection \<open>The target\<close>

text \<open>\<open>rsplit(":", 1)\<close>: the parts before and after the last colon.\<close>

definition split_port :: "string \<Rightarrow> string \<times> string option" where
  "split_port netloc =
     (if CHR '':'' \<in> set netloc
      then (rev (tl (dropWhile (\<lambda>c. c \<noteq> CHR '':'') (rev netloc))), Some (rev (takeWhile (\<lambda>c. c \<noteq> CHR '':'') (rev netloc))))
      else (netloc, None))"

text \<open>What is found in the settings may be anything.\<close>

record target_parts =
  tp_scheme :: variant
  tp_netloc :: variant
  tp_path :: variant
  tp_query :: string
  tp_fragment :: string

record url_options =
  ot_scheme :: string
  ot_host :: string
  ot_port :: string
  ot_path :: string
  ot_default_scheme :: string
  ot_default_host :: string
  ot_default_port :: variant
  ot_default_path :: string

definition http_options :: url_options where
  "http_options = \<lparr>ot_scheme = ''scheme'', ot_host = ''host'', ot_port = ''port'', ot_path = ''path'',
     ot_default_scheme = ''http'', ot_default_host = ''localhost'', ot_default_port = VNull, ot_default_path = []\<rparr>"

definition fill_target :: "config \<Rightarrow> url_options \<Rightarrow> url_parts \<Rightarrow> target_parts result" where
  "fill_target cf os p =
     (let (host, port) = split_port (up_netloc p);
          lookup = setting (cf_settings cf) (cf_channel cf) in
      bind_result (if ot_scheme os \<noteq> [] \<and> up_scheme p = [] then lookup (ot_scheme os) (VStr (ot_default_scheme os)) else Inr (VStr (up_scheme p)))
        (\<lambda>scheme.
      bind_result (if ot_host os \<noteq> [] \<and> host = [] then lookup (ot_host os) (VStr (ot_default_host os)) else Inr (VStr host))
        (\<lambda>host.
      bind_result (if ot_port os \<noteq> [] \<and> port = None then lookup (ot_port os) (ot_default_port os)
                   else Inr (case port of None \<Rightarrow> VNull | Some n \<Rightarrow> VStr n))
        (\<lambda>port.
      bind_result (if ot_path os \<noteq> [] \<and> up_path p = [] then lookup (ot_path os) (VStr (ot_default_path os)) else Inr (VStr (up_path p)))
        (\<lambda>path. Inr \<lparr>tp_scheme = scheme,
            tp_netloc = (if truthy port then VStr (py_str (cf_repr cf) host @ '':'' @ py_str (cf_repr cf) port) else host),
            tp_path = path, tp_query = up_query p, tp_fragment = up_fragment p\<rparr>)))))"

definition get_target :: "(string \<Rightarrow> bool) \<Rightarrow> config \<Rightarrow> url_options \<Rightarrow> string \<Rightarrow> target_parts result" where
  "get_target bracket_ok cf os provided = bind_result (urlsplit bracket_ok provided) (fill_target cf os)"

text \<open>
  \<open>urlunsplit\<close> takes texts: other objects that count as true cannot be mixed with texts, a
  scheme that is no text is asked for its \<open>decode\<close>, and a path that is no text cannot be joined
  to one. Nothing is joined if all else is empty. (If the scheme is no text and everything is
  empty, the result is an empty byte string, here the empty text.)
\<close>

definition given_text :: "variant \<Rightarrow> bool" where
  "given_text v = (case v of VStr s \<Rightarrow> s \<noteq> [] | _ \<Rightarrow> False)"

definition unsplit_target :: "target_parts \<Rightarrow> variant result" where
  "unsplit_target t =
     (case tp_scheme t of
        VStr scheme \<Rightarrow>
          (case (tp_netloc t, tp_path t) of
             (VStr netloc, VStr path) \<Rightarrow> Inr (VStr (urlunsplit \<lparr>up_scheme = scheme, up_netloc = netloc, up_path = path,
                up_query = tp_query t, up_fragment = tp_fragment t\<rparr>))
           | (netloc, VStr path) \<Rightarrow> if truthy netloc then Inl TypeError
                else Inr (VStr (urlunsplit \<lparr>up_scheme = scheme, up_netloc = [], up_path = path,
                  up_query = tp_query t, up_fragment = tp_fragment t\<rparr>))
           | (netloc, path) \<Rightarrow>
                if truthy netloc \<or> truthy path \<or> scheme \<noteq> [] \<or> tp_query t \<noteq> [] \<or> tp_fragment t \<noteq> [] then Inl TypeError
                else Inr path)
      | scheme \<Rightarrow> if given_text (tp_netloc t) \<or> given_text (tp_path t)
                     \<or> tp_query t \<noteq> [] \<or> tp_fragment t \<noteq> []
                   then Inl TypeError
                   else if truthy scheme \<or> truthy (tp_netloc t) \<or> truthy (tp_path t) then Inl AttributeError
                   else Inr (VStr []))"

definition get_target_url :: "(string \<Rightarrow> bool) \<Rightarrow> config \<Rightarrow> string \<Rightarrow> variant result" where
  "get_target_url bracket_ok cf provided = bind_result (get_target bracket_ok cf http_options provided) unsplit_target"

text \<open>The name that the settings of the endpoint are looked up under, and the client's base URL.\<close>

definition http_service_name :: "string option \<Rightarrow> string option \<Rightarrow> string result" where
  "http_service_name class_service_name service_name =
     (case service_name of
        Some name \<Rightarrow> Inr name
      | None \<Rightarrow> (case class_service_name of None \<Rightarrow> Inl AssertionError | Some name \<Rightarrow> Inr name))"

definition new_http_client ::
    "(string \<Rightarrow> bool) \<Rightarrow> (string \<Rightarrow> config) \<Rightarrow> string option \<Rightarrow> string option \<Rightarrow> string \<Rightarrow> variant result" where
  "new_http_client bracket_ok endpoint_config class_service_name service_name base_url =
     bind_result (http_service_name class_service_name service_name) (\<lambda>name.
       get_target_url bracket_ok (endpoint_config name) base_url)"

subsection \<open>Requests\<close>

text \<open>
  \<open>combined_url\<close> calls a method that does not exist; \<open>combined_parts\<close> uses \<open>os.path\<close>, which is
  not imported, once its arguments are checked and split.
\<close>

definition combined_url :: "variant \<Rightarrow> variant \<Rightarrow> variant \<Rightarrow> string result" where
  "combined_url base_url rel_path kwargs = Inl AttributeError"

definition combined_parts :: "(string \<Rightarrow> bool) \<Rightarrow> string \<Rightarrow> variant \<Rightarrow> variant \<Rightarrow> url_parts result" where
  "combined_parts bracket_ok base_url rel_path kwargs =
     (case rel_path of
        VStr rel \<Rightarrow>
          (case kwargs of
             VMap d \<Rightarrow> bind_result (urlsplit bracket_ok base_url) (\<lambda>_. bind_result (urlsplit bracket_ok rel) (\<lambda>_. Inl NameError))
           | _ \<Rightarrow> Inl TypeError)
      | _ \<Rightarrow> Inl TypeError)"

datatype http_error = HTTPClientError | HTTPServerError | ConnectionError | OtherError py_error

record http_response =
  hr_status :: int
  hr_content_type :: "string option"
  hr_body :: string

definition check_response :: "http_response \<Rightarrow> string option \<Rightarrow> http_error + http_response" where
  "check_response r expected_content_type =
     (if 400 \<le> hr_status r \<and> hr_status r < 500 then Inl HTTPClientError
      else if 500 \<le> hr_status r \<and> hr_status r < 600 then Inl HTTPServerError
      else case expected_content_type of
        None \<Rightarrow> Inr r
      | Some expected \<Rightarrow>
          (if expected = [] then Inr r
           else case hr_content_type r of
             None \<Rightarrow> Inl (OtherError AttributeError)
           | Some received \<Rightarrow> if take (length expected) received = expected then Inr r else Inl (OtherError TypeError)))"

text \<open>
  Only the part of a URL before the path matters for a connection, and \<open>urlparse\<close> gives it like
  \<open>urlsplit\<close>. The thread-local object is made anew each time the property is read, so that each
  request makes a connection; \<open>conns\<close> are those made so far.
\<close>

datatype connection_type = HTTPConnection | HTTPSConnection

definition connection_map :: "(string, connection_type) dict" where
  "connection_map = [(''http'', HTTPConnection), (''https'', HTTPSConnection)]"

definition create_connection :: "(string \<Rightarrow> bool) \<Rightarrow> string \<Rightarrow> (connection_type \<times> string) result" where
  "create_connection bracket_ok url =
     bind_result (urlsplit bracket_ok url) (\<lambda>p.
       case dict_get connection_map (up_scheme p) of None \<Rightarrow> Inl TypeError | Some t \<Rightarrow> Inr (t, up_netloc p))"

definition connection :: "(string \<Rightarrow> bool) \<Rightarrow> string \<Rightarrow> (connection_type \<times> string) list
    \<Rightarrow> (connection_type \<times> string) list \<times> (connection_type \<times> string) result" where
  "connection bracket_ok base_url conns =
     (case create_connection bracket_ok base_url of
        Inl e \<Rightarrow> (conns, Inl e)
      | Inr c \<Rightarrow> (conns @ [c], Inr c))"

text \<open>\<open>server\<close> answers a request for a location on a connection, or the connection fails.\<close>

definition get_raw ::
    "(string \<Rightarrow> bool) \<Rightarrow> (connection_type \<times> string \<Rightarrow> string \<Rightarrow> http_response option) \<Rightarrow> string \<Rightarrow> string
     \<Rightarrow> (connection_type \<times> string) list \<Rightarrow> (connection_type \<times> string) list \<times> (http_error + http_response)" where
  "get_raw bracket_ok server base_url location conns =
     (case connection bracket_ok base_url conns of
        (conns', Inl e) \<Rightarrow> (conns', Inl (OtherError e))
      | (conns', Inr c) \<Rightarrow> (conns', case server c location of None \<Rightarrow> Inl ConnectionError | Some r \<Rightarrow> Inr r))"

definition http_get ::
    "(string \<Rightarrow> bool) \<Rightarrow> (connection_type \<times> string \<Rightarrow> string \<Rightarrow> http_response option) \<Rightarrow> string \<Rightarrow> variant \<Rightarrow> variant
     \<Rightarrow> string option \<Rightarrow> (connection_type \<times> string) list \<Rightarrow> (connection_type \<times> string) list \<times> (http_error + http_response)" where
  "http_get bracket_ok server base_url path kwargs expected_content_type conns =
     (case combined_parts bracket_ok base_url path kwargs of
        Inl e \<Rightarrow> (conns, Inl (OtherError e))
      | Inr parts \<Rightarrow>
          (let location = urlunsplit (parts\<lparr>up_scheme := [], up_netloc := [], up_fragment := []\<rparr>) in
           case get_raw bracket_ok server base_url location conns of
             (conns', Inl e) \<Rightarrow> (conns', Inl e)
           | (conns', Inr r) \<Rightarrow> (conns', check_response r expected_content_type)))"

text \<open>\<open>asyncio\<close> is not imported.\<close>

definition get_async :: "(connection_type \<times> string) list \<Rightarrow> (connection_type \<times> string) list \<times> (http_error + http_response)" where
  "get_async conns = (conns, Inl (OtherError NameError))"

definition get_json ::
    "(string \<Rightarrow> bool) \<Rightarrow> (connection_type \<times> string \<Rightarrow> string \<Rightarrow> http_response option) \<Rightarrow> (variant \<Rightarrow> string result) \<Rightarrow> (string \<Rightarrow> variant result)
     \<Rightarrow> string \<Rightarrow> variant \<Rightarrow> vmap \<Rightarrow> (connection_type \<times> string) list \<Rightarrow> (connection_type \<times> string) list \<times> (http_error + variant)" where
  "get_json bracket_ok server dumps loads base_url rel_url kwargs conns =
     (case map_result (\<lambda>(key, v). bind_result (dumps v) (\<lambda>s. Inr (key, VStr s))) kwargs of
        Inl e \<Rightarrow> (conns, Inl (OtherError e))
      | Inr string_args \<Rightarrow>
          (case http_get bracket_ok server base_url rel_url (VMap string_args) (Some ''application/json'') conns of
             (conns', Inl e) \<Rightarrow> (conns', Inl e)
           | (conns', Inr r) \<Rightarrow> (conns', case loads (hr_body r) of Inl e \<Rightarrow> Inl (OtherError e) | Inr v \<Rightarrow> Inr v)))"

end
