(* ===== verification/Http_Client_Props.thy ===== *)
theory Http_Client_Props
  imports Http_Client Py_Regex
begin

section \<open>Where an HTTP client goes\<close>

subsection \<open>Splitting and joining URLs\<close>

definition url_ok :: "(string \<Rightarrow> bool) \<Rightarrow> url_parts \<Rightarrow> bool" where
  "url_ok bracket_ok p \<longleftrightarrow>
     up_scheme p \<noteq> [] \<and> is_alpha (hd (up_scheme p)) \<and> list_all scheme_char (up_scheme p) \<and> lower (up_scheme p) = up_scheme p
     \<and> up_netloc p \<noteq> [] \<and> list_all netloc_char (up_netloc p) \<and> brackets_valid bracket_ok (up_netloc p)
     \<and> (up_path p = [] \<or> hd (up_path p) = CHR ''/'') \<and> CHR ''?'' \<notin> set (up_path p) \<and> CHR ''#'' \<notin> set (up_path p)
     \<and> CHR ''#'' \<notin> set (up_query p)
     \<and> list_all (\<lambda>c. \<not> unsafe_char c) (up_netloc p @ up_path p @ up_query p @ up_fragment p)"

lemma cut_at_mark: "d \<notin> set xs \<Longrightarrow> cut_at d (xs @ d # ys) = (xs, ys)"
proof -
  assume "d \<notin> set xs"
  then have "list_all (\<lambda>c. c \<noteq> d) xs" by (auto simp: list_all_iff)
  from takeWhile_stop[OF this, of "d # ys"] show ?thesis by (simp add: cut_at_def)
qed

lemma cut_at_none: "d \<notin> set xs \<Longrightarrow> cut_at d xs = (xs, [])"
  unfolding cut_at_def by (induction xs) auto

text \<open>The part after a mark, with the mark, if there is any.\<close>

definition marked :: "char \<Rightarrow> string \<Rightarrow> string" where
  "marked d xs = (if xs = [] then [] else d # xs)"

lemma cut_at_marked: "d \<notin> set xs \<Longrightarrow> cut_at d (xs @ marked d ys) = (xs, ys)"
  by (cases "ys = []") (simp_all add: marked_def cut_at_mark cut_at_none)

lemma urlunsplit_ok:
  "url_ok b p \<Longrightarrow> urlunsplit p =
     up_scheme p @ '':'' @ ''//'' @ up_netloc p @ up_path p @ marked CHR ''?'' (up_query p) @ marked CHR ''#'' (up_fragment p)"
  by (auto simp: urlunsplit_def url_ok_def marked_def Let_def)

lemma scheme_char_safe: "scheme_char c \<Longrightarrow> c \<noteq> CHR '':'' \<and> \<not> unsafe_char c \<and> \<not> control_or_space c"
  by (auto simp: scheme_char_def unsafe_char_def control_or_space_def is_alpha_def is_digit_def)

lemma urlsplit_unsplit:
  assumes "url_ok b p"
  shows "urlsplit b (urlunsplit p) = Inr p"
proof -
  let ?q = "marked CHR ''?'' (up_query p)" and ?f = "marked CHR ''#'' (up_fragment p)"
  let ?rest = "up_netloc p @ up_path p @ ?q @ ?f"
  have ok: "up_scheme p \<noteq> []" "is_alpha (hd (up_scheme p))" "list_all scheme_char (up_scheme p)" "lower (up_scheme p) = up_scheme p"
    "up_netloc p \<noteq> []" "list_all netloc_char (up_netloc p)" "brackets_valid b (up_netloc p)"
    "up_path p = [] \<or> hd (up_path p) = CHR ''/''" "CHR ''?'' \<notin> set (up_path p)" "CHR ''#'' \<notin> set (up_path p)"
    "CHR ''#'' \<notin> set (up_query p)" "list_all (\<lambda>c. \<not> unsafe_char c) (up_netloc p @ up_path p @ up_query p @ up_fragment p)"
    using assms by (simp_all add: url_ok_def)
  have url: "urlunsplit p = up_scheme p @ CHR '':'' # ''//'' @ ?rest" using urlunsplit_ok[OF assms] by simp
  have drop: "dropWhile control_or_space (urlunsplit p) = urlunsplit p"
    using ok(1,3) scheme_char_safe unfolding url by (cases "up_scheme p") auto
  have "list_all (\<lambda>c. \<not> unsafe_char c) (urlunsplit p)"
    using ok(3,12) scheme_char_safe unfolding url by (auto simp: list_all_iff marked_def unsafe_char_def)
  then have safe: "filter (\<lambda>c. \<not> unsafe_char c) (urlunsplit p) = urlunsplit p" by (simp add: list_all_iff filter_id_conv)
  have "CHR '':'' \<notin> set (up_scheme p)" using ok(3) scheme_char_safe by (auto simp: list_all_iff)
  then have scheme: "split_scheme (urlunsplit p) = (up_scheme p, ''//'' @ ?rest)"
    unfolding url split_scheme_def by (simp add: cut_at_mark ok(1-4) del: append_Cons append.append_Nil)
  have "case up_path p @ ?q @ ?f of [] \<Rightarrow> True | c # _ \<Rightarrow> \<not> netloc_char c"
    using ok(8) by (cases "up_path p") (auto simp: marked_def netloc_char_def)
  then have netloc: "takeWhile netloc_char ?rest = up_netloc p" "dropWhile netloc_char ?rest = up_path p @ ?q @ ?f"
    using takeWhile_stop[OF ok(6)] by simp_all
  have "CHR ''#'' \<notin> set (up_path p @ ?q)" using ok(10,11) by (auto simp: marked_def)
  then have frag: "cut_at CHR ''#'' (up_path p @ ?q @ ?f) = (up_path p @ ?q, up_fragment p)"
    using cut_at_marked[of "CHR ''#''" "up_path p @ ?q"] by simp
  have query: "cut_at CHR ''?'' (up_path p @ ?q) = (up_path p, up_query p)" using cut_at_marked[OF ok(9)] .
  show ?thesis
    unfolding urlsplit_def drop safe Let_def scheme by (simp add: netloc frag query ok(7))
qed

subsection \<open>Settled targets\<close>

lemma split_port_colon:
  assumes "CHR '':'' \<in> set n"
  shows "\<exists>h port. split_port n = (h, Some port) \<and> n = h @ CHR '':'' # port"
proof -
  let ?t = "takeWhile (\<lambda>c. c \<noteq> CHR '':'') (rev n)" and ?d = "dropWhile (\<lambda>c. c \<noteq> CHR '':'') (rev n)"
  have "?d \<noteq> []" using assms by (auto simp: dropWhile_eq_Nil_conv)
  then have "?d = CHR '':'' # tl ?d" using hd_dropWhile[of "\<lambda>c. c \<noteq> CHR '':''" "rev n"] by (cases ?d) auto
  then have "rev n = ?t @ CHR '':'' # tl ?d" by (metis takeWhile_dropWhile_id)
  then have "n = rev (tl ?d) @ CHR '':'' # rev ?t" by (metis append.assoc append_Cons append_Nil rev_append rev_rev_ident rev_singleton_conv rev.simps(2))
  with assms show ?thesis by (simp add: split_port_def)
qed

lemma split_port_plain: "CHR '':'' \<notin> set n \<Longrightarrow> split_port n = (n, None)"
  by (simp add: split_port_def)

definition text_target :: "url_parts \<Rightarrow> target_parts" where
  "text_target p = \<lparr>tp_scheme = VStr (up_scheme p), tp_netloc = VStr (up_netloc p), tp_path = VStr (up_path p),
     tp_query = up_query p, tp_fragment = up_fragment p\<rparr>"

lemma unsplit_text: "unsplit_target (text_target p) = Inr (VStr (urlunsplit p))"
  by (cases p) (simp add: unsplit_target_def text_target_def)

text \<open>Filling in what is missing leaves nothing that is missing.\<close>

lemma fill_settled:
  assumes "fill_target cf http_options p = Inr (text_target t)" "snd (split_port (up_netloc p)) \<noteq> Some []"
    and "up_scheme t \<noteq> []" "up_netloc t \<noteq> []" "hd (up_netloc t) \<noteq> CHR '':''" "last (up_netloc t) \<noteq> CHR '':''"
  shows "fill_target cf http_options t = Inr (text_target t)"
proof -
  let ?look = "setting (cf_settings cf) (cf_channel cf)"
  obtain h0 p0 where sp: "split_port (up_netloc p) = (h0, p0)" by fastforce
  obtain host port where host: "if h0 = [] then ?look ''host'' (VStr ''localhost'') = Inr host else host = VStr h0"
    and port: "if p0 = None then ?look ''port'' VNull = Inr port else port = VStr (the p0)"
    and path: "if up_path p = [] then ?look ''path'' (VStr []) = Inr (VStr (up_path t)) else up_path t = up_path p"
    and netloc: "VStr (up_netloc t) = (if truthy port then VStr (py_str (cf_repr cf) host @ '':'' @ py_str (cf_repr cf) port) else host)"
    using assms(1)
    by (auto simp: fill_target_def http_options_def sp text_target_def Let_def result_simps split: if_splits)
  have look_path: "up_path t = [] \<Longrightarrow> ?look ''path'' (VStr []) = Inr (VStr [])"
    using path by (auto split: if_splits)
  show ?thesis
  proof (cases "CHR '':'' \<in> set (up_netloc t)")
    case True
    from split_port_colon[OF this] obtain h n where n: "split_port (up_netloc t) = (h, Some n)" "up_netloc t = h @ CHR '':'' # n" by blast
    have "h \<noteq> []" "n \<noteq> []" using assms(5,6) unfolding n(2) by auto
    with n assms(3) look_path show ?thesis
      by (cases "up_path t = []") (simp_all add: fill_target_def http_options_def text_target_def)
  next
    case False
    then have "\<not> truthy port" using netloc by auto
    moreover from this have "p0 = None" using port assms(2) by (cases p0) (auto simp: sp)
    ultimately have "?look ''port'' VNull = Inr port" "\<not> truthy port" using port by auto
    with split_port_plain[OF False] assms(3,4) look_path show ?thesis
      by (cases "up_path t = []") (simp_all add: fill_target_def http_options_def text_target_def)
  qed
qed


definition web_config :: config where
  "web_config = \<lparr>cf_settings = [(''Inventory'', VMap [(''host'', VStr ''db.local''), (''port'', VStr ''8080'')])], cf_channel = ''Inventory'',
     cf_provided = None, cf_repr = (\<lambda>_. [])\<rparr>"


subsection \<open>Misread hosts\<close>

text \<open>
  A host with a port, but without slashes in front, is misread, although this form is
  documented: the host is taken for the scheme, in lower case, and the port for the path, and
  no connection is made for such a target unless the host is called like a protocol.
\<close>

theorem bare_host_misread:
  assumes "h \<noteq> []" and "is_alpha (hd h)" and "list_all scheme_char h" and "ds \<noteq> []" and "list_all is_digit ds"
    and "get_target b cf http_options (h @ '':'' @ ds) = Inr t"
  shows "tp_scheme t = VStr (lower h) \<and> tp_path t = VStr ds
    \<and> (\<forall>u. t = text_target u \<and> url_ok b (u\<lparr>up_path := CHR ''/'' # ds\<rparr>) \<and> lower h \<notin> {''http'', ''https''} \<longrightarrow>
          create_connection b (urlunsplit u) = Inl TypeError)"
proof -
  have digit: "c \<noteq> CHR '':'' \<and> c \<noteq> CHR ''/'' \<and> c \<noteq> CHR ''#'' \<and> c \<noteq> CHR ''?'' \<and> \<not> unsafe_char c" if "is_digit c" for c
    using that by (auto simp: is_digit_def unsafe_char_def)
  have colon: "CHR '':'' \<notin> set h" using assms(3) scheme_char_safe by (auto simp: list_all_iff)
  have drop: "dropWhile control_or_space (h @ '':'' @ ds) = h @ '':'' @ ds"
    using assms(1,3) scheme_char_safe by (cases h) auto
  have "\<not> unsafe_char CHR '':''" by (simp add: unsafe_char_def)
  then have safe: "filter (\<lambda>c. \<not> unsafe_char c) (h @ '':'' @ ds) = h @ '':'' @ ds"
    using assms(3,5) scheme_char_safe digit by (auto simp: filter_id_conv list_all_iff)
  have scheme: "split_scheme (h @ '':'' @ ds) = (lower h, ds)"
    using cut_at_mark[OF colon, of ds] assms(1-3) by (simp add: split_scheme_def)
  obtain d ds' where ds: "ds = d # ds'" using assms(4) by (cases ds) auto
  have "d \<noteq> CHR ''/''" using assms(5) digit by (simp add: ds)
  then have no_host: "take 2 ds \<noteq> ''//''" by (simp add: ds)
  have plain: "CHR ''#'' \<notin> set ds" "CHR ''?'' \<notin> set ds"
    using assms(5) digit by (auto simp only: list_all_iff)
  have "urlsplit b (h @ '':'' @ ds) = Inr \<lparr>up_scheme = lower h, up_netloc = [], up_path = ds, up_query = [], up_fragment = []\<rparr>"
    unfolding urlsplit_def drop safe Let_def scheme using plain no_host by (simp add: cut_at_none brackets_valid_def)
  moreover have "lower h \<noteq> []" using assms(1) by (simp add: lower_def)
  ultimately have t: "tp_scheme t = VStr (lower h) \<and> tp_path t = VStr ds"
    using assms(4,6) by (auto simp: get_target_def fill_target_def http_options_def split_port_def Let_def result_simps)
  have "create_connection b (urlunsplit u) = Inl TypeError"
    if u: "t = text_target u" "url_ok b (u\<lparr>up_path := CHR ''/'' # ds\<rparr>)" "lower h \<notin> {''http'', ''https''}" for u
  proof -
    have parts: "up_scheme u = lower h" "up_path u = ds" using t by (simp_all add: u(1) text_target_def)
    have "urlunsplit u = urlunsplit (u\<lparr>up_path := CHR ''/'' # ds\<rparr>)"
      using u(2) \<open>d \<noteq> CHR ''/''\<close> by (simp add: urlunsplit_def url_ok_def parts(2) ds Let_def)
    with urlsplit_unsplit[OF u(2)] u(3) show ?thesis by (simp add: create_connection_def connection_map_def parts(1))
  qed
  with t show ?thesis by blast
qed

theorem bare_host_misread_witness:
  "get_target_url (\<lambda>_. True) web_config ''Store7:8080'' = Inr (VStr ''store7://db.local:8080/8080'')
    \<and> create_connection (\<lambda>_. True) ''store7://db.local:8080/8080'' = Inl TypeError"
proof -
  let ?u = "\<lparr>up_scheme = ''store7'', up_netloc = ''db.local:8080'', up_path = ''8080'', up_query = [], up_fragment = []\<rparr>"
  have target: "get_target (\<lambda>_. True) web_config http_options (''Store7'' @ '':'' @ ''8080'') = Inr (text_target ?u)" by code_simp
  have url: "urlunsplit ?u = ''store7://db.local:8080/8080''" by code_simp
  have "get_target_url (\<lambda>_. True) web_config ''Store7:8080'' = Inr (VStr ''store7://db.local:8080/8080'')" by code_simp
  moreover have "url_ok (\<lambda>_. True) (?u\<lparr>up_path := CHR ''/'' # ''8080''\<rparr>)" "lower ''Store7'' \<notin> {''http'', ''https''}" by code_simp+
  moreover have "is_alpha (hd ''Store7'')" "list_all scheme_char ''Store7''" "list_all is_digit ''8080''" by code_simp+
  ultimately show ?thesis
    using bare_host_misread[OF _ _ _ _ _ target, THEN conjunct2, THEN conjunct2, THEN spec[of _ ?u]] url by simp
qed

subsection \<open>No request\<close>

text \<open>
  As they are written, the methods that make a request raise an exception before they make a
  connection, whatever the arguments, the settings and the server.
\<close>

theorem no_request_made:
  "(\<exists>e. http_get b server base_url path kwargs expected conns = (conns, Inl (OtherError e)))
    \<and> (\<exists>e. get_json b server dumps loads base_url rel_url args conns = (conns, Inl (OtherError e)))
    \<and> get_async conns = (conns, Inl (OtherError NameError))"
proof -
  have "combined_parts b base_url p k \<noteq> Inr parts" for p k parts
    by (auto simp: combined_parts_def result_simps split: variant.splits)
  then have fails: "\<exists>e. combined_parts b base_url p k = Inl e" for p k
    by (cases "combined_parts b base_url p k") auto
  have get: "\<exists>e. http_get b server base_url p k x conns = (conns, Inl (OtherError e))" for p k x
    using fails[of p k] by (auto simp: http_get_def)
  have "\<exists>e. get_json b server dumps loads base_url rel_url args conns = (conns, Inl (OtherError e))"
  proof (cases "map_result (\<lambda>(key, v). bind_result (dumps v) (\<lambda>s. Inr (key, VStr s))) args")
    case (Inr string_args)
    with get[of rel_url "VMap string_args" "Some ''application/json''"] show ?thesis by (auto simp: get_json_def)
  qed (simp add: get_json_def)
  with get show ?thesis by (simp add: get_async_def)
qed

end
