(* ===== verification/Aio_Clients.thy ===== *)
theory Aio_Clients
  imports Relay_Client Switch Grpc_Base
begin

section \<open>Clients on an event loop (\<open>messaging/grpc/client\<close>, \<open>pubsub/python/grpc/aio_client.py\<close>, \<open>switchboard/python/grpc/aio_remote_switch.py\<close>)\<close>

text \<open>
  Tasks of \<open>asyncio\<close> run one at a time between the places where they wait. A task that is
  cancelled gets the exception when it runs next: one that has not begun ends without running
  its body, one that waits ends through its \<open>finally\<close> clause. Methods are called between the
  steps of the tasks, not from within a callback.
\<close>

subsection \<open>The reader\<close>

datatype task_state = Created | Awaiting | Over

text \<open>Tasks are numbered in the order of their creation, each with a stream of its own.\<close>

record 'm aio_reader =
  ar_task :: "nat option"
  ar_states :: "task_state list"
  ar_cancelled :: "nat list"
  ar_closed :: "nat list"
  ar_log :: "(nat \<times> 'm) list"

definition new_aio_reader :: "'m aio_reader" where
  "new_aio_reader = \<lparr>ar_task = None, ar_states = [], ar_cancelled = [], ar_closed = [], ar_log = []\<rparr>"

definition task_state :: "nat \<Rightarrow> 'm aio_reader \<Rightarrow> task_state" where
  "task_state t r = (if t < length (ar_states r) then ar_states r ! t else Over)"

definition aio_reader_active :: "'m aio_reader \<Rightarrow> bool" where
  "aio_reader_active r \<longleftrightarrow> (case ar_task r of None \<Rightarrow> False | Some t \<Rightarrow> task_state t r \<noteq> Over)"

definition aio_reader_start :: "'m aio_reader \<Rightarrow> 'm aio_reader" where
  "aio_reader_start r =
     (if aio_reader_active r then r
      else r\<lparr>ar_task := Some (length (ar_states r)), ar_states := ar_states r @ [Created]\<rparr>)"

text \<open>Cancelling a task that is over does nothing.\<close>

definition aio_reader_stop :: "'m aio_reader \<Rightarrow> 'm aio_reader" where
  "aio_reader_stop r =
     (case ar_task r of
        None \<Rightarrow> r
      | Some t \<Rightarrow> r\<lparr>ar_task := None, ar_cancelled := (if task_state t r = Over then ar_cancelled r else t # ar_cancelled r)\<rparr>)"

text \<open>The clause \<open>finally\<close>; the stream is closed, and that \<open>cancel\<close> cannot be awaited is caught.\<close>

definition aio_finally :: "nat \<Rightarrow> 'm aio_reader \<Rightarrow> 'm aio_reader" where
  "aio_finally t r = r\<lparr>ar_task := None, ar_states := (ar_states r)[t := Over], ar_closed := ar_closed r @ [t]\<rparr>"

definition aio_worker_begin :: "nat \<Rightarrow> 'm aio_reader \<Rightarrow> 'm aio_reader option" where
  "aio_worker_begin t r =
     (if task_state t r \<noteq> Created then None
      else Some (r\<lparr>ar_states := (ar_states r)[t := if t \<in> set (ar_cancelled r) then Over else Awaiting]\<rparr>))"

definition aio_worker_message :: "bool \<Rightarrow> nat \<Rightarrow> 'm \<Rightarrow> 'm aio_reader \<Rightarrow> 'm aio_reader option" where
  "aio_worker_message raises t m r =
     (if task_state t r \<noteq> Awaiting \<or> t \<in> set (ar_cancelled r) then None
      else let r' = r\<lparr>ar_log := ar_log r @ [(t, m)]\<rparr> in Some (if raises then aio_finally t r' else r'))"

text \<open>The stream ends or raises, or the task is cancelled.\<close>

definition aio_worker_end :: "nat \<Rightarrow> 'm aio_reader \<Rightarrow> 'm aio_reader option" where
  "aio_worker_end t r = (if task_state t r \<noteq> Awaiting then None else Some (aio_finally t r))"

datatype 'm aio_event = AioStart | AioStop | AioBegin nat | AioMessage bool nat 'm | AioEnd nat

fun aio_step :: "'m aio_event \<Rightarrow> 'm aio_reader \<Rightarrow> 'm aio_reader option" where
  "aio_step AioStart r = Some (aio_reader_start r)"
| "aio_step AioStop r = Some (aio_reader_stop r)"
| "aio_step (AioBegin t) r = aio_worker_begin t r"
| "aio_step (AioMessage raises t m) r = aio_worker_message raises t m r"
| "aio_step (AioEnd t) r = aio_worker_end t r"

fun aio_run :: "'m aio_event list \<Rightarrow> 'm aio_reader \<Rightarrow> 'm aio_reader option" where
  "aio_run [] r = Some r"
| "aio_run (e # es) r = (case aio_step e r of None \<Rightarrow> None | Some r' \<Rightarrow> aio_run es r')"

subsection \<open>Interceptors\<close>

text \<open>The details are copied with the flag, and a stream raises what the interceptor makes of its exception.\<close>

definition async_call_details :: "bool \<Rightarrow> call_details \<Rightarrow> call_details" where
  "async_call_details wait_for_ready details =
     (if call_wait_for_ready details = None then details\<lparr>call_wait_for_ready := Some wait_for_ready\<rparr> else details)"

definition async_intercept_stream ::
    "bool \<Rightarrow> bool \<Rightarrow> (call_details \<Rightarrow> 'r \<Rightarrow> 'm list \<times> 'e call_error option) \<Rightarrow> call_details \<Rightarrow> 'r \<Rightarrow> 'm list \<times> 'e call_error option" where
  "async_intercept_stream wait_for_ready intercept_errors continuation details request =
     (case continuation (async_call_details wait_for_ready details) request of
        (ms, None) \<Rightarrow> (ms, None)
      | (ms, Some e) \<Rightarrow> (ms, Some (if intercept_errors then detail e else e)))"

lemma async_details_same: "async_call_details w d = call_details_with w d"
  by (simp add: async_call_details_def call_details_with_def split: option.split)

lemma async_stream_same: "async_intercept_stream w i k d q = intercept_stream w i k d q"
  by (simp add: async_intercept_stream_def intercept_stream_def async_details_same)

subsection \<open>The relay client\<close>

text \<open>
  The size of the queue that is given is not passed on: it is always 4096. What the threads of
  \<open>Relay_Client\<close> do, tasks do, except that stopping cancels the task and puts nothing into the
  queue.
\<close>

record 'm aio_relay =
  ay_relay :: "'m submitter"
  ay_cancelled :: "nat list"

definition new_aio_relay :: "int \<Rightarrow> 'm aio_relay" where
  "new_aio_relay queue_size = \<lparr>ay_relay = new_submitter 4096, ay_cancelled = []\<rparr>"

definition aio_relay_active :: "'m aio_relay \<Rightarrow> bool" where
  "aio_relay_active a = (case su_thread (ay_relay a) of None \<Rightarrow> False | Some t \<Rightarrow> worker_at t (ay_relay a) \<noteq> Gone)"

definition aio_start_publisher :: "'m aio_relay \<Rightarrow> 'm aio_relay" where
  "aio_start_publisher a =
     (if aio_relay_active a then a
      else let y = ay_relay a in
        a\<lparr>ay_relay := y\<lparr>su_queues := su_queues y @ [\<lparr>q_items = [], q_maxsize = su_size y\<rparr>], su_queue := Some (length (su_queues y)),
           su_thread := Some (length (su_workers y)), su_workers := su_workers y @ [AtTop]\<rparr>\<rparr>)"

text \<open>\<open>enqueue\<close> is inherited; the loop of \<open>put_roundrobin\<close> does not wait.\<close>

definition aio_enqueue :: "'m result \<Rightarrow> 'm aio_relay \<Rightarrow> 'm aio_relay option" where
  "aio_enqueue encoded a =
     (case encoded of
        Inl e \<Rightarrow> Some a
      | Inr m \<Rightarrow>
          (let a' = aio_start_publisher a; y = ay_relay a' in
           case su_queue y of
             None \<Rightarrow> None
           | Some q \<Rightarrow> (case queue_put_roundrobin (su_queues y ! q) (Some m) of
               None \<Rightarrow> None
             | Some queue \<Rightarrow> Some (a'\<lparr>ay_relay := y\<lparr>su_queues := (su_queues y)[q := queue],
                 su_lost := su_lost y + (length (q_items (su_queues y ! q)) + 1 - length (q_items queue))\<rparr>\<rparr>))))"

definition aio_stop_publisher :: "'m aio_relay \<Rightarrow> 'm aio_relay" where
  "aio_stop_publisher a =
     (case su_thread (ay_relay a) of
        None \<Rightarrow> a
      | Some t \<Rightarrow> a\<lparr>ay_relay := (ay_relay a)\<lparr>su_thread := None\<rparr>,
                    ay_cancelled := (if worker_at t (ay_relay a) = Gone then ay_cancelled a else t # ay_cancelled a)\<rparr>)"

text \<open>A task that is cancelled does nothing more: it ends, and the call that it waits for is cancelled too.\<close>

definition aio_publish_worker :: "('m submitter \<Rightarrow> 'm submitter option) \<Rightarrow> nat \<Rightarrow> 'm aio_relay \<Rightarrow> 'm aio_relay option" where
  "aio_publish_worker step i a =
     (if i \<in> set (ay_cancelled a) then None else map_option (\<lambda>y. a\<lparr>ay_relay := y\<rparr>) (step (ay_relay a)))"

definition aio_task_cancelled :: "nat \<Rightarrow> 'm aio_relay \<Rightarrow> 'm aio_relay option" where
  "aio_task_cancelled i a =
     (if i \<notin> set (ay_cancelled a) then None
      else case worker_at i (ay_relay a) of
        Gone \<Rightarrow> None
      | Holding q m \<Rightarrow> Some (a\<lparr>ay_relay := set_worker i Gone ((ay_relay a)\<lparr>su_failed := su_failed (ay_relay a) + 1\<rparr>)\<rparr>)
      | _ \<Rightarrow> Some (a\<lparr>ay_relay := set_worker i Gone (ay_relay a)\<rparr>))"

datatype 'm aio_relay_event =
    AioEnqueue "'m result" | AioStopPublisher | AioTop nat | AioGet nat | AioPublished bool nat | AioCancelled nat

fun aio_relay_step :: "'m aio_relay_event \<Rightarrow> 'm aio_relay \<Rightarrow> 'm aio_relay option" where
  "aio_relay_step (AioEnqueue encoded) a = aio_enqueue encoded a"
| "aio_relay_step AioStopPublisher a = Some (aio_stop_publisher a)"
| "aio_relay_step (AioTop i) a = aio_publish_worker (publisher_top i) i a"
| "aio_relay_step (AioGet i) a = aio_publish_worker (publisher_get i) i a"
| "aio_relay_step (AioPublished ok i) a = aio_publish_worker (publisher_publish ok i) i a"
| "aio_relay_step (AioCancelled i) a = aio_task_cancelled i a"

fun aio_relay_run :: "'m aio_relay_event list \<Rightarrow> 'm aio_relay \<Rightarrow> 'm aio_relay option" where
  "aio_relay_run [] a = Some a"
| "aio_relay_run (e # es) a = (case aio_relay_step e a of None \<Rightarrow> None | Some a' \<Rightarrow> aio_relay_run es a')"

text \<open>Publishing at once: the publication is encoded and passed to the stub; over \<open>asyncio\<close> the answer is dropped.\<close>

definition relay_publish :: "('m \<Rightarrow> 'w \<Rightarrow> 'w \<times> 'r result) \<Rightarrow> 'm result \<Rightarrow> 'w \<Rightarrow> 'w \<times> 'r result" where
  "relay_publish rpc encoded w = (case encoded of Inl e \<Rightarrow> (w, Inl e) | Inr m \<Rightarrow> rpc m w)"

definition aio_relay_publish :: "('m \<Rightarrow> 'w \<Rightarrow> 'w \<times> 'r result) \<Rightarrow> 'm result \<Rightarrow> 'w \<Rightarrow> 'w \<times> unit result" where
  "aio_relay_publish rpc encoded w =
     (case relay_publish rpc encoded w of (w', r) \<Rightarrow> (w', map_sum id (\<lambda>_. ()) r))"

text \<open>\<open>active\<close> of the client with a thread, and its initial state.\<close>

definition relay_active :: "'m submitter \<Rightarrow> bool" where
  "relay_active y = (case su_thread y of None \<Rightarrow> False | Some t \<Rightarrow> worker_at t y \<noteq> Gone)"

definition new_relay :: "int \<Rightarrow> 'm submitter" where
  "new_relay queue_size = new_submitter queue_size"

subsection \<open>The remote switch\<close>

text \<open>
  The requests of \<open>AsyncRemoteSwitch\<close>. The default of \<open>trigger_states\<close> is looked up when the
  class is defined, under the name that the generated enumeration has without its prefix being
  removed.
\<close>

definition aio_module_import :: "enumeration \<Rightarrow> unit result" where
  "aio_module_import states = bind_result (enum_value states ''STATE_SETTLED'') (\<lambda>_. Inr ())"

definition aio_set_specification ::
    "('w, 'e) stub \<Rightarrow> switch_spec \<Rightarrow> bool \<Rightarrow> bool \<Rightarrow> bool \<Rightarrow> bool option \<Rightarrow> bool option \<Rightarrow> 'e switch \<Rightarrow> 'w \<Rightarrow> 'w \<times> bool result" where
  "aio_set_specification st spec replace_localizations replace_dependencies replace_interceptors active update_state sw =
     rpc_set_specification st
       \<lparr>rq_switch_name = sw_name sw, rq_spec = spec, rq_active = active, rq_replace_aliases = False,
        rq_replace_localizations = replace_localizations, rq_replace_dependencies = replace_dependencies,
        rq_replace_interceptors = replace_interceptors, rq_update_state = update_state\<rparr>"

definition aio_add_dependency ::
    "('w, 'e) stub \<Rightarrow> string \<Rightarrow> dependency \<Rightarrow> bool option \<Rightarrow> bool option \<Rightarrow> 'e switch \<Rightarrow> 'w \<Rightarrow> 'w \<times> bool result" where
  "aio_add_dependency st predecessor_name dep allow_update reevaluate sw =
     rpc_add_dependency st
       \<lparr>dq_switch_name = sw_name sw, dq_predecessor_name = predecessor_name, dq_dependency = dep,
        dq_allow_update = allow_update, dq_reevaluate = reevaluate\<rparr>"

text \<open>\<open>cc\<close> and \<open>predecessor_name\<close> are not bound.\<close>

definition aio_remove_dependency :: "('w, 'e) stub \<Rightarrow> string \<Rightarrow> bool \<Rightarrow> 'e switch \<Rightarrow> 'w \<Rightarrow> 'w \<times> bool result" where
  "aio_remove_dependency st predecessor_name reevaluate sw w = (w, Inl NameError)"

definition aio_add_interceptor :: "('w, 'e) stub \<Rightarrow> string \<Rightarrow> interceptor \<Rightarrow> bool \<Rightarrow> 'e switch \<Rightarrow> 'w \<Rightarrow> 'w \<times> bool result" where
  "aio_add_interceptor st interceptor_name spec immediate sw w = (w, Inl NameError)"

definition aio_remove_interceptor :: "('w, 'e) stub \<Rightarrow> string \<Rightarrow> 'e switch \<Rightarrow> 'w \<Rightarrow> 'w \<times> bool result" where
  "aio_remove_interceptor st interceptor_name sw = rpc_remove_interceptor st (sw_name sw) interceptor_name"

definition aio_invoke_interceptor :: "('w, 'e) stub \<Rightarrow> string \<Rightarrow> int option \<Rightarrow> 'e switch \<Rightarrow> 'w \<Rightarrow> 'w \<times> 'e result" where
  "aio_invoke_interceptor st interceptor_name state sw w =
     (case rpc_invoke_intereptor st of
        None \<Rightarrow> (w, Inl AttributeError)
      | Some call \<Rightarrow> call (sw_name sw) interceptor_name state w)"

definition aio_set_target ::
    "variant_schema \<Rightarrow> ('s, 'd) clock \<Rightarrow> ('w, 'e) stub \<Rightarrow> int option \<Rightarrow> 'e option \<Rightarrow> ('s, 'd) target_options \<Rightarrow> 'e switch \<Rightarrow> 'w
     \<Rightarrow> ('w \<times> bool result) option" where
  "aio_set_target S c st target_state error opts sw w =
     (case encoded_attributes S c (to_attributes opts) of
        None \<Rightarrow> None
      | Some (Inl e) \<Rightarrow> Some (w, Inl e)
      | Some (Inr attrs) \<Rightarrow> Some (rpc_set_target st
           \<lparr>tq_switch_name = sw_name sw, tq_target_state = target_state, tq_error = error, tq_attributes = attrs,
            tq_clear_existing = to_clear_existing opts, tq_with_interceptors = to_with_interceptors opts,
            tq_trigger_descendants = to_trigger_descendants opts, tq_on_cancel = to_on_cancel opts, tq_on_error = to_on_error opts\<rparr> w))"

text \<open>
  \<open>set_attributes\<close> asks the call itself for \<open>updated\<close>, before it is awaited. Whether the call,
  which no one refers to any more, still reaches the service is up to the package: \<open>sent\<close>.
\<close>

definition aio_set_attributes ::
    "variant_schema \<Rightarrow> ('s, 'd) clock \<Rightarrow> ('w, 'e) stub \<Rightarrow> bool \<Rightarrow> (string \<times> ('s, 'd) object) list option \<Rightarrow> bool \<Rightarrow> 'e switch \<Rightarrow> 'w
     \<Rightarrow> ('w \<times> bool result) option" where
  "aio_set_attributes S c st sent attributes clear_existing sw w =
     (case encoded_attributes S c attributes of
        None \<Rightarrow> None
      | Some (Inl e) \<Rightarrow> Some (w, Inl e)
      | Some (Inr attrs) \<Rightarrow> Some (if sent then fst (rpc_set_attributes st (sw_name sw) attrs clear_existing w) else w, Inl AttributeError))"

definition aio_get_culprits ::
    "('w, 'e) stub \<Rightarrow> bool \<Rightarrow> 'e switch \<Rightarrow> 'w \<Rightarrow> 'w \<times> (string, 'e switch_status) dict result" where
  "aio_get_culprits st expected_position sw = rpc_get_culprits st (sw_name sw) expected_position"

definition aio_add_switch :: "('w, 'e) stub \<Rightarrow> string \<Rightarrow> 'w \<Rightarrow> 'w \<times> bool result" where
  "aio_add_switch st name = rpc_add_switch st name"

definition aio_remove_switch :: "('w, 'e) stub \<Rightarrow> string \<Rightarrow> bool \<Rightarrow> 'w \<Rightarrow> 'w \<times> bool result" where
  "aio_remove_switch st name propagate = rpc_remove_switch st name propagate"

end
