(* ===== verification/Aio_Clients_Props.thy ===== *)
theory Aio_Clients_Props
  imports Aio_Clients
begin

section \<open>Properties of the clients on an event loop\<close>

subsection \<open>Reading in turn\<close>

lemma task_finally [simp]:
  "task_state j (aio_finally t r) = (if j = t then Over else task_state j r)"
  "ar_task (aio_finally t r) = None" "ar_log (aio_finally t r) = ar_log r" "ar_cancelled (aio_finally t r) = ar_cancelled r"
  "length (ar_states (aio_finally t r)) = length (ar_states r)"
  by (auto simp: task_state_def aio_finally_def)

lemma task_other [simp]:
  "task_state j (r\<lparr>ar_log := l\<rparr>) = task_state j r" "task_state j (r\<lparr>ar_task := x, ar_cancelled := cs\<rparr>) = task_state j r"
  by (simp_all add: task_state_def)

lemma task_set:
  "task_state t r \<noteq> Over \<Longrightarrow> task_state j (r\<lparr>ar_states := (ar_states r)[t := x]\<rparr>) = (if j = t then x else task_state j r)"
  by (auto simp: task_state_def split: if_splits)

lemma task_started:
  "task_state j (r\<lparr>ar_task := x, ar_states := ar_states r @ [Created]\<rparr>) = (if j = length (ar_states r) then Created else task_state j r)"
  by (auto simp: task_state_def nth_append)

definition aio_in_turn :: "'m aio_reader \<Rightarrow> bool" where
  "aio_in_turn r \<longleftrightarrow> ar_cancelled r = [] \<and> (\<forall>t. task_state t r \<noteq> Over \<longleftrightarrow> ar_task r = Some t) \<and> sorted (map fst (ar_log r))
     \<and> list_all (\<lambda>c. fst c < length (ar_states r)) (ar_log r) \<and> (\<forall>t. ar_task r = Some t \<longrightarrow> Suc t = length (ar_states r))"

lemma aio_in_turn_step:
  assumes "aio_in_turn r" "aio_step e r = Some r'" "e \<noteq> AioStop"
  shows "aio_in_turn r'"
proof -
  have inv: "ar_cancelled r = []" "\<And>t. task_state t r \<noteq> Over \<longleftrightarrow> ar_task r = Some t" "sorted (map fst (ar_log r))"
    "list_all (\<lambda>c. fst c < length (ar_states r)) (ar_log r)" "\<And>t. ar_task r = Some t \<Longrightarrow> Suc t = length (ar_states r)"
    using assms(1) by (auto simp: aio_in_turn_def)
  show ?thesis
  proof (cases e)
    case AioStart
    show ?thesis
    proof (cases "ar_task r")
      case None
      then have "r' = r\<lparr>ar_task := Some (length (ar_states r)), ar_states := ar_states r @ [Created]\<rparr>"
        using AioStart assms(2) by (simp add: aio_reader_start_def aio_reader_active_def)
      moreover have "list_all (\<lambda>c. fst c < Suc (length (ar_states r))) (ar_log r)" using inv(4) by (simp add: list_all_iff less_SucI)
      ultimately show ?thesis using inv(1,2,3) None by (auto simp: aio_in_turn_def task_started)
    next
      case (Some t)
      then have "aio_reader_active r" using inv(2)[of t] by (simp add: aio_reader_active_def)
      then show ?thesis using AioStart assms(1,2) by (simp add: aio_reader_start_def)
    qed
  next
    case (AioBegin t)
    then have t: "task_state t r = Created" "r' = r\<lparr>ar_states := (ar_states r)[t := Awaiting]\<rparr>"
      using assms(2) inv(1) by (auto simp: aio_worker_begin_def split: if_splits)
    then have "task_state j r' = (if j = t then Awaiting else task_state j r)" for j by (simp add: task_set)
    then have "task_state j r' \<noteq> Over \<longleftrightarrow> ar_task r' = Some j" for j using inv(2)[of j] inv(2)[of t] t by auto
    then show ?thesis using inv t by (auto simp: aio_in_turn_def)
  next
    case (AioMessage raises t m)
    then have t: "task_state t r = Awaiting" using assms(2) by (auto simp: aio_worker_message_def split: if_splits)
    then have th: "ar_task r = Some t" using inv(2)[of t] by simp
    from inv(5)[OF th] have below: "\<forall>k \<in> set (map fst (ar_log r)). k \<le> t" using inv(4) by (fastforce simp: list_all_iff)
    have only: "task_state j r \<noteq> Over \<longleftrightarrow> j = t" for j using inv(2)[of j] th by auto
    have "r' = (if raises then aio_finally t (r\<lparr>ar_log := ar_log r @ [(t, m)]\<rparr>) else r\<lparr>ar_log := ar_log r @ [(t, m)]\<rparr>)"
      using AioMessage assms(2) t by (simp add: aio_worker_message_def Let_def split: if_splits)
    with inv below inv(5)[OF th] only th show ?thesis by (auto simp: aio_in_turn_def sorted_append)
  next
    case (AioEnd t)
    then have t: "task_state t r = Awaiting" "r' = aio_finally t r" using assms(2) by (auto simp: aio_worker_end_def split: if_splits)
    then have "ar_task r = Some t" using inv(2)[of t] by simp
    then have "task_state j r \<noteq> Over \<longleftrightarrow> j = t" for j using inv(2)[of j] by auto
    with inv t show ?thesis by (auto simp: aio_in_turn_def)
  qed (use assms in simp)
qed

definition aio_given :: "'m aio_event list \<Rightarrow> (nat \<times> 'm) list" where
  "aio_given es = concat (map (\<lambda>e. case e of AioMessage raises t m \<Rightarrow> [(t, m)] | _ \<Rightarrow> []) es)"

lemma aio_given_step: "aio_step e r = Some r' \<Longrightarrow> ar_log r' = ar_log r @ aio_given [e]"
  by (cases e) (auto simp: aio_given_def aio_reader_start_def aio_reader_stop_def aio_worker_begin_def aio_worker_message_def
      aio_worker_end_def Let_def split: if_splits option.splits)

lemma aio_in_turn_run:
  "aio_in_turn r \<Longrightarrow> aio_run es r = Some r' \<Longrightarrow> AioStop \<notin> set es \<Longrightarrow> aio_in_turn r' \<and> ar_log r' = ar_log r @ aio_given es"
proof (induction es arbitrary: r)
  case (Cons e es)
  then obtain z where z: "aio_step e r = Some z" "aio_run es z = Some r'" by (auto split: option.splits)
  have "aio_given (e # es) = aio_given [e] @ aio_given es" by (simp add: aio_given_def)
  with Cons.IH[OF aio_in_turn_step[OF Cons.prems(1) z(1)] z(2)] aio_given_step[OF z(1)] Cons.prems(3) show ?case by auto
qed (simp add: aio_given_def)

text \<open>
  A reader on an event loop that is not stopped reads one stream at a time: the callbacks are
  made message by message in the order of the streams, and the reader is active exactly while
  one task is not over.
\<close>

theorem aio_streams_read_in_turn:
  assumes "aio_run es new_aio_reader = Some r" and "AioStop \<notin> set es"
  shows "ar_log r = aio_given es \<and> sorted (map fst (ar_log r)) \<and> (aio_reader_active r \<longleftrightarrow> (\<exists>t. task_state t r \<noteq> Over))
    \<and> (\<forall>t u. task_state t r \<noteq> Over \<and> task_state u r \<noteq> Over \<longrightarrow> t = u)"
proof -
  have "aio_in_turn new_aio_reader" by (simp add: aio_in_turn_def new_aio_reader_def task_state_def)
  from aio_in_turn_run[OF this assms] show ?thesis
    by (auto simp: aio_in_turn_def new_aio_reader_def aio_reader_active_def split: option.split)
qed

subsection \<open>Stopping\<close>

definition heard :: "nat \<Rightarrow> 'm aio_reader \<Rightarrow> 'm list" where
  "heard t r = map snd (filter (\<lambda>c. fst c = t) (ar_log r))"

lemma cancelled_step:
  assumes "aio_step e r = Some r'" "t \<in> set (ar_cancelled r)"
  shows "t \<in> set (ar_cancelled r') \<and> heard t r' = heard t r"
  using assms
  by (cases e) (auto simp: heard_def aio_reader_start_def aio_reader_stop_def aio_worker_begin_def aio_worker_message_def
      aio_worker_end_def Let_def split: if_splits option.splits)

lemma cancelled_run: "aio_run es r = Some r' \<Longrightarrow> t \<in> set (ar_cancelled r) \<Longrightarrow> t \<in> set (ar_cancelled r') \<and> heard t r' = heard t r"
  by (induction es arbitrary: r) (auto split: option.splits dest: cancelled_step)

text \<open>
  C19. On an event loop a reader that is stopped is silent at once: the task that it had never
  calls back again, whatever happens and even if the reader is started again, and it can only
  end. If it was waiting for its stream, the stream is closed when it ends; if it had not begun,
  the stream is left open.
\<close>

theorem aio_stopped_silent:
  assumes "aio_reader_active r" and "ar_task r = Some t" and "aio_run es (aio_reader_stop r) = Some r'"
  shows "heard t r' = heard t r
    \<and> (task_state t r' = Awaiting \<longrightarrow> (\<exists>r''. aio_step (AioEnd t) r' = Some r'' \<and> task_state t r'' = Over \<and> t \<in> set (ar_closed r'')))
    \<and> (task_state t r' = Created \<longrightarrow> (\<exists>r''. aio_step (AioBegin t) r' = Some r'' \<and> task_state t r'' = Over \<and> ar_closed r'' = ar_closed r'))"
proof -
  have "task_state t r \<noteq> Over" using assms(1,2) by (simp add: aio_reader_active_def)
  then have "t \<in> set (ar_cancelled (aio_reader_stop r))" "heard t (aio_reader_stop r) = heard t r"
    by (simp_all add: aio_reader_stop_def assms(2) heard_def)
  from cancelled_run[OF assms(3) this(1)] this(2) have "t \<in> set (ar_cancelled r')" "heard t r' = heard t r" by simp_all
  then show ?thesis by (auto simp: aio_worker_end_def aio_worker_begin_def task_set) (auto simp: aio_finally_def)
qed

definition aio_stop_demo :: "nat aio_reader" where
  "aio_stop_demo = the (aio_run [AioStart, AioBegin 0, AioMessage False 0 7] new_aio_reader)"

theorem aio_stopped_silent_witness:
  "\<exists>r'. aio_run [AioStart, AioBegin 1, AioMessage False 1 8, AioEnd 0] (aio_reader_stop aio_stop_demo) = Some r'
    \<and> heard 0 r' = [7] \<and> ar_log r' = [(0, 7), (1, 8)]"
proof -
  have "map_option ar_log (aio_run [AioStart, AioBegin 1, AioMessage False 1 8, AioEnd 0] (aio_reader_stop aio_stop_demo))
      = Some [(0, 7), (1, 8)]" by code_simp
  then obtain r' where r': "aio_run [AioStart, AioBegin 1, AioMessage False 1 8, AioEnd 0] (aio_reader_stop aio_stop_demo) = Some r'"
    "ar_log r' = [(0, 7), (1, 8)]" by (auto simp del: aio_run.simps)
  have "aio_reader_active aio_stop_demo" "ar_task aio_stop_demo = Some 0" "heard 0 aio_stop_demo = [7]" by code_simp+
  from aio_stopped_silent[OF this(1,2) r'(1)] this(3) r' show ?thesis by (simp del: aio_run.simps)
qed

lemma aio_run_append: "aio_run (es @ fs) r = (case aio_run es r of None \<Rightarrow> None | Some r' \<Rightarrow> aio_run fs r')"
  by (induction es arbitrary: r) (simp_all split: option.split)

lemma aio_messages:
  "task_state j r = Awaiting \<Longrightarrow> j \<notin> set (ar_cancelled r) \<Longrightarrow>
    \<exists>r'. aio_run (map (AioMessage False j) ms) r = Some r' \<and> ar_log r' = ar_log r @ map (Pair j) ms"
proof (induction ms arbitrary: r)
  case (Cons m ms)
  let ?r = "r\<lparr>ar_log := ar_log r @ [(j, m)]\<rparr>"
  have "aio_step (AioMessage False j m) r = Some ?r" using Cons.prems by (simp add: aio_worker_message_def)
  moreover have "task_state j ?r = Awaiting" "j \<notin> set (ar_cancelled ?r)" using Cons.prems by simp_all
  ultimately show ?case using Cons.IH[of ?r] by auto
qed simp

text \<open>
  C20. A reader that is stopped and started again before its task has ended loses hold of the new
  one: when the old task ends, it makes the reader inactive. Stopping then does nothing, and the
  messages of the new stream are called back with all the same.
\<close>

theorem aio_restart_orphans:
  assumes "ar_task r = Some i" and "task_state i r = Awaiting" and "j = length (ar_states r)"
    and "list_all (\<lambda>c. c < length (ar_states r)) (ar_cancelled r)"
  shows "\<exists>r'. aio_run [AioStop, AioStart, AioBegin j, AioEnd i] r = Some r' \<and> \<not> aio_reader_active r' \<and> task_state j r' = Awaiting
    \<and> aio_reader_stop r' = r' \<and> (\<exists>r''. aio_run (map (AioMessage False j) ms) r' = Some r'' \<and> ar_log r'' = ar_log r @ map (Pair j) ms)"
proof -
  have i: "i < length (ar_states r)" "ar_states r ! i = Awaiting" using assms(2) by (auto simp: task_state_def split: if_splits)
  define s where "s = r\<lparr>ar_task := Some j, ar_cancelled := i # ar_cancelled r, ar_states := ar_states r @ [Awaiting]\<rparr>"
  have j: "j \<notin> set (i # ar_cancelled r)" using assms(3,4) i(1) by (auto simp: list_all_iff)
  have "aio_run [AioStop, AioStart, AioBegin j] r = Some s"
    using assms(1-3) j by (simp add: aio_reader_stop_def aio_reader_start_def aio_reader_active_def aio_worker_begin_def task_state_def s_def)
  moreover have si: "task_state i s = Awaiting" "task_state j s = Awaiting" "i \<noteq> j"
    using i assms(3) by (auto simp: task_state_def s_def nth_append)
  ultimately have run: "aio_run [AioStop, AioStart, AioBegin j, AioEnd i] r = Some (aio_finally i s)"
    using aio_run_append[of "[AioStop, AioStart, AioBegin j]" "[AioEnd i]" r] by (simp add: aio_worker_end_def del: aio_step.simps(1-4))
  have "task_state j (aio_finally i s) = Awaiting" "j \<notin> set (ar_cancelled (aio_finally i s))"
    using si j by (simp_all add: s_def)
  from aio_messages[OF this, of ms] this(1) run show ?thesis
    by (simp add: aio_reader_active_def aio_reader_stop_def) (simp add: s_def)
qed

theorem aio_restart_orphans_witness:
  "\<exists>r'. aio_run [AioStop, AioStart, AioBegin 1, AioEnd 0] aio_stop_demo = Some r' \<and> aio_reader_stop r' = r' \<and> task_state 1 r' = Awaiting"
proof -
  have "ar_task aio_stop_demo = Some 0" "task_state 0 aio_stop_demo = Awaiting" "1 = length (ar_states aio_stop_demo)"
    "list_all (\<lambda>c. c < length (ar_states aio_stop_demo)) (ar_cancelled aio_stop_demo)" by code_simp+
  from aio_restart_orphans[OF this] show ?thesis by (blast intro: exI)
qed

subsection \<open>The relay client\<close>

text \<open>A task that can still run is the current one, and what it reads is the current queue.\<close>

definition one_publisher :: "'m aio_relay \<Rightarrow> bool" where
  "one_publisher a \<longleftrightarrow>
     (\<forall>i. worker_at i (ay_relay a) \<noteq> Gone \<longrightarrow> i \<in> set (ay_cancelled a) \<or> su_thread (ay_relay a) = Some i)
     \<and> (\<forall>t. su_thread (ay_relay a) = Some t \<longrightarrow> t < length (su_workers (ay_relay a)))
     \<and> (\<forall>q. su_queue (ay_relay a) = Some q \<longrightarrow> q < length (su_queues (ay_relay a)))
     \<and> (\<forall>i q. worker_at i (ay_relay a) = Reading q \<longrightarrow> i \<in> set (ay_cancelled a) \<or> su_queue (ay_relay a) = Some q)"

lemma one_publisherD:
  assumes "one_publisher a"
  shows "worker_at i (ay_relay a) \<noteq> Gone \<Longrightarrow> i \<notin> set (ay_cancelled a) \<Longrightarrow> su_thread (ay_relay a) = Some i"
    and "su_thread (ay_relay a) = Some t \<Longrightarrow> t < length (su_workers (ay_relay a))"
    and "su_queue (ay_relay a) = Some q \<Longrightarrow> q < length (su_queues (ay_relay a))"
    and "worker_at i (ay_relay a) = Reading q \<Longrightarrow> i \<notin> set (ay_cancelled a) \<Longrightarrow> su_queue (ay_relay a) = Some q"
  using assms by (auto simp: one_publisher_def)

lemma one_publisher_start:
  assumes "one_publisher a"
  shows "one_publisher (aio_start_publisher a)"
proof (cases "aio_relay_active a")
  case False
  have "worker_at i (ay_relay a) \<noteq> Gone \<Longrightarrow> i \<in> set (ay_cancelled a)" for i
    using one_publisherD(1)[OF assms, of i] False by (cases "i \<in> set (ay_cancelled a)") (auto simp: aio_relay_active_def)
  then show ?thesis using False
    by (auto simp: one_publisher_def aio_start_publisher_def Let_def worker_at_def nth_append split: if_splits)
qed (simp add: aio_start_publisher_def assms)

lemma one_publisher_step:
  assumes "one_publisher a" "aio_relay_step e a = Some b"
  shows "one_publisher b"
proof (cases e)
  case (AioEnqueue encoded)
  show ?thesis
  proof (cases encoded)
    case (Inr m)
    from one_publisher_start[OF assms(1)] have s: "one_publisher (aio_start_publisher a)" .
    from AioEnqueue Inr assms(2) obtain q queue l where
      "b = (aio_start_publisher a)\<lparr>ay_relay := (ay_relay (aio_start_publisher a))\<lparr>su_queues := (su_queues (ay_relay (aio_start_publisher a)))[q := queue], su_lost := l\<rparr>\<rparr>"
      by (auto simp: aio_enqueue_def Let_def split: option.splits)
    with s show ?thesis by (simp add: one_publisher_def worker_at_def)
  qed (use AioEnqueue assms in \<open>simp add: aio_enqueue_def\<close>)
next
  case AioStopPublisher
  with assms show ?thesis by (auto simp: one_publisher_def aio_stop_publisher_def worker_at_def split: option.splits if_splits)
next
  case (AioTop i)
  with assms show ?thesis
    by (auto simp: one_publisher_def aio_publish_worker_def publisher_top_def set_worker_def worker_at_def next_queue_def nth_list_update
        split: if_splits worker.splits option.splits)
next
  case (AioGet i)
  with assms show ?thesis
    by (auto simp: one_publisher_def aio_publish_worker_def publisher_get_def set_worker_def worker_at_def nth_list_update
        split: if_splits worker.splits option.splits)
next
  case (AioPublished ok i)
  with assms show ?thesis
    by (auto simp: one_publisher_def aio_publish_worker_def publisher_publish_def set_worker_def worker_at_def next_queue_def nth_list_update
        split: if_splits worker.splits option.splits)
next
  case (AioCancelled i)
  with assms show ?thesis
    by (auto simp: one_publisher_def aio_task_cancelled_def set_worker_def worker_at_def nth_list_update
        split: if_splits worker.splits option.splits)
qed

lemma one_publisher_run: "aio_relay_run es a = Some b \<Longrightarrow> one_publisher a \<Longrightarrow> one_publisher b"
  by (induction es arbitrary: a) (auto split: option.splits dest: one_publisher_step)

text \<open>What was left in the queue when the client was stopped, and what the stopped task had written.\<close>

definition written_by :: "nat \<Rightarrow> 'm submitter \<Rightarrow> 'm list" where
  "written_by t y = map snd (filter (\<lambda>c. fst c = t) (su_written y))"

definition left_behind :: "nat \<Rightarrow> nat \<Rightarrow> 'm aio_relay \<Rightarrow> bool" where
  "left_behind t q a \<longleftrightarrow> one_publisher a \<and> t \<in> set (ay_cancelled a) \<and> q < length (su_queues (ay_relay a))
     \<and> (su_queue (ay_relay a) = Some q \<longrightarrow> su_thread (ay_relay a) = None)"

lemma left_behind_start:
  assumes "left_behind t q a"
  shows "left_behind t q (aio_start_publisher a) \<and> su_queue (ay_relay (aio_start_publisher a)) \<noteq> Some q
    \<and> su_queues (ay_relay (aio_start_publisher a)) ! q = su_queues (ay_relay a) ! q
    \<and> su_written (ay_relay (aio_start_publisher a)) = su_written (ay_relay a)"
proof (cases "aio_relay_active a")
  case True
  then have "su_thread (ay_relay a) \<noteq> None" by (auto simp: aio_relay_active_def split: option.splits)
  with True assms show ?thesis by (auto simp: left_behind_def aio_start_publisher_def)
next
  case False
  with assms one_publisher_start[of a] show ?thesis
    by (simp add: left_behind_def aio_start_publisher_def Let_def nth_append)
qed

lemma left_behind_step:
  assumes "left_behind t q a" "aio_relay_step e a = Some b"
  shows "left_behind t q b \<and> su_queues (ay_relay b) ! q = su_queues (ay_relay a) ! q \<and> written_by t (ay_relay b) = written_by t (ay_relay a)"
proof -
  have inv: "one_publisher a" "t \<in> set (ay_cancelled a)" "q < length (su_queues (ay_relay a))"
    "su_queue (ay_relay a) = Some q \<longrightarrow> su_thread (ay_relay a) = None" using assms(1) by (simp_all add: left_behind_def)
  have keep: "one_publisher b" by (rule one_publisher_step[OF inv(1) assms(2)])
  show ?thesis
  proof (cases e)
    case (AioEnqueue encoded)
    show ?thesis
    proof (cases encoded)
      case (Inr m)
      let ?s = "aio_start_publisher a"
      have s: "left_behind t q ?s" "su_queue (ay_relay ?s) \<noteq> Some q" "su_queues (ay_relay ?s) ! q = su_queues (ay_relay a) ! q"
        "su_written (ay_relay ?s) = su_written (ay_relay a)" using left_behind_start[OF assms(1)] by simp_all
      from AioEnqueue Inr assms(2) obtain r queue l where r: "su_queue (ay_relay ?s) = Some r"
        and b: "b = ?s\<lparr>ay_relay := (ay_relay ?s)\<lparr>su_queues := (su_queues (ay_relay ?s))[r := queue], su_lost := l\<rparr>\<rparr>"
        by (auto simp: aio_enqueue_def Let_def split: option.splits)
      have "r \<noteq> q" using s(2) r by auto
      with s keep show ?thesis unfolding b by (simp add: left_behind_def written_by_def)
    qed (use AioEnqueue assms in \<open>simp add: aio_enqueue_def\<close>)
  next
    case AioStopPublisher
    with assms(2) inv keep show ?thesis by (auto simp: left_behind_def aio_stop_publisher_def written_by_def split: option.splits)
  next
    case (AioTop i)
    with assms(2) inv keep show ?thesis
      by (auto simp: left_behind_def aio_publish_worker_def publisher_top_def set_worker_def written_by_def split: if_splits worker.splits)
  next
    case (AioGet i)
    then obtain r where i: "i \<notin> set (ay_cancelled a)" "worker_at i (ay_relay a) = Reading r"
      using assms(2) by (auto simp: aio_publish_worker_def publisher_get_def split: if_splits worker.splits)
    from one_publisherD(4)[OF inv(1) i(2,1)] one_publisherD(1)[OF inv(1) _ i(1)] i(2) inv(4) have "r \<noteq> q" by auto
    with AioGet i assms(2) inv keep show ?thesis
      by (auto simp: left_behind_def aio_publish_worker_def publisher_get_def set_worker_def written_by_def split: option.splits)
  next
    case (AioPublished ok i)
    then have "i \<notin> set (ay_cancelled a)" using assms(2) by (auto simp: aio_publish_worker_def split: if_splits)
    with AioPublished assms(2) inv keep show ?thesis
      by (auto simp: left_behind_def aio_publish_worker_def publisher_publish_def set_worker_def written_by_def split: if_splits worker.splits)
  next
    case (AioCancelled i)
    with assms(2) inv keep show ?thesis
      by (auto simp: left_behind_def aio_task_cancelled_def set_worker_def written_by_def split: if_splits worker.splits)
  qed
qed

lemma left_behind_run:
  "aio_relay_run es a = Some b \<Longrightarrow> left_behind t q a \<Longrightarrow>
    su_queues (ay_relay b) ! q = su_queues (ay_relay a) ! q \<and> written_by t (ay_relay b) = written_by t (ay_relay a)"
proof (induction es arbitrary: a)
  case (Cons e es)
  then obtain z where z: "aio_relay_step e a = Some z" "aio_relay_run es z = Some b" by (auto split: option.splits)
  from left_behind_step[OF Cons.prems(2) z(1)] Cons.IH[OF z(2)] show ?case by simp
qed simp

text \<open>
  C39. Stopping the relay client on an event loop discards what it has queued: whatever happens
  afterwards, enqueueing again included, nothing is ever taken from the queue that it had, and
  its task writes nothing more.
\<close>

theorem aio_stop_discards_queue:
  assumes "aio_relay_run es (new_aio_relay size_given) = Some a" and "aio_relay_active a"
    and "su_thread (ay_relay a) = Some t" and "su_queue (ay_relay a) = Some q"
    and "aio_relay_run fs (aio_stop_publisher a) = Some b"
  shows "su_queues (ay_relay b) ! q = su_queues (ay_relay a) ! q \<and> written_by t (ay_relay b) = written_by t (ay_relay a)"
proof -
  have "one_publisher (new_aio_relay size_given)"
    by (simp add: one_publisher_def new_aio_relay_def new_submitter_def worker_at_def)
  from one_publisher_run[OF assms(1) this] have a: "one_publisher a" .
  have "worker_at t (ay_relay a) \<noteq> Gone" using assms(2,3) by (simp add: aio_relay_active_def)
  then have "left_behind t q (aio_stop_publisher a)"
    using one_publisher_step[OF a, of AioStopPublisher] one_publisherD(3)[OF a assms(4)] assms(3)
    by (simp add: left_behind_def aio_stop_publisher_def)
  from left_behind_run[OF assms(5) this] show ?thesis by (simp add: aio_stop_publisher_def assms(3) written_by_def)
qed

theorem aio_stop_discards_queue_witness:
  "\<exists>a b. aio_relay_run [AioEnqueue (Inr 1), AioEnqueue (Inr 2), AioTop 0, AioGet 0, AioPublished True 0] (new_aio_relay 7) = Some a
    \<and> aio_relay_run [AioEnqueue (Inr (3::nat)), AioCancelled 0, AioTop 1, AioGet 1, AioPublished True 1] (aio_stop_publisher a) = Some b
    \<and> q_items (su_queues (ay_relay b) ! 0) = [Some 2] \<and> su_written (ay_relay b) = [(0, 1), (1, 3)]"
proof -
  let ?es = "[AioEnqueue (Inr (1::nat)), AioEnqueue (Inr 2), AioTop 0, AioGet 0, AioPublished True 0]"
  let ?fs = "[AioEnqueue (Inr (3::nat)), AioCancelled 0, AioTop 1, AioGet 1, AioPublished True 1]"
  have "map_option (\<lambda>a. (aio_relay_active a, su_thread (ay_relay a), su_queue (ay_relay a), q_items (su_queues (ay_relay a) ! 0),
      map_option (\<lambda>b. su_written (ay_relay b)) (aio_relay_run ?fs (aio_stop_publisher a)))) (aio_relay_run ?es (new_aio_relay 7))
    = Some (True, Some 0, Some 0, [Some 2], Some [(0, 1), (1, 3)])" by code_simp
  then obtain a b where a: "aio_relay_run ?es (new_aio_relay 7) = Some a" "aio_relay_active a" "su_thread (ay_relay a) = Some 0"
    "su_queue (ay_relay a) = Some 0" "aio_relay_run ?fs (aio_stop_publisher a) = Some b"
    and more: "q_items (su_queues (ay_relay a) ! 0) = [Some 2]" "su_written (ay_relay b) = [(0, 1), (1, 3)]"
    by (auto simp del: aio_relay_run.simps)
  from aio_stop_discards_queue[OF a] have "q_items (su_queues (ay_relay b) ! 0) = [Some 2]" using more(1) by simp
  with a(1,5) more(2) show ?thesis by blast
qed

subsection \<open>The remote switch\<close>

text \<open>
  Every request of a switch on an event loop is the one that the switch of the same name
  makes over a call that waits, except two: aliases cannot be replaced, and \<open>set_attributes\<close>
  never gives an answer, whatever the service answers.
\<close>

theorem async_switch_requests:
  "aio_set_specification st spec l d i active update sw w
     = set_specification st spec \<lparr>rf_aliases = False, rf_localizations = l, rf_dependencies = d, rf_interceptors = i\<rparr> active update sw w
   \<and> aio_add_dependency st name dep allow reevaluate sw w = add_dependency st name dep allow reevaluate sw w
   \<and> aio_remove_dependency st name b sw w = remove_dependency st name b sw w
   \<and> aio_add_interceptor st name ic b sw w = add_interceptor st name ic b sw w
   \<and> aio_remove_interceptor st name sw w = remove_interceptor st name sw w
   \<and> aio_invoke_interceptor st name state sw w = invoke_interceptor st name state sw w
   \<and> aio_set_target S c st tgt error opts sw w = set_target S c st tgt error opts sw w
   \<and> aio_get_culprits st b sw w = get_culprits st b sw w
   \<and> (\<forall>w' v. aio_set_attributes S c st sent attrs clear sw w \<noteq> Some (w', Inr v))"
  by (simp add: aio_set_specification_def set_specification_def aio_add_dependency_def add_dependency_def aio_remove_dependency_def
      remove_dependency_def aio_add_interceptor_def add_interceptor_def aio_remove_interceptor_def remove_interceptor_def
      aio_invoke_interceptor_def invoke_interceptor_def aio_set_target_def set_target_def aio_get_culprits_def get_culprits_def
      aio_set_attributes_def split: option.splits sum.splits)

end
