(* ===== verification/Decorators.thy ===== *)
theory Decorators
  imports Py_Prelude
begin

section \<open>Decorators (\<open>core/decorators.py\<close>) and types of messages (\<open>protobuf/utils/message.py\<close>)\<close>

text \<open>
  Classes are elements of a type \<open>'c\<close>, an object is known by its class as far as \<open>isinstance\<close>
  and \<open>issubclass\<close> go, and what a decorated function does is a parameter.
\<close>

subsection \<open>Inherited documentation\<close>

text \<open>
  A class has, under the name of a method, a function with its documentation or a descriptor
  \<open>DocInherit\<close>. The classes are those of the method resolution order, the owner first.
  A \<open>RecursionError\<close> is a \<open>RuntimeError\<close>.
\<close>

datatype 'd class_entry = Method 'd | DocInherit

type_synonym 'd class_body = "(string, 'd class_entry) dict"

fun find_entry :: "string \<Rightarrow> 'd class_body list \<Rightarrow> 'd class_entry option" where
  "find_entry name [] = None"
| "find_entry name (c # cs) = (case dict_get c name of Some e \<Rightarrow> Some e | None \<Rightarrow> find_entry name cs)"

text \<open>What is found above the owner, if that is a descriptor again, looks above the same owner.\<close>

definition get_with_instance :: "string \<Rightarrow> 'd class_body list \<Rightarrow> 'd result" where
  "get_with_instance name classes =
     (case find_entry name (tl classes) of
        None \<Rightarrow> Inl NameError
      | Some (Method d) \<Rightarrow> Inr d
      | Some DocInherit \<Rightarrow> Inl RuntimeError)"

text \<open>
  Without an instance each parent is asked in turn, and it looks above itself. The classes
  form a chain: the order of a parent is the rest of that of the owner. A result of \<open>None\<close> is
  an attribute that is missing.
\<close>

fun class_attribute :: "string \<Rightarrow> 'd class_body list \<Rightarrow> 'd option result"
  and ask_parents :: "string \<Rightarrow> 'd class_body list \<Rightarrow> 'd option result" where
  "class_attribute name [] = Inr None"
| "class_attribute name (c # cs) =
     (case find_entry name (c # cs) of
        None \<Rightarrow> Inr None
      | Some (Method d) \<Rightarrow> Inr (Some d)
      | Some DocInherit \<Rightarrow> bind_result (ask_parents name cs) (\<lambda>r. if r = None then Inl NameError else Inr r))"
| "ask_parents name [] = Inr None"
| "ask_parents name (p # ps) =
     bind_result (class_attribute name (p # ps)) (\<lambda>r. if r = None then ask_parents name ps else Inr r)"

text \<open>An instance that counts as false is taken for none.\<close>

definition doc_inherit_get :: "string \<Rightarrow> bool option \<Rightarrow> 'd class_body list \<Rightarrow> 'd result" where
  "doc_inherit_get name instance_truth classes =
     (if instance_truth = Some True then get_with_instance name classes
      else bind_result (ask_parents name (tl classes)) (\<lambda>r. case r of None \<Rightarrow> Inl NameError | Some d \<Rightarrow> Inr d))"

subsection \<open>Checked calls\<close>

text \<open>A type hint is a class, a union of classes, or something for which \<open>issubclass\<close> raises.\<close>

datatype 'c hint = Class 'c | Union "'c list" | NoClass

record 'c classes =
  cl_subclass :: "'c \<Rightarrow> 'c \<Rightarrow> bool"
  cl_object :: 'c
  cl_int :: 'c
  cl_float :: 'c
  cl_complex :: 'c
  cl_message :: 'c

fun hint_classes :: "'c hint \<Rightarrow> 'c list result" where
  "hint_classes (Class c) = Inr [c]"
| "hint_classes (Union cs) = Inr cs"
| "hint_classes NoClass = Inl TypeError"

definition is_sub :: "'c classes \<Rightarrow> 'c \<Rightarrow> 'c list \<Rightarrow> bool" where
  "is_sub K c cs \<longleftrightarrow> list_ex (cl_subclass K c) cs"

definition checktype :: "'c classes \<Rightarrow> 'c \<Rightarrow> 'c hint \<Rightarrow> bool result" where
  "checktype K encountered expected =
     bind_result (hint_classes expected) (\<lambda>cs.
       let cs1 = if is_sub K (cl_complex K) cs then cs @ [cl_float K] else cs;
           cs2 = if is_sub K (cl_float K) cs1 then cs1 @ [cl_int K] else cs1
       in Inr (is_sub K encountered cs2))"

definition verify_type :: "'c classes \<Rightarrow> 'c \<Rightarrow> 'c hint \<Rightarrow> unit result" where
  "verify_type K encountered expected =
     bind_result (checktype K encountered expected) (\<lambda>ok. if ok then Inr () else Inl TypeError)"

text \<open>Values are given with their class. Those beyond the named parameters are not checked.\<close>

fun verify_positionals :: "'c classes \<Rightarrow> ('c \<times> 'v) list \<Rightarrow> 'c hint list \<Rightarrow> unit result" where
  "verify_positionals K (a # args) (p # ps) = bind_result (verify_type K (fst a) p) (\<lambda>_. verify_positionals K args ps)"
| "verify_positionals K args ps = Inr ()"

fun verify_keywords :: "'c classes \<Rightarrow> (string, 'c hint) dict \<Rightarrow> (string, 'c \<times> 'v) dict \<Rightarrow> unit result" where
  "verify_keywords K annotations [] = Inr ()"
| "verify_keywords K annotations ((key, a) # kwargs) =
     bind_result (case dict_get annotations key of None \<Rightarrow> Inr () | Some expected \<Rightarrow> verify_type K (fst a) expected)
       (\<lambda>_. verify_keywords K annotations kwargs)"

definition positional_hints :: "'c classes \<Rightarrow> (string, 'c hint) dict \<Rightarrow> string list \<Rightarrow> 'c hint list" where
  "positional_hints K annotations names = map (\<lambda>name. dict_get_default annotations name (Class (cl_object K))) names"

definition typecheck ::
    "'c classes \<Rightarrow> (string, 'c hint) dict \<Rightarrow> string list \<Rightarrow>
     (('c \<times> 'v) list \<Rightarrow> (string, 'c \<times> 'v) dict \<Rightarrow> 'w \<Rightarrow> 'w \<times> ('c \<times> 'v) result) \<Rightarrow>
     ('c \<times> 'v) list \<Rightarrow> (string, 'c \<times> 'v) dict \<Rightarrow> 'w \<Rightarrow> 'w \<times> ('c \<times> 'v) result" where
  "typecheck K hints names function args kwargs w =
     (let positionals = positional_hints K hints names;
          expected_return = dict_get_default hints ''return'' (Class (cl_object K));
          annotations = dict_del ''return'' hints in
      case bind_result (verify_positionals K args positionals) (\<lambda>_. verify_keywords K annotations kwargs) of
        Inl e \<Rightarrow> (w, Inl e)
      | Inr _ \<Rightarrow>
          (case function args kwargs w of
             (w', Inl e) \<Rightarrow> (w', Inl e)
           | (w', Inr r) \<Rightarrow> (w', bind_result (verify_type K (fst r) expected_return) (\<lambda>_. Inr r))))"

subsection \<open>Types of messages\<close>

text \<open>What is checked, or checked against: an instance of a class, or a class itself.\<close>

datatype 'c checked = Instance 'c | TheClass 'c

definition check_message_type :: "'c classes \<Rightarrow> 'c checked \<Rightarrow> 'c checked \<Rightarrow> unit result" where
  "check_message_type K v expected =
     (case expected of
        Instance _ \<Rightarrow> Inl AssertionError
      | TheClass c \<Rightarrow>
          if \<not> cl_subclass K c (cl_message K) then Inl AssertionError
          else case v of
            Instance d \<Rightarrow> if cl_subclass K d c then Inr () else Inl TypeError
          | TheClass _ \<Rightarrow> Inl TypeError)"

text \<open>
  \<open>dictToMessage\<close> checks the prototype, which is to be a class, as if it were a message; a
  message passes, but cannot be called.
\<close>

definition dict_to_message :: "'c classes \<Rightarrow> ('c \<Rightarrow> 'd \<Rightarrow> 'm result) \<Rightarrow> 'd \<Rightarrow> 'c checked \<Rightarrow> 'm result" where
  "dict_to_message K parse_into d prototype =
     bind_result (check_message_type K prototype (TheClass (cl_message K))) (\<lambda>_.
       case prototype of Instance _ \<Rightarrow> Inl TypeError | TheClass c \<Rightarrow> parse_into c d)"

section \<open>What the decorators promise\<close>

lemma is_sub_Cons [simp]: "is_sub K c (d # ds) \<longleftrightarrow> cl_subclass K c d \<or> is_sub K c ds" "\<not> is_sub K c []"
  by (simp_all add: is_sub_def)

lemma is_sub_append [simp]: "is_sub K c (ds @ es) \<longleftrightarrow> is_sub K c ds \<or> is_sub K c es"
  by (auto simp: is_sub_def)

text \<open>Which objects a hint accepts, in terms of the order of the classes.\<close>

definition accepts :: "'c classes \<Rightarrow> 'c hint \<Rightarrow> 'c \<Rightarrow> bool" where
  "accepts K h c =
     (case hint_classes h of
        Inl _ \<Rightarrow> False
      | Inr ds \<Rightarrow>
          is_sub K c ds
          \<or> is_sub K (cl_complex K) ds \<and> (cl_subclass K c (cl_float K) \<or> cl_subclass K c (cl_int K))
          \<or> is_sub K (cl_float K) ds \<and> cl_subclass K c (cl_int K))"

lemma verify_type_accepts:
  assumes "cl_subclass K (cl_float K) (cl_float K)"
  shows "verify_type K c h = (if accepts K h c then Inr () else Inl TypeError)"
  by (cases h) (auto simp: accepts_def verify_type_def checktype_def Let_def assms)

lemma verify_positionals_iff:
  assumes "cl_subclass K (cl_float K) (cl_float K)"
  shows "verify_positionals K args ps = (if list_all (\<lambda>(a, p). accepts K p (fst a)) (zip args ps) then Inr () else Inl TypeError)"
proof (induction args arbitrary: ps)
  case (Cons a args)
  then show ?case by (cases ps) (auto simp: verify_type_accepts[OF assms])
qed simp

definition accepted_keyword :: "'c classes \<Rightarrow> (string, 'c hint) dict \<Rightarrow> string \<times> 'c \<times> 'v \<Rightarrow> bool" where
  "accepted_keyword K ann ka \<longleftrightarrow> (case dict_get ann (fst ka) of None \<Rightarrow> True | Some h \<Rightarrow> accepts K h (fst (snd ka)))"

lemma verify_keywords_iff:
  assumes "cl_subclass K (cl_float K) (cl_float K)"
  shows "verify_keywords K ann kwargs
    = (if list_all (accepted_keyword K ann) kwargs then Inr () else Inl TypeError)"
proof (induction kwargs)
  case (Cons ka kwargs)
  then show ?case by (cases ka) (simp add: verify_type_accepts[OF assms] accepted_keyword_def split: option.split)
qed simp

definition accepted_call :: "'c classes \<Rightarrow> (string, 'c hint) dict \<Rightarrow> string list \<Rightarrow> ('c \<times> 'v) list \<Rightarrow> (string, 'c \<times> 'v) dict \<Rightarrow> bool" where
  "accepted_call K hints names args kwargs \<longleftrightarrow>
     list_all (\<lambda>(a, p). accepts K p (fst a)) (zip args (positional_hints K hints names))
     \<and> list_all (accepted_keyword K (dict_del ''return'' hints)) kwargs"

text \<open>
  A checked call raises \<open>TypeError\<close> without calling the function if an argument is not
  accepted by its type hint; otherwise it calls the function once, and returns its result if
  that is accepted. If the result is not, \<open>TypeError\<close> is raised after the call has had its
  effect. An integer is accepted for a \<open>float\<close>, and both are for a \<open>complex\<close>.
\<close>

theorem typecheck_guards_call:
  assumes "cl_subclass K (cl_float K) (cl_float K)" and "f args kwargs w = (w', out)"
  shows "typecheck K hints names f args kwargs w =
    (if \<not> accepted_call K hints names args kwargs then (w, Inl TypeError)
     else (w', case out of Inl e \<Rightarrow> Inl e
       | Inr r \<Rightarrow> if accepts K (dict_get_default hints ''return'' (Class (cl_object K))) (fst r) then Inr r else Inl TypeError))"
  using assms(2)
  by (simp add: typecheck_def Let_def verify_positionals_iff[OF assms(1)] verify_keywords_iff[OF assms(1)] verify_type_accepts[OF assms(1)]
      accepted_call_def split: sum.split)

text \<open>The example of the documentation: the hint of the result is generic, and the call raises.\<close>

datatype py_class = PyObject | PyInt | PyFloat | PyComplex | PyStr | PyDict | PyMessage

definition py_classes :: "py_class classes" where
  "py_classes = \<lparr>cl_subclass = (\<lambda>c d. c = d \<or> d = PyObject), cl_object = PyObject, cl_int = PyInt, cl_float = PyFloat,
     cl_complex = PyComplex, cl_message = PyMessage\<rparr>"

theorem typecheck_guards_call_witness:
  "typecheck py_classes [(''key'', Class PyStr), (''target'', Class PyFloat), (''tolerance'', Class PyFloat), (''return'', NoClass)]
     [''key'', ''target'', ''tolerance''] (\<lambda>args kwargs w. (Suc w, Inr (PyDict, 0)))
     [(PyStr, 1), (PyInt, 60), (PyFloat, 2::nat)] [] 0 = (1, Inl TypeError)"
  by (subst typecheck_guards_call[where w' = 1 and out = "Inr (PyDict, 0)"]) (simp_all add: py_classes_def, code_simp)

text \<open>
  A method whose documentation is inherited can be called on an instance of the class that
  has it, if a class above has the method; on an instance of a subclass that does not override
  it, it cannot be reached: looking above the owner finds the same descriptor again and again.
\<close>

theorem doc_inherit_subclass_fails:
  assumes "dict_get c name = Some DocInherit" and "list_all (\<lambda>s. dict_get s name = None) subs" and "find_entry name bases = Some (Method d)"
  shows "doc_inherit_get name (Some True) (c # bases) = Inr d
    \<and> doc_inherit_get name None (subs @ c # bases) = Inr d
    \<and> doc_inherit_get name (Some True) (subs @ c # bases) = (if subs = [] then Inr d else Inl RuntimeError)"
proof -
  have skip: "list_all (\<lambda>s. dict_get s name = None) ss \<Longrightarrow> find_entry name (ss @ c # bases) = Some DocInherit" for ss
    using assms(1) by (induction ss) auto
  have up: "ask_parents name bases = Inr (Some d)" using assms(3) by (cases bases) simp_all
  have parents: "list_all (\<lambda>s. dict_get s name = None) ss \<Longrightarrow> ask_parents name (ss @ c # bases) = Inr (Some d)" for ss
  proof (induction ss)
    case (Cons s ss)
    with skip[of "s # ss"] show ?case by simp
  qed (simp add: assms(1) up)
  from assms(2) skip[of "tl subs"] parents[of "tl subs"] up assms(1,3) show ?thesis
    by (cases subs) (simp_all add: doc_inherit_get_def get_with_instance_def)
qed

theorem doc_inherit_subclass_fails_witness:
  "doc_inherit_get ''set_target'' (Some True) [[], [(''set_target'', DocInherit)], [(''set_target'', Method (1::nat))]] = Inl RuntimeError
   \<and> doc_inherit_get ''set_target'' (Some True) [[(''set_target'', DocInherit)], [(''set_target'', Method (1::nat))]] = Inr 1"
  using doc_inherit_subclass_fails[of "[(''set_target'', DocInherit)]" "''set_target''" "[[]]" "[[(''set_target'', Method (1::nat))]]" 1] by simp

text \<open>No prototype is ever accepted.\<close>

lemma dict_to_message_never:
  "cl_subclass K (cl_message K) (cl_message K) \<Longrightarrow> dict_to_message K parse_into d prototype = Inl TypeError"
  by (simp add: dict_to_message_def check_message_type_def split: checked.split)

end
