(* ===== verification/Upgrade_Client.thy ===== *)
theory Upgrade_Client
  imports Vfs
begin

section \<open>The upgrade client (\<open>platform/upgrade/grpc/client.py\<close>)\<close>

text \<open>
  Each method sends one request; the stub is a parameter that changes the world \<open>'w\<close>.
\<close>

record ('w, 'i) upgrade_stub =
  us_scan :: "package_source \<Rightarrow> 'w \<Rightarrow> 'w \<times> unit result"
  us_list_available :: "package_source \<Rightarrow> 'w \<Rightarrow> 'w \<times> 'i list result"
  us_best_available :: "package_source \<Rightarrow> 'w \<Rightarrow> 'w \<times> 'i result"
  us_finalize :: "'w \<Rightarrow> 'w \<times> unit result"

definition with_source :: "(package_source \<Rightarrow> 'w \<Rightarrow> 'w \<times> 'r result) \<Rightarrow> source_arg \<Rightarrow> 'w \<Rightarrow> 'w \<times> 'r result" where
  "with_source rpc source w = (case encode_source source of Inl e \<Rightarrow> (w, Inl e) | Inr m \<Rightarrow> rpc m w)"

definition upgrade_scan :: "('w, 'i) upgrade_stub \<Rightarrow> source_arg \<Rightarrow> 'w \<Rightarrow> 'w \<times> unit result" where
  "upgrade_scan st source = with_source (us_scan st) source"

definition upgrade_list_available :: "('w, 'i) upgrade_stub \<Rightarrow> source_arg \<Rightarrow> 'w \<Rightarrow> 'w \<times> 'i list result" where
  "upgrade_list_available st source = with_source (us_list_available st) source"

definition upgrade_best_available :: "('w, 'i) upgrade_stub \<Rightarrow> source_arg \<Rightarrow> 'w \<Rightarrow> 'w \<times> 'i result" where
  "upgrade_best_available st source = with_source (us_best_available st) source"

text \<open>The stub is called without a request, which its signature does not allow.\<close>

definition upgrade_list_sources :: "('w, 'i) upgrade_stub \<Rightarrow> 'w \<Rightarrow> 'w \<times> package_source list result" where
  "upgrade_list_sources st w = (w, Inl TypeError)"

text \<open>\<open>encodeSource\<close> has no parameter \<open>is_file\<close>.\<close>

definition upgrade_install :: "('w, 'i) upgrade_stub \<Rightarrow> source_arg \<Rightarrow> bool \<Rightarrow> 'w \<Rightarrow> 'w \<times> 'i result" where
  "upgrade_install st source_file force w = (w, Inl TypeError)"

definition upgrade_finalize :: "('w, 'i) upgrade_stub \<Rightarrow> 'w \<Rightarrow> 'w \<times> unit result" where
  "upgrade_finalize st = us_finalize st"

text \<open>
  A text that has the form of a URL is asked for as a URL, the empty text and no source as the
  preconfigured locations; what is neither text nor a message raises before any request.
\<close>

lemma upgrade_request_source:
  "upgrade_scan st (SrcArg (VStr [])) = us_scan st \<lparr>ps_source = SourceUnset, ps_filename = []\<rparr>"
  "regex_match url_prefix s \<noteq> None \<Longrightarrow> s \<noteq> [] \<Longrightarrow> upgrade_scan st (SrcArg (VStr s)) = us_scan st \<lparr>ps_source = SourceUrl s, ps_filename = []\<rparr>"
  "upgrade_scan st (SrcArg (VOther True)) w = (w, Inl TypeError)"
  by (auto simp: upgrade_scan_def with_source_def fun_eq_iff)

end
