(* ===== verification/Zmq_Threads.thy ===== *)
theory Zmq_Threads
  imports Zmq_Rpc Zmq_Pubsub
begin

section \<open>The threads of subscribers and responders (\<open>zmq/basic/subscriber.py\<close>, \<open>responder.py\<close>)\<close>

text \<open>
  Both run a loop in a thread of their own that looks at a flag, waits for a message and
  handles it. A thread has been launched and not begun, is about to look at the flag, waits for
  a message, or has ended. Starting, and the first part of stopping, are each one step; what
  stopping waits for is recorded, and that it returns is another step. Neither is called from
  within the thread.
\<close>

datatype loop_state = Starting | Checking | Blocked | Ended

record 'x loop =
  lo_keep :: bool
  lo_thread :: "nat option"
  lo_threads :: "loop_state list"
  lo_joining :: "nat list"
  lo_state :: 'x

text \<open>
  What the two have of their own: what is done before a thread is launched, when it begins, with
  a message (\<open>None\<close>: it never ends), when it leaves the loop, and once it is stopped. Preparing
  and beginning can fail, before or after the flag is set.
\<close>

record ('x, 'm) loop_code =
  lc_first :: loop_state
  lc_prepare :: "'x \<Rightarrow> 'x \<times> bool option"
  lc_begin :: "'x \<Rightarrow> 'x \<times> bool option"
  lc_handle :: "'m \<Rightarrow> 'x \<Rightarrow> ('x \<times> bool) option"
  lc_leave :: "'x \<Rightarrow> 'x"
  lc_stopped :: "'x \<Rightarrow> 'x"

definition new_loop :: "'x \<Rightarrow> 'x loop" where
  "new_loop x = \<lparr>lo_keep = False, lo_thread = None, lo_threads = [], lo_joining = [], lo_state = x\<rparr>"

definition loop_at :: "nat \<Rightarrow> 'x loop \<Rightarrow> loop_state" where
  "loop_at t l = (if t < length (lo_threads l) then lo_threads l ! t else Ended)"

definition loop_alive :: "'x loop \<Rightarrow> bool" where
  "loop_alive l \<longleftrightarrow> (case lo_thread l of None \<Rightarrow> False | Some t \<Rightarrow> loop_at t l \<noteq> Ended)"

definition loop_launch :: "('x, 'm) loop_code \<Rightarrow> 'x loop \<Rightarrow> 'x loop" where
  "loop_launch c l =
     (case lc_prepare c (lo_state l) of
        (x, Some kept) \<Rightarrow> l\<lparr>lo_state := x, lo_keep := (lo_keep l \<or> kept)\<rparr>
      | (x, None) \<Rightarrow>
          let l' = l\<lparr>lo_state := x, lo_keep := True\<rparr> in
          if loop_alive l then l'
          else l'\<lparr>lo_thread := Some (length (lo_threads l)), lo_threads := lo_threads l @ [lc_first c]\<rparr>)"

definition loop_begin :: "('x, 'm) loop_code \<Rightarrow> nat \<Rightarrow> 'x loop \<Rightarrow> 'x loop option" where
  "loop_begin c t l =
     (if loop_at t l \<noteq> Starting then None
      else case lc_begin c (lo_state l) of
        (x, None) \<Rightarrow> Some (l\<lparr>lo_state := x, lo_keep := True, lo_threads := (lo_threads l)[t := Checking]\<rparr>)
      | (x, Some kept) \<Rightarrow> Some (l\<lparr>lo_state := x, lo_keep := (lo_keep l \<or> kept), lo_threads := (lo_threads l)[t := Ended]\<rparr>))"

definition loop_leave :: "('x, 'm) loop_code \<Rightarrow> nat \<Rightarrow> 'x loop \<Rightarrow> 'x loop" where
  "loop_leave c t l = l\<lparr>lo_state := lc_leave c (lo_state l), lo_threads := (lo_threads l)[t := Ended]\<rparr>"

definition loop_look :: "('x, 'm) loop_code \<Rightarrow> nat \<Rightarrow> 'x loop \<Rightarrow> 'x loop option" where
  "loop_look c t l =
     (if loop_at t l \<noteq> Checking then None
      else Some (if lo_keep l then l\<lparr>lo_threads := (lo_threads l)[t := Blocked]\<rparr> else loop_leave c t l))"

definition loop_handle :: "('x, 'm) loop_code \<Rightarrow> nat \<Rightarrow> 'm \<Rightarrow> 'x loop \<Rightarrow> 'x loop option" where
  "loop_handle c t m l =
     (if loop_at t l \<noteq> Blocked then None
      else case lc_handle c m (lo_state l) of
        None \<Rightarrow> None
      | Some (x, returns) \<Rightarrow>
          let l' = l\<lparr>lo_state := x\<rparr> in
          Some (if returns then l'\<lparr>lo_threads := (lo_threads l)[t := Checking]\<rparr> else loop_leave c t l'))"

text \<open>Reading from the socket raises.\<close>

definition loop_fail :: "('x, 'm) loop_code \<Rightarrow> nat \<Rightarrow> 'x loop \<Rightarrow> 'x loop option" where
  "loop_fail c t l = (if loop_at t l \<noteq> Blocked then None else Some (loop_leave c t l))"

definition loop_halt :: "('x, 'm) loop_code \<Rightarrow> 'x loop \<Rightarrow> 'x loop" where
  "loop_halt c l =
     (let l' = l\<lparr>lo_keep := False\<rparr> in
      if loop_alive l then l'\<lparr>lo_joining := the (lo_thread l) # lo_joining l\<rparr> else l'\<lparr>lo_state := lc_stopped c (lo_state l)\<rparr>)"

definition loop_joined :: "('x, 'm) loop_code \<Rightarrow> nat \<Rightarrow> 'x loop \<Rightarrow> 'x loop option" where
  "loop_joined c t l =
     (if t \<notin> set (lo_joining l) \<or> loop_at t l \<noteq> Ended then None
      else Some (l\<lparr>lo_joining := remove1 t (lo_joining l), lo_state := lc_stopped c (lo_state l)\<rparr>))"

datatype 'm loop_event = Launch | Begins nat | LooksAtFlag nat | Handles nat 'm | Fails nat | Halt | Joined nat

fun loop_step :: "('x, 'm) loop_code \<Rightarrow> 'm loop_event \<Rightarrow> 'x loop \<Rightarrow> 'x loop option" where
  "loop_step c Launch l = Some (loop_launch c l)"
| "loop_step c (Begins t) l = loop_begin c t l"
| "loop_step c (LooksAtFlag t) l = loop_look c t l"
| "loop_step c (Handles t m) l = loop_handle c t m l"
| "loop_step c (Fails t) l = loop_fail c t l"
| "loop_step c Halt l = Some (loop_halt c l)"
| "loop_step c (Joined t) l = loop_joined c t l"

fun loop_run :: "('x, 'm) loop_code \<Rightarrow> 'm loop_event list \<Rightarrow> 'x loop \<Rightarrow> 'x loop option" where
  "loop_run c [] l = Some l"
| "loop_run c (e # es) l = (case loop_step c e l of None \<Rightarrow> None | Some l' \<Rightarrow> loop_run c es l')"

subsection \<open>Subscribers\<close>

text \<open>
  \<open>initialize\<close> connects and launches, \<open>deinitialize\<close> stops and disconnects; a message is handled
  by \<open>_process_message\<close>, which lets no exception out.
\<close>

definition subscriber_code :: "socket \<Rightarrow> config \<Rightarrow> (endpoint \<times> 's subscriber \<times> 's, string list) loop_code" where
  "subscriber_code sock cf =
     \<lparr>lc_first = Checking,
      lc_prepare = (\<lambda>(e, sub, s). case initialize sock cf e of
          (e', None) \<Rightarrow> ((e', sub, s), None) | (e', Some err) \<Rightarrow> ((e', sub, s), Some False)),
      lc_begin = (\<lambda>x. (x, None)),
      lc_handle = (\<lambda>parts (e, sub, s). Some ((e, sub, fst (process_message sub parts s)), True)),
      lc_leave = id,
      lc_stopped = (\<lambda>(e, sub, s). (fst (deinitialize sock e), sub, s))\<rparr>"

subsection \<open>Responders\<close>

text \<open>\<open>start\<close> and \<open>run\<close> both initialize the endpoint, set the flag and bind it.\<close>

definition responder_bound :: "socket \<Rightarrow> config \<Rightarrow> endpoint \<Rightarrow> endpoint \<times> bool option" where
  "responder_bound sock cf e =
     (case initialize sock cf e of
        (e1, Some err) \<Rightarrow> (e1, Some False)
      | (e1, None) \<Rightarrow> (case bind sock cf None e1 of (e2, None) \<Rightarrow> (e2, None) | (e2, Some err) \<Rightarrow> (e2, Some True)))"

definition responder_begin :: "socket \<Rightarrow> config \<Rightarrow> endpoint \<Rightarrow> endpoint \<times> bool option" where
  "responder_begin sock cf e =
     (case responder_bound sock cf e of
        (e', Some True) \<Rightarrow> (fst (deinitialize sock e'), Some True)
      | r \<Rightarrow> r)"

definition responder_stopped :: "socket \<Rightarrow> endpoint \<Rightarrow> endpoint" where
  "responder_stopped sock e = (case unbind sock e of (e', None) \<Rightarrow> fst (deinitialize sock e') | (e', Some err) \<Rightarrow> e')"

definition responder_code ::
    "socket \<Rightarrow> config \<Rightarrow> ('w \<Rightarrow> 'a \<Rightarrow> 'a \<times> 'w outcome) \<Rightarrow> (endpoint \<times> 'a \<times> 'w list, 'w) loop_code" where
  "responder_code sock cf process =
     \<lparr>lc_first = Starting,
      lc_prepare = (\<lambda>(e, a, replies). case responder_bound sock cf e of (e', r) \<Rightarrow> ((e', a, replies), r)),
      lc_begin = (\<lambda>(e, a, replies). case responder_begin sock cf e of (e', r) \<Rightarrow> ((e', a, replies), r)),
      lc_handle = (\<lambda>w (e, a, replies). case process w a of
          (a', None) \<Rightarrow> None
        | (a', Some (Inl err)) \<Rightarrow> Some ((e, a', replies), False)
        | (a', Some (Inr reply)) \<Rightarrow> Some ((e, a', replies @ [reply]), True)),
      lc_leave = (\<lambda>(e, a, replies). (fst (deinitialize sock e), a, replies)),
      lc_stopped = (\<lambda>(e, a, replies). (responder_stopped sock e, a, replies))\<rparr>"

section \<open>What the threads do\<close>

subsection \<open>One thread at a time\<close>

definition one_loop :: "'x loop \<Rightarrow> bool" where
  "one_loop l \<longleftrightarrow> (\<forall>t. loop_at t l \<noteq> Ended \<longrightarrow> lo_thread l = Some t)"

lemma loop_at_update:
  "loop_at t l \<noteq> Ended \<Longrightarrow> loop_at j (l\<lparr>lo_threads := (lo_threads l)[t := s]\<rparr>) = (if j = t then s else loop_at j l)"
  by (auto simp: loop_at_def split: if_splits)

lemma loop_at_fields [simp]:
  "loop_at t (l\<lparr>lo_state := x\<rparr>) = loop_at t l" "loop_at t (l\<lparr>lo_keep := k\<rparr>) = loop_at t l"
  "loop_at t (l\<lparr>lo_joining := js\<rparr>) = loop_at t l"
  by (simp_all add: loop_at_def)

lemma one_loop_step:
  assumes "one_loop l" "loop_step c e l = Some l'"
  shows "one_loop l'"
proof (cases e)
  case Launch
  show ?thesis
  proof (cases "loop_alive l")
    case False
    then have "\<And>t. loop_at t l = Ended" using assms(1) by (auto simp: one_loop_def loop_alive_def)
    then have "lo_threads l ! t = Ended" if "t < length (lo_threads l)" for t using that by (metis loop_at_def)
    with assms Launch False show ?thesis
      by (auto simp: one_loop_def loop_launch_def Let_def loop_at_def nth_append split: prod.splits option.splits if_splits)
  qed (use assms Launch in \<open>auto simp: one_loop_def loop_launch_def Let_def loop_at_def split: prod.splits option.splits\<close>)
next
  case Halt
  with assms show ?thesis by (auto simp: one_loop_def loop_halt_def Let_def loop_at_def split: if_splits)
next
  case (Joined t)
  with assms show ?thesis by (auto simp: one_loop_def loop_joined_def loop_at_def split: if_splits)
qed (use assms in \<open>auto simp: one_loop_def loop_begin_def loop_look_def loop_handle_def loop_fail_def loop_leave_def Let_def loop_at_def nth_list_update
      split: prod.splits option.splits if_splits\<close>)

lemma one_loop_run: "loop_run c es l = Some l' \<Longrightarrow> one_loop l \<Longrightarrow> one_loop l'"
  by (induction es arbitrary: l) (auto split: option.splits dest: one_loop_step)

lemma one_loop_new: "one_loop (new_loop x)"
  by (simp add: one_loop_def new_loop_def loop_at_def)

subsection \<open>Stopping waits for a message\<close>

fun touches :: "nat \<Rightarrow> 'm loop_event \<Rightarrow> bool" where
  "touches t (Handles j m) \<longleftrightarrow> j = t"
| "touches t (Fails j) \<longleftrightarrow> j = t"
| "touches t _ \<longleftrightarrow> False"

lemma blocked_step:
  assumes "loop_step c e l = Some l'" "loop_at t l = Blocked" "\<not> touches t e"
  shows "loop_at t l' = Blocked \<and> (t \<in> set (lo_joining l) \<longrightarrow> t \<in> set (lo_joining l'))"
proof (cases e)
  case (Joined j)
  then have "j \<noteq> t" "l' = l\<lparr>lo_joining := remove1 j (lo_joining l), lo_state := lc_stopped c (lo_state l)\<rparr>"
    using assms(1,2) by (auto simp: loop_joined_def split: if_splits)
  with assms(2) show ?thesis by (simp add: loop_at_def split: if_splits)
qed (use assms in \<open>auto simp: loop_launch_def loop_begin_def loop_look_def loop_handle_def loop_fail_def loop_leave_def loop_halt_def
      loop_at_def nth_append nth_list_update Let_def split: prod.splits option.splits if_splits\<close>)

lemma blocked_run:
  "loop_run c es l = Some l' \<Longrightarrow> loop_at t l = Blocked \<Longrightarrow> list_all (\<lambda>e. \<not> touches t e) es
    \<Longrightarrow> loop_at t l' = Blocked \<and> (t \<in> set (lo_joining l) \<longrightarrow> t \<in> set (lo_joining l'))"
proof (induction es arbitrary: l)
  case (Cons e es)
  then obtain z where z: "loop_step c e l = Some z" "loop_run c es z = Some l'" by (auto split: option.splits)
  from blocked_step[OF z(1), of t] Cons.IH[OF z(2)] Cons.prems(2,3) show ?case by auto
qed simp

text \<open>
  C28. Stopping a subscriber whose thread waits for a message does not return before the next
  one: as long as none comes and reading does not fail, whatever else happens, the thread waits
  and stopping with it. The next message is still handled, once, before the thread ends and the
  endpoint is disconnected.
\<close>

theorem subscriber_stop_waits:
  assumes "loop_run (subscriber_code sock cf) es (new_loop x) = Some l" and "lo_thread l = Some t" and "loop_at t l = Blocked"
    and "lo_state l = (e, sub, s)" and "loop_run (subscriber_code sock cf) fs (loop_halt (subscriber_code sock cf) l) = Some l'"
    and "list_all (\<lambda>f. \<not> touches t f) fs"
  shows "t \<in> set (lo_joining l') \<and> loop_step (subscriber_code sock cf) (Joined t) l' = None
    \<and> map_option lo_state (loop_run (subscriber_code sock cf) [Handles t parts, LooksAtFlag t, Joined t] (loop_halt (subscriber_code sock cf) l))
        = Some (fst (deinitialize sock e), sub, fst (process_message sub parts s))
    \<and> (\<forall>j. loop_at j l \<noteq> Ended \<longrightarrow> j = t)"
proof -
  let ?h = "loop_halt (subscriber_code sock cf) l"
  have h: "?h = l\<lparr>lo_keep := False, lo_joining := t # lo_joining l\<rparr>"
    using assms(2,3) by (simp add: loop_halt_def loop_alive_def)
  have "loop_at t ?h = Blocked" "t \<in> set (lo_joining ?h)" using assms(3) by (simp_all add: h)
  from blocked_run[OF assms(5) this(1) assms(6)] this(2) have l': "loop_at t l' = Blocked" "t \<in> set (lo_joining l')" by simp_all
  have t: "t < length (lo_threads l)" using assms(3) by (auto simp: loop_at_def split: if_splits)
  then have "lo_threads l ! t = Blocked" using assms(3) by (simp add: loop_at_def)
  then have "map_option lo_state (loop_run (subscriber_code sock cf) [Handles t parts, LooksAtFlag t, Joined t] ?h)
      = Some (fst (deinitialize sock e), sub, fst (process_message sub parts s))"
    unfolding h using t assms(4) by (simp add: loop_handle_def loop_look_def loop_joined_def loop_leave_def subscriber_code_def Let_def loop_at_def)
  moreover have "\<forall>j. loop_at j l \<noteq> Ended \<longrightarrow> j = t"
    using one_loop_run[OF assms(1) one_loop_new] assms(2) by (simp add: one_loop_def)
  ultimately show ?thesis using l' by (simp add: loop_joined_def)
qed

subsection \<open>Stopping is overtaken\<close>

fun harmless :: "nat \<Rightarrow> 'm loop_event \<Rightarrow> bool" where
  "harmless t Halt \<longleftrightarrow> False"
| "harmless t (Fails j) \<longleftrightarrow> j \<noteq> t"
| "harmless t _ \<longleftrightarrow> True"

definition keeps_running :: "nat \<Rightarrow> 'x loop \<Rightarrow> bool" where
  "keeps_running t l \<longleftrightarrow>
     lo_keep l \<and> lo_thread l = Some t \<and> t \<in> set (lo_joining l) \<and> (loop_at t l = Checking \<or> loop_at t l = Blocked)"

lemma keeps_running_step:
  assumes "loop_step c e l = Some l'" "keeps_running t l" "harmless t e"
    and "\<And>m x y. lc_handle c m x = Some (y, False) \<Longrightarrow> False"
  shows "keeps_running t l'"
proof (cases e)
  case (Joined j)
  then have "j \<noteq> t" "l' = l\<lparr>lo_joining := remove1 j (lo_joining l), lo_state := lc_stopped c (lo_state l)\<rparr>"
    using assms(1,2) by (auto simp: loop_joined_def keeps_running_def split: if_splits)
  with assms(2) show ?thesis by (simp add: keeps_running_def loop_at_def split: if_splits)
next
  case Launch
  have "loop_alive l" using assms(2) by (auto simp: keeps_running_def loop_alive_def)
  with Launch assms show ?thesis
    by (auto simp: keeps_running_def loop_launch_def Let_def split: prod.splits option.splits)
next
  case (Handles j m)
  then obtain x returns where "lc_handle c m (lo_state l) = Some (x, returns)" and blocked: "loop_at j l = Blocked"
    using assms(1) by (auto simp: loop_handle_def split: option.splits if_splits)
  with assms(4) have "lc_handle c m (lo_state l) = Some (x, True)" by (cases returns) auto
  with Handles assms(1) blocked have "l' = l\<lparr>lo_state := x, lo_threads := (lo_threads l)[j := Checking]\<rparr>"
    by (simp add: loop_handle_def)
  with assms(2) blocked loop_at_update[of j l t Checking] show ?thesis by (auto simp: keeps_running_def loop_at_def split: if_splits)
qed (use assms in \<open>auto simp: keeps_running_def loop_begin_def loop_look_def loop_fail_def loop_leave_def loop_at_def nth_list_update
      split: prod.splits option.splits if_splits\<close>)

lemma keeps_running_run:
  assumes "\<And>m x y. lc_handle c m x = Some (y, False) \<Longrightarrow> False"
  shows "loop_run c es l = Some l' \<Longrightarrow> keeps_running t l \<Longrightarrow> list_all (harmless t) es \<Longrightarrow> keeps_running t l'"
proof (induction es arbitrary: l)
  case (Cons e es)
  then obtain z where z: "loop_step c e l = Some z" "loop_run c es z = Some l'" by (auto split: option.splits)
  from keeps_running_step[OF z(1) _ _ assms, of t] Cons.IH[OF z(2)] Cons.prems(2,3) show ?case by auto
qed simp

text \<open>
  A responder that is stopped before its thread has begun is not stopped: the thread sets the
  flag again when it begins, and as long as requests are answered and it is not stopped once more
  it never ends, and stopping never returns.
\<close>

theorem responder_stop_overtaken:
  assumes "loop_run (responder_code sock cf process) es (new_loop x) = Some l" and "loop_at t l = Starting"
    and "lo_state l = (e, a, replies)" and "responder_begin sock cf e = (e', None)"
    and "\<forall>w b. \<exists>b' reply. process w b = (b', Some (Inr reply))"
    and "loop_run (responder_code sock cf process) (Begins t # fs) (loop_halt (responder_code sock cf process) l) = Some l'"
    and "list_all (harmless t) fs"
  shows "loop_at t l' \<noteq> Ended \<and> t \<in> set (lo_joining l') \<and> loop_step (responder_code sock cf process) (Joined t) l' = None"
proof -
  define c where "c = responder_code sock cf process"
  have ok: "lc_handle c m y = Some (z, False) \<Longrightarrow> False" for m y z
    using assms(5) by (auto simp: c_def responder_code_def split: prod.splits option.splits sum.splits) (metis Inl_Inr_False Pair_inject option.inject)
  have thread: "lo_thread l = Some t"
    using one_loop_run[OF assms(1) one_loop_new] assms(2) by (simp add: one_loop_def)
  have t: "t < length (lo_threads l)" using assms(2) by (auto simp: loop_at_def split: if_splits)
  have halted: "loop_halt c l = l\<lparr>lo_keep := False, lo_joining := t # lo_joining l\<rparr>"
    using assms(2) thread by (simp add: loop_halt_def loop_alive_def)
  have "lc_begin c (e, a, replies) = ((e', a, replies), None)" using assms(4) by (simp add: c_def responder_code_def)
  then have begun: "loop_step c (Begins t) (loop_halt c l) = Some (l\<lparr>lo_keep := True, lo_joining := t # lo_joining l, lo_state := (e', a, replies),
      lo_threads := (lo_threads l)[t := Checking]\<rparr>)" (is "_ = Some ?b")
    unfolding halted using assms(2,3) by (simp add: loop_begin_def)
  have "keeps_running t ?b" using thread t by (simp add: keeps_running_def loop_at_def)
  from assms(6) begun have "loop_run c fs ?b = Some l'" by (simp add: c_def)
  from keeps_running_run[OF ok this \<open>keeps_running t ?b\<close> assms(7)] show ?thesis
    by (auto simp: keeps_running_def loop_joined_def)
qed

subsection \<open>Instances\<close>

definition bound_endpoint :: endpoint where
  "bound_endpoint = \<lparr>e_role = HOST, bound_address = Some ''tcp://*:5555'', host_address = None, e_calls = []\<rparr>"

definition empty_config :: config where
  "empty_config = \<lparr>cf_settings = [], cf_channel = ''demo'', cf_provided = None, cf_repr = (\<lambda>v. [])\<rparr>"

definition free_socket :: socket where
  "free_socket sent made = None"

definition counting_handler :: "nat handler" where
  "counting_handler = \<lparr>h_key = 0, h_filter = Some ''a'', h_handle = (\<lambda>data n. (n + length data, Inr ()))\<rparr>"

definition counting_subscriber :: "nat subscriber" where
  "counting_subscriber = \<lparr>subscriptions = [counting_handler], filters = [''a'']\<rparr>"

theorem subscriber_stop_waits_witness:
  "\<exists>l. loop_run (subscriber_code free_socket empty_config) [Launch, LooksAtFlag 0] (new_loop (bound_endpoint, counting_subscriber, 0)) = Some l
    \<and> map_option (snd \<circ> snd \<circ> lo_state)
        (loop_run (subscriber_code free_socket empty_config) [Handles 0 [''a'', ''xyz''], LooksAtFlag 0, Joined 0]
          (loop_halt (subscriber_code free_socket empty_config) l)) = Some 3"
proof -
  let ?c = "subscriber_code free_socket empty_config"
  let ?x = "(bound_endpoint, counting_subscriber, 0::nat)"
  have started: "initialize free_socket empty_config bound_endpoint = (bound_endpoint, None)"
    by (simp add: initialize_def bind_def bound_endpoint_def is_set_def)
  let ?l = "\<lparr>lo_keep = True, lo_thread = Some 0, lo_threads = [Blocked], lo_joining = [], lo_state = ?x\<rparr>"
  have run: "loop_run ?c [Launch, LooksAtFlag 0] (new_loop ?x) = Some ?l"
    by (simp add: new_loop_def loop_launch_def loop_look_def loop_alive_def loop_at_def subscriber_code_def started)
  have "loop_run ?c [] (loop_halt ?c ?l) = Some (loop_halt ?c ?l)" by simp
  from subscriber_stop_waits[OF run _ _ _ this, of 0 bound_endpoint counting_subscriber 0 "[''a'', ''xyz'']"]
  have "map_option lo_state (loop_run ?c [Handles 0 [''a'', ''xyz''], LooksAtFlag 0, Joined 0] (loop_halt ?c ?l))
      = Some (fst (deinitialize free_socket bound_endpoint), counting_subscriber, fst (process_message counting_subscriber [''a'', ''xyz''] 0))"
    by (simp add: loop_at_def del: loop_run.simps)
  moreover have "fst (process_message counting_subscriber [''a'', ''xyz''] 0) = 3"
    by code_simp
  ultimately have "map_option (snd \<circ> snd \<circ> lo_state) (loop_run ?c [Handles 0 [''a'', ''xyz''], LooksAtFlag 0, Joined 0] (loop_halt ?c ?l)) = Some 3"
    by (cases "loop_run ?c [Handles 0 [''a'', ''xyz''], LooksAtFlag 0, Joined 0] (loop_halt ?c ?l)") (auto simp del: loop_run.simps)
  with run show ?thesis by blast
qed

theorem responder_stop_overtaken_witness:
  "\<exists>l l'. loop_run (responder_code free_socket empty_config (\<lambda>w a. (a, Some (Inr w)))) [Launch] (new_loop (bound_endpoint, (), [])) = Some l
    \<and> loop_run (responder_code free_socket empty_config (\<lambda>w a. (a, Some (Inr w)))) [Begins 0, LooksAtFlag 0, Handles 0 ''request'']
        (loop_halt (responder_code free_socket empty_config (\<lambda>w a. (a, Some (Inr w)))) l) = Some l'
    \<and> loop_at 0 l' \<noteq> Ended \<and> lo_joining l' = [0] \<and> lo_state l' = (bound_endpoint, (), [''request''])"
proof -
  let ?p = "\<lambda>(w::string) a. (a::unit, Some (Inr w))"
  let ?c = "responder_code free_socket empty_config ?p"
  have bound: "responder_bound free_socket empty_config bound_endpoint = (bound_endpoint, None)"
    by (simp add: responder_bound_def initialize_def bind_def bound_endpoint_def is_set_def)
  then have started: "responder_begin free_socket empty_config bound_endpoint = (bound_endpoint, None)" by (simp add: responder_begin_def)
  let ?l = "\<lparr>lo_keep = True, lo_thread = Some 0, lo_threads = [Starting], lo_joining = [], lo_state = (bound_endpoint, (), [])\<rparr>"
  have run: "loop_run ?c [Launch] (new_loop (bound_endpoint, (), [])) = Some ?l"
    by (simp add: new_loop_def loop_launch_def loop_alive_def responder_code_def bound)
  let ?l' = "\<lparr>lo_keep = True, lo_thread = Some 0, lo_threads = [Checking], lo_joining = [0], lo_state = (bound_endpoint, (), [''request''])\<rparr>"
  have halted: "loop_run ?c (Begins 0 # [LooksAtFlag 0, Handles 0 ''request'']) (loop_halt ?c ?l) = Some ?l'"
    by (simp add: loop_halt_def loop_alive_def loop_at_def loop_begin_def loop_look_def loop_handle_def responder_code_def started)
  have "loop_at 0 ?l' \<noteq> Ended"
    using responder_stop_overtaken[OF run _ _ started _ halted] by (simp add: loop_at_def del: loop_run.simps)
  with run halted show ?thesis by (intro exI[of _ ?l] exI[of _ ?l']) simp
qed

end
